(* ===== verification/Prelude.thy ===== *)
theory Prelude
  imports Main "HOL-Library.Sublist"
begin

text \<open>
  Shared by every theory of the development: the error type of the Go code, the collections of
  rules the proofs use (\<open>wp_rules\<close> for the effect monad, \<open>go_simps\<close> for
  the error values), type synonyms, and generic lemmas on lists and options.

  A Go \<open>error\<close> is a value of \<open>go_error\<close>: its kind is what the code can ask of it
  (\<open>apierrors.IsNotFound\<close>, \<open>apierrors.IsAlreadyExists\<close>, the write conflict that
  \<open>retry.RetryOnConflict\<close> retries on, \<open>apimeta.IsNoMatchError\<close>, the status and body of a
  Garage admin response) and its message is what \<open>err.Error()\<close> returns. Wrapping with
  \<open>fmt.Errorf("...: %w", err)\<close> keeps the kind, as the predicates unwrap.
\<close>

section \<open>Rule collections\<close>

named_theorems wp_rules \<open>introduction rules for weakest preconditions of effectful code\<close>
named_theorems go_simps \<open>simplification rules for error values and stdlib helpers\<close>

section \<open>Errors\<close>

datatype err_kind =
    NotFound
  | AlreadyExists
  | Conflict
  | NoMatch
  | ApiStatus int string
  | Plain

datatype go_error = GoErr (ekind: err_kind) (emsg: string)

abbreviation is_not_found :: "go_error \<Rightarrow> bool" where
  "is_not_found e \<equiv> ekind e = NotFound"

abbreviation is_already_exists :: "go_error \<Rightarrow> bool" where
  "is_already_exists e \<equiv> ekind e = AlreadyExists"

abbreviation is_no_match :: "go_error \<Rightarrow> bool" where
  "is_no_match e \<equiv> ekind e = NoMatch"

abbreviation is_conflict :: "go_error \<Rightarrow> bool" where
  "is_conflict e \<equiv> ekind e = Conflict"

definition wrap_err :: "string \<Rightarrow> go_error \<Rightarrow> go_error" where
  "wrap_err pre e = GoErr (ekind e) (pre @ emsg e)"

definition new_err :: "string \<Rightarrow> go_error" where
  "new_err m = GoErr Plain m"

lemma ekind_wrap_err [simp, go_simps]: "ekind (wrap_err p e) = ekind e"
  by (simp add: wrap_err_def)

lemma ekind_new_err [simp, go_simps]: "ekind (new_err m) = Plain"
  by (simp add: new_err_def)

type_synonym 'a result = "go_error + 'a"

section \<open>Generic lemmas\<close>

lemma filter_eq_self: "(\<And>x. x \<in> set xs \<Longrightarrow> P x) \<Longrightarrow> filter P xs = xs"
  by (induction xs) auto

lemma distinct_map_inj: "distinct (map f xs) \<Longrightarrow> x \<in> set xs \<Longrightarrow> y \<in> set xs \<Longrightarrow> f x = f y \<Longrightarrow> x = y"
  by (auto simp: distinct_map inj_on_def)

lemma append_eq_same_length:
  "length a = length c \<Longrightarrow> a @ b = c @ d \<longleftrightarrow> a = c \<and> b = d"
  by simp

lemma find_Some_iff_first:
  "find P xs = Some x \<Longrightarrow> x \<in> set xs \<and> P x"
  by (induction xs) (auto split: if_splits)

lemma find_None_iff_all: "find P xs = None \<longleftrightarrow> (\<forall>x \<in> set xs. \<not> P x)"
  by (induction xs) auto

end
