(* ===== verification/Go_Lib.thy ===== *)
theory Go_Lib
  imports Prelude "HOL-Library.Word"
begin

unbundle bit_operations_syntax

text \<open>
  The part of the Go standard library the code uses, as executable functions on byte strings
  (\<open>char list\<close>): signed 32/64-bit conversions, \<open>strconv.Itoa\<close>/\<open>Atoi\<close>, the
  \<open>%q\<close> verb, \<open>strings.ToLower\<close>, \<open>Trim\<close>, \<open>HasPrefix\<close>,
  \<open>LastIndex\<close>, \<open>Contains\<close>, \<open>TrimSpace\<close>, \<open>hex.EncodeToString\<close>
  and \<open>sha256.Sum256\<close>. Object names and labels are ASCII (the API server enforces it), so the
  rune loops of the source are loops over bytes here.
\<close>

section \<open>Fixed-width integers\<close>

text \<open>Go's conversions \<open>int32(n)\<close> and \<open>int64(n)\<close>: two's complement truncation.\<close>

definition to_int32 :: "int \<Rightarrow> int" where
  "to_int32 i = signed_take_bit 31 i"

definition to_int64 :: "int \<Rightarrow> int" where
  "to_int64 i = signed_take_bit 63 i"

definition max_int64 :: int where
  "max_int64 = 9223372036854775807"

lemma to_int32_id: "- (2 ^ 31) \<le> i \<Longrightarrow> i < 2 ^ 31 \<Longrightarrow> to_int32 i = i"
  unfolding to_int32_def by (rule signed_take_bit_int_eq_self) simp_all

lemma to_int64_id: "- (2 ^ 63) \<le> i \<Longrightarrow> i < 2 ^ 63 \<Longrightarrow> to_int64 i = i"
  unfolding to_int64_def by (rule signed_take_bit_int_eq_self) simp_all

lemma to_int32_bounds: "- (2 ^ 31) \<le> to_int32 i \<and> to_int32 i < 2 ^ 31"
  unfolding to_int32_def
  using signed_take_bit_int_greater_eq_minus_exp [of 31 i] signed_take_bit_int_less_exp [of 31 i]
  by auto

section \<open>Decimal numbers\<close>

definition digit_char :: "nat \<Rightarrow> char" where
  "digit_char d = char_of (48 + d)"

definition is_digit :: "char \<Rightarrow> bool" where
  "is_digit c \<longleftrightarrow> 48 \<le> (of_char c :: nat) \<and> (of_char c :: nat) \<le> 57"

definition digit_val :: "char \<Rightarrow> nat" where
  "digit_val c = of_char c - 48"

fun nat_str :: "nat \<Rightarrow> string" where
  "nat_str n = (if n < 10 then [digit_char n] else nat_str (n div 10) @ [digit_char (n mod 10)])"

declare nat_str.simps [simp del]

text \<open>\<open>strconv.Itoa\<close>, \<open>strconv.FormatInt(n, 10)\<close> and the \<open>%d\<close> verb.\<close>

definition itoa :: "int \<Rightarrow> string" where
  "itoa i = (if i < 0 then CHR ''-'' # nat_str (nat (- i)) else nat_str (nat i))"

definition digits_val :: "string \<Rightarrow> nat" where
  "digits_val s = foldl (\<lambda>a c. a * 10 + digit_val c) 0 s"

text \<open>\<open>strconv.Atoi\<close>: an optional sign, at least one digit, nothing else, within the
  range of a 64-bit \<open>int\<close>; anything else is an error (\<open>None\<close>).\<close>

definition atoi :: "string \<Rightarrow> int option" where
  "atoi s =
     (let (neg, ds) = (case s of [] \<Rightarrow> (False, [])
                       | c # cs \<Rightarrow> (if c = CHR ''-'' then (True, cs)
                                    else if c = CHR ''+'' then (False, cs) else (False, s)));
          v = int (digits_val ds); r = (if neg then - v else v)
      in if ds = [] \<or> \<not> list_all is_digit ds \<or> r > max_int64 \<or> r < - max_int64 - 1
         then None else Some r)"

lemma is_digit_digit_char [simp]: "d < 10 \<Longrightarrow> is_digit (digit_char d)"
  by (simp add: is_digit_def digit_char_def of_char_of)

lemma digit_val_digit_char [simp]: "d < 10 \<Longrightarrow> digit_val (digit_char d) = d"
  by (simp add: digit_val_def digit_char_def of_char_of)

lemma nat_str_nonempty [simp]: "nat_str n \<noteq> []"
  by (subst nat_str.simps) simp

lemma list_all_digit_nat_str [simp]: "list_all is_digit (nat_str n)"
proof (induction n rule: nat_str.induct)
  case (1 n)
  then show ?case by (subst nat_str.simps) auto
qed

lemma digits_val_snoc: "digits_val (s @ [c]) = digits_val s * 10 + digit_val c"
  by (simp add: digits_val_def)

lemma digits_val_nat_str [simp]: "digits_val (nat_str n) = n"
proof (induction n rule: nat_str.induct)
  case (1 n)
  show ?case
  proof (cases "n < 10")
    case True
    then show ?thesis by (subst nat_str.simps) (simp add: digits_val_def)
  next
    case False
    with 1 show ?thesis by (subst nat_str.simps) (simp add: digits_val_snoc)
  qed
qed

lemma nat_str_inject [simp]: "nat_str m = nat_str n \<longleftrightarrow> m = n"
  by (metis digits_val_nat_str)

lemma not_digit_minus [simp]: "\<not> is_digit CHR ''-''"
  by (simp add: is_digit_def)

lemma hd_nat_str_digit: "is_digit (hd (nat_str n))"
proof -
  have "list_all is_digit (nat_str n)" by simp
  then show ?thesis by (cases "nat_str n") auto
qed

lemma itoa_inject [simp]: "itoa i = itoa j \<longleftrightarrow> i = j"
proof -
  have ne: "CHR ''-'' # xs \<noteq> nat_str n" for xs n
    using hd_nat_str_digit [of n] not_digit_minus by (cases "nat_str n") auto
  show ?thesis
    using ne ne [symmetric] by (auto simp: itoa_def)
qed

lemma itoa_nonempty [simp]: "itoa i \<noteq> []"
  by (simp add: itoa_def)

lemma itoa_nonneg_digits: "0 \<le> i \<Longrightarrow> list_all is_digit (itoa i)"
  by (simp add: itoa_def)

lemma atoi_itoa:
  assumes "- max_int64 - 1 \<le> i" "i \<le> max_int64"
  shows "atoi (itoa i) = Some i"
proof (cases "i < 0")
  case True
  with assms show ?thesis by (simp add: atoi_def itoa_def Let_def)
next
  case False
  obtain c cs where s: "nat_str (nat i) = c # cs" by (cases "nat_str (nat i)") auto
  with hd_nat_str_digit [of "nat i"] have "is_digit c" by simp
  then have "c \<noteq> CHR ''-''" "c \<noteq> CHR ''+''" by (auto simp: is_digit_def)
  moreover have "digits_val (c # cs) = nat i" "list_all is_digit (c # cs)"
    using digits_val_nat_str [of "nat i"] list_all_digit_nat_str [of "nat i"] by (simp_all only: s)
  ultimately show ?thesis
    using False assms s by (simp add: atoi_def itoa_def Let_def)
qed

section \<open>Strings\<close>

text \<open>The \<open>%q\<close> verb (\<open>strconv.Quote\<close>) for ASCII text: printable characters as
  they are, quotes and backslashes escaped, control characters by their Go escapes.\<close>

definition hex_digit :: "nat \<Rightarrow> char" where
  "hex_digit n = (if n < 10 then char_of (48 + n) else char_of (87 + n))"

definition nl :: string where "nl = [CHR 0x0A]"

text \<open>\<open>hex.EncodeToString\<close>.\<close>

definition hex_encode :: "string \<Rightarrow> string" where
  "hex_encode bs = concat (map (\<lambda>b. [hex_digit (of_char b div 16), hex_digit (of_char b mod 16)]) bs)"

definition quote_char :: "char \<Rightarrow> string" where
  "quote_char c =
     (let n = (of_char c :: nat) in
      if n = 34 then [CHR 0x5C, CHR 0x22]
      else if n = 92 then [CHR 0x5C, CHR 0x5C]
      else if n = 7 then [CHR 0x5C, CHR ''a'']
      else if n = 8 then [CHR 0x5C, CHR ''b'']
      else if n = 12 then [CHR 0x5C, CHR ''f'']
      else if n = 10 then [CHR 0x5C, CHR ''n'']
      else if n = 13 then [CHR 0x5C, CHR ''r'']
      else if n = 9 then [CHR 0x5C, CHR ''t'']
      else if n = 11 then [CHR 0x5C, CHR ''v'']
      else if n < 32 \<or> n = 127 then [CHR 0x5C, CHR ''x'', hex_digit (n div 16), hex_digit (n mod 16)]
      else [c])"

definition quoted :: "string \<Rightarrow> string" where
  "quoted s = CHR 0x22 # concat (map quote_char s) @ [CHR 0x22]"

definition has_prefix :: "string \<Rightarrow> string \<Rightarrow> bool" where
  "has_prefix s p \<longleftrightarrow> take (length p) s = p"

definition has_suffix :: "string \<Rightarrow> string \<Rightarrow> bool" where
  "has_suffix s p \<longleftrightarrow> has_prefix (rev s) (rev p)"

fun contains_str :: "string \<Rightarrow> string \<Rightarrow> bool" where
  "contains_str s p = (has_prefix s p \<or> (case s of [] \<Rightarrow> False | _ # s' \<Rightarrow> contains_str s' p))"

declare contains_str.simps [simp del]

definition to_lower_char :: "char \<Rightarrow> char" where
  "to_lower_char c =
     (let n = (of_char c :: nat) in if 65 \<le> n \<and> n \<le> 90 then char_of (n + 32) else c)"

definition to_lower :: "string \<Rightarrow> string" where
  "to_lower s = map to_lower_char s"

text \<open>\<open>strings.Trim(s, c)\<close> for a one-character cutset.\<close>

definition trim_char :: "char \<Rightarrow> string \<Rightarrow> string" where
  "trim_char c s = rev (dropWhile (\<lambda>x. x = c) (rev (dropWhile (\<lambda>x. x = c) s)))"

definition is_space :: "char \<Rightarrow> bool" where
  "is_space c \<longleftrightarrow> (of_char c :: nat) \<in> {9, 10, 11, 12, 13, 32}"

definition trim_space :: "string \<Rightarrow> string" where
  "trim_space s = rev (dropWhile is_space (rev (dropWhile is_space s)))"

text \<open>\<open>strings.LastIndex(s, c)\<close>: the suffix after the last occurrence of a character, if
  it occurs.\<close>

definition after_last :: "char \<Rightarrow> string \<Rightarrow> string option" where
  "after_last c s = (if c \<in> set s then Some (rev (takeWhile (\<lambda>x. x \<noteq> c) (rev s))) else None)"

fun join_str :: "string \<Rightarrow> string list \<Rightarrow> string" where
  "join_str sep [] = []"
| "join_str sep [x] = x"
| "join_str sep (x # y # ys) = x @ sep @ join_str sep (y # ys)"

lemma has_prefix_iff: "has_prefix s p \<longleftrightarrow> prefix p s"
  by (auto simp: has_prefix_def prefix_def) (metis append_take_drop_id)

lemma has_prefix_append [simp]: "has_prefix (p @ s) p"
  by (simp add: has_prefix_def)

lemma after_last_append:
  "c \<notin> set t \<Longrightarrow> after_last c (s @ c # t) = Some t"
proof -
  assume "c \<notin> set t"
  then have "takeWhile (\<lambda>x. x \<noteq> c) (rev t) = rev t"
    by (intro takeWhile_eq_all_conv [THEN iffD2]) auto
  then show ?thesis by (simp add: after_last_def takeWhile_append)
qed

lemma set_trim_char: "set (trim_char c s) \<subseteq> set s"
  by (auto simp: trim_char_def dest!: set_dropWhileD)

lemma length_trim_char: "length (trim_char c s) \<le> length s"
  unfolding trim_char_def using length_dropWhile_le order_trans by (metis length_rev)

lemma last_dropWhile_keep:
  "dropWhile P s \<noteq> [] \<Longrightarrow> last (dropWhile P s) = last s"
  by (induction s) auto

lemma trim_char_hd_last:
  assumes "trim_char c s \<noteq> []"
  shows "hd (trim_char c s) \<noteq> c" and "last (trim_char c s) \<noteq> c"
proof -
  let ?a = "dropWhile (\<lambda>x. x = c) s"
  let ?b = "dropWhile (\<lambda>x. x = c) (rev ?a)"
  have b: "?b \<noteq> []" using assms by (simp add: trim_char_def)
  then have "hd ?b \<noteq> c" by (rule hd_dropWhile)
  then show "last (trim_char c s) \<noteq> c" by (simp add: trim_char_def last_rev b)
  have a: "?a \<noteq> []" using b by (cases ?a) (simp_all only: rev.simps dropWhile.simps, simp)
  have "hd (trim_char c s) = last ?b" by (simp add: trim_char_def hd_rev b)
  also have "\<dots> = last (rev ?a)" using b by (rule last_dropWhile_keep)
  also have "\<dots> = hd ?a" using a by (simp add: last_rev)
  finally have "hd (trim_char c s) = hd ?a" .
  with hd_dropWhile [OF a] show "hd (trim_char c s) \<noteq> c" by simp
qed

lemma trim_char_id: "s \<noteq> [] \<Longrightarrow> hd s \<noteq> c \<Longrightarrow> last s \<noteq> c \<Longrightarrow> trim_char c s = s"
proof -
  assume s: "s \<noteq> []" "hd s \<noteq> c" "last s \<noteq> c"
  have 1: "dropWhile (\<lambda>x. x = c) s = s" using s by (cases s) auto
  have "hd (rev s) \<noteq> c" "rev s \<noteq> []" using s by (simp_all add: hd_rev)
  then have 2: "dropWhile (\<lambda>x. x = c) (rev s) = rev s" by (cases "rev s") simp_all
  show ?thesis by (simp add: trim_char_def 1 2)
qed

section \<open>Hexadecimal and SHA-256\<close>

text \<open>\<open>hex.EncodeToString\<close> of a big-endian 32-bit word: eight lower-case digits.\<close>

definition hex_word :: "32 word \<Rightarrow> string" where
  "hex_word w = map (\<lambda>i. hex_digit (unat (drop_bit (28 - 4 * i) w AND 15))) [0..<8]"

text \<open>The round constants in decimal.\<close>

definition sha_k :: "32 word list" where
  "sha_k =
    [1116352408, 1899447441, 3049323471, 3921009573, 961987163, 1508970993, 2453635748,
     2870763221, 3624381080, 310598401, 607225278, 1426881987, 1925078388, 2162078206,
     2614888103, 3248222580, 3835390401, 4022224774, 264347078, 604807628, 770255983,
     1249150122, 1555081692, 1996064986, 2554220882, 2821834349, 2952996808, 3210313671,
     3336571891, 3584528711, 113926993, 338241895, 666307205, 773529912, 1294757372,
     1396182291, 1695183700, 1986661051, 2177026350, 2456956037, 2730485921, 2820302411,
     3259730800, 3345764771, 3516065817, 3600352804, 4094571909, 275423344, 430227734,
     506948616, 659060556, 883997877, 958139571, 1322822218, 1537002063, 1747873779,
     1955562222, 2024104815, 2227730452, 2361852424, 2428436474, 2756734187, 3204031479,
     3329325298]"

type_synonym sha_state = "32 word list"

definition sha_init :: sha_state where
  "sha_init = [1779033703, 3144134277, 1013904242, 2773480762, 1359893119, 2600822924, 528734635, 1541459225]"

definition rotr32 :: "nat \<Rightarrow> 32 word \<Rightarrow> 32 word" where
  "rotr32 n w = drop_bit n w OR push_bit (32 - n) w"

text \<open>The padded message: the bytes, \<open>0x80\<close>, zeros up to 56 modulo 64, the bit length in
  eight bytes.\<close>

definition sha_pad :: "string \<Rightarrow> int list" where
  "sha_pad s =
     (let n = length s in
      map of_char s @ [128] @ replicate ((119 - n mod 64) mod 64) 0
        @ map (\<lambda>i. (int n * 8) div 256 ^ (7 - i) mod 256) [0..<8])"

fun be_words :: "int list \<Rightarrow> 32 word list" where
  "be_words (a # b # c # d # r) = word_of_int (((a * 256 + b) * 256 + c) * 256 + d) # be_words r"
| "be_words _ = []"

text \<open>The message schedule, kept newest first while it grows.\<close>

primrec sha_expand :: "nat \<Rightarrow> 32 word list \<Rightarrow> 32 word list" where
  "sha_expand 0 ws = ws"
| "sha_expand (Suc k) ws =
     (let w15 = ws ! 14; w2 = ws ! 1;
          s0 = rotr32 7 w15 XOR rotr32 18 w15 XOR drop_bit 3 w15;
          s1 = rotr32 17 w2 XOR rotr32 19 w2 XOR drop_bit 10 w2
      in sha_expand k ((ws ! 15 + s0 + ws ! 6 + s1) # ws))"

fun sha_round :: "sha_state \<Rightarrow> 32 word \<times> 32 word \<Rightarrow> sha_state" where
  "sha_round [a, b, c, d, e, f, g, h] (k, w) =
     (let s1 = rotr32 6 e XOR rotr32 11 e XOR rotr32 25 e;
          ch = (e AND f) XOR (NOT e AND g);
          t1 = h + s1 + ch + k + w;
          s0 = rotr32 2 a XOR rotr32 13 a XOR rotr32 22 a;
          maj = (a AND b) XOR (a AND c) XOR (b AND c)
      in [t1 + s0 + maj, a, b, c, d + t1, e, f, g])"
| "sha_round st _ = st"

definition sha_block :: "sha_state \<Rightarrow> 32 word list \<Rightarrow> sha_state" where
  "sha_block st ws =
     map2 (+) st (foldl sha_round st (zip sha_k (rev (sha_expand 48 (rev ws)))))"

primrec sha_blocks :: "nat \<Rightarrow> 32 word list \<Rightarrow> sha_state \<Rightarrow> sha_state" where
  "sha_blocks 0 ws st = st"
| "sha_blocks (Suc n) ws st = sha_blocks n (drop 16 ws) (sha_block st (take 16 ws))"

definition sha256 :: "string \<Rightarrow> 32 word list" where
  "sha256 s = (let ws = be_words (sha_pad s) in sha_blocks (length ws div 16) ws sha_init)"

text \<open>\<open>hex.EncodeToString(sha256.Sum256(s)[:])\<close>: 64 characters; its first \<open>2 * n\<close>
  are the encoding of the first \<open>n\<close> bytes.\<close>

definition sha256_hex :: "string \<Rightarrow> string" where
  "sha256_hex s = concat (map hex_word (sha256 s))"

definition is_hex :: "char \<Rightarrow> bool" where
  "is_hex c \<longleftrightarrow> (let n = (of_char c :: nat) in (48 \<le> n \<and> n \<le> 57) \<or> (97 \<le> n \<and> n \<le> 102))"

lemma is_hex_hex_digit [simp]: "n < 16 \<Longrightarrow> is_hex (hex_digit n)"
  by (auto simp: is_hex_def hex_digit_def of_char_of)

lemma nibble_less: "unat (w AND (15 :: 32 word)) < 16"
proof -
  have "w AND 15 \<le> (15 :: 32 word)" by (rule word_and_le1)
  then have "unat (w AND 15) \<le> unat (15 :: 32 word)" by (simp add: word_le_nat_alt)
  then show ?thesis by simp
qed

lemma hex_word_hex: "list_all is_hex (hex_word w)"
  by (auto simp: hex_word_def list_all_iff nibble_less)

lemma length_hex_word [simp]: "length (hex_word w) = 8"
  by (simp add: hex_word_def)

lemma length_sha_round: "length (sha_round st x) = length st"
  by (cases "(st, x)" rule: sha_round.cases) (simp_all add: Let_def)

lemma length_foldl_sha_round: "length (foldl sha_round st xs) = length st"
  by (induction xs arbitrary: st) (simp_all add: length_sha_round)

lemma length_sha_blocks: "length (sha_blocks n ws st) = length st"
  by (induction n arbitrary: ws st) (simp_all add: sha_block_def length_foldl_sha_round)

lemma length_sha256 [simp]: "length (sha256 s) = 8"
  by (simp add: sha256_def Let_def length_sha_blocks sha_init_def)

lemma length_sha256_hex [simp]: "length (sha256_hex s) = 64"
proof -
  have "sum_list (map length (map hex_word ws)) = 8 * length ws" for ws
    by (induction ws) simp_all
  then show ?thesis by (simp add: sha256_hex_def length_concat)
qed

lemma sha256_hex_hex: "c \<in> set (sha256_hex s) \<Longrightarrow> is_hex c"
  using hex_word_hex by (auto simp: sha256_hex_def list_all_iff)

end
