(* ===== verification/Api_Types.thy ===== *)
theory Api_Types
  imports Go_Lib
begin

text \<open>
  The custom resources of \<open>api/v1alpha1\<close>: \<open>ObjectStore\<close>, \<open>Bucket\<close>,
  \<open>BucketClaim\<close>, \<open>BucketAccess\<close> and \<open>BucketClaimPolicy\<close>, each a record of
  metadata, spec and an optional status, and the core objects the controller reads and writes
  (Secrets, ConfigMaps, volumes, pods, nodes, StatefulSets).

  A Go string type with an enumeration of constants is a datatype with those constants and one
  constructor for any other string (the unset value \<open>""\<close> included), so a \<open>default:\<close>
  branch of the code stays reachable. A pointer field is an \<open>option\<close>, a string map a partial
  function; reading a missing key gives \<open>""\<close> as in Go (\<open>map_str\<close>).
\<close>

text \<open>\<open>resource.ParseQuantity\<close> is a parameter wherever it is used: the value of a quantity, or the error.\<close>

type_synonym quantities = "string \<Rightarrow> int result"

section \<open>Metadata and conditions\<close>

type_synonym str_map = "string \<rightharpoonup> string"

definition map_str :: "str_map \<Rightarrow> string \<Rightarrow> string" where
  "map_str m k = (case m k of None \<Rightarrow> [] | Some v \<Rightarrow> v)"

record object_meta =
  m_name :: string
  m_namespace :: string
  m_labels :: str_map
  m_annotations :: str_map
  m_finalizers :: "string list"
  m_deleting :: bool
  m_generation :: int
  m_owner :: "string option"

datatype condition_status = ConditionTrue | ConditionFalse | ConditionUnknown

record condition =
  c_type :: string
  c_status :: condition_status
  c_reason :: string
  c_message :: string
  c_observed_generation :: int
  c_last_transition :: int

datatype phase = PhaseUnset | PhasePending | PhaseInProgress | PhaseReady | PhaseError

section \<open>ObjectStore\<close>

datatype cluster_type =
    ClusterTypeSystem
  | ClusterTypeLightweight
  | ClusterTypeFull
  | ClusterTypeHeavy
  | ClusterTypeOther string

fun cluster_type_str :: "cluster_type \<Rightarrow> string" where
  "cluster_type_str ClusterTypeSystem = ''System''"
| "cluster_type_str ClusterTypeLightweight = ''Lightweight''"
| "cluster_type_str ClusterTypeFull = ''Full''"
| "cluster_type_str ClusterTypeHeavy = ''Heavy''"
| "cluster_type_str (ClusterTypeOther s) = s"

datatype redundancy_mode =
    RedundancyNone
  | RedundancyStandard
  | RedundancyHigh
  | RedundancyOther string

datatype cluster_reclaim_policy = ClusterReclaimRetain | ClusterReclaimDelete | ClusterReclaimOther string

record object_store_storage_spec =
  sto_size_per_node :: string
  sto_nodes :: "int option"
  sto_class :: string

record toleration =
  tol_key :: string
  tol_operator :: string
  tol_effect :: string

record object_store_placement_spec =
  pl_node_selector :: str_map
  pl_tolerations :: "toleration list"

record object_store_spec =
  os_type :: cluster_type
  os_storage :: "object_store_storage_spec option"
  os_placement :: "object_store_placement_spec option"
  os_redundancy :: redundancy_mode
  os_reclaim_policy :: cluster_reclaim_policy
  os_elastic_cluster_ref :: string

datatype backend_type = BackendGarage | BackendSeaweedFS | BackendCephRGW | BackendOther string

fun backend_type_str :: "backend_type \<Rightarrow> string" where
  "backend_type_str BackendGarage = ''Garage''"
| "backend_type_str BackendSeaweedFS = ''SeaweedFS''"
| "backend_type_str BackendCephRGW = ''CephRGW''"
| "backend_type_str (BackendOther s) = s"

record backend_status =
  be_type :: backend_type
  be_version :: string

record endpoint_status =
  ep_internal :: string
  ep_region :: string

record object_store_status =
  oss_observed_generation :: int
  oss_phase :: phase
  oss_backend :: "backend_status option"
  oss_endpoint :: "endpoint_status option"
  oss_capacity :: "int option"
  oss_admin_secret_ref :: "string option"
  oss_conditions :: "condition list"

record object_store =
  os_meta :: object_meta
  os_spec :: object_store_spec
  os_status :: "object_store_status option"

definition ObjectStoreConditionBackendReady :: string where
  "ObjectStoreConditionBackendReady = ''BackendReady''"

definition ObjectStoreConditionEndpointReady :: string where
  "ObjectStoreConditionEndpointReady = ''EndpointReady''"

definition ObjectStoreConditionReady :: string where
  "ObjectStoreConditionReady = ''Ready''"

section \<open>Bucket\<close>

datatype access_policy = AccessPolicyPrivate | AccessPolicyPublicRead | AccessPolicyOther string

datatype bucket_reclaim_policy = BucketReclaimRetain | BucketReclaimDelete | BucketReclaimOther string

record bucket_quota =
  q_max_size :: string
  q_max_objects :: int

record bucket_spec =
  b_object_store_ref :: string
  b_bucket_name :: string
  b_access_policy :: access_policy
  b_reclaim_policy :: bucket_reclaim_policy
  b_quota :: "bucket_quota option"

record bucket_status =
  bs_observed_generation :: int
  bs_phase :: phase
  bs_endpoint :: string
  bs_bucket_name :: string
  bs_conditions :: "condition list"

record bucket =
  b_meta :: object_meta
  b_spec :: bucket_spec
  b_status :: "bucket_status option"

definition BucketConditionBucketReady :: string where
  "BucketConditionBucketReady = ''BucketReady''"

definition BucketConditionReady :: string where
  "BucketConditionReady = ''Ready''"

definition BucketConditionFeaturesApplied :: string where
  "BucketConditionFeaturesApplied = ''FeaturesApplied''"

definition LabelBucketOrigin :: string where
  "LabelBucketOrigin = ''storage.deckhouse.io/bucket-origin''"

definition LabelOwnedByClaimNamespace :: string where
  "LabelOwnedByClaimNamespace = ''storage.deckhouse.io/owned-by-claim-namespace''"

definition LabelOwnedByClaimName :: string where
  "LabelOwnedByClaimName = ''storage.deckhouse.io/owned-by-claim-name''"

definition BucketOriginBucketClaim :: string where
  "BucketOriginBucketClaim = ''BucketClaim''"

definition ReservedBucketNamePrefix :: string where
  "ReservedBucketNamePrefix = ''claim-''"

section \<open>BucketClaim\<close>

record bucket_claim_spec =
  bc_object_store_ref :: string
  bc_existing_bucket_name :: string
  bc_access_policy :: access_policy
  bc_reclaim_policy :: bucket_reclaim_policy
  bc_quota :: "bucket_quota option"

record bucket_claim_status =
  bcs_observed_generation :: int
  bcs_phase :: phase
  bcs_bound_bucket_name :: string
  bcs_endpoint :: string
  bcs_conditions :: "condition list"

record bucket_claim =
  bc_meta :: object_meta
  bc_spec :: bucket_claim_spec
  bc_status :: "bucket_claim_status option"

definition BucketClaimConditionBound :: string where
  "BucketClaimConditionBound = ''Bound''"

definition BucketClaimConditionBucketReady :: string where
  "BucketClaimConditionBucketReady = ''BucketReady''"

definition BucketClaimConditionReady :: string where
  "BucketClaimConditionReady = ''Ready''"

section \<open>BucketAccess\<close>

datatype access_permission = AccessReadWrite | AccessReadOnly | AccessPermissionOther string

record bucket_access_spec =
  ba_bucket_claim_name :: string
  ba_permission :: access_permission
  ba_credentials_secret_name :: string

record bucket_access_status =
  bas_observed_generation :: int
  bas_phase :: phase
  bas_endpoint :: string
  bas_bucket_name :: string
  bas_access_key_id :: string
  bas_secret_ref :: "string option"
  bas_observed_rotation :: string
  bas_last_rotation_time :: "int option"
  bas_conditions :: "condition list"

record bucket_access =
  ba_meta :: object_meta
  ba_spec :: bucket_access_spec
  ba_status :: "bucket_access_status option"

definition BucketAccessConditionAccessGranted :: string where
  "BucketAccessConditionAccessGranted = ''AccessGranted''"

definition BucketAccessConditionCredentialsReady :: string where
  "BucketAccessConditionCredentialsReady = ''CredentialsReady''"

definition BucketAccessConditionReady :: string where
  "BucketAccessConditionReady = ''Ready''"

definition RotateAnnotation :: string where
  "RotateAnnotation = ''storage.deckhouse.io/rotate''"

definition SecretKeyS3Endpoint :: string where
  "SecretKeyS3Endpoint = ''S3_ENDPOINT''"

definition SecretKeyS3Region :: string where
  "SecretKeyS3Region = ''S3_REGION''"

definition SecretKeyS3Bucket :: string where
  "SecretKeyS3Bucket = ''S3_BUCKET''"

definition SecretKeyAccessKeyID :: string where
  "SecretKeyAccessKeyID = ''AWS_ACCESS_KEY_ID''"

definition SecretKeySecretAccessID :: string where
  "SecretKeySecretAccessID = ''AWS_SECRET_ACCESS_KEY''"

section \<open>BucketClaimPolicy\<close>

record namespace_match =
  nm_names :: "string list"
  nm_patterns :: "string list"

record bucket_claim_policy_spec =
  bp_bucket_ref :: string
  bp_allowed_namespaces :: namespace_match

record bucket_claim_policy_status =
  bps_observed_generation :: int
  bps_phase :: phase
  bps_conditions :: "condition list"

record bucket_claim_policy =
  bp_meta :: object_meta
  bp_spec :: bucket_claim_policy_spec
  bp_status :: "bucket_claim_policy_status option"

definition BucketClaimPolicyConditionReady :: string where
  "BucketClaimPolicyConditionReady = ''Ready''"

lemmas condition_type_defs =
  ObjectStoreConditionBackendReady_def ObjectStoreConditionEndpointReady_def ObjectStoreConditionReady_def
  BucketConditionBucketReady_def BucketConditionReady_def BucketConditionFeaturesApplied_def
  BucketClaimConditionBound_def BucketClaimConditionBucketReady_def BucketClaimConditionReady_def
  BucketAccessConditionAccessGranted_def BucketAccessConditionCredentialsReady_def
  BucketAccessConditionReady_def BucketClaimPolicyConditionReady_def

section \<open>Core objects\<close>

text \<open>The fields of the Kubernetes core types the controller reads or writes. The kinds come
  from \<open>k8s.io/api\<close>; only their shape is used.\<close>

record secret =
  sec_meta :: object_meta
  sec_data :: str_map
  sec_string_data :: str_map

record config_map =
  cm_meta :: object_meta
  cm_data :: str_map

record service_account =
  sa_meta :: object_meta
  sa_automount :: "bool option"

record service =
  svc_meta :: object_meta
  svc_cluster_ip :: string
  svc_publish_not_ready :: bool
  svc_selector :: str_map
  svc_ports :: "(string \<times> int \<times> int) list"

datatype env_source = EnvValue string | EnvSecret string string | EnvField string

record container =
  ct_name :: string
  ct_image :: string
  ct_command :: "string list"
  ct_args :: "string list"
  ct_env :: "(string \<times> env_source) list"
  ct_ports :: "(string \<times> int) list"
  ct_mounts :: "(string \<times> string \<times> bool) list"
  ct_probe :: "(int \<times> int \<times> int) option"
  ct_requests :: "(string \<times> string) list"
  ct_user :: "(int \<times> int) option"

datatype volume_source = VolConfigMap string | VolSecret string bool

text \<open>The anti-affinity is the preferred one: weight, label selector, topology key.\<close>

record pod_spec =
  ps_service_account :: string
  ps_pull_secrets :: "string list"
  ps_user :: "(int \<times> int \<times> int) option"
  ps_init :: "container list"
  ps_containers :: "container list"
  ps_volumes :: "(string \<times> volume_source) list"
  ps_node_selector :: str_map
  ps_tolerations :: "toleration list"
  ps_anti_affinity :: "(int \<times> str_map \<times> string) option"

record claim_template =
  vct_name :: string
  vct_labels :: str_map
  vct_access_modes :: "string list"
  vct_class :: string
  vct_size :: int

record stateful_set =
  ss_meta :: object_meta
  ss_service_name :: string
  ss_replicas :: "int option"
  ss_parallel :: bool
  ss_selector :: str_map
  ss_template_labels :: str_map
  ss_template_annotations :: str_map
  ss_pod :: pod_spec
  ss_claims :: "claim_template list"
  ss_ready_replicas :: int

record pvc =
  pvc_meta :: object_meta
  pvc_volume_name :: string

datatype volume_phase = VolumeUnset | VolumePending | VolumeAvailable | VolumeBound | VolumeReleased | VolumeFailed

text \<open>A node-sticky volume: \<open>pv_affinity\<close> is the key, operator and values of its required node
  affinity.\<close>

record persistent_volume =
  pv_meta :: object_meta
  pv_phase :: volume_phase
  pv_capacity :: int
  pv_access_modes :: "string list"
  pv_reclaim :: string
  pv_class :: string
  pv_host_path :: "string \<times> string"
  pv_affinity :: "string \<times> string \<times> string list"

record pod =
  pod_meta :: object_meta
  pod_running :: bool
  pod_ip :: string

record node =
  node_meta :: object_meta

text \<open>JSON values (a number that is not an integer keeps its literal), and the custom resources of other modules that the controller handles as
  unstructured objects.\<close>

datatype json =
    JNull
  | JBool bool
  | JNum int
  | JFloat string
  | JStr string
  | JArr "json list"
  | JObj "(string \<times> json) list"

record unstructured =
  un_meta :: object_meta
  un_spec :: json
  un_status :: json

text \<open>The metadata of an object built by the controller.\<close>

definition fresh_meta :: "string \<Rightarrow> string \<Rightarrow> str_map \<Rightarrow> object_meta" where
  "fresh_meta n ns labels =
     \<lparr>m_name = n, m_namespace = ns, m_labels = labels, m_annotations = Map.empty,
      m_finalizers = [], m_deleting = False, m_generation = 0, m_owner = None\<rparr>"

end
