(* ===== verification/Effects.thy ===== *)
theory Effects
  imports Api_Types "HOL-Library.State_Monad"
begin

text \<open>
  The effects of the controller. Everything outside the repository that it talks to (the
  Kubernetes API server behind the cached client and behind the uncached \<open>APIReader\<close>, the
  Garage admin API, Rook, the S3 endpoints, the clock, \<open>retry.RetryOnConflict\<close>, the condition helpers of
  \<open>apimeta\<close>) is a parameter: a record of functions over an opaque world \<open>'w\<close>. Each call
  is a step of the world, so answers may differ from one call to the next (other writers, cache
  lag, outages); nothing is assumed of them unless a theorem says so.

  A computation \<open>('w, 'a) go\<close> is a state monad over the world and the trace of the calls made
  so far with their answers. Safety properties are statements about traces, for every environment;
  \<open>wp m Q s\<close> (the result and final state of \<open>m\<close> from \<open>s\<close> satisfy \<open>Q\<close>) and the rules
  collected in \<open>wp_rules\<close> reduce them to the branches of the code.
\<close>

section \<open>Driver states\<close>

record cluster_state =
  cs_ready :: bool
  cs_message :: string
  cs_backend :: backend_status
  cs_endpoint :: endpoint_status
  cs_capacity :: "int option"
  cs_admin_secret_name :: string

record bucket_state =
  bst_ready :: bool
  bst_message :: string
  bst_bucket_name :: string
  bst_unsupported :: "string list"

record access_state =
  as_ready :: bool
  as_message :: string
  as_access_key_id :: string
  as_secret_access_key :: string

definition empty_cluster_state :: cluster_state where
  "empty_cluster_state = \<lparr>cs_ready = False, cs_message = [],
     cs_backend = \<lparr>be_type = BackendOther [], be_version = []\<rparr>,
     cs_endpoint = \<lparr>ep_internal = [], ep_region = []\<rparr>,
     cs_capacity = None, cs_admin_secret_name = []\<rparr>"

definition empty_bucket_state :: bucket_state where
  "empty_bucket_state = \<lparr>bst_ready = False, bst_message = [], bst_bucket_name = [], bst_unsupported = []\<rparr>"

definition empty_access_state :: access_state where
  "empty_access_state = \<lparr>as_ready = False, as_message = [], as_access_key_id = [], as_secret_access_key = []\<rparr>"

section \<open>Calls and traces\<close>

datatype reader = Cached | Uncached

datatype obj =
    OStore object_store
  | OBucket bucket
  | OClaim bucket_claim
  | OAccess bucket_access
  | OPolicy bucket_claim_policy
  | OSecret secret
  | OConfigMap config_map
  | OStatefulSet stateful_set
  | OPvc pvc
  | OPv persistent_volume
  | OPod pod
  | ONode node
  | OService service
  | OServiceAccount service_account
  | OUnstructured unstructured

datatype kind =
    KStore | KBucket | KClaim | KAccess | KPolicy | KSecret | KConfigMap | KStatefulSet
  | KPvc | KPv | KPod | KNode | KService | KServiceAccount
  | KUnstructured string

type_synonym key = "string \<times> string"

record list_opts =
  lo_namespace :: "string option"
  lo_match :: "(string \<times> string) list"
  lo_has :: "string list"

definition list_all_opts :: list_opts where
  "list_all_opts = \<lparr>lo_namespace = None, lo_match = [], lo_has = []\<rparr>"

definition in_namespace :: "string \<Rightarrow> list_opts" where
  "in_namespace ns = \<lparr>lo_namespace = Some ns, lo_match = [], lo_has = []\<rparr>"

text \<open>What a driver of the registry was asked to do, with its answer.\<close>

datatype driver_call =
    DrvEnsureCluster object_store "cluster_state \<times> go_error option"
  | DrvDeleteCluster object_store "go_error option"
  | DrvEnsureBucket object_store bucket "bucket_state \<times> go_error option"
  | DrvDeleteBucket object_store bucket "go_error option"
  | DrvEnsureAccess object_store bucket bucket_access bool "access_state \<times> go_error option"
  | DrvDeleteAccess object_store bucket bucket_access "go_error option"

text \<open>The calls of the Garage admin API (\<open>admin.go\<close>): what is sent, method, path and body, as one
  constructor per call. A staged role is one of the two forms of \<open>UpdateClusterLayout\<close>.\<close>

datatype staged_role = RemoveRole string | AssignRole string string "int option" "string list"

datatype admin_req =
    GetNodeInfoSelf
  | GetClusterHealth
  | ConnectClusterNodes "string list"
  | GetClusterLayout
  | UpdateClusterLayout "staged_role list"
  | ApplyClusterLayout int
  | CreateKey string
  | GetKeyInfo string
  | DeleteKey string
  | GetBucketInfo string
  | CreateBucket string
  | DeleteBucketReq string
  | AllowBucketKey string string "bool \<times> bool \<times> bool"
  | UpdateBucket string "int option \<times> int option"

text \<open>The S3 operations used of the minio client. \<open>RemoveObjects\<close> is the listing piped into the removal:
  its answer is the stream of per-object errors.\<close>

datatype s3_req =
    BucketExists string
  | MakeBucket string string
  | RemoveObjects string
  | RemoveBucket string
  | GetBucketPolicy string
  | SetBucketPolicy string string

datatype s3_resp =
    S3Bool "bool result"
  | S3Done "go_error option"
  | S3Stream "go_error option list"
  | S3Text "string result"

datatype event =
    EvGet reader kind key "obj result"
  | EvList reader kind list_opts "obj list result"
  | EvCreate kind obj "go_error option"
  | EvUpdate kind obj "go_error option"
  | EvUpdateStatus kind obj "go_error option"
  | EvDelete kind key "go_error option"
  | EvPatch kind key "string list" "go_error option"
  | EvCreateOrUpdate kind key obj "obj result"
  | EvDriver driver_call
  | EvAdmin string admin_req "(int \<times> string) result"
  | EvS3 string s3_req s3_resp
  | EvExec string "string list" "string result"
  | EvFiler string string string "string result"

type_synonym 'w run = "'w \<times> event list"
type_synonym ('w, 'a) go = "('w run, 'a) state"

abbreviation return :: "'a \<Rightarrow> ('w, 'a) go" where
  "return \<equiv> State_Monad.return"

definition call :: "('r \<Rightarrow> event) \<Rightarrow> ('w \<Rightarrow> 'r \<times> 'w) \<Rightarrow> ('w, 'r) go" where
  "call ev f = State (\<lambda>(w, t). let (r, w') = f w in (r, (w', t @ [ev r])))"

text \<open>A sample of the environment that leaves no event (the clock, random bytes).\<close>

definition sample :: "('w \<Rightarrow> 'r \<times> 'w) \<Rightarrow> ('w, 'r) go" where
  "sample f = State (\<lambda>(w, t). let (r, w') = f w in (r, (w', t)))"

text \<open>A loop over a slice that returns at the first error.\<close>

primrec for_each :: "('a \<Rightarrow> ('w, go_error option) go) \<Rightarrow> 'a list \<Rightarrow> ('w, go_error option) go" where
  "for_each f [] = return None"
| "for_each f (x # xs) =
     do { r \<leftarrow> f x; case r of None \<Rightarrow> for_each f xs | Some e \<Rightarrow> return (Some e) }"

section \<open>The Kubernetes client\<close>

record ('o, 'w) resource =
  r_get :: "reader \<Rightarrow> key \<Rightarrow> 'w \<Rightarrow> 'o result \<times> 'w"
  r_list :: "reader \<Rightarrow> list_opts \<Rightarrow> 'w \<Rightarrow> 'o list result \<times> 'w"
  r_create :: "'o \<Rightarrow> 'w \<Rightarrow> go_error option \<times> 'w"
  r_update :: "'o \<Rightarrow> 'w \<Rightarrow> go_error option \<times> 'w"
  r_update_status :: "'o \<Rightarrow> 'w \<Rightarrow> go_error option \<times> 'w"
  r_delete :: "key \<Rightarrow> 'w \<Rightarrow> go_error option \<times> 'w"
  r_create_or_update :: "'o \<Rightarrow> ('o \<Rightarrow> 'o result) \<Rightarrow> 'w \<Rightarrow> 'o result \<times> 'w"

record 'w kube =
  k_stores :: "(object_store, 'w) resource"
  k_buckets :: "(bucket, 'w) resource"
  k_claims :: "(bucket_claim, 'w) resource"
  k_accesses :: "(bucket_access, 'w) resource"
  k_policies :: "(bucket_claim_policy, 'w) resource"
  k_secrets :: "(secret, 'w) resource"
  k_config_maps :: "(config_map, 'w) resource"
  k_stateful_sets :: "(stateful_set, 'w) resource"
  k_pvcs :: "(pvc, 'w) resource"
  k_pvs :: "(persistent_volume, 'w) resource"
  k_pods :: "(pod, 'w) resource"
  k_nodes :: "(node, 'w) resource"
  k_services :: "(service, 'w) resource"
  k_service_accounts :: "(service_account, 'w) resource"
  k_unstructured :: "string \<Rightarrow> (unstructured, 'w) resource"
  k_now :: "'w \<Rightarrow> int \<times> 'w"
  k_retry :: "('w run, go_error option) state \<Rightarrow> ('w run, go_error option) state"
  k_set_condition :: "condition list \<Rightarrow> condition \<Rightarrow> condition list"
  k_find_condition :: "condition list \<Rightarrow> string \<Rightarrow> condition option"

definition kget :: "reader \<Rightarrow> kind \<Rightarrow> ('o \<Rightarrow> obj) \<Rightarrow> ('o, 'w) resource \<Rightarrow> key \<Rightarrow> ('w, 'o result) go" where
  "kget rd k mk res ky = call (\<lambda>r. EvGet rd k ky (map_sum id mk r)) (r_get res rd ky)"

definition klist :: "reader \<Rightarrow> kind \<Rightarrow> ('o \<Rightarrow> obj) \<Rightarrow> ('o, 'w) resource \<Rightarrow> list_opts \<Rightarrow> ('w, 'o list result) go" where
  "klist rd k mk res opts = call (\<lambda>r. EvList rd k opts (map_sum id (map mk) r)) (r_list res rd opts)"

definition kcreate :: "kind \<Rightarrow> ('o \<Rightarrow> obj) \<Rightarrow> ('o, 'w) resource \<Rightarrow> 'o \<Rightarrow> ('w, go_error option) go" where
  "kcreate k mk res x = call (EvCreate k (mk x)) (r_create res x)"

definition kupdate :: "kind \<Rightarrow> ('o \<Rightarrow> obj) \<Rightarrow> ('o, 'w) resource \<Rightarrow> 'o \<Rightarrow> ('w, go_error option) go" where
  "kupdate k mk res x = call (EvUpdate k (mk x)) (r_update res x)"

definition kupdate_status :: "kind \<Rightarrow> ('o \<Rightarrow> obj) \<Rightarrow> ('o, 'w) resource \<Rightarrow> 'o \<Rightarrow> ('w, go_error option) go" where
  "kupdate_status k mk res x = call (EvUpdateStatus k (mk x)) (r_update_status res x)"

definition kdelete :: "kind \<Rightarrow> ('o, 'w) resource \<Rightarrow> key \<Rightarrow> ('w, go_error option) go" where
  "kdelete k res ky = call (EvDelete k ky) (r_delete res ky)"

text \<open>\<open>controllerutil.CreateOrUpdate(ctx, c, obj, mutate)\<close>: the event has the object as handed over and the
  object as it is afterwards.\<close>

definition kcreate_or_update ::
  "kind \<Rightarrow> ('o \<Rightarrow> obj) \<Rightarrow> ('o, 'w) resource \<Rightarrow> key \<Rightarrow> 'o \<Rightarrow> ('o \<Rightarrow> 'o result) \<Rightarrow> ('w, 'o result) go" where
  "kcreate_or_update k mk res ky x f =
     call (\<lambda>r. EvCreateOrUpdate k ky (mk x) (map_sum id mk r)) (r_create_or_update res x f)"

lemmas kube_op_defs =
  kget_def klist_def kcreate_def kupdate_def kupdate_status_def kdelete_def kcreate_or_update_def

section \<open>Finalizers\<close>

text \<open>\<open>shared.go\<close>: the finalizer every reconciled object carries, and the
  \<open>controllerutil\<close> helpers on the finalizer list.\<close>

definition Finalizer :: string where
  "Finalizer = ''storage.deckhouse.io/sds-object-controller''"

definition contains_finalizer :: "object_meta \<Rightarrow> bool" where
  "contains_finalizer m \<longleftrightarrow> Finalizer \<in> set (m_finalizers m)"

definition add_finalizer :: "object_meta \<Rightarrow> object_meta" where
  "add_finalizer m = m\<lparr>m_finalizers := m_finalizers m @ [Finalizer]\<rparr>"

definition remove_finalizer :: "object_meta \<Rightarrow> object_meta" where
  "remove_finalizer m = m\<lparr>m_finalizers := filter (\<lambda>f. f \<noteq> Finalizer) (m_finalizers m)\<rparr>"

lemma contains_add_finalizer [simp]: "contains_finalizer (add_finalizer m)"
  by (simp add: contains_finalizer_def add_finalizer_def)

lemma not_contains_remove_finalizer [simp]: "\<not> contains_finalizer (remove_finalizer m)"
  by (simp add: contains_finalizer_def remove_finalizer_def)

section \<open>Weakest preconditions\<close>

definition wp :: "('s, 'a) state \<Rightarrow> ('a \<Rightarrow> 's \<Rightarrow> bool) \<Rightarrow> 's \<Rightarrow> bool" where
  "wp m Q s = (case run_state m s of (a, s') \<Rightarrow> Q a s')"

lemma wpD: "wp m Q s \<Longrightarrow> run_state m s = (a, s') \<Longrightarrow> Q a s'"
  by (simp add: wp_def)

lemma wpI: "(\<And>a s'. run_state m s = (a, s') \<Longrightarrow> Q a s') \<Longrightarrow> wp m Q s"
  by (simp add: wp_def split: prod.split)

lemma wp_return [wp_rules]: "Q a s \<Longrightarrow> wp (return a) Q s"
  by (simp add: wp_def)

lemma wp_bind [wp_rules]: "wp m (\<lambda>a s'. wp (f a) Q s') s \<Longrightarrow> wp (State_Monad.bind m f) Q s"
  by (simp add: wp_def split: prod.splits)

lemma wp_if [wp_rules]:
  "(b \<Longrightarrow> wp m Q s) \<Longrightarrow> (\<not> b \<Longrightarrow> wp n Q s) \<Longrightarrow> wp (if b then m else n) Q s"
  by simp

lemma wp_case_sum [wp_rules]:
  "(\<And>e. x = Inl e \<Longrightarrow> wp (f e) Q s) \<Longrightarrow> (\<And>a. x = Inr a \<Longrightarrow> wp (g a) Q s) \<Longrightarrow>
    wp (case x of Inl e \<Rightarrow> f e | Inr a \<Rightarrow> g a) Q s"
  by (cases x) simp_all

lemma wp_case_option [wp_rules]:
  "(x = None \<Longrightarrow> wp m Q s) \<Longrightarrow> (\<And>a. x = Some a \<Longrightarrow> wp (g a) Q s) \<Longrightarrow>
    wp (case x of None \<Rightarrow> m | Some a \<Rightarrow> g a) Q s"
  by (cases x) simp_all

lemma wp_case_prod [wp_rules]:
  "(\<And>a b. x = (a, b) \<Longrightarrow> wp (f a b) Q s) \<Longrightarrow> wp (case x of (a, b) \<Rightarrow> f a b) Q s"
  by (cases x) simp

lemma wp_let [wp_rules]: "(\<And>y. y = x \<Longrightarrow> wp (f y) Q s) \<Longrightarrow> wp (let y = x in f y) Q s"
  by simp

lemma wp_call [wp_rules]:
  "(\<And>r w'. f w = (r, w') \<Longrightarrow> Q r (w', t @ [ev r])) \<Longrightarrow> wp (call ev f) Q (w, t)"
  by (simp add: wp_def call_def split: prod.splits)

lemma wp_sample [wp_rules]:
  "(\<And>r w'. f w = (r, w') \<Longrightarrow> Q r (w', t)) \<Longrightarrow> wp (sample f) Q (w, t)"
  by (simp add: wp_def sample_def split: prod.splits)

lemma wp_mono: "wp m P s \<Longrightarrow> (\<And>a s'. P a s' \<Longrightarrow> Q a s') \<Longrightarrow> wp m Q s"
  by (simp add: wp_def split: prod.splits)

lemma wp_conj: "wp m P s \<Longrightarrow> wp m Q s \<Longrightarrow> wp m (\<lambda>a s'. P a s' \<and> Q a s') s"
  by (simp add: wp_def split: prod.splits)

text \<open>
  \<open>emits P m\<close>: from any state, \<open>m\<close> only appends events that satisfy \<open>P\<close>. This is the
  compositional form used for whole handlers: one rule per construct of the code.
\<close>

definition emits :: "(event \<Rightarrow> bool) \<Rightarrow> ('w, 'a) go \<Rightarrow> bool" where
  "emits P m \<longleftrightarrow> (\<forall>w t. wp m (\<lambda>a s'. \<exists>d. snd s' = t @ d \<and> list_all P d) (w, t))"

named_theorems emits_rules \<open>introduction rules for emits\<close>

lemma emitsI:
  "(\<And>w t. wp m (\<lambda>a s'. \<exists>d. snd s' = t @ d \<and> list_all P d) (w, t)) \<Longrightarrow> emits P m"
  by (simp add: emits_def)

lemma emits_wp:
  assumes "emits P m" and "\<And>a w' d. list_all P d \<Longrightarrow> Q a (w', t @ d)"
  shows "wp m Q (w, t)"
  using assms by (fastforce simp: emits_def wp_def split: prod.splits)

lemma emits_return [emits_rules]: "emits P (return a)"
  by (auto simp: emits_def wp_def)

lemma emits_bind [emits_rules]:
  assumes m: "emits P m" and f: "\<And>a. emits P (f a)"
  shows "emits P (State_Monad.bind m f)"
proof (rule emitsI)
  fix w t
  show "wp (State_Monad.bind m f) (\<lambda>a s'. \<exists>d. snd s' = t @ d \<and> list_all P d) (w, t)"
  proof (rule wp_bind, rule emits_wp [OF m])
    fix a w' d assume d: "list_all P d"
    show "wp (f a) (\<lambda>a s'. \<exists>d. snd s' = t @ d \<and> list_all P d) (w', t @ d)"
      by (rule emits_wp [OF f]) (auto simp: d)
  qed
qed

lemma emits_call [emits_rules]: "(\<And>r. P (ev r)) \<Longrightarrow> emits P (call ev f)"
  by (auto intro!: emitsI wp_call)

lemma emits_answered: "(\<And>w. P (ev (fst (f w)))) \<Longrightarrow> emits P (call ev f)"
  by (rule emitsI, rule wp_call) (metis append_eq_append_conv fst_conv list.pred_inject snd_conv)

lemma emits_run: "emits P m \<Longrightarrow> list_all P (snd (snd (run_state m (w, []))))"
  using emits_wp [of P m "\<lambda>a s'. list_all P (snd s')" "[]" w] by (simp add: wp_def split: prod.splits)

lemma emits_sample [emits_rules]: "emits P (sample f)"
  by (auto intro!: emitsI wp_sample)

lemma emits_if [emits_rules]:
  "(b \<Longrightarrow> emits P m) \<Longrightarrow> (\<not> b \<Longrightarrow> emits P n) \<Longrightarrow> emits P (if b then m else n)"
  by simp

lemma emits_case_sum [emits_rules]:
  "(\<And>e. x = Inl e \<Longrightarrow> emits P (f e)) \<Longrightarrow> (\<And>a. x = Inr a \<Longrightarrow> emits P (g a)) \<Longrightarrow>
    emits P (case x of Inl e \<Rightarrow> f e | Inr a \<Rightarrow> g a)"
  by (cases x) simp_all

lemma emits_case_option [emits_rules]:
  "(x = None \<Longrightarrow> emits P m) \<Longrightarrow> (\<And>a. x = Some a \<Longrightarrow> emits P (g a)) \<Longrightarrow>
    emits P (case x of None \<Rightarrow> m | Some a \<Rightarrow> g a)"
  by (cases x) simp_all

lemma emits_case_prod [emits_rules]:
  "(\<And>a b. x = (a, b) \<Longrightarrow> emits P (f a b)) \<Longrightarrow> emits P (case x of (a, b) \<Rightarrow> f a b)"
  by (cases x) simp

lemma emits_let [emits_rules]: "(\<And>y. y = x \<Longrightarrow> emits P (f y)) \<Longrightarrow> emits P (let y = x in f y)"
  by simp

lemma emits_for_each [emits_rules]: "(\<And>x. emits P (f x)) \<Longrightarrow> emits P (for_each f xs)"
  by (induction xs) (auto intro!: emits_rules)

lemma emits_mono: "emits P m \<Longrightarrow> (\<And>e. P e \<Longrightarrow> Q e) \<Longrightarrow> emits Q m"
  by (rule emitsI, erule emits_wp) (auto intro: list.pred_mono_strong)

text \<open>\<open>yields R m\<close>: whatever is answered, the result of \<open>m\<close> satisfies \<open>R\<close>.\<close>

definition yields :: "('a \<Rightarrow> bool) \<Rightarrow> ('w, 'a) go \<Rightarrow> bool" where
  "yields R m \<longleftrightarrow> (\<forall>s. R (fst (run_state m s)))"

named_theorems yields_rules \<open>introduction rules for yields\<close>

lemma yields_return [yields_rules]: "R a \<Longrightarrow> yields R (return a)"
  by (simp add: yields_def)

lemma yields_bind [yields_rules]: "(\<And>a. yields R (f a)) \<Longrightarrow> yields R (State_Monad.bind m f)"
  by (simp add: yields_def split: prod.splits)

lemma yields_if [yields_rules]: "(b \<Longrightarrow> yields R m) \<Longrightarrow> (\<not> b \<Longrightarrow> yields R n) \<Longrightarrow> yields R (if b then m else n)"
  by simp

lemma yields_case_sum [yields_rules]:
  "(\<And>e. x = Inl e \<Longrightarrow> yields R (f e)) \<Longrightarrow> (\<And>a. x = Inr a \<Longrightarrow> yields R (g a)) \<Longrightarrow> yields R (case x of Inl e \<Rightarrow> f e | Inr a \<Rightarrow> g a)"
  by (cases x) simp_all

lemma yields_case_option [yields_rules]:
  "(x = None \<Longrightarrow> yields R m) \<Longrightarrow> (\<And>a. x = Some a \<Longrightarrow> yields R (g a)) \<Longrightarrow> yields R (case x of None \<Rightarrow> m | Some a \<Rightarrow> g a)"
  by (cases x) simp_all

lemma yields_case_prod [yields_rules]: "(\<And>a b. x = (a, b) \<Longrightarrow> yields R (f a b)) \<Longrightarrow> yields R (case x of (a, b) \<Rightarrow> f a b)"
  by (cases x) simp

lemma yields_let [yields_rules]: "(\<And>y. y = x \<Longrightarrow> yields R (f y)) \<Longrightarrow> yields R (let y = x in f y)"
  by simp

text \<open>
  \<open>framed m\<close>: what \<open>m\<close> does not depend on the trace so far. So what is proved of a handler run on an empty
  trace holds of it as a step of a larger one.
\<close>

definition framed :: "('w, 'a) go \<Rightarrow> bool" where
  "framed m \<longleftrightarrow> (\<forall>w t. run_state m (w, t) = (case run_state m (w, []) of (a, (w', d)) \<Rightarrow> (a, (w', t @ d))))"

named_theorems framed_rules \<open>introduction rules for framed\<close>

lemma framedI:
  "(\<And>w t. run_state m (w, t) = (case run_state m (w, []) of (a, (w', d)) \<Rightarrow> (a, (w', t @ d)))) \<Longrightarrow> framed m"
  unfolding framed_def by (intro allI)

lemma framedD: "framed m \<Longrightarrow> run_state m (w, []) = (a, (w', d)) \<Longrightarrow> run_state m (w, t) = (a, (w', t @ d))"
  unfolding framed_def by (drule spec [of _ w], drule spec [of _ t]) simp

lemma framed_wp:
  assumes "framed m" and "wp m R (w, [])" and "\<And>r w' d. R r (w', d) \<Longrightarrow> Q r (w', t @ d)"
  shows "wp m Q (w, t)"
proof -
  obtain a w' d where run: "run_state m (w, []) = (a, (w', d))" by (metis prod.collapse)
  then show ?thesis
    using framedD [OF assms(1) run, of t] wpD [OF assms(2) run] assms(3) by (simp add: wp_def)
qed

lemma framed_return [framed_rules]: "framed (return a)"
  by (simp add: framed_def)

lemma framed_call [framed_rules]: "framed (call ev f)"
  by (simp add: framed_def call_def split: prod.split)

lemma framed_sample [framed_rules]: "framed (sample f)"
  by (simp add: framed_def sample_def split: prod.split)

lemma framed_bind [framed_rules]:
  assumes m: "framed m" and f: "\<And>a. framed (f a)"
  shows "framed (State_Monad.bind m f)"
proof (rule framedI)
  fix w t
  obtain a v d where 1: "run_state m (w, []) = (a, (v, d))" by (metis prod.collapse)
  obtain b u e where 2: "run_state (f a) (v, []) = (b, (u, e))" by (metis prod.collapse)
  show "run_state (State_Monad.bind m f) (w, t)
      = (case run_state (State_Monad.bind m f) (w, []) of (a, (w', d)) \<Rightarrow> (a, (w', t @ d)))"
    using framedD [OF m 1] framedD [OF f 2] 1 by simp
qed

lemma framed_if [framed_rules]: "framed m \<Longrightarrow> framed n \<Longrightarrow> framed (if b then m else n)"
  by simp

lemma framed_case_sum [framed_rules]:
  "(\<And>e. framed (f e)) \<Longrightarrow> (\<And>a. framed (g a)) \<Longrightarrow> framed (case x of Inl e \<Rightarrow> f e | Inr a \<Rightarrow> g a)"
  by (cases x) simp_all

lemma framed_case_option [framed_rules]:
  "framed m \<Longrightarrow> (\<And>a. framed (g a)) \<Longrightarrow> framed (case x of None \<Rightarrow> m | Some a \<Rightarrow> g a)"
  by (cases x) simp_all

lemma framed_case_prod [framed_rules]:
  "(\<And>a b. framed (f a b)) \<Longrightarrow> framed (case x of (a, b) \<Rightarrow> f a b)"
  by (cases x) simp

lemma framed_let [framed_rules]: "(\<And>y. framed (f y)) \<Longrightarrow> framed (let y = x in f y)"
  by simp

lemma framed_for_each [framed_rules]: "(\<And>x. framed (f x)) \<Longrightarrow> framed (for_each f xs)"
  by (induction xs) (auto intro!: framed_rules)

section \<open>Justified traces\<close>

text \<open>
  The form of the safety properties of whole handlers: \<open>justified P t\<close> says that \<open>P u e\<close> holds for
  every event \<open>e\<close> of the trace \<open>t\<close> and the events \<open>u\<close> that came before it.
\<close>

definition justified :: "(event list \<Rightarrow> event \<Rightarrow> bool) \<Rightarrow> event list \<Rightarrow> bool" where
  "justified P t \<longleftrightarrow> (\<forall>i < length t. P (take i t) (t ! i))"

lemma justified_Nil [simp]: "justified P []"
  by (simp add: justified_def)

lemma justified_snoc: "justified P (t @ [e]) \<longleftrightarrow> justified P t \<and> P t e"
  by (auto simp: justified_def nth_append less_Suc_eq)

lemma justified_app [simp]: "justified P (a @ b) \<longleftrightarrow> justified P a \<and> justified (\<lambda>u. P (a @ u)) b"
proof (induction b rule: rev_induct)
  case (snoc e b)
  have "justified P (a @ b @ [e]) \<longleftrightarrow> justified P ((a @ b) @ [e])" by simp
  also have "\<dots> \<longleftrightarrow> justified P (a @ b) \<and> P (a @ b) e" by (rule justified_snoc)
  finally show ?case using snoc by (auto simp: justified_snoc)
qed simp

lemma justified_Cons [simp]: "justified P (e # t) \<longleftrightarrow> P [] e \<and> justified (\<lambda>u. P (e # u)) t"
  by (auto simp: justified_def nth_Cons' less_Suc_eq_0_disj All_less_Suc2)

lemma justified_append:
  assumes "justified P t" and "\<And>u e. set t \<subseteq> set u \<Longrightarrow> Q e \<Longrightarrow> P u e" and "list_all Q d"
  shows "justified P (t @ d)"
  using assms(3)
proof (induction d rule: rev_induct)
  case (snoc e d)
  have "justified P ((t @ d) @ [e])"
    unfolding justified_snoc using snoc assms(1) assms(2) [of "t @ d" e] by auto
  then show ?case by simp
qed (simp add: assms(1))

lemma justified_emits:
  assumes "emits Q m" and "justified P t" and "\<And>u e. set t \<subseteq> set u \<Longrightarrow> Q e \<Longrightarrow> P u e"
    and "\<And>a w' d. justified P (t @ d) \<Longrightarrow> list_all Q d \<Longrightarrow> R a (w', t @ d)"
  shows "wp m R (w, t)"
  by (rule emits_wp [OF assms(1)]) (auto intro: assms(4) justified_append [OF assms(2,3)])

lemma justified_mono: "justified P d \<Longrightarrow> (\<And>u e. e \<in> set d \<Longrightarrow> P u e \<Longrightarrow> Q u e) \<Longrightarrow> justified Q d"
  by (simp add: justified_def)

text \<open>The update as a step of a larger run.\<close>

lemma justifiedD: "justified P (u @ e # v) \<Longrightarrow> P u e"
  unfolding justified_def by (drule spec [of _ "length u"]) simp

text \<open>A run that started at the trace \<open>t\<close>, with every event so far justified.\<close>

definition grown :: "(event list \<Rightarrow> event \<Rightarrow> bool) \<Rightarrow> event list \<Rightarrow> 'w run \<Rightarrow> bool" where
  "grown P t s \<longleftrightarrow> (\<exists>w' d. s = (w', t @ d) \<and> justified P (t @ d))"

lemma grown_step: "grown P t (w, u) \<Longrightarrow> P u e \<Longrightarrow> grown P t (w', u @ [e])"
  by (auto simp: grown_def)

lemma grown_sub: "grown P t (w, u) \<Longrightarrow> set t \<subseteq> set u"
  by (auto simp: grown_def)

lemma grown_start: "justified P t \<Longrightarrow> grown P t (w, t)"
  by (auto simp: grown_def)

section \<open>Documented behaviour of the parameters\<close>

text \<open>
  \<open>retry.RetryOnConflict\<close> runs its argument at least once, again only after a conflict, and
  returns the last answer. How often it retries is up to its backoff, and does not depend on the trace.
\<close>

primrec attempts :: "nat \<Rightarrow> ('w, go_error option) go \<Rightarrow> ('w, go_error option) go" where
  "attempts 0 m = m"
| "attempts (Suc n) m =
     do { r \<leftarrow> m;
          case r of None \<Rightarrow> return None
          | Some e \<Rightarrow> (if is_conflict e then attempts n m else return (Some e)) }"

definition retry_law :: "('w, 'x) kube_scheme \<Rightarrow> bool" where
  "retry_law K \<longleftrightarrow> (\<forall>m w. \<exists>n. \<forall>t. run_state (k_retry K m) (w, t) = run_state (attempts n m) (w, t))"

lemma wp_attempts:
  assumes I: "I s" and m: "\<And>s. I s \<Longrightarrow> wp m (\<lambda>r s'. Q r s' \<and> I s') s"
  shows "wp (attempts n m) Q s"
  using I
proof (induction n arbitrary: s)
  case 0
  then show ?case by (auto intro: wp_mono [OF m])
next
  case (Suc n)
  show ?case
    unfolding attempts.simps
    by (rule wp_bind, rule wp_mono [OF m [OF Suc.prems]]) (auto intro!: wp_rules intro: Suc.IH)
qed

lemma wp_retry:
  assumes "retry_law K" and "I s" and "\<And>s. I s \<Longrightarrow> wp m (\<lambda>r s'. Q r s' \<and> I s') s"
  shows "wp (k_retry K m) Q s"
proof -
  obtain n where "run_state (k_retry K m) s = run_state (attempts n m) s"
    using assms(1) unfolding retry_law_def by (metis prod.collapse)
  moreover have "wp (attempts n m) Q s" using assms(2,3) by (rule wp_attempts)
  ultimately show ?thesis by (simp add: wp_def)
qed

lemma emits_retry:
  assumes "retry_law K" and "emits P m"
  shows "emits P (k_retry K m)"
proof (rule emitsI)
  fix w :: 'a and t
  show "wp (k_retry K m) (\<lambda>a s'. \<exists>d. snd s' = t @ d \<and> list_all P d) (w, t)"
    by (rule wp_retry [OF assms(1), where I = "\<lambda>s'. \<exists>d. snd s' = t @ d \<and> list_all P d"])
      (auto intro!: emits_wp [OF assms(2)] simp: prod_eq_iff)
qed

lemma framed_attempts: "framed m \<Longrightarrow> framed (attempts n m)"
  by (induction n) (auto intro!: framed_rules)

lemma framed_retry:
  assumes "retry_law K" and "framed m"
  shows "framed (k_retry K m)"
proof (rule framedI)
  fix w :: 'a and t
  obtain n where n: "\<And>u. run_state (k_retry K m) (w, u) = run_state (attempts n m) (w, u)"
    using assms(1) unfolding retry_law_def by blast
  then show "run_state (k_retry K m) (w, t) = (case run_state (k_retry K m) (w, []) of (a, (w', d)) \<Rightarrow> (a, (w', t @ d)))"
    using framed_attempts [OF assms(2), of n] unfolding framed_def n by blast
qed

text \<open>
  \<open>apimeta.SetStatusCondition\<close> stores the condition under its type (its transition time is the
  library's own), and \<open>apimeta.FindStatusCondition\<close> finds the condition of a type.
\<close>

definition cond_agree :: "condition \<Rightarrow> condition \<Rightarrow> bool" where
  "cond_agree c d \<longleftrightarrow> c_type c = c_type d \<and> c_status c = c_status d \<and> c_reason c = c_reason d
     \<and> c_message c = c_message d \<and> c_observed_generation c = c_observed_generation d"

definition cond_law :: "('w, 'x) kube_scheme \<Rightarrow> bool" where
  "cond_law K \<longleftrightarrow>
     (\<forall>t. k_find_condition K [] t = None)
   \<and> (\<forall>cs c. k_set_condition K cs c \<noteq> [])
   \<and> (\<forall>cs c t. t \<noteq> c_type c \<longrightarrow> k_find_condition K (k_set_condition K cs c) t = k_find_condition K cs t)
   \<and> (\<forall>cs c. \<exists>d. k_find_condition K (k_set_condition K cs c) (c_type c) = Some d \<and> cond_agree d c)"

section \<open>A reference environment\<close>

text \<open>
  A concrete value of the parameters, on which the hypotheses above hold and the theorems are
  instantiated: every object is absent and every write succeeds, conditions are kept in a list, one
  per type. \<open>answering x xs\<close> is a resource whose reads answer \<open>x\<close> and \<open>xs\<close>.
\<close>

definition set_cond :: "condition list \<Rightarrow> condition \<Rightarrow> condition list" where
  "set_cond cs c = filter (\<lambda>d. c_type d \<noteq> c_type c) cs @ [c]"

definition find_cond :: "condition list \<Rightarrow> string \<Rightarrow> condition option" where
  "find_cond cs t = find (\<lambda>c. c_type c = t) cs"

definition answering :: "'o result \<Rightarrow> 'o list \<Rightarrow> ('o, 'w) resource" where
  "answering x xs = \<lparr>r_get = (\<lambda>rd ky w. (x, w)), r_list = (\<lambda>rd lo w. (Inr xs, w)),
     r_create = (\<lambda>y w. (None, w)), r_update = (\<lambda>y w. (None, w)), r_update_status = (\<lambda>y w. (None, w)),
     r_delete = (\<lambda>ky w. (None, w)), r_create_or_update = (\<lambda>y f w. (f y, w))\<rparr>"

definition absent :: "('o, 'w) resource" where
  "absent = answering (Inl (GoErr NotFound ''not found'')) []"

definition quiet_kube :: "'w kube" where
  "quiet_kube = \<lparr>k_stores = absent, k_buckets = absent, k_claims = absent, k_accesses = absent,
     k_policies = absent, k_secrets = absent, k_config_maps = absent, k_stateful_sets = absent,
     k_pvcs = absent, k_pvs = absent, k_pods = absent, k_nodes = absent, k_services = absent,
     k_service_accounts = absent, k_unstructured = (\<lambda>_. absent), k_now = (\<lambda>w. (0, w)), k_retry = (\<lambda>m. m),
     k_set_condition = set_cond, k_find_condition = find_cond\<rparr>"

lemma find_cond_other: "t \<noteq> c_type c \<Longrightarrow> find_cond (set_cond cs c) t = find_cond cs t"
  by (induction cs) (auto simp: find_cond_def set_cond_def)

lemma find_cond_same: "find_cond (set_cond cs c) (c_type c) = Some c"
  by (induction cs) (auto simp: find_cond_def set_cond_def)

lemma quiet_cond_law: "k_set_condition K = set_cond \<Longrightarrow> k_find_condition K = find_cond \<Longrightarrow> cond_law K"
  by (simp add: cond_law_def find_cond_other find_cond_same cond_agree_def)
    (simp add: find_cond_def set_cond_def)

lemma quiet_retry_law: "k_retry K = (\<lambda>m. m) \<Longrightarrow> retry_law K"
  by (auto simp: retry_law_def intro: exI [of _ 0])

lemma quiet_kube_laws: "cond_law quiet_kube" "retry_law quiet_kube"
  by (simp_all add: quiet_kube_def quiet_cond_law quiet_retry_law)

end
