(* ===== verification/Status_Fsm.thy ===== *)
theory Status_Fsm
  imports Effects
begin

text \<open>
  \<open>controller/shared.go\<close>: the condition state machine every reconciler is built on. A
  \<open>status_builder\<close> collects the conditions of one reconcile; \<open>advance\<close> records the outcome of
  a stage and gates the later ones; \<open>derivePhase\<close> reads the coarse phase off the stage
  conditions. The locale \<open>stage_fsm\<close> is what a reconciler relies on of its stage order; its
  lemmas say that a builder that went through the stages in order is \<open>settled\<close>: whatever the
  status held before, the phase, the stage conditions and the aggregate Ready agree after the flush.
\<close>

section \<open>The status builder\<close>

definition reasonReady :: string where "reasonReady = ''Ready''"
definition reasonInProgress :: string where "reasonInProgress = ''InProgress''"
definition reasonError :: string where "reasonError = ''Error''"
definition reasonWaitingForPrev :: string where "reasonWaitingForPrev = ''WaitingForPrev''"
definition conditionReady :: string where "conditionReady = ''Ready''"

record status_builder =
  sb_generation :: int
  sb_now :: int
  sb_conditions :: "condition list"

definition newStatusBuilder :: "int \<Rightarrow> int \<Rightarrow> status_builder" where
  "newStatusBuilder generation now = \<lparr>sb_generation = generation, sb_now = now, sb_conditions = []\<rparr>"

definition setCondition ::
  "status_builder \<Rightarrow> string \<Rightarrow> condition_status \<Rightarrow> string \<Rightarrow> string \<Rightarrow> status_builder" where
  "setCondition s condType condStatus reason message =
     s\<lparr>sb_conditions := sb_conditions s @
        [\<lparr>c_type = condType, c_status = condStatus, c_reason = reason, c_message = message,
          c_observed_generation = sb_generation s, c_last_transition = sb_now s\<rparr>]\<rparr>"

text \<open>The slice \<open>stageOrder[startIdx:]\<close> of \<open>gateAfter\<close>, where \<open>startIdx\<close> is one past the
  first occurrence of the stage; \<open>None\<close> when it does not occur.\<close>

fun stages_after :: "string list \<Rightarrow> string \<Rightarrow> string list option" where
  "stages_after [] afterStage = None"
| "stages_after (t # ts) afterStage = (if t = afterStage then Some ts else stages_after ts afterStage)"

definition gateAfter :: "status_builder \<Rightarrow> string list \<Rightarrow> string \<Rightarrow> status_builder" where
  "gateAfter s stageOrder afterStage =
     (let wait = (\<lambda>sb t. setCondition sb t ConditionFalse reasonWaitingForPrev (''waiting for '' @ afterStage));
          s1 = (case stages_after stageOrder afterStage of None \<Rightarrow> s | Some rest \<Rightarrow> foldl wait s rest)
      in wait s1 conditionReady)"

definition advance ::
  "status_builder \<Rightarrow> string list \<Rightarrow> string \<Rightarrow> bool \<Rightarrow> string \<Rightarrow> go_error option \<Rightarrow> status_builder \<times> bool" where
  "advance s stageOrder condType finished message err =
     (case err of
        Some e \<Rightarrow> (gateAfter (setCondition s condType ConditionFalse reasonError (emsg e)) stageOrder condType, False)
      | None \<Rightarrow>
          if \<not> finished
          then (gateAfter (setCondition s condType ConditionFalse reasonInProgress message) stageOrder condType, False)
          else (setCondition s condType ConditionTrue reasonReady message, True))"

text \<open>\<open>apimeta.FindStatusCondition\<close> is the parameter \<open>fnd\<close>.\<close>

definition derivePhase ::
  "(condition list \<Rightarrow> string \<Rightarrow> condition option) \<Rightarrow> condition list \<Rightarrow> string list \<Rightarrow> phase" where
  "derivePhase fnd conditions stageOrder =
     (if conditions = [] then PhasePending
      else let falses = filter (\<lambda>t. case fnd conditions t of None \<Rightarrow> False | Some c \<Rightarrow> c_status c = ConditionFalse) stageOrder;
               hasFalse = (falses \<noteq> []);
               hasError = list_ex (\<lambda>t. case fnd conditions t of None \<Rightarrow> False | Some c \<Rightarrow> c_reason c = reasonError) falses
           in if hasError then PhaseError else if hasFalse then PhaseInProgress else PhaseReady)"

definition last_cond :: "status_builder \<Rightarrow> string \<Rightarrow> condition option" where
  "last_cond s t = find (\<lambda>c. c_type c = t) (rev (sb_conditions s))"

definition aggregateReady :: "status_builder \<Rightarrow> bool" where
  "aggregateReady s =
     (case last_cond s conditionReady of None \<Rightarrow> False | Some c \<Rightarrow> c_status c = ConditionTrue)"

text \<open>The loop of every \<open>updateStatus\<close>: each collected condition goes through
  \<open>apimeta.SetStatusCondition\<close>, in order.\<close>

definition flush :: "('w, 'x) kube_scheme \<Rightarrow> condition list \<Rightarrow> status_builder \<Rightarrow> condition list" where
  "flush K conds s = foldl (k_set_condition K) conds (sb_conditions s)"

section \<open>What the builder holds\<close>

lemma last_cond_new [simp]: "last_cond (newStatusBuilder g n) t = None"
  by (simp add: last_cond_def newStatusBuilder_def)

definition stat :: "status_builder \<Rightarrow> string \<Rightarrow> condition_status option" where
  "stat s t = map_option c_status (last_cond s t)"

definition reas :: "status_builder \<Rightarrow> string \<Rightarrow> string option" where
  "reas s t = map_option c_reason (last_cond s t)"

lemma stat_new [simp]: "stat (newStatusBuilder g n) t = None"
  by (simp add: stat_def)

lemma stat_setCondition [simp]:
  "stat (setCondition s c st r m) t = (if t = c then Some st else stat s t)"
  by (simp add: stat_def last_cond_def setCondition_def)

lemma reas_setCondition [simp]:
  "reas (setCondition s c st r m) t = (if t = c then Some r else reas s t)"
  by (simp add: reas_def last_cond_def setCondition_def)

lemma stat_fold_set:
  "stat (foldl (\<lambda>sb u. setCondition sb u st r m) s ts) t = (if t \<in> set ts then Some st else stat s t)"
  by (induction ts arbitrary: s) auto

lemma reas_fold_set:
  "reas (foldl (\<lambda>sb u. setCondition sb u st r m) s ts) t = (if t \<in> set ts then Some r else reas s t)"
  by (induction ts arbitrary: s) auto

lemma stages_after_nth:
  "distinct ord \<Longrightarrow> k < length ord \<Longrightarrow> stages_after ord (ord ! k) = Some (drop (Suc k) ord)"
proof (induction ord arbitrary: k)
  case (Cons a ord)
  then show ?case by (cases k) auto
qed simp

lemma stat_gateAfter:
  assumes "stages_after ord u = Some rest"
  shows "stat (gateAfter s ord u) t = (if t \<in> set rest \<or> t = conditionReady then Some ConditionFalse else stat s t)"
  by (simp add: gateAfter_def assms stat_fold_set)

lemma reas_gateAfter:
  assumes "stages_after ord u = Some rest"
  shows "reas (gateAfter s ord u) t = (if t \<in> set rest \<or> t = conditionReady then Some reasonWaitingForPrev else reas s t)"
  by (simp add: gateAfter_def assms reas_fold_set)

lemma aggregateReady_stat: "aggregateReady s \<longleftrightarrow> stat s conditionReady = Some ConditionTrue"
  by (simp add: aggregateReady_def stat_def split: option.split)

section \<open>Flushing onto a status\<close>

lemma flush_snoc:
  "sb_conditions s' = sb_conditions s @ [c] \<Longrightarrow> flush K conds s' = k_set_condition K (flush K conds s) c"
  by (simp add: flush_def)

lemma flush_find_gen:
  assumes law: "cond_law K"
  shows "case find (\<lambda>c. c_type c = t) (rev cs) of
           Some c \<Rightarrow> (\<exists>d. k_find_condition K (foldl (k_set_condition K) conds cs) t = Some d \<and> cond_agree d c)
         | None \<Rightarrow> k_find_condition K (foldl (k_set_condition K) conds cs) t = k_find_condition K conds t"
proof (induction cs rule: rev_induct)
  case (snoc c cs)
  show ?case
  proof (cases "t = c_type c")
    case True
    then show ?thesis using law unfolding cond_law_def by simp
  next
    case False
    then have "k_find_condition K (k_set_condition K (foldl (k_set_condition K) conds cs) c) t
                 = k_find_condition K (foldl (k_set_condition K) conds cs) t"
      using law unfolding cond_law_def by blast
    then show ?thesis using snoc False by (simp split: option.splits)
  qed
qed simp

lemma flush_stat:
  assumes "cond_law K" and "stat s t = Some st"
  shows "\<exists>d. k_find_condition K (flush K conds s) t = Some d \<and> c_status d = st \<and> Some (c_reason d) = reas s t"
  using flush_find_gen [OF assms(1), of conds "sb_conditions s" t] assms(2)
  by (auto simp: flush_def stat_def reas_def last_cond_def cond_agree_def)

lemma flush_untouched:
  assumes "cond_law K" and "stat s t = None"
  shows "k_find_condition K (flush K conds s) t = k_find_condition K conds t"
  using flush_find_gen [OF assms(1), of conds "sb_conditions s" t] assms(2)
  by (auto simp: flush_def stat_def last_cond_def split: option.splits)

lemma flush_not_empty:
  assumes "cond_law K" and "stat s t \<noteq> None"
  shows "flush K conds s \<noteq> []"
proof -
  have "sb_conditions s \<noteq> []" using assms(2) by (auto simp: stat_def last_cond_def)
  then obtain cs c where "sb_conditions s = cs @ [c]" by (cases "sb_conditions s" rule: rev_cases) auto
  then show ?thesis using assms(1) by (simp add: flush_def cond_law_def)
qed

section \<open>Stage orders\<close>

text \<open>
  The invariant of a reconcile that walks its stages: \<open>passed ord k s\<close> after the first \<open>k\<close>
  stages succeeded; \<open>settled ord s\<close> when a status may be written: every stage and the aggregate
  have an outcome, and the aggregate is True exactly when all stages are.
\<close>

definition passed :: "string list \<Rightarrow> nat \<Rightarrow> status_builder \<Rightarrow> bool" where
  "passed ord k s \<longleftrightarrow> (\<forall>i < k. stat s (ord ! i) = Some ConditionTrue)"

definition settled :: "string list \<Rightarrow> status_builder \<Rightarrow> bool" where
  "settled ord s \<longleftrightarrow>
     (\<forall>t \<in> set ord. stat s t = Some ConditionTrue \<or> stat s t = Some ConditionFalse)
   \<and> stat s conditionReady = Some (if \<forall>t \<in> set ord. stat s t = Some ConditionTrue then ConditionTrue else ConditionFalse)"

locale stage_fsm =
  fixes ord :: "string list"
  assumes distinct_ord: "distinct ord"
    and ready_not_stage: "conditionReady \<notin> set ord"
    and some_stage: "ord \<noteq> []"
begin

lemma passed_0: "passed ord 0 s"
  by (simp add: passed_def)

lemma gate_settles:
  assumes "passed ord k s" and "k < length ord" and "u = ord ! k"
  shows "settled ord (gateAfter (setCondition s u ConditionFalse r m) ord u)"
    and "\<not> aggregateReady (gateAfter (setCondition s u ConditionFalse r m) ord u)"
proof -
  let ?s = "gateAfter (setCondition s u ConditionFalse r m) ord u"
  have sa: "stages_after ord u = Some (drop (Suc k) ord)"
    using stages_after_nth [OF distinct_ord assms(2)] assms(3) by simp
  have u: "u \<in> set ord" "u \<noteq> conditionReady" using nth_mem [OF assms(2)] assms(3) ready_not_stage by auto
  have un: "u \<notin> set (drop (Suc k) ord)"
    using distinct_ord assms(2,3) by (auto simp: in_set_conv_nth nth_eq_iff_index_eq)
  have st: "stat ?s t = (if t \<in> set (drop (Suc k) ord) \<or> t = conditionReady then Some ConditionFalse
      else if t = u then Some ConditionFalse else stat s t)" for t
    by (simp add: stat_gateAfter [OF sa])
  have known: "stat ?s t = Some ConditionTrue \<or> stat ?s t = Some ConditionFalse" if "t \<in> set ord" for t
  proof -
    from that obtain i where i: "i < length ord" "t = ord ! i" by (auto simp: in_set_conv_nth)
    consider "i < k" | "i = k" | "i > k" by linarith
    then show ?thesis
    proof cases
      case 1
      then have "stat s t = Some ConditionTrue" using assms(1) i by (simp add: passed_def)
      then show ?thesis unfolding st by simp
    next
      case 2
      then have "t = u" using i assms(3) by simp
      then show ?thesis unfolding st by simp
    next
      case 3
      then have "t \<in> set (drop (Suc k) ord)" using i
        by (auto simp: in_set_conv_nth intro!: exI [of _ "i - Suc k"])
      then show ?thesis unfolding st by simp
    qed
  qed
  have "stat ?s u = Some ConditionFalse" using un u by (simp add: st)
  then show "settled ord ?s" using known u(1) by (auto simp: settled_def st)
  show "\<not> aggregateReady ?s" by (simp add: aggregateReady_stat st)
qed

lemma advance_done:
  assumes "passed ord k s" and "k < length ord" and "u = ord ! k"
    and "advance s ord u d m e = (s', True)"
  shows "passed ord (Suc k) s'"
  using assms by (auto simp: advance_def passed_def less_Suc_eq split: option.splits if_splits)

lemma advance_stops:
  assumes "passed ord k s" and "k < length ord" and "u = ord ! k"
    and "advance s ord u d m e = (s', False)"
  shows "settled ord s'" and "\<not> aggregateReady s'"
  using assms(4) gate_settles [OF assms(1-3)]
  by (auto simp: advance_def split: option.splits if_splits)

lemma all_passed_settles:
  assumes "passed ord (length ord) s"
  shows "settled ord (setCondition s conditionReady ConditionTrue r m)"
  using assms ready_not_stage by (auto simp: settled_def passed_def in_set_conv_nth)

lemma settled_other:
  assumes "settled ord s" and "t \<notin> set ord" and "t \<noteq> conditionReady"
  shows "settled ord (setCondition s t st r m)"
  using assms by (auto simp: settled_def)

lemma settled_phase:
  assumes law: "cond_law K" and s: "settled ord s"
  shows "derivePhase (k_find_condition K) (flush K conds s) ord
           = (if aggregateReady s then PhaseReady
              else if \<exists>t \<in> set ord. stat s t = Some ConditionFalse \<and> reas s t = Some reasonError
              then PhaseError else PhaseInProgress)"
proof -
  let ?find = "k_find_condition K (flush K conds s)"
  have ne: "flush K conds s \<noteq> []"
    using flush_not_empty [OF law, of s conditionReady] s by (simp add: settled_def)
  have f: "\<exists>d. ?find t = Some d \<and> Some (c_status d) = stat s t \<and> Some (c_reason d) = reas s t"
    if "t \<in> set ord" for t
    using flush_stat [OF law, of s t _ conds] s that by (fastforce simp: settled_def)
  have false: "(case ?find t of None \<Rightarrow> False | Some c \<Rightarrow> c_status c = ConditionFalse) \<longleftrightarrow> stat s t = Some ConditionFalse"
    if "t \<in> set ord" for t using f [OF that] by auto
  have err: "(case ?find t of None \<Rightarrow> False | Some c \<Rightarrow> c_reason c = reasonError) \<longleftrightarrow> reas s t = Some reasonError"
    if "t \<in> set ord" for t using f [OF that] by auto
  let ?fs = "filter (\<lambda>t. stat s t = Some ConditionFalse) ord"
  have flt: "filter (\<lambda>t. case ?find t of None \<Rightarrow> False | Some c \<Rightarrow> c_status c = ConditionFalse) ord = ?fs"
    using false by (intro filter_cong) auto
  have ex: "list_ex (\<lambda>t. case ?find t of None \<Rightarrow> False | Some c \<Rightarrow> c_reason c = reasonError) ?fs
      \<longleftrightarrow> (\<exists>t \<in> set ord. stat s t = Some ConditionFalse \<and> reas s t = Some reasonError)"
    using err by (auto simp: list_ex_iff)
  have ag: "aggregateReady s \<longleftrightarrow> (\<forall>t \<in> set ord. stat s t = Some ConditionTrue)"
    using s by (simp add: aggregateReady_stat settled_def split: if_splits)
  have nil: "?fs = [] \<longleftrightarrow> aggregateReady s"
    unfolding ag filter_empty_conv using s by (fastforce simp: settled_def)
  show ?thesis
    unfolding derivePhase_def Let_def flt ex using ne nil ag by auto
qed

end

section \<open>What a status written from a settled builder says\<close>

text \<open>The contract of a status writer: phase and the aggregate condition say the same.\<close>

definition status_agrees :: "('w, 'x) kube_scheme \<Rightarrow> phase \<Rightarrow> condition list \<Rightarrow> bool" where
  "status_agrees K ph conds \<longleftrightarrow>
     (ph = PhaseReady \<longleftrightarrow> (\<exists>c. k_find_condition K conds conditionReady = Some c \<and> c_status c = ConditionTrue))"

context stage_fsm
begin

lemma settled_agrees:
  assumes law: "cond_law K" and s: "settled ord s"
  shows "status_agrees K (derivePhase (k_find_condition K) (flush K conds s) ord) (flush K conds s)"
proof -
  obtain st where st: "stat s conditionReady = Some st" using s by (simp add: settled_def)
  obtain d where d: "k_find_condition K (flush K conds s) conditionReady = Some d" "c_status d = st"
    using flush_stat [OF law st] by blast
  show ?thesis
    using d st by (auto simp: status_agrees_def settled_phase [OF law s] aggregateReady_stat)
qed

end

end
