(* ===== verification/Config.thy ===== *)
theory Config
  imports Api_Types
begin

text \<open>
  \<open>pkg/config/config.go\<close> and \<open>pkg/logger/logger.go\<close>: the options of the controller, read from the environment, and its logger.
  \<open>os.Getenv\<close> is the parameter \<open>getenv\<close> (an unset variable is \<open>""\<close>) and the service-account namespace
  file the parameter \<open>nsfile\<close>. A \<open>time.Duration\<close> is an int64 of nanoseconds, so its
  multiplication wraps.
\<close>

definition LogLevelEnv :: string where "LogLevelEnv = ''LOG_LEVEL''"
definition ControllerNamespaceEnv :: string where "ControllerNamespaceEnv = ''CONTROLLER_NAMESPACE''"
definition HealthProbeBindAddressEnv :: string where "HealthProbeBindAddressEnv = ''HEALTH_PROBE_BIND_ADDRESS''"
definition MaxConcurrentReconcilesEnv :: string where "MaxConcurrentReconcilesEnv = ''MAX_CONCURRENT_RECONCILES''"
definition RequeueIntervalEnv :: string where "RequeueIntervalEnv = ''REQUEUE_INTERVAL_SECONDS''"
definition SecurityResyncIntervalEnv :: string where
  "SecurityResyncIntervalEnv = ''SECURITY_RESYNC_INTERVAL_SECONDS''"
definition ReconcileTimeoutEnv :: string where "ReconcileTimeoutEnv = ''RECONCILE_TIMEOUT_SECONDS''"
definition GarageImageEnv :: string where "GarageImageEnv = ''GARAGE_IMAGE''"
definition SeaweedFSImageEnv :: string where "SeaweedFSImageEnv = ''SEAWEEDFS_IMAGE''"
definition ClusterDomainEnv :: string where "ClusterDomainEnv = ''CLUSTER_DOMAIN''"

definition DefaultControllerNamespace :: string where "DefaultControllerNamespace = ''d8-sds-object''"
definition DefaultHealthProbeBindAddress :: string where "DefaultHealthProbeBindAddress = '':8081''"
definition DefaultRequeueIntervalSeconds :: int where "DefaultRequeueIntervalSeconds = 30"
definition DefaultMaxConcurrentReconciles :: int where "DefaultMaxConcurrentReconciles = 1"
definition DefaultClusterDomain :: string where "DefaultClusterDomain = ''cluster.local''"
definition DefaultSecurityResyncIntervalSeconds :: int where "DefaultSecurityResyncIntervalSeconds = 300"
definition DefaultReconcileTimeoutSeconds :: int where "DefaultReconcileTimeoutSeconds = 300"

text \<open>The verbosities of the logger.\<close>

definition ErrorLevel :: string where "ErrorLevel = ''0''"
definition WarningLevel :: string where "WarningLevel = ''1''"
definition InfoLevel :: string where "InfoLevel = ''2''"
definition DebugLevel :: string where "DebugLevel = ''3''"
definition TraceLevel :: string where "TraceLevel = ''4''"

record options =
  Loglevel :: string
  HealthProbeBindAddress :: string
  ControllerNamespace :: string
  MaxConcurrentReconciles :: int
  RequeueInterval :: int
  SecurityResyncInterval :: int
  ReconcileTimeout :: int
  GarageImage :: string
  SeaweedFSImage :: string
  ClusterDomain :: string

definition seconds :: "int \<Rightarrow> int" where
  "seconds n = to_int64 (n * 1000000000)"

text \<open>The three-line idiom of the numeric options: keep the default unless the variable is set and
  parses to a positive number.\<close>

definition positive_env :: "(string \<Rightarrow> string) \<Rightarrow> string \<Rightarrow> int option" where
  "positive_env getenv name =
     (let v = getenv name in
      if v \<noteq> [] then (case atoi v of Some n \<Rightarrow> if n > 0 then Some n else None | None \<Rightarrow> None) else None)"

definition duration_env :: "(string \<Rightarrow> string) \<Rightarrow> string \<Rightarrow> int \<Rightarrow> int" where
  "duration_env getenv name dflt =
     (case positive_env getenv name of Some n \<Rightarrow> seconds n | None \<Rightarrow> seconds dflt)"

definition NewConfig :: "(string \<Rightarrow> string) \<Rightarrow> string result \<Rightarrow> options" where
  "NewConfig getenv nsfile =
     \<lparr>Loglevel = (if getenv LogLevelEnv \<noteq> [] then getenv LogLevelEnv else InfoLevel),
      HealthProbeBindAddress =
        (if getenv HealthProbeBindAddressEnv \<noteq> [] then getenv HealthProbeBindAddressEnv
         else DefaultHealthProbeBindAddress),
      ControllerNamespace =
        (if getenv ControllerNamespaceEnv = []
         then (case nsfile of Inr ns \<Rightarrow> ns | Inl _ \<Rightarrow> DefaultControllerNamespace)
         else getenv ControllerNamespaceEnv),
      MaxConcurrentReconciles =
        (case positive_env getenv MaxConcurrentReconcilesEnv of Some n \<Rightarrow> n | None \<Rightarrow> DefaultMaxConcurrentReconciles),
      RequeueInterval = duration_env getenv RequeueIntervalEnv DefaultRequeueIntervalSeconds,
      SecurityResyncInterval =
        duration_env getenv SecurityResyncIntervalEnv DefaultSecurityResyncIntervalSeconds,
      ReconcileTimeout = duration_env getenv ReconcileTimeoutEnv DefaultReconcileTimeoutSeconds,
      GarageImage = getenv GarageImageEnv,
      SeaweedFSImage = getenv SeaweedFSImageEnv,
      ClusterDomain =
        (if getenv ClusterDomainEnv = [] then DefaultClusterDomain else getenv ClusterDomainEnv)\<rparr>"

lemma seconds_exact: "0 < n \<Longrightarrow> n \<le> 9223372036 \<Longrightarrow> seconds n = n * 1000000000"
  by (simp add: seconds_def to_int64_id)

lemma positive_env_pos: "positive_env getenv name = Some n \<Longrightarrow> 0 < n"
  by (auto simp: positive_env_def Let_def split: if_splits option.splits)

lemma duration_env_pos:
  assumes "\<And>n. positive_env getenv name = Some n \<Longrightarrow> n \<le> 9223372036" and "0 < dflt" and "dflt \<le> 9223372036"
  shows "0 < duration_env getenv name dflt"
  using assms positive_env_pos [of getenv name] by (auto simp: duration_env_def seconds_exact split: option.split)

text \<open>Whatever the environment says, there is a worker and a cluster domain; the intervals are positive as long as
  the numbers of seconds fit into a duration.\<close>

theorem config_sane:
  assumes "\<And>name n. positive_env getenv name = Some n \<Longrightarrow> n \<le> 9223372036"
  shows "0 < MaxConcurrentReconciles (NewConfig getenv nsfile) \<and> ClusterDomain (NewConfig getenv nsfile) \<noteq> []
    \<and> 0 < RequeueInterval (NewConfig getenv nsfile) \<and> 0 < SecurityResyncInterval (NewConfig getenv nsfile)
    \<and> 0 < ReconcileTimeout (NewConfig getenv nsfile)"
  using duration_env_pos [OF assms] positive_env_pos
  by (auto simp: NewConfig_def DefaultMaxConcurrentReconciles_def DefaultClusterDomain_def DefaultRequeueIntervalSeconds_def
      DefaultSecurityResyncIntervalSeconds_def DefaultReconcileTimeoutSeconds_def split: option.split)

lemma config_sane_witness:
  "0 < RequeueInterval (NewConfig (\<lambda>_. []) (Inr ''d8'')) \<and> 0 < MaxConcurrentReconciles (NewConfig (\<lambda>_. []) (Inr ''d8''))"
  using config_sane [of "\<lambda>_. []" "Inr ''d8''"] by (simp add: positive_env_def)

text \<open>The logger: a verbosity that \<open>Atoi\<close> reads, and lines that are written when their level does not exceed it; an error
  line is always written. \<open>log_written\<close> is the documented behaviour of \<open>logr\<close> under \<open>textlogger\<close>.\<close>

definition NewLogger :: "string \<Rightarrow> int option" where
  "NewLogger level = atoi level"

datatype 'v log_line = ErrorLine string string "'v list" | InfoLine int string "'v list"

definition Logger_Error :: "string \<Rightarrow> string \<Rightarrow> 'v list \<Rightarrow> 'v log_line" where
  "Logger_Error err message kvs = ErrorLine err (''ERROR '' @ message) kvs"

definition Logger_Warning :: "string \<Rightarrow> 'v list \<Rightarrow> 'v log_line" where
  "Logger_Warning message kvs = InfoLine 1 (''WARNING '' @ message) kvs"

definition Logger_Info :: "string \<Rightarrow> 'v list \<Rightarrow> 'v log_line" where
  "Logger_Info message kvs = InfoLine 2 (''INFO '' @ message) kvs"

definition Logger_Debug :: "string \<Rightarrow> 'v list \<Rightarrow> 'v log_line" where
  "Logger_Debug message kvs = InfoLine 3 (''DEBUG '' @ message) kvs"

definition Logger_Trace :: "string \<Rightarrow> 'v list \<Rightarrow> 'v log_line" where
  "Logger_Trace message kvs = InfoLine 4 (''TRACE '' @ message) kvs"

definition log_written :: "int \<Rightarrow> 'v log_line \<Rightarrow> bool" where
  "log_written v l = (case l of ErrorLine e m kvs \<Rightarrow> True | InfoLine n m kvs \<Rightarrow> n \<le> v)"

lemma verbosities:
  "NewLogger ErrorLevel = Some 0" "NewLogger WarningLevel = Some 1" "NewLogger InfoLevel = Some 2"
  "NewLogger DebugLevel = Some 3" "NewLogger TraceLevel = Some 4"
  by (simp_all add: NewLogger_def ErrorLevel_def WarningLevel_def InfoLevel_def DebugLevel_def TraceLevel_def atoi_def
      digits_val_def digit_val_def is_digit_def max_int64_def)

lemma default_logger: "getenv LogLevelEnv = [] \<Longrightarrow> NewLogger (Loglevel (NewConfig getenv nsfile)) = Some 2"
  by (simp add: NewConfig_def verbosities)

lemma logger_levels:
  "log_written v (Logger_Error e m kvs)" "log_written v (Logger_Warning m kvs) \<longleftrightarrow> 1 \<le> v" "log_written v (Logger_Info m kvs) \<longleftrightarrow> 2 \<le> v"
  "log_written v (Logger_Debug m kvs) \<longleftrightarrow> 3 \<le> v" "log_written v (Logger_Trace m kvs) \<longleftrightarrow> 4 \<le> v"
  by (simp_all add: log_written_def Logger_Error_def Logger_Warning_def Logger_Info_def Logger_Debug_def Logger_Trace_def)

text \<open>Beyond that the product wraps: a finding.\<close>

lemma config_interval_overflow:
  "positive_env getenv SecurityResyncIntervalEnv = Some 9300000000 \<Longrightarrow> SecurityResyncInterval (NewConfig getenv nsfile) < 0"
  by (simp add: NewConfig_def duration_env_def seconds_def to_int64_def)

end
