(* ===== verification/Driver.thy ===== *)
theory Driver
  imports Effects Config
begin

text \<open>
  \<open>internal/backend/driver.go\<close>, \<open>stub.go\<close> and \<open>pvc.go\<close>: the interface between the reconcilers and
  the backends, the registry that picks a driver for a store, the placeholder driver, and the
  volume-claim cleanup the drivers share. A driver is a record of black boxes over the world: the
  reconcilers' traces record the call and its answer (\<open>EvDriver\<close>), the drivers' own traces are
  the subject of their theories.
\<close>

section \<open>Features and names\<close>

definition FeatureQuota :: string where "FeatureQuota = ''spec.quota''"
definition FeaturePublicRead :: string where "FeaturePublicRead = ''spec.accessPolicy=PublicRead''"

definition RequestedFeatures :: "bucket \<Rightarrow> string list" where
  "RequestedFeatures b =
     (case b_quota (b_spec b) of
        None \<Rightarrow> []
      | Some q \<Rightarrow> (if q_max_size q \<noteq> [] \<or> q_max_objects q > 0 then [FeatureQuota] else []))
     @ (if b_access_policy (b_spec b) = AccessPolicyPublicRead then [FeaturePublicRead] else [])"

definition AccessResourceName :: "bucket_access \<Rightarrow> string" where
  "AccessResourceName a = m_namespace (ba_meta a) @ ''.'' @ m_name (ba_meta a)"

definition BucketDisplayName :: "bucket \<Rightarrow> string" where
  "BucketDisplayName b = (if b_bucket_name (b_spec b) \<noteq> [] then b_bucket_name (b_spec b) else m_name (b_meta b))"

definition ResolveBackendType :: "cluster_type \<Rightarrow> backend_type result" where
  "ResolveBackendType t =
     (case t of
        ClusterTypeSystem \<Rightarrow> Inr BackendGarage
      | ClusterTypeLightweight \<Rightarrow> Inr BackendGarage
      | ClusterTypeFull \<Rightarrow> Inr BackendSeaweedFS
      | ClusterTypeHeavy \<Rightarrow> Inr BackendCephRGW
      | ClusterTypeOther s \<Rightarrow> Inl (new_err (''unknown cluster type '' @ quoted s)))"

section \<open>Drivers and the registry\<close>

record 'w driver =
  d_type :: backend_type
  d_ensure_cluster :: "object_store \<Rightarrow> 'w \<Rightarrow> (cluster_state \<times> go_error option) \<times> 'w"
  d_delete_cluster :: "object_store \<Rightarrow> 'w \<Rightarrow> go_error option \<times> 'w"
  d_ensure_bucket :: "object_store \<Rightarrow> bucket \<Rightarrow> 'w \<Rightarrow> (bucket_state \<times> go_error option) \<times> 'w"
  d_delete_bucket :: "object_store \<Rightarrow> bucket \<Rightarrow> 'w \<Rightarrow> go_error option \<times> 'w"
  d_ensure_access ::
    "object_store \<Rightarrow> bucket \<Rightarrow> bucket_access \<Rightarrow> bool \<Rightarrow> 'w \<Rightarrow> (access_state \<times> go_error option) \<times> 'w"
  d_delete_access :: "object_store \<Rightarrow> bucket \<Rightarrow> bucket_access \<Rightarrow> 'w \<Rightarrow> go_error option \<times> 'w"

text \<open>A computation as a black box of its caller: run on an empty trace that is then dropped.\<close>

definition opaque :: "('w, 'a) go \<Rightarrow> 'w \<Rightarrow> 'a \<times> 'w" where
  "opaque m w = (case run_state m (w, []) of (a, (w', t)) \<Rightarrow> (a, w'))"

type_synonym 'w registry = "backend_type \<Rightarrow> 'w driver option"

definition NewRegistry :: "'w driver list \<Rightarrow> 'w registry" where
  "NewRegistry ds = foldl (\<lambda>m d. m(d_type d \<mapsto> d)) (\<lambda>_. None) ds"

definition Registry_For :: "'w registry \<Rightarrow> object_store \<Rightarrow> 'w driver result" where
  "Registry_For reg cluster =
     (case ResolveBackendType (os_type (os_spec cluster)) of
        Inl e \<Rightarrow> Inl e
      | Inr bt \<Rightarrow> (case reg bt of
            None \<Rightarrow> Inl (new_err (''no driver registered for backend '' @ quoted (backend_type_str bt)))
          | Some d \<Rightarrow> Inr d))"

text \<open>The driver calls of the reconcilers.\<close>

definition EnsureCluster :: "'w driver \<Rightarrow> object_store \<Rightarrow> ('w, cluster_state \<times> go_error option) go" where
  "EnsureCluster d c = call (\<lambda>r. EvDriver (DrvEnsureCluster c r)) (d_ensure_cluster d c)"

definition DeleteCluster :: "'w driver \<Rightarrow> object_store \<Rightarrow> ('w, go_error option) go" where
  "DeleteCluster d c = call (\<lambda>r. EvDriver (DrvDeleteCluster c r)) (d_delete_cluster d c)"

definition EnsureBucket ::
  "'w driver \<Rightarrow> object_store \<Rightarrow> bucket \<Rightarrow> ('w, bucket_state \<times> go_error option) go" where
  "EnsureBucket d c b = call (\<lambda>r. EvDriver (DrvEnsureBucket c b r)) (d_ensure_bucket d c b)"

definition DeleteBucket :: "'w driver \<Rightarrow> object_store \<Rightarrow> bucket \<Rightarrow> ('w, go_error option) go" where
  "DeleteBucket d c b = call (\<lambda>r. EvDriver (DrvDeleteBucket c b r)) (d_delete_bucket d c b)"

definition EnsureAccess ::
  "'w driver \<Rightarrow> object_store \<Rightarrow> bucket \<Rightarrow> bucket_access \<Rightarrow> bool \<Rightarrow> ('w, access_state \<times> go_error option) go" where
  "EnsureAccess d c b a mintFresh =
     call (\<lambda>r. EvDriver (DrvEnsureAccess c b a mintFresh r)) (d_ensure_access d c b a mintFresh)"

definition DeleteAccess ::
  "'w driver \<Rightarrow> object_store \<Rightarrow> bucket \<Rightarrow> bucket_access \<Rightarrow> ('w, go_error option) go" where
  "DeleteAccess d c b a = call (\<lambda>r. EvDriver (DrvDeleteAccess c b a r)) (d_delete_access d c b a)"

lemmas driver_op_defs =
  EnsureCluster_def DeleteCluster_def EnsureBucket_def DeleteBucket_def EnsureAccess_def DeleteAccess_def

section \<open>The placeholder driver\<close>

definition NotImplementedDriver :: "backend_type \<Rightarrow> 'w driver" where
  "NotImplementedDriver bt =
     (let msg = ''backend '' @ quoted (backend_type_str bt) @ '' is not implemented yet'' in
      \<lparr>d_type = bt,
       d_ensure_cluster = (\<lambda>c w. ((empty_cluster_state
           \<lparr>cs_message := msg, cs_backend := \<lparr>be_type = bt, be_version = []\<rparr>\<rparr>, None), w)),
       d_delete_cluster = (\<lambda>c w. (None, w)),
       d_ensure_bucket = (\<lambda>c b w. ((empty_bucket_state\<lparr>bst_message := msg\<rparr>, None), w)),
       d_delete_bucket = (\<lambda>c b w. (None, w)),
       d_ensure_access = (\<lambda>c b a f w. ((empty_access_state\<lparr>as_message := msg\<rparr>, None), w)),
       d_delete_access = (\<lambda>c b a w. (None, w))\<rparr>)"

definition DefaultRegistry :: "'w registry" where
  "DefaultRegistry =
     NewRegistry [NotImplementedDriver BackendGarage, NotImplementedDriver BackendSeaweedFS,
                  NotImplementedDriver BackendCephRGW]"

section \<open>Volume claims\<close>

primrec delete_pvcs :: "('w, 'x) kube_scheme \<Rightarrow> pvc list \<Rightarrow> ('w, go_error option) go" where
  "delete_pvcs K [] = return None"
| "delete_pvcs K (p # ps) =
     do { r \<leftarrow> kdelete KPvc (k_pvcs K) (m_namespace (pvc_meta p), m_name (pvc_meta p));
          case r of
            Some e \<Rightarrow> (if \<not> is_not_found e
                then return (Some (wrap_err (''delete PVC '' @ m_namespace (pvc_meta p) @ ''/'' @ m_name (pvc_meta p) @ '': '') e))
                else delete_pvcs K ps)
          | None \<Rightarrow> delete_pvcs K ps }"

definition DeleteClusterPVCs ::
  "('w, 'x) kube_scheme \<Rightarrow> reader \<Rightarrow> string \<Rightarrow> (string \<times> string) list \<Rightarrow> ('w, go_error option) go" where
  "DeleteClusterPVCs K rd ns labels =
     do { r \<leftarrow> klist rd KPvc OPvc (k_pvcs K) \<lparr>lo_namespace = Some ns, lo_match = labels, lo_has = []\<rparr>;
          case r of
            Inl e \<Rightarrow> return (Some (wrap_err ''list cluster PVCs: '' e))
          | Inr ps \<Rightarrow> delete_pvcs K ps }"

section \<open>The registry contract\<close>

text \<open>What the reconcilers rely on: a driver found under a backend type is of that type.\<close>

locale driver_registry =
  fixes reg :: "'w registry"
  assumes keyed: "reg bt = Some d \<Longrightarrow> d_type d = bt"
begin

lemma for_type:
  "Registry_For reg c = Inr d \<Longrightarrow> ResolveBackendType (os_type (os_spec c)) = Inr (d_type d)"
  by (auto simp: Registry_For_def keyed split: sum.splits option.splits)

lemma for_garage:
  "Registry_For reg c = Inr d \<Longrightarrow>
     d_type d = BackendGarage \<longleftrightarrow> os_type (os_spec c) \<in> {ClusterTypeSystem, ClusterTypeLightweight}"
  using for_type [of c d] by (cases "os_type (os_spec c)") (auto simp: ResolveBackendType_def)

end

lemma NewRegistry_fold:
  "foldl (\<lambda>m d. m(d_type d \<mapsto> d)) m ds bt
     = (case find (\<lambda>d. d_type d = bt) (rev ds) of Some d \<Rightarrow> Some d | None \<Rightarrow> m bt)"
  by (induction ds rule: rev_induct) auto

lemma NewRegistry_find: "NewRegistry ds bt = find (\<lambda>d. d_type d = bt) (rev ds)"
  unfolding NewRegistry_def NewRegistry_fold by (simp split: option.split)

interpretation new_registry: driver_registry "NewRegistry ds" for ds
  by unfold_locales (auto simp: NewRegistry_find dest: find_Some_iff_first)

section \<open>The contract of a driver\<close>

text \<open>
  What \<open>driver.go\<close> promises of every implementation: a cluster is reported under the driver's own type, and a ready
  one comes without an error and with an endpoint; a ready bucket has the name of its object, and features are reported
  unsupported only when they were requested; an access that is not ready hands out no key; and a bucket that is retained is
  left alone, without any call to the outside.
\<close>

definition cluster_answer_ok :: "backend_type \<Rightarrow> cluster_state \<times> go_error option \<Rightarrow> bool" where
  "cluster_answer_ok bt r \<longleftrightarrow> be_type (cs_backend (fst r)) = bt
     \<and> (if cs_ready (fst r) then snd r = None \<and> ep_internal (cs_endpoint (fst r)) \<noteq> [] else True)"

definition bucket_answer_ok :: "bucket \<Rightarrow> bucket_state \<times> go_error option \<Rightarrow> bool" where
  "bucket_answer_ok b r \<longleftrightarrow> (if bst_ready (fst r) then snd r = None \<and> bst_bucket_name (fst r) = BucketDisplayName b
     \<and> set (bst_unsupported (fst r)) \<subseteq> set (RequestedFeatures b) else True)"

definition access_answer_ok :: "access_state \<times> go_error option \<Rightarrow> bool" where
  "access_answer_ok r \<longleftrightarrow> (if as_ready (fst r) then snd r = None
     else as_access_key_id (fst r) = [] \<and> as_secret_access_key (fst r) = [])"

lemmas answer_defs = cluster_answer_ok_def bucket_answer_ok_def access_answer_ok_def
  empty_cluster_state_def empty_bucket_state_def empty_access_state_def

locale driver_contract =
  fixes d :: "'w driver"
  assumes cluster_answered: "cluster_answer_ok (d_type d) (fst (d_ensure_cluster d c w))"
    and bucket_answered: "bucket_answer_ok b (fst (d_ensure_bucket d c b w))"
    and access_answered: "access_answer_ok (fst (d_ensure_access d c b a f w))"
    and retained: "b_reclaim_policy (b_spec b) \<noteq> BucketReclaimDelete \<Longrightarrow> d_delete_bucket d c b w = (None, w)"
begin

lemma refused_access: "fst (d_ensure_access d c b a f w) = (s, Some e) \<Longrightarrow> as_access_key_id s = [] \<and> as_secret_access_key s = []"
  using access_answered [of c b a f w] by (simp add: access_answer_ok_def split: if_splits)

lemma named_bucket_made:
  "fst (d_ensure_bucket d c b w) = (s, e) \<Longrightarrow> bst_ready s \<Longrightarrow>
     bst_bucket_name s = BucketDisplayName b \<and> set (bst_unsupported s) \<subseteq> set (RequestedFeatures b)"
  using bucket_answered [of b c w] by (simp add: bucket_answer_ok_def)

end

text \<open>A registry of drivers that keep the contract.\<close>

locale contract_registry = driver_registry +
  assumes contracts: "reg bt = Some d \<Longrightarrow> driver_contract d"
begin

lemma for_contract: "Registry_For reg c = Inr d \<Longrightarrow> driver_contract d"
  by (auto simp: Registry_For_def dest: contracts split: sum.splits option.splits)

lemma cluster_typed:
  assumes "Registry_For reg c = Inr d"
  shows "ResolveBackendType (os_type (os_spec c)) = Inr (be_type (cs_backend (fst (fst (d_ensure_cluster d c w)))))"
  using for_type [OF assms] driver_contract.cluster_answered [OF for_contract [OF assms]] by (simp add: cluster_answer_ok_def)

end

lemma opaque_fst: "yields R m \<Longrightarrow> R (fst (opaque m w))"
  by (auto simp: yields_def opaque_def split: prod.splits) (metis fst_conv)

lemma opaque_return [simp]: "opaque (return a) w = (a, w)"
  by (simp add: opaque_def)

interpretation stub: driver_contract "NotImplementedDriver bt" for bt
  by unfold_locales (simp_all add: NotImplementedDriver_def Let_def answer_defs)

lemma registry_contracts:
  assumes "\<And>d. d \<in> set ds \<Longrightarrow> driver_contract d"
  shows "contract_registry (NewRegistry ds)"
proof (intro contract_registry.intro contract_registry_axioms.intro)
  show "driver_registry (NewRegistry ds)" by (rule new_registry.driver_registry_axioms)
next
  fix bt d assume "NewRegistry ds bt = Some d"
  then have "find (\<lambda>d. d_type d = bt) (rev ds) = Some d" by (simp add: NewRegistry_find)
  from find_Some_iff_first [OF this] show "driver_contract d" by (intro assms) simp
qed

interpretation default_registry: contract_registry DefaultRegistry
  unfolding DefaultRegistry_def by (rule registry_contracts) (auto intro: stub.driver_contract_axioms)

section \<open>Properties\<close>

text \<open>Names handed to a backend identify the access: namespaces are DNS labels without a dot, so two
  accesses share a key name, identity or RGW user only when they are the same object.\<close>

theorem access_name_injective:
  assumes "CHR ''.'' \<notin> set (m_namespace (ba_meta a))" and "CHR ''.'' \<notin> set (m_namespace (ba_meta b))"
  shows "AccessResourceName a = AccessResourceName b \<longleftrightarrow>
    m_namespace (ba_meta a) = m_namespace (ba_meta b) \<and> m_name (ba_meta a) = m_name (ba_meta b)"
proof -
  have split: "x = y \<and> u = v" if "x @ d # u = y @ d # v" and "d \<notin> set x" and "d \<notin> set y" for x y u v :: string and d
    using that by (auto simp: append_eq_append_conv2 append_eq_Cons_conv Cons_eq_append_conv)
  show ?thesis
    using split [of "m_namespace (ba_meta a)" "CHR ''.''"] assms
    by (auto simp: AccessResourceName_def)
qed

definition access_at :: "string \<Rightarrow> string \<Rightarrow> bucket_access" where
  "access_at ns n =
     \<lparr>ba_meta = \<lparr>m_name = n, m_namespace = ns, m_labels = Map.empty, m_annotations = Map.empty,
        m_finalizers = [], m_deleting = False, m_generation = 1, m_owner = None\<rparr>,
      ba_spec = \<lparr>ba_bucket_claim_name = ''data'', ba_permission = AccessReadWrite, ba_credentials_secret_name = []\<rparr>,
      ba_status = None\<rparr>"

lemma access_name_injective_witness:
  "AccessResourceName (access_at ''team-a'' ''x.y'') \<noteq> AccessResourceName (access_at ''team'' ''a.x.y'')"
  using access_name_injective [of "access_at ''team-a'' ''x.y''" "access_at ''team'' ''a.x.y''"]
  by (simp add: access_at_def)

lemma delete_pvcs_wp:
  "wp (delete_pvcs K ps)
      (\<lambda>r s'. r = None \<longrightarrow> (\<exists>rs. length rs = length ps
          \<and> snd s' = t @ map2 (\<lambda>p r. EvDelete KPvc (m_namespace (pvc_meta p), m_name (pvc_meta p)) r) ps rs
          \<and> (\<forall>r \<in> set rs. case r of None \<Rightarrow> True | Some e \<Rightarrow> is_not_found e))) (w, t)"
proof (induction ps arbitrary: w t)
  case Nil
  show ?case by (auto intro!: wp_rules)
next
  case (Cons p ps)
  show ?case
    unfolding delete_pvcs.simps kdelete_def
    by (intro wp_rules; (rule wp_mono [OF Cons], fastforce intro: exI [of _ "_ # _"])?) simp
qed

text \<open>The cleanup of a Delete reclaim is complete: it reports success only when every volume claim the
  listing returned was deleted, or was already gone, in the order of the listing.\<close>

theorem pvc_cleanup_complete:
  "wp (DeleteClusterPVCs K rd ns labels)
     (\<lambda>r s'. r = None \<longrightarrow> (\<exists>ps rs. length rs = length ps
        \<and> snd s' = t @ EvList rd KPvc \<lparr>lo_namespace = Some ns, lo_match = labels, lo_has = []\<rparr> (Inr (map OPvc ps))
             # map2 (\<lambda>p r. EvDelete KPvc (m_namespace (pvc_meta p), m_name (pvc_meta p)) r) ps rs
        \<and> (\<forall>r \<in> set rs. r = None \<or> (\<exists>e. r = Some e \<and> is_not_found e)))) (w, t)"
  unfolding DeleteClusterPVCs_def klist_def
proof (intro wp_rules, goal_cases)
  case (1 r w' e)
  then show ?case by simp
next
  case (2 r w' ps)
  show ?case
  proof (rule wp_mono [OF delete_pvcs_wp], intro impI, goal_cases)
    case (1 a s')
    then obtain rs where "length rs = length ps"
        "snd s' = (t @ [EvList rd KPvc \<lparr>lo_namespace = Some ns, lo_match = labels, lo_has = []\<rparr> (map_sum id (map OPvc) r)])
          @ map2 (\<lambda>p r. EvDelete KPvc (m_namespace (pvc_meta p), m_name (pvc_meta p)) r) ps rs"
        "\<forall>r \<in> set rs. case r of None \<Rightarrow> True | Some e \<Rightarrow> is_not_found e" by blast
    with 2 show ?case by (intro exI [of _ ps] exI [of _ rs]) (auto split: option.splits)
  qed
qed

definition demo_pvc :: pvc where
  "demo_pvc = \<lparr>pvc_meta = \<lparr>m_name = ''data-garage-0'', m_namespace = ''d8-sds-object'', m_labels = Map.empty,
     m_annotations = Map.empty, m_finalizers = [], m_deleting = False, m_generation = 0, m_owner = None\<rparr>, pvc_volume_name = []\<rparr>"

lemma pvc_cleanup_complete_witness:
  "\<exists>ps rs. length rs = length ps \<and> snd (snd (run_state (DeleteClusterPVCs
       (quiet_kube\<lparr>k_pvcs := answering (Inr demo_pvc) [demo_pvc]\<rparr>) Uncached ''d8-sds-object'' []) ((), [])))
     = EvList Uncached KPvc \<lparr>lo_namespace = Some ''d8-sds-object'', lo_match = [], lo_has = []\<rparr> (Inr (map OPvc ps))
       # map2 (\<lambda>p r. EvDelete KPvc (m_namespace (pvc_meta p), m_name (pvc_meta p)) r) ps rs"
proof -
  let ?K = "quiet_kube\<lparr>k_pvcs := answering (Inr demo_pvc) [demo_pvc]\<rparr>"
  let ?run = "run_state (DeleteClusterPVCs ?K Uncached ''d8-sds-object'' []) ((), [])"
  have "fst ?run = None"
    by (simp add: DeleteClusterPVCs_def klist_def kdelete_def call_def answering_def)
  then show ?thesis
    using wpD [OF pvc_cleanup_complete [of ?K Uncached "''d8-sds-object''" "[]" "[]" "()"], of "fst ?run" "snd ?run"]
    by (auto simp: prod_eq_iff)
qed

end
