(* ===== verification/Policy.thy ===== *)
theory Policy
  imports Status_Fsm Driver
begin

text \<open>
  \<open>controller/policy.go\<close> and \<open>controller/bucket_claim_policy_controller.go\<close>: the deny-by-default decision
  whether a namespace may use a bucket, and the controller that reports whether a policy is usable.
  RE2 is a parameter: \<open>re pattern\<close> is what \<open>regexp.Compile\<close> returns, an error or the function
  \<open>MatchString\<close> of the compiled expression.
\<close>

type_synonym regexps = "string \<Rightarrow> (string \<Rightarrow> bool) result"

text \<open>\<open>ctrl.Result\<close> with its error: the requeue delay, if any.\<close>

type_synonym outcome = "int option \<times> go_error option"

section \<open>The decision\<close>

definition anchor :: "string \<Rightarrow> string" where
  "anchor pat = ''^(?:'' @ pat @ '')$''"

fun matchPatterns :: "regexps \<Rightarrow> string list \<Rightarrow> string \<Rightarrow> bool result" where
  "matchPatterns re [] ns = Inr False"
| "matchPatterns re (pat # pats) ns =
     (case re (anchor pat) of
        Inl err \<Rightarrow> Inl (wrap_err (''invalid namespace pattern '' @ quoted pat @ '': '') err)
      | Inr rx \<Rightarrow> if rx ns then Inr True else matchPatterns re pats ns)"

definition namespaceMatches :: "regexps \<Rightarrow> namespace_match \<Rightarrow> string \<Rightarrow> bool result" where
  "namespaceMatches re m ns =
     (if list_ex (\<lambda>n. n = ns) (nm_names m) then Inr True else matchPatterns re (nm_patterns m) ns)"

fun decide :: "regexps \<Rightarrow> string \<Rightarrow> string \<Rightarrow> int \<Rightarrow> bucket_claim_policy list \<Rightarrow> (bool \<times> string) result" where
  "decide re bucketName ns policies [] =
     (if policies = 0
      then Inr (False, ''no BucketClaimPolicy grants namespace '' @ quoted ns @ '' access to bucket ''
             @ quoted bucketName @ '' (access is deny-by-default)'')
      else Inr (False, ''namespace '' @ quoted ns @ '' does not match any BucketClaimPolicy for bucket '' @ quoted bucketName))"
| "decide re bucketName ns policies (p # ps) =
     (if bp_bucket_ref (bp_spec p) \<noteq> bucketName then decide re bucketName ns policies ps
      else (case namespaceMatches re (bp_allowed_namespaces (bp_spec p)) ns of
              Inl err \<Rightarrow> Inl err
            | Inr match \<Rightarrow>
                if match then Inr (True, ''allowed by BucketClaimPolicy '' @ quoted (m_name (bp_meta p)))
                else decide re bucketName ns (policies + 1) ps))"

definition namespaceAllowedForBucket ::
  "regexps \<Rightarrow> ('w, 'x) kube_scheme \<Rightarrow> reader \<Rightarrow> string \<Rightarrow> string \<Rightarrow> ('w, (bool \<times> string) result) go" where
  "namespaceAllowedForBucket re K c bucketName ns =
     do { r \<leftarrow> klist c KPolicy OPolicy (k_policies K) list_all_opts;
          case r of
            Inl err \<Rightarrow> return (Inl (wrap_err ''list BucketPolicies: '' err))
          | Inr items \<Rightarrow> return (decide re bucketName ns 0 items) }"

section \<open>The policy controller\<close>

fun firstInvalidPattern :: "regexps \<Rightarrow> string list \<Rightarrow> (string \<times> go_error) option" where
  "firstInvalidPattern re [] = None"
| "firstInvalidPattern re (p # ps) =
     (case re (anchor p) of Inl err \<Rightarrow> Some (p, err) | Inr _ \<Rightarrow> firstInvalidPattern re ps)"

definition bucketExists :: "('w, 'x) kube_scheme \<Rightarrow> string \<Rightarrow> ('w, bool) go" where
  "bucketExists K name =
     do { r \<leftarrow> kget Cached KBucket OBucket (k_buckets K) ([], name);
          return (case r of Inl _ \<Rightarrow> False | Inr _ \<Rightarrow> True) }"

definition empty_policy_status :: bucket_claim_policy_status where
  "empty_policy_status = \<lparr>bps_observed_generation = 0, bps_phase = PhaseUnset, bps_conditions = []\<rparr>"

definition policy_status_of ::
  "('w, 'x) kube_scheme \<Rightarrow> bucket_claim_policy \<Rightarrow> phase \<Rightarrow> condition_status \<Rightarrow> string \<Rightarrow> string
     \<Rightarrow> bucket_claim_policy_status \<Rightarrow> bucket_claim_policy_status" where
  "policy_status_of K policy ph condStatus reason message st =
     st\<lparr>bps_conditions := k_set_condition K (bps_conditions st)
            \<lparr>c_type = BucketClaimPolicyConditionReady, c_status = condStatus, c_reason = reason,
             c_message = message, c_observed_generation = m_generation (bp_meta policy), c_last_transition = 0\<rparr>,
         bps_observed_generation := m_generation (bp_meta policy),
         bps_phase := ph\<rparr>"

definition updatePolicyStatus ::
  "('w, 'x) kube_scheme \<Rightarrow> bucket_claim_policy \<Rightarrow> phase \<Rightarrow> condition_status \<Rightarrow> string \<Rightarrow> string \<Rightarrow> ('w, go_error option) go" where
  "updatePolicyStatus K policy ph condStatus reason message =
     k_retry K (do {
       r \<leftarrow> kget Cached KPolicy OPolicy (k_policies K) ([], m_name (bp_meta policy));
       case r of
         Inl err \<Rightarrow> return (Some err)
       | Inr latest \<Rightarrow>
           (let before = (case bp_status latest of None \<Rightarrow> empty_policy_status | Some st \<Rightarrow> st);
                after = policy_status_of K policy ph condStatus reason message before
            in if before = after then return None
               else kupdate_status KPolicy OPolicy (k_policies K) (latest\<lparr>bp_status := Some after\<rparr>)) })"

definition reconcilePolicy ::
  "regexps \<Rightarrow> ('w, 'x) kube_scheme \<Rightarrow> string \<Rightarrow> ('w, outcome) go" where
  "reconcilePolicy re K req =
     do { r \<leftarrow> kget Cached KPolicy OPolicy (k_policies K) ([], req);
          case r of
            Inl err \<Rightarrow> (if is_not_found err then return (None, None) else return (None, Some err))
          | Inr policy \<Rightarrow>
              do { verdict \<leftarrow>
                     (case firstInvalidPattern re (nm_patterns (bp_allowed_namespaces (bp_spec policy))) of
                        Some (badPattern, err) \<Rightarrow>
                          return (PhaseError, ConditionFalse, reasonError,
                                  ''invalid namespace pattern '' @ quoted badPattern @ '': '' @ emsg err)
                      | None \<Rightarrow>
                          do { ok \<leftarrow> bucketExists K (bp_bucket_ref (bp_spec policy));
                               return (if \<not> ok
                                 then (PhasePending, ConditionFalse, ''WaitingForBucket'',
                                       ''referenced Bucket '' @ quoted (bp_bucket_ref (bp_spec policy)) @ '' not found'')
                                 else (PhaseReady, ConditionTrue, reasonReady, ''policy is valid'')) });
                   e \<leftarrow> (case verdict of (ph, st, reason, msg) \<Rightarrow> updatePolicyStatus K policy ph st reason msg);
                   return (None, e) } }"

definition enqueueByBucket :: "('w, 'x) kube_scheme \<Rightarrow> string \<Rightarrow> ('w, string list) go" where
  "enqueueByBucket K bucketName =
     do { r \<leftarrow> klist Cached KPolicy OPolicy (k_policies K) list_all_opts;
          return (case r of Inl _ \<Rightarrow> []
            | Inr items \<Rightarrow> map (\<lambda>p. m_name (bp_meta p)) (filter (\<lambda>p. bp_bucket_ref (bp_spec p) = bucketName) items)) }"

section \<open>Lemmas\<close>

text \<open>What it means that a policy selects a namespace, independent of the order of the checks.\<close>

definition selects :: "regexps \<Rightarrow> namespace_match \<Rightarrow> string \<Rightarrow> bool" where
  "selects re m ns \<longleftrightarrow>
     ns \<in> set (nm_names m) \<or> (\<exists>pat \<in> set (nm_patterns m). \<exists>rx. re (anchor pat) = Inr rx \<and> rx ns)"

lemma matchPatterns_True:
  "matchPatterns re pats ns = Inr True \<Longrightarrow> \<exists>pat \<in> set pats. \<exists>rx. re (anchor pat) = Inr rx \<and> rx ns"
  by (induction pats) (auto split: sum.splits if_splits)

lemma matchPatterns_False:
  "matchPatterns re pats ns = Inr False \<Longrightarrow> \<forall>pat \<in> set pats. \<exists>rx. re (anchor pat) = Inr rx \<and> \<not> rx ns"
  by (induction pats) (auto split: sum.splits if_splits)

lemma matchPatterns_Inl:
  "matchPatterns re pats ns = Inl e \<Longrightarrow> \<exists>pat \<in> set pats. \<exists>err. re (anchor pat) = Inl err"
  by (induction pats) (auto split: sum.splits if_splits)

lemma namespaceMatches_Inr:
  "namespaceMatches re m ns = Inr b \<Longrightarrow> b \<longleftrightarrow> selects re m ns"
  by (cases b) (fastforce simp: namespaceMatches_def selects_def list_ex_iff
    dest: matchPatterns_True matchPatterns_False split: if_splits)+

lemma namespaceMatches_Inl:
  "namespaceMatches re m ns = Inl e \<Longrightarrow> firstInvalidPattern re (nm_patterns m) \<noteq> None"
proof -
  have "firstInvalidPattern re pats \<noteq> None" if "pat \<in> set pats" "re (anchor pat) = Inl err" for pats pat err
    using that by (induction pats) (auto split: sum.splits)
  then show "namespaceMatches re m ns = Inl e \<Longrightarrow> ?thesis"
    by (auto simp: namespaceMatches_def dest!: matchPatterns_Inl split: if_splits)
qed

lemma decide_Inr:
  "decide re b ns n ps = Inr (ok, msg) \<Longrightarrow>
     ok \<longleftrightarrow> (\<exists>p \<in> set ps. bp_bucket_ref (bp_spec p) = b \<and> selects re (bp_allowed_namespaces (bp_spec p)) ns)"
  by (induction re b ns n ps rule: decide.induct)
    (auto dest: namespaceMatches_Inr split: if_splits sum.splits)

lemma decide_Inl:
  "decide re b ns n ps = Inl e \<Longrightarrow>
     \<exists>p \<in> set ps. bp_bucket_ref (bp_spec p) = b
       \<and> firstInvalidPattern re (nm_patterns (bp_allowed_namespaces (bp_spec p))) \<noteq> None"
  by (induction re b ns n ps rule: decide.induct)
    (auto dest: namespaceMatches_Inl split: if_splits sum.splits)

lemma decide_no_policy:
  "(\<forall>p \<in> set ps. bp_bucket_ref (bp_spec p) \<noteq> b) \<Longrightarrow> \<exists>msg. decide re b ns n ps = Inr (False, msg)"
  by (induction ps) auto

section \<open>Properties\<close>

text \<open>C15: Deny by default. The decision reads the policies once, through the given reader, and allows the
  namespace exactly when some policy of that bucket selects it by name or by an anchored pattern; an
  error answer means the listing failed or a policy of the bucket has a pattern that does not compile.\<close>

theorem access_decision:
  "wp (namespaceAllowedForBucket re K c b ns)
     (\<lambda>res s'. case res of
        Inr (ok, msg) \<Rightarrow> (\<exists>ps. snd s' = t @ [EvList c KPolicy list_all_opts (Inr (map OPolicy ps))]
          \<and> (ok \<longleftrightarrow> (\<exists>p \<in> set ps. bp_bucket_ref (bp_spec p) = b \<and> selects re (bp_allowed_namespaces (bp_spec p)) ns)))
      | Inl e \<Rightarrow> (\<exists>ans. snd s' = t @ [EvList c KPolicy list_all_opts ans]
          \<and> (case ans of Inl _ \<Rightarrow> True
             | Inr objs \<Rightarrow> \<exists>p. OPolicy p \<in> set objs \<and> bp_bucket_ref (bp_spec p) = b
                 \<and> firstInvalidPattern re (nm_patterns (bp_allowed_namespaces (bp_spec p))) \<noteq> None))) (w, t)"
  unfolding namespaceAllowedForBucket_def klist_def
  by (intro wp_rules) (auto dest: decide_Inr dest!: decide_Inl split: sum.split)

text \<open>A policy whose patterns compile cannot make the decision fail: when every policy of the
  bucket passes the check that the policy controller and the admission webhook make, the decision is a
  verdict.\<close>

theorem valid_policies_decide:
  assumes "\<And>p. p \<in> set ps \<Longrightarrow> bp_bucket_ref (bp_spec p) = b \<Longrightarrow>
    firstInvalidPattern re (nm_patterns (bp_allowed_namespaces (bp_spec p))) = None"
  shows "\<exists>ok msg. decide re b ns n ps = Inr (ok, msg)"
  using assms decide_Inl by (cases "decide re b ns n ps") fastforce+

definition policy_for :: "string \<Rightarrow> string list \<Rightarrow> string list \<Rightarrow> bucket_claim_policy" where
  "policy_for b names pats =
     \<lparr>bp_meta = \<lparr>m_name = ''p'', m_namespace = [], m_labels = Map.empty, m_annotations = Map.empty,
        m_finalizers = [], m_deleting = False, m_generation = 3, m_owner = None\<rparr>,
      bp_spec = \<lparr>bp_bucket_ref = b, bp_allowed_namespaces = \<lparr>nm_names = names, nm_patterns = pats\<rparr>\<rparr>,
      bp_status = None\<rparr>"

text \<open>An instance of the regular expression parameter: the anchored literals without \<open>(\<close> compile
  and match themselves.\<close>

definition literal_regexps :: regexps where
  "literal_regexps p = (let lit = take (length p - 6) (drop 4 p) in
     if CHR ''('' \<in> set lit then Inl (new_err ''missing closing )'') else Inr (\<lambda>s. s = lit))"

lemma valid_policies_decide_witness:
  "\<exists>ok msg. decide literal_regexps ''logs'' ''team-a'' 0
     [policy_for ''other'' [] [''(''], policy_for ''logs'' [] [''team-a'']] = Inr (ok, msg)"
  by (rule valid_policies_decide)
    (auto simp: policy_for_def anchor_def literal_regexps_def)

text \<open>What justifies an event of the policy controller: reads are free, the only write is a status of
  the policy, in which phase and condition agree and which says Ready only after a policy with compiling
  patterns and the bucket it names were read.\<close>

definition read_valid_policy :: "regexps \<Rightarrow> string \<Rightarrow> event list \<Rightarrow> bool" where
  "read_valid_policy re req u \<longleftrightarrow> (\<exists>p b.
     EvGet Cached KPolicy ([], req) (Inr (OPolicy p)) \<in> set u
   \<and> EvGet Cached KBucket ([], bp_bucket_ref (bp_spec p)) (Inr (OBucket b)) \<in> set u
   \<and> firstInvalidPattern re (nm_patterns (bp_allowed_namespaces (bp_spec p))) = None)"

lemma read_valid_policy_mono: "read_valid_policy re req t \<Longrightarrow> set t \<subseteq> set u \<Longrightarrow> read_valid_policy re req u"
  unfolding read_valid_policy_def by blast

definition policy_event_ok ::
  "regexps \<Rightarrow> ('w, 'x) kube_scheme \<Rightarrow> string \<Rightarrow> event list \<Rightarrow> event \<Rightarrow> bool" where
  "policy_event_ok re K req u e = (case e of
      EvGet rd k ky r \<Rightarrow> True
    | EvUpdateStatus k (OPolicy x) r \<Rightarrow> (\<exists>st. bp_status x = Some st
        \<and> status_agrees K (bps_phase st) (bps_conditions st)
        \<and> (bps_phase st = PhaseReady \<longrightarrow> read_valid_policy re req u))
    | _ \<Rightarrow> False)"

definition policy_write :: "(bucket_claim_policy_status \<Rightarrow> bool) \<Rightarrow> event \<Rightarrow> bool" where
  "policy_write P e = (case e of
      EvGet rd k ky r \<Rightarrow> True
    | EvUpdateStatus k (OPolicy x) r \<Rightarrow> (\<exists>st. bp_status x = Some st \<and> P st)
    | _ \<Rightarrow> False)"

lemma updatePolicyStatus_emits:
  assumes "retry_law K"
  shows "emits (policy_write (\<lambda>st. \<exists>old. st = policy_status_of K policy ph cs reason msg old))
           (updatePolicyStatus K policy ph cs reason msg)"
  unfolding updatePolicyStatus_def kget_def kupdate_status_def
  by (rule emits_retry [OF assms], intro emits_rules) (auto simp: policy_write_def)

lemma policy_status_agrees:
  assumes "cond_law K" and "ph = PhaseReady \<longleftrightarrow> cs = ConditionTrue"
  shows "status_agrees K (bps_phase (policy_status_of K p ph cs r m old)) (bps_conditions (policy_status_of K p ph cs r m old))"
proof -
  let ?c = "\<lparr>c_type = BucketClaimPolicyConditionReady, c_status = cs, c_reason = r,
             c_message = m, c_observed_generation = m_generation (bp_meta p), c_last_transition = 0\<rparr>"
  obtain d where "k_find_condition K (k_set_condition K (bps_conditions old) ?c) (c_type ?c) = Some d" "cond_agree d ?c"
    using assms(1) unfolding cond_law_def by blast
  then show ?thesis
    using assms(2)
    by (auto simp: status_agrees_def policy_status_of_def conditionReady_def BucketClaimPolicyConditionReady_def cond_agree_def)
qed

lemma policy_status_pass:
  assumes retry: "retry_law K" and cond: "cond_law K"
  shows "wp (reconcilePolicy re K req) (\<lambda>out s'. justified (policy_event_ok re K req) (snd s')) (w, [])"
proof -
  have upd: "wp (updatePolicyStatus K p ph st r m) (\<lambda>a. wp (return (None, a))
      (\<lambda>out s'. justified (policy_event_ok re K req) (snd s'))) (v, t)"
    if "justified (policy_event_ok re K req) t" and "ph = PhaseReady \<longleftrightarrow> st = ConditionTrue"
      and "ph = PhaseReady \<Longrightarrow> read_valid_policy re req t"
    for p ph st r m v t
  proof (rule justified_emits [OF updatePolicyStatus_emits [OF retry] that(1)], goal_cases)
    case (1 u e)
    then have "ph = PhaseReady \<Longrightarrow> read_valid_policy re req u"
      using read_valid_policy_mono that(3) by blast
    with 1 show ?case
      using policy_status_agrees [OF cond that(2)]
      by (auto simp: policy_write_def policy_event_ok_def policy_status_of_def split: event.splits obj.splits)
  next
    case (2 a w' d)
    then show ?case by (intro wp_rules) simp
  qed
  show ?thesis
    unfolding reconcilePolicy_def bucketExists_def kget_def
    by (intro wp_rules upd)
      (auto simp: policy_event_ok_def read_valid_policy_def split: if_splits sum.splits)
qed

text \<open>The policy controller tells the truth. In every reconcile, against every answer of the API, each
  write is a status of the policy whose phase is Ready exactly when its Ready condition is True, and it is
  Ready only after the reconcile read a policy all of whose patterns compile and the bucket it names.\<close>

theorem policy_status_truthful:
  assumes retry: "retry_law K" and cond: "cond_law K"
  shows "wp (reconcilePolicy re K req) (\<lambda>out s'. justified (policy_event_ok re K req) (snd s')) (w, [])"
  by (rule policy_status_pass [OF assms])

definition policy_env :: "unit kube" where
  "policy_env = quiet_kube\<lparr>k_policies := answering (Inr (policy_for ''logs'' [] [''team-a''])) []\<rparr>"

lemma policy_env_laws: "retry_law policy_env" "cond_law policy_env"
  by (simp_all add: policy_env_def quiet_kube_def quiet_retry_law quiet_cond_law)

lemma policy_status_truthful_witness:
  "justified (policy_event_ok literal_regexps policy_env ''p'')
     (snd (snd (run_state (reconcilePolicy literal_regexps policy_env ''p'') ((), []))))"
  using policy_status_truthful [OF policy_env_laws, of literal_regexps "''p''" "()"]
  by (simp add: wp_def split: prod.splits)

end
