(* ===== verification/Reconcile.thy ===== *)
theory Reconcile
  imports Status_Fsm Driver Policy
begin

text \<open>
  What the reconcilers share: the optimistic status write of every \<open>updateStatus\<close>, the requeue decision
  of every \<open>finish\<close>, and the lemmas on them. An \<open>outcome\<close> is the delay of a requeue, if any,
  and the error.
\<close>

definition write_status ::
  "('w, 'x) kube_scheme \<Rightarrow> kind \<Rightarrow> ('o \<Rightarrow> obj) \<Rightarrow> ('o, 'w) resource \<Rightarrow> key \<Rightarrow> ('o \<Rightarrow> 'st option) \<Rightarrow>
     ('st \<Rightarrow> 'o \<Rightarrow> 'o) \<Rightarrow> 'st \<Rightarrow> ('st \<Rightarrow> 'st) \<Rightarrow> ('w, go_error option) go" where
  "write_status K k mk res ky fld put zero f =
     k_retry K (do {
       r \<leftarrow> kget Cached k mk res ky;
       case r of
         Inl err \<Rightarrow> return (Some err)
       | Inr latest \<Rightarrow>
           (let before = (case fld latest of None \<Rightarrow> zero | Some st \<Rightarrow> st); after = f before
            in if before = after then return None else kupdate_status k mk res (put after latest)) })"

text \<open>The end of every \<open>finish\<close>: an error of the reconcile wins over an error of the status write.\<close>

definition finish_with :: "('w, go_error option) go \<Rightarrow> go_error option \<Rightarrow> int option \<Rightarrow> ('w, outcome) go" where
  "finish_with update reconcileErr requeue =
     do { e \<leftarrow> update;
          let reconcileErr = (case e of None \<Rightarrow> reconcileErr
            | Some err \<Rightarrow> (case reconcileErr of None \<Rightarrow> Some err | Some e0 \<Rightarrow> Some e0));
          return (case reconcileErr of Some err \<Rightarrow> (None, Some err) | None \<Rightarrow> (requeue, None)) }"

text \<open>A status write reads the object and writes what it read with the new status.\<close>

definition status_write :: "kind \<Rightarrow> ('o \<Rightarrow> obj) \<Rightarrow> key \<Rightarrow> ('st \<Rightarrow> 'o \<Rightarrow> 'o) \<Rightarrow> ('st \<Rightarrow> 'st) \<Rightarrow> event list \<Rightarrow> event \<Rightarrow> bool" where
  "status_write k mk ky put f u e \<longleftrightarrow> (\<exists>r. e = EvGet Cached k ky r)
     \<or> (\<exists>old x r. e = EvUpdateStatus k (mk (put (f old) x)) r \<and> EvGet Cached k ky (Inr (mk x)) \<in> set u)"

lemma wp_finish_grown:
  assumes "wp update (\<lambda>_. grown P t) (w, t)" and "\<And>out w' d. justified P (t @ d) \<Longrightarrow> Q out (w', t @ d)"
  shows "wp (finish_with update err requeue) Q (w, t)"
  unfolding finish_with_def
  by (intro wp_bind wp_mono [OF assms(1)]) (auto intro!: wp_let wp_return assms(2) simp: grown_def)

lemma wp_finish_with:
  assumes "retry_law K" and "justified P t"
    and ok: "\<And>u e. set t \<subseteq> set u \<Longrightarrow> status_write k mk ky put f u e \<Longrightarrow> P u e"
    and fin: "\<And>out w' d. justified P (t @ d) \<Longrightarrow> Q out (w', t @ d)"
  shows "wp (finish_with (write_status K k mk res ky fld put zero f) err requeue) Q (w, t)"
proof (rule wp_finish_grown)
  show "wp (write_status K k mk res ky fld put zero f) (\<lambda>_. grown P t) (w, t)"
    unfolding write_status_def
  proof (rule wp_retry [OF assms(1), where I = "grown P t"], rule grown_start [OF assms(2)], goal_cases)
    case (1 s)
    obtain w u where s: "s = (w, u)" by (cases s)
    note get = grown_step [OF 1 [unfolded s] ok [OF grown_sub [OF 1 [unfolded s]]]]
    show ?case
      unfolding s kget_def kupdate_status_def Let_def
      by (intro wp_rules conjI get grown_step [OF get] ok) (use grown_sub [OF 1 [unfolded s]] in \<open>auto simp: status_write_def\<close>)
  qed
qed (rule fin)

text \<open>The finalizer protocol at the head of every \<open>Reconcile\<close>. \<open>adopted\<close>: the object as it was read, with the
  finalizer and nothing else changed. \<open>persisted\<close>: the object with the finalizer
  is in the API server: it was read so, or the update that adds it succeeded.\<close>

definition adopted :: "kind \<Rightarrow> ('o \<Rightarrow> obj) \<Rightarrow> ('o \<Rightarrow> object_meta) \<Rightarrow> ((object_meta \<Rightarrow> object_meta) \<Rightarrow> 'o \<Rightarrow> 'o) \<Rightarrow> key \<Rightarrow> event list \<Rightarrow> 'o \<Rightarrow> bool" where
  "adopted k mk meta upd ky u x \<longleftrightarrow> (\<exists>y. EvGet Cached k ky (Inr (mk y)) \<in> set u \<and> \<not> m_deleting (meta y) \<and> \<not> contains_finalizer (meta y)
     \<and> x = upd (\<lambda>_. add_finalizer (meta y)) y)"

lemma adoptedI [intro]:
  "EvGet Cached k ky (Inr (mk y)) \<in> set u \<Longrightarrow> \<not> m_deleting (meta y) \<Longrightarrow> \<not> contains_finalizer (meta y) \<Longrightarrow>
     adopted k mk meta upd ky u (upd (\<lambda>_. add_finalizer (meta y)) y)"
  unfolding adopted_def by blast

definition persisted :: "kind \<Rightarrow> ('o \<Rightarrow> obj) \<Rightarrow> key \<Rightarrow> event list \<Rightarrow> 'o \<Rightarrow> bool" where
  "persisted k mk ky u x \<longleftrightarrow> EvGet Cached k ky (Inr (mk x)) \<in> set u \<or> EvUpdate k (mk x) None \<in> set u"

lemma persisted_mono: "persisted k mk ky t x \<Longrightarrow> set t \<subseteq> set u \<Longrightarrow> persisted k mk ky u x"
  unfolding persisted_def by blast

lemma persisted_app [simp]: "persisted k mk ky t x \<Longrightarrow> persisted k mk ky (t @ d) x"
  by (erule persisted_mono) simp

lemma deleting_finalizer [simp]:
  "m_deleting (add_finalizer m) = m_deleting m" "m_deleting (remove_finalizer m) = m_deleting m"
  by (simp_all add: add_finalizer_def remove_finalizer_def)

text \<open>A driver was asked and the call succeeded.\<close>

definition driver_done :: "driver_call \<Rightarrow> event list \<Rightarrow> bool" where
  "driver_done d u \<longleftrightarrow> EvDriver d \<in> set u"

lemma driver_done_app [simp]:
  "driver_done d (e # u) \<longleftrightarrow> e = EvDriver d \<or> driver_done d u"
  "driver_done d (u @ v) \<longleftrightarrow> driver_done d u \<or> driver_done d v"
  by (auto simp: driver_done_def)

lemma driver_done_mono: "driver_done d t \<Longrightarrow> set t \<subseteq> set u \<Longrightarrow> driver_done d u"
  unfolding driver_done_def by blast

context stage_fsm
begin

lemma settled_ready_iff:
  assumes "cond_law K" and "settled ord s"
  shows "derivePhase (k_find_condition K) (flush K conds s) ord = PhaseReady \<longleftrightarrow> aggregateReady s"
  by (simp add: settled_phase [OF assms])

end

text \<open>A configuration for the witnesses.\<close>

definition demo_options :: options where
  "demo_options = \<lparr>Loglevel = ''4'', HealthProbeBindAddress = '':8081'', ControllerNamespace = ''d8-sds-object'',
     MaxConcurrentReconciles = 4, RequeueInterval = 10000000000, SecurityResyncInterval = 60000000000,
     ReconcileTimeout = 300000000000, GarageImage = ''garage'', SeaweedFSImage = ''seaweedfs'', ClusterDomain = ''cluster.local''\<rparr>"

end
