(* ===== verification/Store_Controller.thy ===== *)
theory Store_Controller
  imports Reconcile
begin

text \<open>
  \<open>controller/object_store_controller.go\<close>: the reconciler of object stores.
\<close>

definition oscStageOrder :: "string list" where
  "oscStageOrder = [ObjectStoreConditionBackendReady, ObjectStoreConditionEndpointReady]"

interpretation osc: stage_fsm oscStageOrder
  by unfold_locales (simp_all add: oscStageOrder_def condition_type_defs conditionReady_def)

definition controlPlaneNode :: "node \<Rightarrow> bool" where
  "controlPlaneNode n \<longleftrightarrow> m_labels (node_meta n) ''node-role.kubernetes.io/control-plane'' \<noteq> None"

definition enqueueSystemObjectStores :: "('w, 'x) kube_scheme \<Rightarrow> ('w, string list) go" where
  "enqueueSystemObjectStores K =
     do { r \<leftarrow> klist Cached KStore OStore (k_stores K) list_all_opts;
          return (case r of Inl _ \<Rightarrow> []
            | Inr items \<Rightarrow> map (\<lambda>c. m_name (os_meta c)) (filter (\<lambda>c. os_type (os_spec c) = ClusterTypeSystem) items)) }"

section \<open>Status\<close>

definition empty_store_status :: object_store_status where
  "empty_store_status = \<lparr>oss_observed_generation = 0, oss_phase = PhaseUnset, oss_backend = None, oss_endpoint = None,
     oss_capacity = None, oss_admin_secret_ref = None, oss_conditions = []\<rparr>"

definition store_status_of ::
  "('w, 'x) kube_scheme \<Rightarrow> object_store \<Rightarrow> status_builder \<Rightarrow> cluster_state option \<Rightarrow> object_store_status \<Rightarrow> object_store_status" where
  "store_status_of K cluster sb state st =
     (let conds = flush K (oss_conditions st) sb;
          st = st\<lparr>oss_conditions := conds, oss_observed_generation := m_generation (os_meta cluster),
                  oss_phase := derivePhase (k_find_condition K) conds oscStageOrder\<rparr>
      in case state of
           None \<Rightarrow> st
         | Some s \<Rightarrow>
             (let st = st\<lparr>oss_backend := Some (cs_backend s), oss_endpoint := Some (cs_endpoint s)\<rparr>;
                  st = (case cs_capacity s of None \<Rightarrow> st | Some q \<Rightarrow> st\<lparr>oss_capacity := Some q\<rparr>)
              in if cs_admin_secret_name s \<noteq> [] then st\<lparr>oss_admin_secret_ref := Some (cs_admin_secret_name s)\<rparr> else st))"

definition store_updateStatus ::
  "('w, 'x) kube_scheme \<Rightarrow> object_store \<Rightarrow> status_builder \<Rightarrow> cluster_state option \<Rightarrow> ('w, go_error option) go" where
  "store_updateStatus K cluster sb state =
     write_status K KStore OStore (k_stores K) ([], m_name (os_meta cluster)) os_status
       (\<lambda>st x. x\<lparr>os_status := Some st\<rparr>) empty_store_status (store_status_of K cluster sb state)"

definition store_finish ::
  "options \<Rightarrow> ('w, 'x) kube_scheme \<Rightarrow> object_store \<Rightarrow> status_builder \<Rightarrow> cluster_state option \<Rightarrow> go_error option \<Rightarrow> ('w, outcome) go" where
  "store_finish cfg K cluster sb state err =
     finish_with (store_updateStatus K cluster sb state) err (Some (RequeueInterval cfg))"

section \<open>Reconcile\<close>

definition store_reconcileDelete ::
  "'w registry \<Rightarrow> ('w, 'x) kube_scheme \<Rightarrow> object_store \<Rightarrow> ('w, go_error option) go" where
  "store_reconcileDelete reg K cluster =
     (if \<not> contains_finalizer (os_meta cluster) then return None
      else do { derr \<leftarrow> (case Registry_For reg cluster of Inl _ \<Rightarrow> return None | Inr driver \<Rightarrow> DeleteCluster driver cluster);
                case derr of
                  Some err \<Rightarrow> return (Some err)
                | None \<Rightarrow> kupdate KStore OStore (k_stores K) (cluster\<lparr>os_meta := remove_finalizer (os_meta cluster)\<rparr>) })"

definition store_reconcileNormal ::
  "'w registry \<Rightarrow> options \<Rightarrow> ('w, 'x) kube_scheme \<Rightarrow> object_store \<Rightarrow> ('w, outcome) go" where
  "store_reconcileNormal reg cfg K cluster =
     do { now \<leftarrow> sample (k_now K);
          let status = newStatusBuilder (m_generation (os_meta cluster)) now in
          case Registry_For reg cluster of
            Inl err \<Rightarrow>
              store_finish cfg K cluster
                (gateAfter (setCondition status ObjectStoreConditionBackendReady ConditionFalse reasonError (emsg err))
                   oscStageOrder ObjectStoreConditionBackendReady) None (Some err)
          | Inr driver \<Rightarrow>
              do { se \<leftarrow> EnsureCluster driver cluster;
                   case se of (state, err) \<Rightarrow>
                     (case advance status oscStageOrder ObjectStoreConditionBackendReady (cs_ready state) (cs_message state) err of
                        (status, ok) \<Rightarrow>
                          if \<not> ok then store_finish cfg K cluster status (Some state) err
                          else (let endpointReady = (ep_internal (cs_endpoint state) \<noteq> []);
                                    endpointMsg = (if \<not> endpointReady then ''waiting for the backend to publish an S3 endpoint''
                                      else ''S3 endpoint is available'')
                                in case advance status oscStageOrder ObjectStoreConditionEndpointReady endpointReady endpointMsg None of
                                     (status, ok) \<Rightarrow>
                                       if \<not> ok then store_finish cfg K cluster status (Some state) None
                                       else store_finish cfg K cluster
                                              (setCondition status ObjectStoreConditionReady ConditionTrue reasonReady ''All stages reconciled'')
                                              (Some state) None)) } }"

definition store_Reconcile ::
  "'w registry \<Rightarrow> options \<Rightarrow> ('w, 'x) kube_scheme \<Rightarrow> string \<Rightarrow> ('w, outcome) go" where
  "store_Reconcile reg cfg K req =
     do { r \<leftarrow> kget Cached KStore OStore (k_stores K) ([], req);
          case r of
            Inl err \<Rightarrow> if is_not_found err then return (None, None) else return (None, Some err)
          | Inr cluster \<Rightarrow>
              if m_deleting (os_meta cluster)
              then do { e \<leftarrow> store_reconcileDelete reg K cluster; return (None, e) }
              else if \<not> contains_finalizer (os_meta cluster)
              then (let cluster = cluster\<lparr>os_meta := add_finalizer (os_meta cluster)\<rparr> in
                    do { e \<leftarrow> kupdate KStore OStore (k_stores K) cluster;
                         case e of Some err \<Rightarrow> return (None, Some err) | None \<Rightarrow> store_reconcileNormal reg cfg K cluster })
              else store_reconcileNormal reg cfg K cluster }"

section \<open>What a reconcile may do\<close>

text \<open>\<open>c\<close> is the store a reconcile is for.\<close>

definition store_ready_evidence :: "event list \<Rightarrow> object_store \<Rightarrow> object_store_status \<Rightarrow> bool" where
  "store_ready_evidence u c st \<longleftrightarrow> (\<exists>cs. driver_done (DrvEnsureCluster c (cs, None)) u
     \<and> cs_ready cs \<and> ep_internal (cs_endpoint cs) \<noteq> [] \<and> oss_endpoint st = Some (cs_endpoint cs))"

definition store_released :: "'w registry \<Rightarrow> string \<Rightarrow> event list \<Rightarrow> object_store \<Rightarrow> bool" where
  "store_released reg req u x \<longleftrightarrow> (\<exists>c. EvGet Cached KStore ([], req) (Inr (OStore c)) \<in> set u \<and> m_deleting (os_meta c)
     \<and> contains_finalizer (os_meta c) \<and> x = c\<lparr>os_meta := remove_finalizer (os_meta c)\<rparr>
     \<and> ((\<exists>err. Registry_For reg c = Inl err) \<or> driver_done (DrvDeleteCluster c None) u))"

definition store_event_ok :: "'w registry \<Rightarrow> ('w, 'x) kube_scheme \<Rightarrow> string \<Rightarrow> event list \<Rightarrow> event \<Rightarrow> bool" where
  "store_event_ok reg K req u e = (case e of
      EvGet rd k ky r \<Rightarrow> True
    | EvUpdate k (OStore x) r \<Rightarrow> adopted KStore OStore os_meta os_meta_update ([], req) u x \<or> store_released reg req u x
    | EvDriver (DrvEnsureCluster c r) \<Rightarrow> \<not> m_deleting (os_meta c) \<and> contains_finalizer (os_meta c)
        \<and> persisted KStore OStore ([], req) u c
    | EvDriver (DrvDeleteCluster c r) \<Rightarrow> m_deleting (os_meta c) \<and> contains_finalizer (os_meta c)
        \<and> persisted KStore OStore ([], req) u c
    | EvUpdateStatus k (OStore x) r \<Rightarrow> (\<exists>c y st. persisted KStore OStore ([], req) u c
        \<and> EvGet Cached KStore ([], m_name (os_meta c)) (Inr (OStore y)) \<in> set u \<and> x = y\<lparr>os_status := Some st\<rparr>
        \<and> status_agrees K (oss_phase st) (oss_conditions st)
        \<and> (oss_phase st = PhaseReady \<longrightarrow> store_ready_evidence u c st))
    | _ \<Rightarrow> False)"

lemma store_ready_evidenceI:
  "driver_done (DrvEnsureCluster c (cs, None)) u \<Longrightarrow> cs_ready cs \<Longrightarrow> ep_internal (cs_endpoint cs) \<noteq> [] \<Longrightarrow>
     oss_endpoint st = Some (cs_endpoint cs) \<Longrightarrow> store_ready_evidence u c st"
  unfolding store_ready_evidence_def by blast

lemma store_ready_evidence_mono: "store_ready_evidence t c st \<Longrightarrow> set t \<subseteq> set u \<Longrightarrow> store_ready_evidence u c st"
  unfolding store_ready_evidence_def using driver_done_mono by metis

lemma store_status_fields:
  "oss_phase (store_status_of K c sb s st) = derivePhase (k_find_condition K) (flush K (oss_conditions st) sb) oscStageOrder"
  "oss_conditions (store_status_of K c sb s st) = flush K (oss_conditions st) sb"
  "oss_endpoint (store_status_of K c sb (Some cs) st) = Some (cs_endpoint cs)"
  by (simp_all add: store_status_of_def Let_def split: option.split)

text \<open>Finishing with a settled builder writes a truthful status.\<close>

lemma wp_store_finish:
  assumes "retry_law K" and "cond_law K" and "justified (store_event_ok reg K req) t" and "settled oscStageOrder sb"
    and "persisted KStore OStore ([], req) t cluster"
    and "aggregateReady sb \<Longrightarrow> (\<exists>cs. driver_done (DrvEnsureCluster cluster (cs, None)) t
       \<and> cs_ready cs \<and> ep_internal (cs_endpoint cs) \<noteq> [] \<and> state = Some cs)"
    and "\<And>out w' d. justified (store_event_ok reg K req) (t @ d) \<Longrightarrow> Q out (w', t @ d)"
  shows "wp (store_finish cfg K cluster sb state err) Q (w, t)"
  unfolding store_finish_def store_updateStatus_def
proof (rule wp_finish_with [OF assms(1,3)], goal_cases)
  case (1 u e)
  have "status_agrees K (oss_phase (store_status_of K cluster sb state old)) (oss_conditions (store_status_of K cluster sb state old))" for old
    using osc.settled_agrees [OF assms(2,4)] by (simp add: store_status_fields)
  moreover have "store_ready_evidence u cluster (store_status_of K cluster sb state old)"
    if "oss_phase (store_status_of K cluster sb state old) = PhaseReady" for old
  proof -
    have "aggregateReady sb" using that osc.settled_ready_iff [OF assms(2,4)] by (simp add: store_status_fields)
    then have "store_ready_evidence t cluster (store_status_of K cluster sb state old)"
      using assms(6) by (auto simp: store_status_fields intro: store_ready_evidenceI)
    then show ?thesis using 1(1) by (rule store_ready_evidence_mono)
  qed
  moreover have "persisted KStore OStore ([], req) u cluster" using assms(5) 1(1) by (rule persisted_mono)
  ultimately show ?case using 1(2) by (fastforce simp: status_write_def store_event_ok_def)
qed (rule assms(7))

lemma wp_store_normal:
  assumes "retry_law K" and "cond_law K" and "justified (store_event_ok reg K req) t"
    and "\<not> m_deleting (os_meta c)" and "contains_finalizer (os_meta c)" and "persisted KStore OStore ([], req) t c"
  shows "wp (store_reconcileNormal reg cfg K c) (\<lambda>out s'. justified (store_event_ok reg K req) (snd s')) (w, t)"
proof -
  note fin = wp_store_finish [OF assms(1,2), where reg = reg and req = req]
  have gate: "settled oscStageOrder (gateAfter (setCondition sb ObjectStoreConditionBackendReady ConditionFalse r m) oscStageOrder ObjectStoreConditionBackendReady)"
    "\<not> aggregateReady (gateAfter (setCondition sb ObjectStoreConditionBackendReady ConditionFalse r m) oscStageOrder ObjectStoreConditionBackendReady)" for sb r m
    using osc.gate_settles [OF osc.passed_0, of ObjectStoreConditionBackendReady] by (simp_all add: oscStageOrder_def)
  have stop1: "settled oscStageOrder sb' \<and> \<not> aggregateReady sb'" if "advance sb oscStageOrder ObjectStoreConditionBackendReady d m e = (sb', False)" for sb sb' d m e
    using osc.advance_stops [OF osc.passed_0 _ _ that] by (simp add: oscStageOrder_def)
  have done1: "passed oscStageOrder 1 sb' \<and> d \<and> e = None" if "advance sb oscStageOrder ObjectStoreConditionBackendReady d m e = (sb', True)" for sb sb' d m e
    using osc.advance_done [OF osc.passed_0 _ _ that] that by (auto simp: oscStageOrder_def advance_def split: option.splits if_splits)
  have stop2: "settled oscStageOrder sb' \<and> \<not> aggregateReady sb'" if "passed oscStageOrder 1 sb" "advance sb oscStageOrder ObjectStoreConditionEndpointReady d m e = (sb', False)" for sb sb' d m e
    using osc.advance_stops [OF that(1) _ _ that(2)] by (simp add: oscStageOrder_def)
  have done2: "d \<and> settled oscStageOrder (setCondition sb' ObjectStoreConditionReady ConditionTrue r x)"
    if "passed oscStageOrder 1 sb" "advance sb oscStageOrder ObjectStoreConditionEndpointReady d m e = (sb', True)" for sb sb' d m e r x
    using osc.advance_done [OF that(1) _ _ that(2)] osc.all_passed_settles [of sb' r x] that(2)
    by (auto simp: oscStageOrder_def ObjectStoreConditionReady_def conditionReady_def advance_def split: option.splits if_splits)
  show ?thesis
    unfolding store_reconcileNormal_def EnsureCluster_def Let_def
    by (intro wp_bind wp_sample wp_case_sum wp_call wp_case_prod wp_if fin)
      (use assms(3-6) in \<open>auto simp: gate store_event_ok_def dest!: stop1 done1 dest: stop2 done2\<close>)
qed

section \<open>Properties\<close>

lemma store_pass:
  assumes "retry_law K" and "cond_law K"
  shows "wp (store_Reconcile reg cfg K req) (\<lambda>out s'. justified (store_event_ok reg K req) (snd s')) (w, [])"
  unfolding store_Reconcile_def store_reconcileDelete_def kget_def kupdate_def DeleteCluster_def Let_def
  by (intro wp_rules wp_store_normal [OF assms])
    (auto simp: store_event_ok_def store_released_def persisted_def split: sum.splits)

text \<open>C4: A reconcile of an object store is safe, against every answer of the API server and of the driver.
  The driver is asked for a cluster only when the store was read without a deletion mark and its finalizer is
  stored, and to delete one only when the store is being deleted; the finalizer is added to the store as it was read, and given up only after the driver
  deleted the cluster (or when no driver can have made one), with nothing else of the object changed; in every
  status written, phase and Ready condition agree, and it is Ready only when the driver reported a ready
  cluster with an endpoint, which is the one published.\<close>

theorem store_reconcile_safe:
  assumes "retry_law K" and "cond_law K"
  shows "wp (store_Reconcile reg cfg K req) (\<lambda>out s'. justified (store_event_ok reg K req) (snd s')) (w, [])"
  by (rule store_pass [OF assms])

definition demo_store :: object_store where
  "demo_store = \<lparr>os_meta = (fresh_meta ''main'' [] Map.empty)\<lparr>m_generation := 1\<rparr>,
     os_spec = \<lparr>os_type = ClusterTypeLightweight, os_storage = None, os_placement = None,
       os_redundancy = RedundancyStandard, os_reclaim_policy = ClusterReclaimRetain, os_elastic_cluster_ref = []\<rparr>,
     os_status = None\<rparr>"

definition store_env :: "unit kube" where
  "store_env = quiet_kube\<lparr>k_stores := answering (Inr demo_store) []\<rparr>"

lemma store_env_laws: "retry_law store_env" "cond_law store_env"
  by (simp_all add: store_env_def quiet_kube_def quiet_retry_law quiet_cond_law)

lemma store_reconcile_safe_witness:
  "justified (store_event_ok DefaultRegistry store_env ''main'')
     (snd (snd (run_state (store_Reconcile DefaultRegistry demo_options store_env ''main'') ((), []))))"
  using store_reconcile_safe [OF store_env_laws, of DefaultRegistry demo_options "''main''" "()"]
  by (simp add: wp_def split: prod.splits)

end
