(* ===== verification/Claim_Name.thy ===== *)
theory Claim_Name
  imports Driver
begin

text \<open>
  \<open>controller/bucket_claim_controller.go\<close>: the name of the bucket that a greenfield claim owns.
\<close>

definition alnum :: "char \<Rightarrow> bool" where
  "alnum r \<longleftrightarrow> (let n = (of_char r :: nat) in (97 \<le> n \<and> n \<le> 122) \<or> (48 \<le> n \<and> n \<le> 57))"

fun dash_runs :: "bool \<Rightarrow> string \<Rightarrow> string" where
  "dash_runs prevDash [] = []"
| "dash_runs prevDash (r # rs) =
     (if alnum r then r # dash_runs False rs
      else if \<not> prevDash then CHR ''-'' # dash_runs True rs
      else dash_runs prevDash rs)"

definition sanitizeDNSLabel :: "string \<Rightarrow> string" where
  "sanitizeDNSLabel s = trim_char CHR ''-'' (dash_runs False (to_lower s))"

definition greenfieldBucketName :: "bucket_claim \<Rightarrow> string" where
  "greenfieldBucketName claim =
     (let short = take 10 (sha256_hex (m_namespace (bc_meta claim) @ ''/'' @ m_name (bc_meta claim)));
          name = ReservedBucketNamePrefix @ short;
          base = sanitizeDNSLabel (m_namespace (bc_meta claim) @ ''-'' @ m_name (bc_meta claim));
          name = (if base \<noteq> [] then name @ ''-'' @ base else name);
          name = (if length name > 63 then take 63 name else name)
      in trim_char CHR ''-'' name)"

section \<open>Lemmas\<close>

definition dns_char :: "char \<Rightarrow> bool" where
  "dns_char c \<longleftrightarrow> alnum c \<or> c = CHR ''-''"

lemma dns_dash_runs: "c \<in> set (dash_runs pd s) \<Longrightarrow> dns_char c"
  by (induction pd s rule: dash_runs.induct) (auto simp: dns_char_def split: if_splits)

lemma dns_sanitize: "c \<in> set (sanitizeDNSLabel s) \<Longrightarrow> dns_char c"
  using set_trim_char dns_dash_runs unfolding sanitizeDNSLabel_def by blast

lemma hex_alnum: "is_hex c \<Longrightarrow> alnum c"
  by (auto simp: is_hex_def alnum_def Let_def)

lemma dash_not_hex: "\<not> is_hex CHR ''-''"
  by (simp add: is_hex_def)

text \<open>Trimming keeps a head that neither begins nor ends with the cut character.\<close>

lemma trim_char_keeps:
  assumes "p \<noteq> []" and "hd p \<noteq> c" and "last p \<noteq> c"
  shows "\<exists>q'. trim_char c (p @ q) = p @ q' \<and> prefix q' q"
proof -
  have 1: "dropWhile (\<lambda>x. x = c) (p @ q) = p @ q" using assms(1,2) by (cases p) auto
  have "hd (rev p) \<noteq> c" "rev p \<noteq> []" using assms(1,3) by (simp_all add: hd_rev)
  then have stop: "dropWhile (\<lambda>x. x = c) (rev p) = rev p" by (cases "rev p") simp_all
  have "\<exists>u. suffix u r \<and> dropWhile (\<lambda>x. x = c) (r @ rev p) = u @ rev p" for r
    by (induction r) (auto simp: stop suffix_def)
  then obtain u where "suffix u (rev q)" "dropWhile (\<lambda>x. x = c) (rev q @ rev p) = u @ rev p" by blast
  then show ?thesis
    by (intro exI [of _ "rev u"]) (simp add: trim_char_def 1 suffix_to_prefix)
qed

lemma greenfield_shape:
  "\<exists>r. greenfieldBucketName c = ReservedBucketNamePrefix
         @ take 10 (sha256_hex (m_namespace (bc_meta c) @ ''/'' @ m_name (bc_meta c))) @ r
     \<and> length r \<le> 47 \<and> (\<forall>x \<in> set r. dns_char x) \<and> (r \<noteq> [] \<longrightarrow> last r \<noteq> CHR ''-'')"
proof -
  define h where "h = take 10 (sha256_hex (m_namespace (bc_meta c) @ ''/'' @ m_name (bc_meta c)))"
  define b where "b = sanitizeDNSLabel (m_namespace (bc_meta c) @ ''-'' @ m_name (bc_meta c))"
  define q where "q = take 47 (if b \<noteq> [] then ''-'' @ b else [])"
  have hlen: "length h = 10" by (simp add: h_def)
  have len: "length (ReservedBucketNamePrefix @ h) = 16" by (simp add: hlen ReservedBucketNamePrefix_def)
  have name: "greenfieldBucketName c = trim_char CHR ''-'' ((ReservedBucketNamePrefix @ h) @ q)"
    using hlen unfolding greenfieldBucketName_def h_def [symmetric] b_def [symmetric] Let_def
    by (simp add: q_def ReservedBucketNamePrefix_def)
  have h: "h \<noteq> []" using hlen by auto
  have "CHR ''-'' \<notin> set h" using sha256_hex_hex dash_not_hex by (auto simp: h_def dest!: in_set_takeD)
  then have "last h \<noteq> CHR ''-''" using last_in_set [OF h] by metis
  then have p: "ReservedBucketNamePrefix @ h \<noteq> []" "hd (ReservedBucketNamePrefix @ h) \<noteq> CHR ''-''"
      "last (ReservedBucketNamePrefix @ h) \<noteq> CHR ''-''"
    unfolding last_appendR [OF h] by (simp_all add: ReservedBucketNamePrefix_def)
  obtain r where r: "trim_char CHR ''-'' ((ReservedBucketNamePrefix @ h) @ q) = (ReservedBucketNamePrefix @ h) @ r" "prefix r q"
    using trim_char_keeps [OF p] by blast
  have "dns_char x" if "x \<in> set r" for x
    using that set_mono_prefix [OF r(2)] dns_sanitize
    by (auto simp: dns_char_def q_def b_def split: if_splits dest!: in_set_takeD)
  moreover have "length r \<le> 47" using prefix_length_le [OF r(2)] by (simp add: q_def)
  moreover have "last r \<noteq> CHR ''-''" if "r \<noteq> []"
    using trim_char_hd_last(2) [of "CHR ''-''" "(ReservedBucketNamePrefix @ h) @ q"] that unfolding r(1) by simp
  ultimately show ?thesis
    unfolding h_def [symmetric] name r(1) by (intro exI [of _ r]) simp
qed

section \<open>Properties\<close>

text \<open>C32: The bucket name derived for a greenfield claim is a valid DNS label and S3 bucket name whatever the
  claim is called: at most 63 characters of \<open>[a-z0-9-]\<close>, at least 16, not starting or ending with a dash, under
  the reserved prefix; and two claims share a name only when the first 40 bits of the SHA-256 of
  their keys agree, so truncation of long names never merges two claims.\<close>

theorem greenfield_name_valid:
  "length (greenfieldBucketName c) \<le> 63 \<and> length (greenfieldBucketName c) \<ge> 16
   \<and> has_prefix (greenfieldBucketName c) ReservedBucketNamePrefix
   \<and> list_all dns_char (greenfieldBucketName c)
   \<and> alnum (hd (greenfieldBucketName c)) \<and> alnum (last (greenfieldBucketName c))
   \<and> take 10 (drop 6 (greenfieldBucketName c))
       = take 10 (sha256_hex (m_namespace (bc_meta c) @ ''/'' @ m_name (bc_meta c)))"
proof -
  define h where "h = take 10 (sha256_hex (m_namespace (bc_meta c) @ ''/'' @ m_name (bc_meta c)))"
  obtain r where r: "greenfieldBucketName c = ''claim-'' @ h @ r" "length r \<le> 47"
      "\<forall>x \<in> set r. dns_char x" "r \<noteq> [] \<longrightarrow> last r \<noteq> CHR ''-''"
    using greenfield_shape [of c] unfolding h_def [symmetric] ReservedBucketNamePrefix_def by blast
  have h: "length h = 10" "\<forall>x \<in> set h. alnum x"
    using sha256_hex_hex hex_alnum by (auto simp: h_def dest!: in_set_takeD)
  then have ne: "h \<noteq> []" by auto
  have "alnum (last (h @ r))"
  proof (cases "r = []")
    case True
    then show ?thesis using h(2) ne by simp
  next
    case False
    then show ?thesis using r(3,4) last_in_set [OF False] by (auto simp: dns_char_def)
  qed
  moreover have "list_all dns_char (''claim-'' @ h @ r)"
    using h(2) r(3) by (auto simp: list_all_iff dns_char_def alnum_def)
  ultimately show ?thesis
    unfolding r(1) h_def [symmetric] using ne h(1) r(2)
    by (simp add: alnum_def ReservedBucketNamePrefix_def has_prefix_def)
qed

end
