(* ===== verification/Bucket_Controller.thy ===== *)
theory Bucket_Controller
  imports Store_Controller
begin

text \<open>
  \<open>controller/bucket_controller.go\<close>: the reconciler of buckets. A bucket waits for its object store, is made by
  the store's driver, and is released only when the driver deleted it or the store is gone.
\<close>

definition osbStageOrder :: "string list" where
  "osbStageOrder = [BucketConditionBucketReady]"

interpretation osb: stage_fsm osbStageOrder
  by unfold_locales (simp_all add: osbStageOrder_def condition_type_defs conditionReady_def)

record bucket_observed =
  bo_bucket_name :: string
  bo_endpoint :: string

definition no_bucket_observed :: bucket_observed where
  "no_bucket_observed = \<lparr>bo_bucket_name = [], bo_endpoint = []\<rparr>"

text \<open>\<open>None\<close> is the empty string of the code.\<close>

definition clusterReadyState :: "('w, 'x) kube_scheme \<Rightarrow> object_store \<Rightarrow> condition_status option" where
  "clusterReadyState K c =
     (case os_status c of
        None \<Rightarrow> None
      | Some st \<Rightarrow> map_option c_status (k_find_condition K (oss_conditions st) ObjectStoreConditionReady))"

definition clusterReadyPredicate :: "('w, 'x) kube_scheme \<Rightarrow> object_store \<Rightarrow> object_store \<Rightarrow> bool" where
  "clusterReadyPredicate K oldC newC \<longleftrightarrow> clusterReadyState K oldC \<noteq> clusterReadyState K newC"

definition enqueueBucketsByCluster :: "('w, 'x) kube_scheme \<Rightarrow> string \<Rightarrow> ('w, string list) go" where
  "enqueueBucketsByCluster K clusterName =
     do { r \<leftarrow> klist Cached KBucket OBucket (k_buckets K) list_all_opts;
          return (case r of Inl _ \<Rightarrow> []
            | Inr items \<Rightarrow> map (\<lambda>b. m_name (b_meta b)) (filter (\<lambda>b. b_object_store_ref (b_spec b) = clusterName) items)) }"

definition getCluster :: "('w, 'x) kube_scheme \<Rightarrow> string \<Rightarrow> ('w, object_store result) go" where
  "getCluster K name =
     (if name = [] then return (Inl (new_err ''spec.objectStoreRef is empty''))
      else kget Cached KStore OStore (k_stores K) ([], name))"

section \<open>Status\<close>

definition empty_bucket_status :: bucket_status where
  "empty_bucket_status = \<lparr>bs_observed_generation = 0, bs_phase = PhaseUnset, bs_endpoint = [], bs_bucket_name = [],
     bs_conditions = []\<rparr>"

definition bucket_status_of ::
  "('w, 'x) kube_scheme \<Rightarrow> bucket \<Rightarrow> status_builder \<Rightarrow> bucket_observed \<Rightarrow> bucket_status \<Rightarrow> bucket_status" where
  "bucket_status_of K bkt sb observed st =
     (let conds = flush K (bs_conditions st) sb;
          st = st\<lparr>bs_conditions := conds, bs_observed_generation := m_generation (b_meta bkt),
                  bs_phase := derivePhase (k_find_condition K) conds osbStageOrder\<rparr>;
          st = (if bo_endpoint observed \<noteq> [] then st\<lparr>bs_endpoint := bo_endpoint observed\<rparr> else st)
      in if bo_bucket_name observed \<noteq> [] then st\<lparr>bs_bucket_name := bo_bucket_name observed\<rparr> else st)"

definition bucket_updateStatus ::
  "('w, 'x) kube_scheme \<Rightarrow> bucket \<Rightarrow> status_builder \<Rightarrow> bucket_observed \<Rightarrow> ('w, go_error option) go" where
  "bucket_updateStatus K bkt sb observed =
     write_status K KBucket OBucket (k_buckets K) ([], m_name (b_meta bkt)) b_status
       (\<lambda>st x. x\<lparr>b_status := Some st\<rparr>) empty_bucket_status (bucket_status_of K bkt sb observed)"

definition bucket_finish ::
  "options \<Rightarrow> ('w, 'x) kube_scheme \<Rightarrow> bucket \<Rightarrow> status_builder \<Rightarrow> bucket_observed \<Rightarrow> go_error option \<Rightarrow> ('w, outcome) go" where
  "bucket_finish cfg K bkt sb observed err =
     finish_with (bucket_updateStatus K bkt sb observed) err
       (if aggregateReady sb then None else Some (RequeueInterval cfg))"

section \<open>Reconcile\<close>

definition bucket_reconcileDelete ::
  "'w registry \<Rightarrow> ('w, 'x) kube_scheme \<Rightarrow> bucket \<Rightarrow> ('w, go_error option) go" where
  "bucket_reconcileDelete reg K bkt =
     (if \<not> contains_finalizer (b_meta bkt) then return None
      else do { r \<leftarrow> getCluster K (b_object_store_ref (b_spec bkt));
                derr \<leftarrow> (case r of
                    Inl err \<Rightarrow> return (if is_not_found err then None else Some err)
                  | Inr cluster \<Rightarrow> (case Registry_For reg cluster of
                        Inl derr \<Rightarrow> return (Some derr)
                      | Inr driver \<Rightarrow> DeleteBucket driver cluster bkt));
                case derr of
                  Some err \<Rightarrow> return (Some err)
                | None \<Rightarrow> kupdate KBucket OBucket (k_buckets K) (bkt\<lparr>b_meta := remove_finalizer (b_meta bkt)\<rparr>) })"

definition features_condition :: "status_builder \<Rightarrow> object_store \<Rightarrow> string list \<Rightarrow> status_builder" where
  "features_condition status cluster unsupported =
     (if unsupported = []
      then setCondition status BucketConditionFeaturesApplied ConditionTrue reasonReady
             ''all requested features are enforced by the backend''
      else setCondition status BucketConditionFeaturesApplied ConditionFalse ''Unsupported''
             (''backend '' @ cluster_type_str (os_type (os_spec cluster)) @ '' does not enforce: '' @ join_str '', '' unsupported))"

definition bucket_reconcileNormal ::
  "'w registry \<Rightarrow> options \<Rightarrow> ('w, 'x) kube_scheme \<Rightarrow> bucket \<Rightarrow> ('w, outcome) go" where
  "bucket_reconcileNormal reg cfg K bkt =
     do { now \<leftarrow> sample (k_now K);
          let status = newStatusBuilder (m_generation (b_meta bkt)) now; observed = no_bucket_observed;
              ref = b_object_store_ref (b_spec bkt);
              stop = (\<lambda>status reason msg. gateAfter (setCondition status BucketConditionBucketReady ConditionFalse reason msg)
                 osbStageOrder BucketConditionBucketReady) in
          do { r \<leftarrow> getCluster K ref;
               case r of
                 Inl err \<Rightarrow> bucket_finish cfg K bkt
                   (stop status ''WaitingForCluster'' (''ObjectStore '' @ quoted ref @ '' is not available: '' @ emsg err)) observed None
               | Inr cluster \<Rightarrow>
                   (let observed = (case os_status cluster of
                              None \<Rightarrow> observed
                            | Some st \<Rightarrow> (case oss_endpoint st of None \<Rightarrow> observed
                                | Some ep \<Rightarrow> observed\<lparr>bo_endpoint := ep_internal ep\<rparr>))
                    in if clusterReadyState K cluster \<noteq> Some ConditionTrue
                       then bucket_finish cfg K bkt
                              (stop status ''WaitingForCluster'' (''ObjectStore '' @ quoted ref @ '' is not Ready'')) observed None
                       else (case Registry_For reg cluster of
                           Inl err \<Rightarrow> bucket_finish cfg K bkt (stop status reasonError (emsg err)) observed (Some err)
                         | Inr driver \<Rightarrow>
                             do { se \<leftarrow> EnsureBucket driver cluster bkt;
                                  case se of (state, err) \<Rightarrow>
                                    (let observed = observed\<lparr>bo_bucket_name := bst_bucket_name state\<rparr>
                                     in case advance status osbStageOrder BucketConditionBucketReady (bst_ready state) (bst_message state) err of
                                          (status, ok) \<Rightarrow>
                                            if \<not> ok then bucket_finish cfg K bkt status observed err
                                            else (let status = features_condition status cluster (bst_unsupported state);
                                                      status = setCondition status BucketConditionReady ConditionTrue reasonReady
                                                                 ''All stages reconciled''
                                                  in bucket_finish cfg K bkt status observed None)) })) } }"

definition bucket_Reconcile ::
  "'w registry \<Rightarrow> options \<Rightarrow> ('w, 'x) kube_scheme \<Rightarrow> string \<Rightarrow> ('w, outcome) go" where
  "bucket_Reconcile reg cfg K req =
     do { r \<leftarrow> kget Cached KBucket OBucket (k_buckets K) ([], req);
          case r of
            Inl err \<Rightarrow> if is_not_found err then return (None, None) else return (None, Some err)
          | Inr bkt \<Rightarrow>
              if m_deleting (b_meta bkt)
              then do { e \<leftarrow> bucket_reconcileDelete reg K bkt; return (None, e) }
              else if \<not> contains_finalizer (b_meta bkt)
              then (let bkt = bkt\<lparr>b_meta := add_finalizer (b_meta bkt)\<rparr> in
                    do { e \<leftarrow> kupdate KBucket OBucket (k_buckets K) bkt;
                         case e of Some err \<Rightarrow> return (None, Some err) | None \<Rightarrow> bucket_reconcileNormal reg cfg K bkt })
              else bucket_reconcileNormal reg cfg K bkt }"

section \<open>What a reconcile may do\<close>

definition read_ready_store :: "('w, 'x) kube_scheme \<Rightarrow> event list \<Rightarrow> bucket \<Rightarrow> object_store \<Rightarrow> bool" where
  "read_ready_store K u b c \<longleftrightarrow> EvGet Cached KStore ([], b_object_store_ref (b_spec b)) (Inr (OStore c)) \<in> set u
     \<and> clusterReadyState K c = Some ConditionTrue"

definition bucket_made ::
  "('w, 'x) kube_scheme \<Rightarrow> event list \<Rightarrow> bucket \<Rightarrow> bucket_state \<Rightarrow> bool" where
  "bucket_made K u b s \<longleftrightarrow> (\<exists>c. read_ready_store K u b c \<and> driver_done (DrvEnsureBucket c b (s, None)) u \<and> bst_ready s)"

definition bucket_ready_evidence :: "('w, 'x) kube_scheme \<Rightarrow> event list \<Rightarrow> bucket \<Rightarrow> bucket_status \<Rightarrow> bool" where
  "bucket_ready_evidence K u b st \<longleftrightarrow> (\<exists>s. bucket_made K u b s
     \<and> (bst_bucket_name s \<noteq> [] \<longrightarrow> bs_bucket_name st = bst_bucket_name s)
     \<and> (\<exists>d. k_find_condition K (bs_conditions st) BucketConditionFeaturesApplied = Some d
          \<and> c_status d = (if bst_unsupported s = [] then ConditionTrue else ConditionFalse)))"

definition bucket_released :: "string \<Rightarrow> event list \<Rightarrow> bucket \<Rightarrow> bool" where
  "bucket_released req u x \<longleftrightarrow> (\<exists>b. EvGet Cached KBucket ([], req) (Inr (OBucket b)) \<in> set u \<and> m_deleting (b_meta b)
     \<and> contains_finalizer (b_meta b) \<and> x = b\<lparr>b_meta := remove_finalizer (b_meta b)\<rparr>
     \<and> ((\<exists>e. EvGet Cached KStore ([], b_object_store_ref (b_spec b)) (Inl e) \<in> set u \<and> is_not_found e)
      \<or> (\<exists>c. EvGet Cached KStore ([], b_object_store_ref (b_spec b)) (Inr (OStore c)) \<in> set u
            \<and> driver_done (DrvDeleteBucket c b None) u)))"

definition bucket_event_ok :: "('w, 'x) kube_scheme \<Rightarrow> string \<Rightarrow> event list \<Rightarrow> event \<Rightarrow> bool" where
  "bucket_event_ok K req u e = (case e of
      EvGet rd k ky r \<Rightarrow> True
    | EvUpdate k (OBucket x) r \<Rightarrow> adopted KBucket OBucket b_meta b_meta_update ([], req) u x \<or> bucket_released req u x
    | EvDriver (DrvEnsureBucket c b r) \<Rightarrow> \<not> m_deleting (b_meta b) \<and> contains_finalizer (b_meta b)
        \<and> persisted KBucket OBucket ([], req) u b \<and> read_ready_store K u b c
    | EvDriver (DrvDeleteBucket c b r) \<Rightarrow> m_deleting (b_meta b) \<and> contains_finalizer (b_meta b)
        \<and> persisted KBucket OBucket ([], req) u b
    | EvUpdateStatus k (OBucket x) r \<Rightarrow> (\<exists>b y st. persisted KBucket OBucket ([], req) u b
        \<and> EvGet Cached KBucket ([], m_name (b_meta b)) (Inr (OBucket y)) \<in> set u \<and> x = y\<lparr>b_status := Some st\<rparr>
        \<and> status_agrees K (bs_phase st) (bs_conditions st)
        \<and> (bs_phase st = PhaseReady \<longrightarrow> bucket_ready_evidence K u b st))
    | _ \<Rightarrow> False)"

lemma bucket_made_mono: "bucket_made K t b s \<Longrightarrow> set t \<subseteq> set u \<Longrightarrow> bucket_made K u b s"
  unfolding bucket_made_def read_ready_store_def using driver_done_mono by (metis subsetD)

lemma bucket_status_fields:
  "bs_phase (bucket_status_of K b sb ob st) = derivePhase (k_find_condition K) (flush K (bs_conditions st) sb) osbStageOrder"
  "bs_conditions (bucket_status_of K b sb ob st) = flush K (bs_conditions st) sb"
  "bo_bucket_name ob \<noteq> [] \<Longrightarrow> bs_bucket_name (bucket_status_of K b sb ob st) = bo_bucket_name ob"
  by (simp_all add: bucket_status_of_def Let_def)

lemma wp_bucket_finish:
  assumes "retry_law K" and "cond_law K" and "justified (bucket_event_ok K req) t" and "settled osbStageOrder sb"
    and "persisted KBucket OBucket ([], req) t b"
    and "aggregateReady sb \<Longrightarrow> (\<exists>s. bucket_made K t b s \<and> bo_bucket_name ob = bst_bucket_name s
       \<and> stat sb BucketConditionFeaturesApplied = Some (if bst_unsupported s = [] then ConditionTrue else ConditionFalse))"
    and "\<And>out w' d. justified (bucket_event_ok K req) (t @ d) \<Longrightarrow> Q out (w', t @ d)"
  shows "wp (bucket_finish cfg K b sb ob err) Q (w, t)"
  unfolding bucket_finish_def bucket_updateStatus_def
proof (rule wp_finish_with [OF assms(1,3)], goal_cases)
  case (1 u e)
  let ?st = "bucket_status_of K b sb ob"
  have "status_agrees K (bs_phase (?st old)) (bs_conditions (?st old))" for old
    using osb.settled_agrees [OF assms(2,4)] by (simp add: bucket_status_fields)
  moreover have "bucket_ready_evidence K u b (?st old)" if "bs_phase (?st old) = PhaseReady" for old
  proof -
    have "aggregateReady sb" using that osb.settled_ready_iff [OF assms(2,4)] by (simp add: bucket_status_fields)
    then obtain s where "bucket_made K u b s" "bo_bucket_name ob = bst_bucket_name s"
      "stat sb BucketConditionFeaturesApplied = Some (if bst_unsupported s = [] then ConditionTrue else ConditionFalse)"
      using assms(6) 1(1) bucket_made_mono by blast
    then show ?thesis
      using flush_stat [OF assms(2), of sb BucketConditionFeaturesApplied _ "bs_conditions old"]
      unfolding bucket_ready_evidence_def
      by (intro exI [of _ s]) (auto simp: bucket_status_fields)
  qed
  moreover have "persisted KBucket OBucket ([], req) u b" using assms(5) 1(1) by (rule persisted_mono)
  ultimately show ?case using 1(2) by (fastforce simp: status_write_def bucket_event_ok_def)
qed (rule assms(7))

lemma stat_features:
  "stat (features_condition sb c us) t =
     (if t = BucketConditionFeaturesApplied then Some (if us = [] then ConditionTrue else ConditionFalse) else stat sb t)"
  by (simp add: features_condition_def)

lemma features_not_ready: "BucketConditionFeaturesApplied \<noteq> BucketConditionReady"
  by (simp add: condition_type_defs)

lemma wp_bucket_normal:
  assumes "retry_law K" and "cond_law K" and "justified (bucket_event_ok K req) t"
    and "\<not> m_deleting (b_meta b)" and "contains_finalizer (b_meta b)" and "persisted KBucket OBucket ([], req) t b"
  shows "wp (bucket_reconcileNormal reg cfg K b) (\<lambda>out s'. justified (bucket_event_ok K req) (snd s')) (w, t)"
proof -
  note fin = wp_bucket_finish [OF assms(1,2), where req = req]
  have gate: "settled osbStageOrder (gateAfter (setCondition sb BucketConditionBucketReady ConditionFalse r m) osbStageOrder BucketConditionBucketReady)"
    "\<not> aggregateReady (gateAfter (setCondition sb BucketConditionBucketReady ConditionFalse r m) osbStageOrder BucketConditionBucketReady)" for sb r m
    using osb.gate_settles [OF osb.passed_0, of BucketConditionBucketReady] by (simp_all add: osbStageOrder_def)
  have stop: "settled osbStageOrder sb' \<and> \<not> aggregateReady sb'" if "advance sb osbStageOrder BucketConditionBucketReady d m e = (sb', False)" for sb sb' d m e
    using osb.advance_stops [OF osb.passed_0 _ _ that] by (simp add: osbStageOrder_def)
  have finished: "d \<and> e = None \<and> settled osbStageOrder (setCondition (features_condition sb' c us) BucketConditionReady ConditionTrue r x)"
    if "advance sb osbStageOrder BucketConditionBucketReady d m e = (sb', True)" for sb sb' d m e r x c us
    using osb.advance_done [OF osb.passed_0 _ _ that] osb.all_passed_settles [of "features_condition sb' c us" r x] that
    by (auto simp: osbStageOrder_def condition_type_defs conditionReady_def advance_def passed_def stat_features
        split: option.splits if_splits)
  show ?thesis
    unfolding bucket_reconcileNormal_def getCluster_def kget_def EnsureBucket_def Let_def
    by (intro wp_bind wp_return wp_sample wp_case_sum wp_call wp_case_prod wp_if fin)
      (use assms(3-6) in \<open>auto simp: gate bucket_event_ok_def read_ready_store_def persisted_def bucket_made_def no_bucket_observed_def
         features_not_ready stat_features dest!: stop dest: finished split: option.split\<close>)
qed

section \<open>Properties\<close>

lemma bucket_pass:
  assumes "retry_law K" and "cond_law K"
  shows "wp (bucket_Reconcile reg cfg K req) (\<lambda>out s'. justified (bucket_event_ok K req) (snd s')) (w, [])"
  unfolding bucket_Reconcile_def bucket_reconcileDelete_def getCluster_def kget_def kupdate_def DeleteBucket_def Let_def
  by (intro wp_rules wp_bucket_normal [OF assms])
    (auto simp: bucket_event_ok_def bucket_released_def persisted_def split: sum.splits if_splits)

text \<open>C3: A reconcile of a bucket is safe, against every answer of the API server and of the driver. A bucket is
  made only when its finalizer is stored and its object store was read with a True Ready condition; the finalizer is
  added to the bucket as it was read, and given up only after the driver deleted the bucket or the store was reported not
  found (any other error keeps it), with nothing else of the object changed; in every status written, phase and Ready condition agree, and
  it is Ready only when the driver reported the bucket ready, under the name the driver gave, with
  \<open>FeaturesApplied\<close> True exactly when the driver reported no unsupported feature.\<close>

theorem bucket_reconcile_safe:
  assumes "retry_law K" and "cond_law K"
  shows "wp (bucket_Reconcile reg cfg K req) (\<lambda>out s'. justified (bucket_event_ok K req) (snd s')) (w, [])"
  by (rule bucket_pass [OF assms])

definition plain_bucket :: bucket where
  "plain_bucket = \<lparr>b_meta = (fresh_meta ''logs'' [] Map.empty)\<lparr>m_generation := 1\<rparr>,
     b_spec = \<lparr>b_object_store_ref = ''main'', b_bucket_name = [], b_access_policy = AccessPolicyPrivate,
       b_reclaim_policy = BucketReclaimRetain, b_quota = None\<rparr>,
     b_status = None\<rparr>"

definition bucket_env :: "unit kube" where
  "bucket_env = quiet_kube\<lparr>k_stores := answering (Inr demo_store) [], k_buckets := answering (Inr plain_bucket) []\<rparr>"

lemma bucket_env_laws: "retry_law bucket_env" "cond_law bucket_env"
  by (simp_all add: bucket_env_def quiet_kube_def quiet_retry_law quiet_cond_law)

lemma bucket_reconcile_safe_witness:
  "justified (bucket_event_ok bucket_env ''logs'')
     (snd (snd (run_state (bucket_Reconcile DefaultRegistry demo_options bucket_env ''logs'') ((), []))))"
  using bucket_reconcile_safe [OF bucket_env_laws, of DefaultRegistry demo_options "''logs''" "()"]
  by (simp add: wp_def split: prod.splits)

end
