(* ===== verification/Claim_Controller.thy ===== *)
theory Claim_Controller
  imports Claim_Name Bucket_Controller
begin

text \<open>
  \<open>controller/bucket_claim_controller.go\<close>: the reconciler of bucket claims. A greenfield claim owns the bucket it
  creates; a brownfield claim binds a shared bucket, when a policy read past the cache allows its namespace.
\<close>

definition bucketClaimStageOrder :: "string list" where
  "bucketClaimStageOrder = [BucketClaimConditionBound, BucketClaimConditionBucketReady]"

interpretation claim_stages: stage_fsm bucketClaimStageOrder
  by unfold_locales (simp_all add: bucketClaimStageOrder_def condition_type_defs conditionReady_def)

record claim_observed =
  co_bound_bucket_name :: string
  co_endpoint :: string

definition no_claim_observed :: claim_observed where
  "no_claim_observed = \<lparr>co_bound_bucket_name = [], co_endpoint = []\<rparr>"

text \<open>\<open>bucketReadyState\<close> of \<open>bucket_access_controller.go\<close>; \<open>None\<close> is the empty string.\<close>

definition bucketReadyState :: "('w, 'x) kube_scheme \<Rightarrow> bucket \<Rightarrow> condition_status option" where
  "bucketReadyState K b =
     (case b_status b of
        None \<Rightarrow> None
      | Some st \<Rightarrow> map_option c_status (k_find_condition K (bs_conditions st) BucketConditionReady))"

section \<open>Watches\<close>

definition claim_key :: "bucket_claim \<Rightarrow> key" where
  "claim_key c = (m_namespace (bc_meta c), m_name (bc_meta c))"

definition claims_of_bucket :: "('w, 'x) kube_scheme \<Rightarrow> bucket \<Rightarrow> ('w, key list) go" where
  "claims_of_bucket K o' =
     do { r \<leftarrow> klist Cached KClaim OClaim (k_claims K) list_all_opts;
          return (case r of Inl _ \<Rightarrow> []
            | Inr items \<Rightarrow>
                (let ownerNS = map_str (m_labels (b_meta o')) LabelOwnedByClaimNamespace;
                     ownerName = map_str (m_labels (b_meta o')) LabelOwnedByClaimName
                 in map claim_key (filter (\<lambda>c. bc_existing_bucket_name (bc_spec c) = m_name (b_meta o')
                      \<or> m_namespace (bc_meta c) = ownerNS \<and> m_name (bc_meta c) = ownerName) items))) }"

definition enqueueByPolicy :: "('w, 'x) kube_scheme \<Rightarrow> bucket_claim_policy \<Rightarrow> ('w, key list) go" where
  "enqueueByPolicy K policy =
     do { r \<leftarrow> klist Cached KClaim OClaim (k_claims K) list_all_opts;
          return (case r of Inl _ \<Rightarrow> []
            | Inr items \<Rightarrow> map claim_key (filter (\<lambda>c. bc_existing_bucket_name (bc_spec c) = bp_bucket_ref (bp_spec policy)) items)) }"

section \<open>Status\<close>

definition empty_claim_status :: bucket_claim_status where
  "empty_claim_status = \<lparr>bcs_observed_generation = 0, bcs_phase = PhaseUnset, bcs_bound_bucket_name = [], bcs_endpoint = [],
     bcs_conditions = []\<rparr>"

definition claim_status_of ::
  "('w, 'x) kube_scheme \<Rightarrow> bucket_claim \<Rightarrow> status_builder \<Rightarrow> claim_observed \<Rightarrow> bucket_claim_status \<Rightarrow> bucket_claim_status" where
  "claim_status_of K claim sb observed st =
     (let conds = flush K (bcs_conditions st) sb;
          st = st\<lparr>bcs_conditions := conds, bcs_observed_generation := m_generation (bc_meta claim),
                  bcs_phase := derivePhase (k_find_condition K) conds bucketClaimStageOrder\<rparr>;
          st = (if co_bound_bucket_name observed \<noteq> [] then st\<lparr>bcs_bound_bucket_name := co_bound_bucket_name observed\<rparr> else st)
      in if co_endpoint observed \<noteq> [] then st\<lparr>bcs_endpoint := co_endpoint observed\<rparr> else st)"

definition claim_updateStatus ::
  "('w, 'x) kube_scheme \<Rightarrow> bucket_claim \<Rightarrow> status_builder \<Rightarrow> claim_observed \<Rightarrow> ('w, go_error option) go" where
  "claim_updateStatus K claim sb observed =
     write_status K KClaim OClaim (k_claims K) (claim_key claim) bc_status
       (\<lambda>st x. x\<lparr>bc_status := Some st\<rparr>) empty_claim_status (claim_status_of K claim sb observed)"

definition claim_finish ::
  "options \<Rightarrow> ('w, 'x) kube_scheme \<Rightarrow> bucket_claim \<Rightarrow> status_builder \<Rightarrow> claim_observed \<Rightarrow> go_error option \<Rightarrow> ('w, outcome) go" where
  "claim_finish cfg K claim sb observed err =
     finish_with (claim_updateStatus K claim sb observed) err
       (if aggregateReady sb then Some (SecurityResyncInterval cfg) else Some (RequeueInterval cfg))"

section \<open>Binding\<close>

text \<open>The helpers that the code calls with the builder: \<open>Inr None\<close> is \<open>gated\<close>, the builder then holds the
  reason.\<close>

definition not_bound :: "status_builder \<Rightarrow> string \<Rightarrow> string \<Rightarrow> status_builder" where
  "not_bound status reason msg =
     gateAfter (setCondition status BucketClaimConditionBound ConditionFalse reason msg) bucketClaimStageOrder BucketClaimConditionBound"

definition ensureBrownfield ::
  "regexps \<Rightarrow> ('w, 'x) kube_scheme \<Rightarrow> bucket_claim \<Rightarrow> status_builder \<Rightarrow> ('w, status_builder \<times> string option result) go" where
  "ensureBrownfield re K claim status =
     (let name = bc_existing_bucket_name (bc_spec claim) in
      do { r \<leftarrow> kget Cached KBucket OBucket (k_buckets K) ([], name);
           case r of
             Inl err \<Rightarrow>
               (if is_not_found err
                then return (not_bound status ''WaitingForBucket'' (''Shared Bucket '' @ quoted name @ '' not found''), Inr None)
                else return (status, Inl err))
           | Inr bkt \<Rightarrow>
               if map_str (m_labels (b_meta bkt)) LabelBucketOrigin = BucketOriginBucketClaim
               then return (not_bound status ''NotShared''
                      (''Bucket '' @ quoted name @ '' is owned by another claim and cannot be bound''), Inr None)
               else do { v \<leftarrow> namespaceAllowedForBucket re K Uncached name (m_namespace (bc_meta claim));
                         case v of
                           Inl err \<Rightarrow> return (status, Inl err)
                         | Inr verdict \<Rightarrow>
                             (case verdict of (allowed, reason) \<Rightarrow>
                                if \<not> allowed then return (not_bound status ''DeniedByPolicy'' reason, Inr None)
                                else return (status, Inr (Some name))) } })"

definition greenfield_mutate :: "bucket_claim \<Rightarrow> bucket \<Rightarrow> bucket result" where
  "greenfield_mutate claim b = Inr (b
     \<lparr>b_meta := (b_meta b)\<lparr>m_labels := (m_labels (b_meta b))
        (LabelBucketOrigin \<mapsto> BucketOriginBucketClaim,
         LabelOwnedByClaimNamespace \<mapsto> m_namespace (bc_meta claim),
         LabelOwnedByClaimName \<mapsto> m_name (bc_meta claim))\<rparr>,
      b_spec := (b_spec b)\<lparr>b_object_store_ref := bc_object_store_ref (bc_spec claim),
        b_access_policy := bc_access_policy (bc_spec claim), b_reclaim_policy := bc_reclaim_policy (bc_spec claim),
        b_quota := bc_quota (bc_spec claim)\<rparr>\<rparr>)"

definition bare_bucket :: "string \<Rightarrow> bucket" where
  "bare_bucket name = \<lparr>b_meta = fresh_meta name [] Map.empty,
     b_spec = \<lparr>b_object_store_ref = [], b_bucket_name = [], b_access_policy = AccessPolicyOther [],
       b_reclaim_policy = BucketReclaimOther [], b_quota = None\<rparr>, b_status = None\<rparr>"

definition ensureGreenfield ::
  "('w, 'x) kube_scheme \<Rightarrow> bucket_claim \<Rightarrow> status_builder \<Rightarrow> ('w, status_builder \<times> string option result) go" where
  "ensureGreenfield K claim status =
     (if bc_object_store_ref (bc_spec claim) = []
      then return (not_bound status ''MissingObjectStoreRef'' ''spec.objectStoreRef is required for a greenfield claim'', Inr None)
      else (let name = greenfieldBucketName claim in
            do { r \<leftarrow> kcreate_or_update KBucket OBucket (k_buckets K) ([], name) (bare_bucket name) (greenfield_mutate claim);
                 case r of
                   Inl err \<Rightarrow> return (status, Inl err)
                 | Inr _ \<Rightarrow> return (status, Inr (Some name)) }))"

definition ensureBound ::
  "regexps \<Rightarrow> ('w, 'x) kube_scheme \<Rightarrow> bucket_claim \<Rightarrow> status_builder \<Rightarrow> ('w, status_builder \<times> string option result) go" where
  "ensureBound re K claim status =
     (if bc_existing_bucket_name (bc_spec claim) \<noteq> [] then ensureBrownfield re K claim status
      else ensureGreenfield K claim status)"

section \<open>Reconcile\<close>

definition referencingAccesses :: "('w, 'x) kube_scheme \<Rightarrow> bucket_claim \<Rightarrow> ('w, int result) go" where
  "referencingAccesses K claim =
     do { r \<leftarrow> klist Cached KAccess OAccess (k_accesses K) (in_namespace (m_namespace (bc_meta claim)));
          return (case r of Inl err \<Rightarrow> Inl err
            | Inr items \<Rightarrow> Inr (int (length (filter (\<lambda>a. ba_bucket_claim_name (ba_spec a) = m_name (bc_meta claim)) items)))) }"

definition claim_reconcileDelete ::
  "options \<Rightarrow> ('w, 'x) kube_scheme \<Rightarrow> bucket_claim \<Rightarrow> ('w, outcome) go" where
  "claim_reconcileDelete cfg K claim =
     (if \<not> contains_finalizer (bc_meta claim) then return (None, None)
      else do { r \<leftarrow> referencingAccesses K claim;
                case r of
                  Inl err \<Rightarrow> return (None, Some err)
                | Inr refs \<Rightarrow>
                    if refs > 0 then return (Some (RequeueInterval cfg), None)
                    else do { derr \<leftarrow> (if bc_existing_bucket_name (bc_spec claim) = []
                                then do { e \<leftarrow> kdelete KBucket (k_buckets K) ([], greenfieldBucketName claim);
                                          return (case e of None \<Rightarrow> None | Some err \<Rightarrow> if is_not_found err then None else Some err) }
                                else return None);
                              case derr of
                                Some err \<Rightarrow> return (None, Some err)
                              | None \<Rightarrow> do { e \<leftarrow> kupdate KClaim OClaim (k_claims K) (claim\<lparr>bc_meta := remove_finalizer (bc_meta claim)\<rparr>);
                                            return (None, e) } } })"

definition claim_reconcileNormal ::
  "regexps \<Rightarrow> options \<Rightarrow> ('w, 'x) kube_scheme \<Rightarrow> bucket_claim \<Rightarrow> ('w, outcome) go" where
  "claim_reconcileNormal re cfg K claim =
     do { now \<leftarrow> sample (k_now K);
          let status = newStatusBuilder (m_generation (bc_meta claim)) now; observed = no_claim_observed in
          do { b \<leftarrow> ensureBound re K claim status;
               case b of (status, bound) \<Rightarrow>
                 (case bound of
                    Inl err \<Rightarrow> claim_finish cfg K claim
                      (gateAfter (setCondition status BucketClaimConditionBound ConditionFalse reasonError (emsg err))
                         bucketClaimStageOrder BucketClaimConditionBound) observed (Some err)
                  | Inr gated \<Rightarrow>
                      (case gated of
                         None \<Rightarrow> claim_finish cfg K claim status observed None
                       | Some boundName \<Rightarrow>
                           (let observed = observed\<lparr>co_bound_bucket_name := boundName\<rparr>;
                                status = setCondition status BucketClaimConditionBound ConditionTrue reasonReady ''bucket bound'' in
                            do { r \<leftarrow> kget Cached KBucket OBucket (k_buckets K) ([], boundName);
                                 case r of
                                   Inl err \<Rightarrow> claim_finish cfg K claim
                                     (gateAfter (setCondition status BucketClaimConditionBucketReady ConditionFalse reasonInProgress
                                          (''bound Bucket '' @ quoted boundName @ '' is not available yet: '' @ emsg err))
                                        bucketClaimStageOrder BucketClaimConditionBucketReady) observed None
                                 | Inr bkt \<Rightarrow>
                                     (let observed = (case b_status bkt of None \<Rightarrow> observed
                                            | Some st \<Rightarrow> if bs_endpoint st \<noteq> [] then observed\<lparr>co_endpoint := bs_endpoint st\<rparr> else observed)
                                      in case advance status bucketClaimStageOrder BucketClaimConditionBucketReady
                                                (bucketReadyState K bkt = Some ConditionTrue) ''bound bucket is Ready'' None of
                                           (status, ok) \<Rightarrow>
                                             if \<not> ok then claim_finish cfg K claim status observed None
                                             else claim_finish cfg K claim
                                                    (setCondition status BucketClaimConditionReady ConditionTrue reasonReady ''All stages reconciled'')
                                                    observed None) }))) } }"

definition claim_Reconcile ::
  "regexps \<Rightarrow> options \<Rightarrow> ('w, 'x) kube_scheme \<Rightarrow> key \<Rightarrow> ('w, outcome) go" where
  "claim_Reconcile re cfg K req =
     do { r \<leftarrow> kget Cached KClaim OClaim (k_claims K) req;
          case r of
            Inl err \<Rightarrow> if is_not_found err then return (None, None) else return (None, Some err)
          | Inr claim \<Rightarrow>
              if m_deleting (bc_meta claim) then claim_reconcileDelete cfg K claim
              else if \<not> contains_finalizer (bc_meta claim)
              then (let claim = claim\<lparr>bc_meta := add_finalizer (bc_meta claim)\<rparr> in
                    do { e \<leftarrow> kupdate KClaim OClaim (k_claims K) claim;
                         case e of Some err \<Rightarrow> return (None, Some err) | None \<Rightarrow> claim_reconcileNormal re cfg K claim })
              else claim_reconcileNormal re cfg K claim }"

section \<open>What a reconcile may do\<close>

definition policy_allows :: "regexps \<Rightarrow> event list \<Rightarrow> string \<Rightarrow> string \<Rightarrow> bool" where
  "policy_allows re u b ns \<longleftrightarrow> (\<exists>ps. EvList Uncached KPolicy list_all_opts (Inr (map OPolicy ps)) \<in> set u
     \<and> (\<exists>p \<in> set ps. bp_bucket_ref (bp_spec p) = b \<and> selects re (bp_allowed_namespaces (bp_spec p)) ns))"

definition bound_to :: "regexps \<Rightarrow> event list \<Rightarrow> bucket_claim \<Rightarrow> string \<Rightarrow> bool" where
  "bound_to re u c n \<longleftrightarrow> (if bc_existing_bucket_name (bc_spec c) \<noteq> []
     then n = bc_existing_bucket_name (bc_spec c)
       \<and> (\<exists>b. EvGet Cached KBucket ([], n) (Inr (OBucket b)) \<in> set u
            \<and> map_str (m_labels (b_meta b)) LabelBucketOrigin \<noteq> BucketOriginBucketClaim)
       \<and> policy_allows re u n (m_namespace (bc_meta c))
     else bc_object_store_ref (bc_spec c) \<noteq> [] \<and> n = greenfieldBucketName c
       \<and> (\<exists>x b. EvCreateOrUpdate KBucket ([], n) x (Inr (OBucket b)) \<in> set u))"

definition claim_active :: "key \<Rightarrow> event list \<Rightarrow> bucket_claim \<Rightarrow> bool" where
  "claim_active req u c \<longleftrightarrow> persisted KClaim OClaim req u c \<and> \<not> m_deleting (bc_meta c) \<and> contains_finalizer (bc_meta c)"

definition read_ready_bucket :: "('w, 'x) kube_scheme \<Rightarrow> event list \<Rightarrow> string \<Rightarrow> bool" where
  "read_ready_bucket K u n \<longleftrightarrow> (\<exists>b. EvGet Cached KBucket ([], n) (Inr (OBucket b)) \<in> set u
     \<and> bucketReadyState K b = Some ConditionTrue)"

definition cond_true :: "('w, 'x) kube_scheme \<Rightarrow> condition list \<Rightarrow> string \<Rightarrow> bool" where
  "cond_true K conds t \<longleftrightarrow> (\<exists>d. k_find_condition K conds t = Some d \<and> c_status d = ConditionTrue)"

definition unreferenced :: "event list \<Rightarrow> bucket_claim \<Rightarrow> bool" where
  "unreferenced u c \<longleftrightarrow> (\<exists>as. EvList Cached KAccess (in_namespace (m_namespace (bc_meta c))) (Inr (map OAccess as)) \<in> set u
     \<and> (\<forall>a \<in> set as. ba_bucket_claim_name (ba_spec a) \<noteq> m_name (bc_meta c)))"

definition claim_leaving :: "key \<Rightarrow> event list \<Rightarrow> bucket_claim \<Rightarrow> bool" where
  "claim_leaving req u c \<longleftrightarrow> EvGet Cached KClaim req (Inr (OClaim c)) \<in> set u \<and> m_deleting (bc_meta c)
     \<and> contains_finalizer (bc_meta c) \<and> unreferenced u c"

definition claim_released :: "key \<Rightarrow> event list \<Rightarrow> bucket_claim \<Rightarrow> bool" where
  "claim_released req u x \<longleftrightarrow> (\<exists>c. claim_leaving req u c \<and> x = c\<lparr>bc_meta := remove_finalizer (bc_meta c)\<rparr>
     \<and> (bc_existing_bucket_name (bc_spec c) = [] \<longrightarrow>
          (\<exists>r. EvDelete KBucket ([], greenfieldBucketName c) r \<in> set u \<and> (case r of None \<Rightarrow> True | Some e \<Rightarrow> is_not_found e))))"

definition claim_event_ok :: "regexps \<Rightarrow> ('w, 'x) kube_scheme \<Rightarrow> key \<Rightarrow> event list \<Rightarrow> event \<Rightarrow> bool" where
  "claim_event_ok re K req u e = (case e of
      EvGet rd k ky r \<Rightarrow> True
    | EvList rd k opts r \<Rightarrow> True
    | EvCreateOrUpdate k ky x r \<Rightarrow> k = KBucket \<and> (\<exists>c. claim_active req u c \<and> bc_existing_bucket_name (bc_spec c) = []
        \<and> ky = ([], greenfieldBucketName c))
    | EvDelete k ky r \<Rightarrow> k = KBucket \<and> (\<exists>c. claim_leaving req u c \<and> bc_existing_bucket_name (bc_spec c) = []
        \<and> ky = ([], greenfieldBucketName c))
    | EvUpdate k (OClaim x) r \<Rightarrow> adopted KClaim OClaim bc_meta bc_meta_update req u x \<or> claim_released req u x
    | EvUpdateStatus k (OClaim x) r \<Rightarrow> (\<exists>c y st. claim_active req u c
        \<and> EvGet Cached KClaim (claim_key c) (Inr (OClaim y)) \<in> set u \<and> x = y\<lparr>bc_status := Some st\<rparr>
        \<and> status_agrees K (bcs_phase st) (bcs_conditions st)
        \<and> (cond_true K (bcs_conditions st) BucketClaimConditionBound \<longrightarrow> bound_to re u c (bcs_bound_bucket_name st))
        \<and> (bcs_phase st = PhaseReady \<longrightarrow> bound_to re u c (bcs_bound_bucket_name st) \<and> read_ready_bucket K u (bcs_bound_bucket_name st)))
    | _ \<Rightarrow> False)"

lemma bound_to_mono: "bound_to re t c n \<Longrightarrow> set t \<subseteq> set u \<Longrightarrow> bound_to re u c n"
  unfolding bound_to_def policy_allows_def by (auto split: if_splits)

lemma claim_active_mono: "claim_active req t c \<Longrightarrow> set t \<subseteq> set u \<Longrightarrow> claim_active req u c"
  unfolding claim_active_def using persisted_mono by metis

lemma read_ready_bucket_mono: "read_ready_bucket K t n \<Longrightarrow> set t \<subseteq> set u \<Longrightarrow> read_ready_bucket K u n"
  unfolding read_ready_bucket_def by blast

lemma bound_to_nonempty: "bound_to re u c n \<Longrightarrow> n \<noteq> []"
  using greenfield_shape [of c] by (auto simp: bound_to_def ReservedBucketNamePrefix_def split: if_splits)

lemma claim_status_fields:
  "bcs_phase (claim_status_of K c sb ob st) = derivePhase (k_find_condition K) (flush K (bcs_conditions st) sb) bucketClaimStageOrder"
  "bcs_conditions (claim_status_of K c sb ob st) = flush K (bcs_conditions st) sb"
  "co_bound_bucket_name ob \<noteq> [] \<Longrightarrow> bcs_bound_bucket_name (claim_status_of K c sb ob st) = co_bound_bucket_name ob"
  by (simp_all add: claim_status_of_def Let_def)

lemma settled_cond_true:
  assumes "cond_law K" and "settled ord sb" and "s \<in> set ord" and "cond_true K (flush K conds sb) s"
  shows "stat sb s = Some ConditionTrue"
proof -
  obtain v where v: "stat sb s = Some v" "v = ConditionTrue \<or> v = ConditionFalse"
    using assms(2,3) by (auto simp: settled_def)
  then show ?thesis using flush_stat [OF assms(1) v(1), of conds] assms(4) by (auto simp: cond_true_def)
qed

lemma wp_claim_finish:
  assumes "retry_law K" and "cond_law K" and "justified (claim_event_ok re K req) t" and "settled bucketClaimStageOrder sb"
    and active: "claim_active req t c"
    and bound: "stat sb BucketClaimConditionBound = Some ConditionTrue \<Longrightarrow> bound_to re t c (co_bound_bucket_name ob)"
    and ready: "aggregateReady sb \<Longrightarrow> read_ready_bucket K t (co_bound_bucket_name ob)"
    and "\<And>out w' d. justified (claim_event_ok re K req) (t @ d) \<Longrightarrow> Q out (w', t @ d)"
  shows "wp (claim_finish cfg K c sb ob err) Q (w, t)"
  unfolding claim_finish_def claim_updateStatus_def
proof (rule wp_finish_with [OF assms(1,3)], goal_cases)
  case (1 u e)
  let ?st = "claim_status_of K c sb ob"
  have agrees: "status_agrees K (bcs_phase (?st old)) (bcs_conditions (?st old))" for old
    using claim_stages.settled_agrees [OF assms(2,4)] by (simp add: claim_status_fields)
  have active_u: "claim_active req u c" using active by (rule claim_active_mono [OF _ 1(1)])
  have ev: "bound_to re u c (bcs_bound_bucket_name (?st old)) \<and> bcs_bound_bucket_name (?st old) = co_bound_bucket_name ob"
    if st: "stat sb BucketClaimConditionBound = Some ConditionTrue" for old
  proof -
    have c: "bound_to re u c (co_bound_bucket_name ob)" using bound [OF st] by (rule bound_to_mono [OF _ 1(1)])
    then show ?thesis by (simp add: claim_status_fields(3) [OF bound_to_nonempty [OF c]])
  qed
  have bd: "bound_to re u c (bcs_bound_bucket_name (?st old))"
    if "cond_true K (bcs_conditions (?st old)) BucketClaimConditionBound" for old
  proof -
    have "stat sb BucketClaimConditionBound = Some ConditionTrue"
      using settled_cond_true [OF assms(2,4)] that by (simp add: claim_status_fields bucketClaimStageOrder_def)
    then show ?thesis using ev by blast
  qed
  have rd: "bound_to re u c (bcs_bound_bucket_name (?st old)) \<and> read_ready_bucket K u (bcs_bound_bucket_name (?st old))"
    if "bcs_phase (?st old) = PhaseReady" for old
  proof -
    have ag: "aggregateReady sb" using that claim_stages.settled_ready_iff [OF assms(2,4)] by (simp add: claim_status_fields)
    then have "stat sb BucketClaimConditionBound = Some ConditionTrue"
      using assms(4) by (simp add: aggregateReady_stat settled_def bucketClaimStageOrder_def split: if_splits)
    then show ?thesis using ev [of old] read_ready_bucket_mono [OF ready [OF ag] 1(1)] by metis
  qed
  from 1(2) show ?case
    unfolding status_write_def
  proof (elim disjE exE conjE)
    fix old x r assume e: "e = EvUpdateStatus KClaim (OClaim (x\<lparr>bc_status := Some (?st old)\<rparr>)) r"
      and x: "EvGet Cached KClaim (claim_key c) (Inr (OClaim x)) \<in> set u"
    show ?thesis
      unfolding e claim_event_ok_def event.case obj.case
      by (rule exI [of _ c], rule exI [of _ x], rule exI [of _ "?st old"]) (use x active_u agrees bd rd in simp)
  qed (simp add: claim_event_ok_def)
qed (rule assms(8))

text \<open>What \<open>ensureBound\<close> leaves behind, for each of its three answers.\<close>

lemma not_bound_settles:
  "settled bucketClaimStageOrder (not_bound sb r m)" "\<not> aggregateReady (not_bound sb r m)"
  "stat (not_bound sb r m) BucketClaimConditionBound = Some ConditionFalse"
proof -
  show "settled bucketClaimStageOrder (not_bound sb r m)" "\<not> aggregateReady (not_bound sb r m)"
    using claim_stages.gate_settles [OF claim_stages.passed_0, of BucketClaimConditionBound]
    by (simp_all add: not_bound_def bucketClaimStageOrder_def)
  have "stages_after bucketClaimStageOrder BucketClaimConditionBound = Some [BucketClaimConditionBucketReady]"
    by (simp add: bucketClaimStageOrder_def)
  then show "stat (not_bound sb r m) BucketClaimConditionBound = Some ConditionFalse"
    by (simp add: not_bound_def stat_gateAfter condition_type_defs conditionReady_def)
qed

definition bound_result :: "regexps \<Rightarrow> bucket_claim \<Rightarrow> status_builder \<Rightarrow> event list \<Rightarrow> status_builder \<times> string option result \<Rightarrow> bool" where
  "bound_result re c sb u r = (case r of (sb', res) \<Rightarrow> (case res of
      Inl e \<Rightarrow> True
    | Inr gated \<Rightarrow> (case gated of None \<Rightarrow> (\<exists>reason msg. sb' = not_bound sb reason msg)
        | Some n \<Rightarrow> sb' = sb \<and> bound_to re u c n)))"

lemma wp_ensureBound:
  assumes "justified (claim_event_ok re K req) t" and "claim_active req t c"
    and "\<And>r w' d. justified (claim_event_ok re K req) (t @ d) \<Longrightarrow> bound_result re c sb (t @ d) r \<Longrightarrow> Q r (w', t @ d)"
  shows "wp (ensureBound re K c sb) Q (w, t)"
proof -
  have active: "claim_active req (t @ d) c" for d using assms(2) by (rule claim_active_mono) simp
  have "wp (ensureBound re K c sb) (\<lambda>r s'. (\<exists>d. snd s' = t @ d) \<and> justified (claim_event_ok re K req) (snd s')
      \<and> bound_result re c sb (snd s') r) (w, t)"
    unfolding ensureBound_def ensureBrownfield_def ensureGreenfield_def namespaceAllowedForBucket_def kget_def klist_def
      kcreate_or_update_def Let_def
    by (intro wp_rules)
      (use assms(1) active active [of "[]"] in \<open>auto simp: claim_event_ok_def bound_result_def bound_to_def policy_allows_def
        split: sum.splits if_splits dest: decide_Inr\<close>)
  then show ?thesis
    by (rule wp_mono) (metis assms(3) prod.collapse)
qed

lemma wp_claim_normal:
  assumes "retry_law K" and "cond_law K" and "justified (claim_event_ok re K req) t" and "claim_active req t c"
  shows "wp (claim_reconcileNormal re cfg K c) (\<lambda>out s'. justified (claim_event_ok re K req) (snd s')) (w, t)"
proof -
  note fin = wp_claim_finish [OF assms(1,2), where req = req and re = re]
  let ?bound = "\<lambda>sb. setCondition sb BucketClaimConditionBound ConditionTrue reasonReady ''bucket bound''"
  have gate1: "settled bucketClaimStageOrder (gateAfter (setCondition sb BucketClaimConditionBound ConditionFalse r m) bucketClaimStageOrder BucketClaimConditionBound)"
    "\<not> aggregateReady (gateAfter (setCondition sb BucketClaimConditionBound ConditionFalse r m) bucketClaimStageOrder BucketClaimConditionBound)"
    "stat (gateAfter (setCondition sb BucketClaimConditionBound ConditionFalse r m) bucketClaimStageOrder BucketClaimConditionBound) BucketClaimConditionBound = Some ConditionFalse"
    for sb r m using not_bound_settles [of sb r m] by (simp_all add: not_bound_def)
  have passed: "passed bucketClaimStageOrder 1 (?bound sb)" for sb
    by (simp add: passed_def bucketClaimStageOrder_def)
  have gate2: "settled bucketClaimStageOrder (gateAfter (setCondition (?bound sb) BucketClaimConditionBucketReady ConditionFalse r m) bucketClaimStageOrder BucketClaimConditionBucketReady)"
    "\<not> aggregateReady (gateAfter (setCondition (?bound sb) BucketClaimConditionBucketReady ConditionFalse r m) bucketClaimStageOrder BucketClaimConditionBucketReady)"
    for sb r m using claim_stages.gate_settles [OF passed, of BucketClaimConditionBucketReady] by (simp_all add: bucketClaimStageOrder_def)
  have stop: "settled bucketClaimStageOrder sb' \<and> \<not> aggregateReady sb'"
    if "advance (?bound sb) bucketClaimStageOrder BucketClaimConditionBucketReady d m e = (sb', False)" for sb sb' d m e
    using claim_stages.advance_stops [OF passed _ _ that] by (simp add: bucketClaimStageOrder_def)
  have finished: "d \<and> settled bucketClaimStageOrder (setCondition sb' BucketClaimConditionReady ConditionTrue r x)"
    if "advance (?bound sb) bucketClaimStageOrder BucketClaimConditionBucketReady d m e = (sb', True)" for sb sb' d m e r x
    using claim_stages.advance_done [OF passed _ _ that] claim_stages.all_passed_settles [of sb' r x] that
    by (auto simp: bucketClaimStageOrder_def BucketClaimConditionReady_def conditionReady_def advance_def split: option.splits if_splits)
  have obs: "co_bound_bucket_name (case st of None \<Rightarrow> ob | Some st \<Rightarrow> if P st then ob\<lparr>co_endpoint := f st\<rparr> else ob) = co_bound_bucket_name ob"
    for st ob f and P :: "bucket_status \<Rightarrow> bool" by (simp split: option.split)
  show ?thesis
    unfolding claim_reconcileNormal_def Let_def kget_def
  proof (intro wp_bind wp_sample wp_ensureBound [where re = re and req = req], goal_cases)
    case (3 now v r v' d)
    have active: "claim_active req (t @ d @ x) c" for x using assms(4) by (rule claim_active_mono) simp
    have bound: "bound_to re (t @ d @ x) c n" if "bound_to re (t @ d) c n" for x n using that by (rule bound_to_mono) auto
    show ?case
      by (intro wp_case_prod wp_case_sum wp_case_option wp_bind wp_call wp_if fin)
        (use 3 active active [of "[]"] bound in \<open>auto simp: gate1 gate2 not_bound_settles bound_result_def claim_event_ok_def obs no_claim_observed_def
          read_ready_bucket_def dest!: stop dest: finished\<close>)
  qed (use assms(3,4) in auto)
qed

lemma wp_claim_delete:
  assumes "justified (claim_event_ok re K req) t" and "EvGet Cached KClaim req (Inr (OClaim c)) \<in> set t" and "m_deleting (bc_meta c)"
  shows "wp (claim_reconcileDelete cfg K c) (\<lambda>out s'. justified (claim_event_ok re K req) (snd s')) (w, t)"
proof (cases "contains_finalizer (bc_meta c)")
  case True
  have leaving: "claim_leaving req (t @ EvList Cached KAccess (in_namespace (m_namespace (bc_meta c))) (Inr (map OAccess items)) # x) c"
    if "\<forall>a \<in> set items. ba_bucket_claim_name (ba_spec a) \<noteq> m_name (bc_meta c)" for items x
    using assms(2,3) True that by (auto simp: claim_leaving_def unreferenced_def)
  show ?thesis
    unfolding claim_reconcileDelete_def referencingAccesses_def klist_def kdelete_def kupdate_def
    by (intro wp_rules)
      (use assms(1) in \<open>auto simp: claim_event_ok_def claim_released_def filter_empty_conv split: sum.splits option.splits if_splits
        intro: leaving leaving [of _ "[]"] intro!: exI [of _ c]\<close>)
qed (simp add: claim_reconcileDelete_def wp_return assms(1))

section \<open>Properties\<close>

lemma claim_pass:
  assumes "retry_law K" and "cond_law K"
  shows "wp (claim_Reconcile re cfg K req) (\<lambda>out s'. justified (claim_event_ok re K req) (snd s')) (w, [])"
  unfolding claim_Reconcile_def kget_def kupdate_def Let_def
  by (intro wp_rules wp_claim_normal [OF assms] wp_claim_delete)
    (auto simp: claim_event_ok_def claim_active_def persisted_def split: sum.splits if_splits)

text \<open>C2: A reconcile of a bucket claim is safe, against every answer of the API server. A brownfield claim is
  reported bound only to the bucket it names, when that bucket was read and is not owned by a claim, and a
  policy listed past the cache in the same reconcile selects the claim's namespace; a greenfield
  claim only to the bucket derived from its own key, after creating it succeeded. It is reported Ready only
  when moreover that bucket was read with a True Ready condition. The only bucket a reconcile creates or deletes is
  the greenfield claim's own; it is deleted, and the finalizer given up, only when the claim is being
  deleted and a listing shows no access that refers to it. An update adds the finalizer to the claim as it was read, or removes
  it, and a status is written to the claim as it was read: nothing else of it changes.\<close>

theorem claim_reconcile_safe:
  assumes "retry_law K" and "cond_law K"
  shows "wp (claim_Reconcile re cfg K req) (\<lambda>out s'. justified (claim_event_ok re K req) (snd s')) (w, [])"
  by (rule claim_pass [OF assms])

definition demo_claim :: bucket_claim where
  "demo_claim = \<lparr>bc_meta = (fresh_meta ''data'' ''team-a'' Map.empty)\<lparr>m_generation := 1\<rparr>,
     bc_spec = \<lparr>bc_object_store_ref = [], bc_existing_bucket_name = ''logs'', bc_access_policy = AccessPolicyPrivate,
       bc_reclaim_policy = BucketReclaimRetain, bc_quota = None\<rparr>,
     bc_status = None\<rparr>"

definition claim_env :: "unit kube" where
  "claim_env = quiet_kube\<lparr>k_buckets := answering (Inr plain_bucket) [], k_claims := answering (Inr demo_claim) [],
     k_policies := answering (Inr (policy_for ''logs'' [''team-a''] [])) [policy_for ''logs'' [''team-a''] []]\<rparr>"

lemma claim_env_laws: "retry_law claim_env" "cond_law claim_env"
  by (simp_all add: claim_env_def quiet_kube_def quiet_retry_law quiet_cond_law)

lemma claim_reconcile_safe_witness:
  "justified (claim_event_ok literal_regexps claim_env (''team-a'', ''data''))
     (snd (snd (run_state (claim_Reconcile literal_regexps demo_options claim_env (''team-a'', ''data'')) ((), []))))"
  using claim_reconcile_safe [OF claim_env_laws, of literal_regexps demo_options "(''team-a'', ''data'')" "()"]
  by (simp add: wp_def split: prod.splits)

end
