(* ===== verification/Access_Controller.thy ===== *)
theory Access_Controller
  imports Claim_Controller
begin

text \<open>
  \<open>controller/bucket_access_controller.go\<close>: the reconciler of bucket accesses. It checks the authorization of the
  namespace itself, past the cache, asks the driver for a key, and keeps the credentials Secret.
  \<open>controllerutil.SetControllerReference\<close> is the parameter \<open>own\<close>.
\<close>

definition bucketAccessStageOrder :: "string list" where
  "bucketAccessStageOrder = [BucketAccessConditionAccessGranted, BucketAccessConditionCredentialsReady]"

interpretation access_stages: stage_fsm bucketAccessStageOrder
  by unfold_locales (simp_all add: bucketAccessStageOrder_def condition_type_defs conditionReady_def)

record access_observed =
  ao_bucket_name :: string
  ao_endpoint :: string
  ao_access_key_id :: string
  ao_secret_name :: string
  ao_observed_rotation :: string
  ao_rotated :: bool
  ao_revoked :: bool

definition no_access_observed :: access_observed where
  "no_access_observed = \<lparr>ao_bucket_name = [], ao_endpoint = [], ao_access_key_id = [], ao_secret_name = [],
     ao_observed_rotation = [], ao_rotated = False, ao_revoked = False\<rparr>"

definition claimBound :: "('w, 'x) kube_scheme \<Rightarrow> bucket_claim \<Rightarrow> bool" where
  "claimBound K c =
     (case bc_status c of
        None \<Rightarrow> False
      | Some st \<Rightarrow> (case k_find_condition K (bcs_conditions st) BucketClaimConditionBound of
            None \<Rightarrow> False
          | Some cond \<Rightarrow> c_status cond = ConditionTrue))"

definition access_ns :: "bucket_access \<Rightarrow> string" where
  "access_ns a = m_namespace (ba_meta a)"

section \<open>Watches\<close>

definition access_key :: "bucket_access \<Rightarrow> key" where
  "access_key a = (access_ns a, m_name (ba_meta a))"

definition boundName :: "bucket_claim \<Rightarrow> string" where
  "boundName c = (case bc_status c of None \<Rightarrow> [] | Some st \<Rightarrow> bcs_bound_bucket_name st)"

definition accesses_of_policy :: "('w, 'x) kube_scheme \<Rightarrow> bucket_claim_policy \<Rightarrow> ('w, key list) go" where
  "accesses_of_policy K policy =
     do { r \<leftarrow> klist Cached KClaim OClaim (k_claims K) list_all_opts;
          case r of
            Inl _ \<Rightarrow> return []
          | Inr claims \<Rightarrow>
              (let matched = map claim_key (filter (\<lambda>c. bc_existing_bucket_name (bc_spec c) = bp_bucket_ref (bp_spec policy)
                     \<or> boundName c = bp_bucket_ref (bp_spec policy)) claims)
               in if matched = [] then return []
                  else do { r \<leftarrow> klist Cached KAccess OAccess (k_accesses K) list_all_opts;
                            return (case r of Inl _ \<Rightarrow> []
                              | Inr accesses \<Rightarrow> map access_key
                                  (filter (\<lambda>a. (access_ns a, ba_bucket_claim_name (ba_spec a)) \<in> set matched) accesses)) }) }"

definition enqueueByClaim :: "('w, 'x) kube_scheme \<Rightarrow> bucket_claim \<Rightarrow> ('w, key list) go" where
  "enqueueByClaim K claim =
     do { r \<leftarrow> klist Cached KAccess OAccess (k_accesses K) (in_namespace (m_namespace (bc_meta claim)));
          return (case r of Inl _ \<Rightarrow> []
            | Inr items \<Rightarrow> map access_key (filter (\<lambda>a. ba_bucket_claim_name (ba_spec a) = m_name (bc_meta claim)) items)) }"

section \<open>Status\<close>

definition empty_access_status :: bucket_access_status where
  "empty_access_status = \<lparr>bas_observed_generation = 0, bas_phase = PhaseUnset, bas_endpoint = [], bas_bucket_name = [],
     bas_access_key_id = [], bas_secret_ref = None, bas_observed_rotation = [], bas_last_rotation_time = None,
     bas_conditions = []\<rparr>"

definition access_status_of ::
  "('w, 'x) kube_scheme \<Rightarrow> bucket_access \<Rightarrow> status_builder \<Rightarrow> access_observed \<Rightarrow> bucket_access_status \<Rightarrow> bucket_access_status" where
  "access_status_of K access sb observed st =
     (let conds = flush K (bas_conditions st) sb;
          st = st\<lparr>bas_conditions := conds, bas_observed_generation := m_generation (ba_meta access),
                  bas_phase := derivePhase (k_find_condition K) conds bucketAccessStageOrder\<rparr>;
          st = (if ao_endpoint observed \<noteq> [] then st\<lparr>bas_endpoint := ao_endpoint observed\<rparr> else st)
      in if ao_bucket_name observed \<noteq> [] then st\<lparr>bas_bucket_name := ao_bucket_name observed\<rparr> else st)"

definition clear_credentials :: "bucket_access_status \<Rightarrow> bucket_access_status" where
  "clear_credentials st =
     st\<lparr>bas_access_key_id := [], bas_secret_ref := None, bas_observed_rotation := [], bas_last_rotation_time := None\<rparr>"

text \<open>\<open>now\<close> is the clock read for a rotation, if any.\<close>

definition record_credentials :: "access_observed \<Rightarrow> int option \<Rightarrow> bucket_access_status \<Rightarrow> bucket_access_status" where
  "record_credentials observed now st =
     (let st = (if ao_access_key_id observed \<noteq> [] then st\<lparr>bas_access_key_id := ao_access_key_id observed\<rparr> else st)
      in if ao_secret_name observed \<noteq> []
         then (let st = st\<lparr>bas_secret_ref := Some (ao_secret_name observed), bas_observed_rotation := ao_observed_rotation observed\<rparr>
               in case now of None \<Rightarrow> st | Some _ \<Rightarrow> st\<lparr>bas_last_rotation_time := now\<rparr>)
         else st)"

definition access_updateStatus ::
  "('w, 'x) kube_scheme \<Rightarrow> bucket_access \<Rightarrow> status_builder \<Rightarrow> access_observed \<Rightarrow> ('w, go_error option) go" where
  "access_updateStatus K access sb observed =
     k_retry K (do {
       r \<leftarrow> kget Cached KAccess OAccess (k_accesses K) (access_key access);
       case r of
         Inl err \<Rightarrow> return (Some err)
       | Inr latest \<Rightarrow>
           (let before = (case ba_status latest of None \<Rightarrow> empty_access_status | Some st \<Rightarrow> st);
                st = access_status_of K access sb observed before
            in do { now \<leftarrow> (if \<not> ao_revoked observed \<and> ao_secret_name observed \<noteq> [] \<and> ao_rotated observed
                             then do { n \<leftarrow> sample (k_now K); return (Some n) } else return None);
                    let after = (if ao_revoked observed then clear_credentials st else record_credentials observed now st) in
                    if before = after then return None
                    else kupdate_status KAccess OAccess (k_accesses K) (latest\<lparr>ba_status := Some after\<rparr>) }) })"

definition access_finish ::
  "options \<Rightarrow> ('w, 'x) kube_scheme \<Rightarrow> bucket_access \<Rightarrow> status_builder \<Rightarrow> access_observed \<Rightarrow> go_error option \<Rightarrow> ('w, outcome) go" where
  "access_finish cfg K access sb observed err =
     finish_with (access_updateStatus K access sb observed) err
       (if aggregateReady sb then Some (SecurityResyncInterval cfg) else Some (RequeueInterval cfg))"

section \<open>Helpers of the reconcile\<close>

definition resolveBound :: "('w, 'x) kube_scheme \<Rightarrow> string \<Rightarrow> ('w, bucket option \<times> object_store option) go" where
  "resolveBound K bucketName =
     do { r \<leftarrow> kget Cached KBucket OBucket (k_buckets K) ([], bucketName);
          case r of
            Inl _ \<Rightarrow> return (None, None)
          | Inr bkt \<Rightarrow>
              do { r \<leftarrow> kget Cached KStore OStore (k_stores K) ([], b_object_store_ref (b_spec bkt));
                   return (case r of Inl _ \<Rightarrow> (Some bkt, None) | Inr cluster \<Rightarrow> (Some bkt, Some cluster)) } }"

definition credentialsSecretName :: "bucket_access \<Rightarrow> string" where
  "credentialsSecretName a =
     (if ba_credentials_secret_name (ba_spec a) \<noteq> [] then ba_credentials_secret_name (ba_spec a)
      else m_name (ba_meta a) @ ''-s3-credentials'')"

definition deleteCredentialsSecret :: "('w, 'x) kube_scheme \<Rightarrow> bucket_access \<Rightarrow> ('w, go_error option) go" where
  "deleteCredentialsSecret K a =
     do { e \<leftarrow> kdelete KSecret (k_secrets K) (access_ns a, credentialsSecretName a);
          return (case e of None \<Rightarrow> None | Some err \<Rightarrow> if is_not_found err then None else Some err) }"

definition getSecret :: "('w, 'x) kube_scheme \<Rightarrow> bucket_access \<Rightarrow> ('w, secret option result) go" where
  "getSecret K a =
     do { r \<leftarrow> kget Uncached KSecret OSecret (k_secrets K) (access_ns a, credentialsSecretName a);
          return (case r of
              Inl err \<Rightarrow> if is_not_found err then Inr None else Inl err
            | Inr s \<Rightarrow> Inr (Some s)) }"

definition revokeIfIssued :: "('w, 'x) kube_scheme \<Rightarrow> bucket_access \<Rightarrow> access_observed \<Rightarrow> ('w, access_observed) go" where
  "revokeIfIssued K a observed =
     (if (case ba_status a of None \<Rightarrow> True | Some st \<Rightarrow> bas_access_key_id st = []) then return observed
      else do { e \<leftarrow> deleteCredentialsSecret K a;
                return (case e of Some _ \<Rightarrow> observed | None \<Rightarrow> observed\<lparr>ao_revoked := True\<rparr>) })"

definition accessAuthorized ::
  "regexps \<Rightarrow> ('w, 'x) kube_scheme \<Rightarrow> bucket \<Rightarrow> string \<Rightarrow> ('w, (bool \<times> string) result) go" where
  "accessAuthorized re K bkt ns =
     (if map_str (m_labels (b_meta bkt)) LabelBucketOrigin = BucketOriginBucketClaim
      then (let owner = map_str (m_labels (b_meta bkt)) LabelOwnedByClaimNamespace in
            if owner \<noteq> ns
            then return (Inr (False, ''bucket '' @ quoted (m_name (b_meta bkt)) @ '' is private to namespace '' @ quoted owner))
            else return (Inr (True, [])))
      else namespaceAllowedForBucket re K Uncached (m_name (b_meta bkt)) ns)"

text \<open>The name in the status of a bucket. The code reads it only of a Ready bucket, which has a status.\<close>

definition status_bucket_name :: "bucket \<Rightarrow> string" where
  "status_bucket_name b = (case b_status b of None \<Rightarrow> [] | Some st \<Rightarrow> bs_bucket_name st)"

type_synonym own_ref = "bucket_access \<Rightarrow> object_meta \<Rightarrow> object_meta result"

text \<open>The API server merges the \<open>stringData\<close> of a Secret into its data when it is written.\<close>

definition credentials_mutate :: "own_ref \<Rightarrow> bucket_access \<Rightarrow> str_map \<Rightarrow> secret \<Rightarrow> secret result" where
  "credentials_mutate own access stringData s =
     (case own access ((sec_meta s)\<lparr>m_labels := (m_labels (sec_meta s))(''storage.deckhouse.io/bucket-access'' \<mapsto> m_name (ba_meta access))\<rparr>) of
        Inl err \<Rightarrow> Inl err
      | Inr m \<Rightarrow> Inr (s\<lparr>sec_meta := m, sec_data := sec_data s ++ stringData\<rparr>))"

definition credentials_data ::
  "object_store \<Rightarrow> bucket \<Rightarrow> access_state \<Rightarrow> secret option \<Rightarrow> str_map" where
  "credentials_data cluster bkt state existing =
     (let (endpoint, region) = (case os_status cluster of
            None \<Rightarrow> ([], [])
          | Some st \<Rightarrow> (case oss_endpoint st of None \<Rightarrow> ([], []) | Some ep \<Rightarrow> (ep_internal ep, ep_region ep)));
          bucketName = (if status_bucket_name bkt = [] then BucketDisplayName bkt else status_bucket_name bkt);
          (accessKeyID, secretKey) = (case existing of
              None \<Rightarrow> (as_access_key_id state, as_secret_access_key state)
            | Some s \<Rightarrow>
                if as_secret_access_key state = []
                then (if as_access_key_id state = [] then map_str (sec_data s) SecretKeyAccessKeyID else as_access_key_id state,
                      map_str (sec_data s) SecretKeySecretAccessID)
                else (as_access_key_id state, as_secret_access_key state))
      in [SecretKeyS3Endpoint \<mapsto> endpoint, SecretKeyS3Region \<mapsto> region, SecretKeyS3Bucket \<mapsto> bucketName,
          SecretKeyAccessKeyID \<mapsto> accessKeyID, SecretKeySecretAccessID \<mapsto> secretKey])"

definition ensureCredentialsSecret ::
  "own_ref \<Rightarrow> ('w, 'x) kube_scheme \<Rightarrow> object_store \<Rightarrow> bucket \<Rightarrow> bucket_access \<Rightarrow> access_state \<Rightarrow> secret option \<Rightarrow> ('w, string result) go" where
  "ensureCredentialsSecret own K cluster bkt access state existing =
     (let name = credentialsSecretName access in
      do { r \<leftarrow> kcreate_or_update KSecret OSecret (k_secrets K) (access_ns access, name)
             \<lparr>sec_meta = fresh_meta name (access_ns access) Map.empty, sec_data = Map.empty, sec_string_data = Map.empty\<rparr>
             (credentials_mutate own access (credentials_data cluster bkt state existing));
           return (case r of Inl err \<Rightarrow> Inl err | Inr s \<Rightarrow> Inr name) })"

section \<open>Reconcile\<close>

definition access_reconcileDelete ::
  "'w registry \<Rightarrow> ('w, 'x) kube_scheme \<Rightarrow> bucket_access \<Rightarrow> ('w, go_error option) go" where
  "access_reconcileDelete reg K access =
     (if \<not> contains_finalizer (ba_meta access) then return None
      else do { r \<leftarrow> kget Cached KClaim OClaim (k_claims K) (access_ns access, ba_bucket_claim_name (ba_spec access));
                derr \<leftarrow> (case r of
                    Inr claim \<Rightarrow>
                      (if boundName claim \<noteq> []
                       then do { bc \<leftarrow> resolveBound K (boundName claim);
                                 case bc of (bkt, cluster) \<Rightarrow>
                                   (case bkt of None \<Rightarrow> return None
                                    | Some bkt \<Rightarrow> (case cluster of None \<Rightarrow> return None
                                      | Some cluster \<Rightarrow> (case Registry_For reg cluster of
                                            Inl derr \<Rightarrow> return (Some derr)
                                          | Inr driver \<Rightarrow> DeleteAccess driver cluster bkt access))) }
                       else return None)
                  | Inl err \<Rightarrow> return (if is_not_found err then None else Some err));
                case derr of
                  Some err \<Rightarrow> return (Some err)
                | None \<Rightarrow> kupdate KAccess OAccess (k_accesses K) (access\<lparr>ba_meta := remove_finalizer (ba_meta access)\<rparr>) })"

definition not_granted :: "status_builder \<Rightarrow> string \<Rightarrow> string \<Rightarrow> status_builder" where
  "not_granted status reason msg =
     gateAfter (setCondition status BucketAccessConditionAccessGranted ConditionFalse reason msg)
       bucketAccessStageOrder BucketAccessConditionAccessGranted"

text \<open>The branch of \<open>reconcileNormal\<close> that enforces a revocation.\<close>

definition access_revoke ::
  "'w registry \<Rightarrow> options \<Rightarrow> ('w, 'x) kube_scheme \<Rightarrow> bucket_access \<Rightarrow> status_builder \<Rightarrow> access_observed \<Rightarrow> bool \<Rightarrow>
     bool \<times> string \<Rightarrow> bucket option \<Rightarrow> object_store option \<Rightarrow> ('w, outcome) go" where
  "access_revoke reg cfg K access status observed bound authz bkt cluster =
     (let done = (\<lambda>observed.
            (let (reason, message) = (if \<not> fst authz \<and> bkt \<noteq> None \<and> cluster \<noteq> None \<and> bound then (''DeniedByPolicy'', snd authz)
               else (''WaitingForClaim'', ''BucketClaim '' @ quoted (ba_bucket_claim_name (ba_spec access)) @ '' is not Bound to a bucket''))
             in access_finish cfg K access (not_granted status reason message) observed None))
      in if (case ba_status access of None \<Rightarrow> False | Some st \<Rightarrow> bas_access_key_id st \<noteq> [])
         then do { derr \<leftarrow> (case bkt of None \<Rightarrow> return None
                        | Some bkt \<Rightarrow> (case cluster of None \<Rightarrow> return None
                          | Some cluster \<Rightarrow> (case Registry_For reg cluster of
                                Inl _ \<Rightarrow> return None
                              | Inr driver \<Rightarrow> DeleteAccess driver cluster bkt access)));
                   case derr of
                     Some err \<Rightarrow> access_finish cfg K access
                       (not_granted status reasonError (''revoking access after claim became unbound: '' @ emsg err)) observed (Some err)
                   | None \<Rightarrow>
                       do { e \<leftarrow> deleteCredentialsSecret K access;
                            case e of
                              Some err \<Rightarrow> access_finish cfg K access status observed (Some err)
                            | None \<Rightarrow> done (observed\<lparr>ao_revoked := True\<rparr>) } }
         else done observed)"

definition rotation_value :: "bucket_access \<Rightarrow> string" where
  "rotation_value a = map_str (m_annotations (ba_meta a)) RotateAnnotation"

definition observed_rotation :: "bucket_access \<Rightarrow> string" where
  "observed_rotation a = (case ba_status a of None \<Rightarrow> [] | Some st \<Rightarrow> bas_observed_rotation st)"

definition recorded_key :: "bucket_access \<Rightarrow> string" where
  "recorded_key a = (case ba_status a of None \<Rightarrow> [] | Some st \<Rightarrow> bas_access_key_id st)"

text \<open>The branch that issues or keeps a key; \<open>access_store\<close> is its part after the driver granted the access.\<close>

definition access_store ::
  "own_ref \<Rightarrow> options \<Rightarrow> ('w, 'x) kube_scheme \<Rightarrow> bucket_access \<Rightarrow> status_builder \<Rightarrow> access_observed \<Rightarrow>
     bucket \<Rightarrow> object_store \<Rightarrow> access_state \<Rightarrow> secret option \<Rightarrow> ('w, outcome) go" where
  "access_store own cfg K access status observed bkt cluster state existing =
     do { sr \<leftarrow> ensureCredentialsSecret own K cluster bkt access state existing;
          let (secretName, err) = (case sr of Inl e \<Rightarrow> ([], Some e) | Inr n \<Rightarrow> (n, None)) in
          case advance status bucketAccessStageOrder BucketAccessConditionCredentialsReady (err = None)
                 ''credentials Secret written'' err of
            (status, ok) \<Rightarrow>
              if \<not> ok then access_finish cfg K access status observed err
              else access_finish cfg K access
                (setCondition status BucketAccessConditionReady ConditionTrue reasonReady ''All stages reconciled'')
                (observed\<lparr>ao_secret_name := secretName, ao_observed_rotation := rotation_value access,
                   ao_rotated := (as_secret_access_key state \<noteq> [])\<rparr>) None }"

definition access_issue ::
  "own_ref \<Rightarrow> 'w registry \<Rightarrow> options \<Rightarrow> ('w, 'x) kube_scheme \<Rightarrow> bucket_access \<Rightarrow> status_builder \<Rightarrow> access_observed \<Rightarrow>
     bucket \<Rightarrow> object_store \<Rightarrow> ('w, outcome) go" where
  "access_issue own reg cfg K access status observed bkt cluster =
     (let observed = observed\<lparr>ao_bucket_name := status_bucket_name bkt\<rparr> in
      case Registry_For reg cluster of
        Inl err \<Rightarrow> access_finish cfg K access (not_granted status reasonError (emsg err)) observed (Some err)
      | Inr driver \<Rightarrow>
          do { r \<leftarrow> getSecret K access;
               case r of
                 Inl err \<Rightarrow> access_finish cfg K access status observed (Some err)
               | Inr existing \<Rightarrow>
                   (let mintFresh = (rotation_value access \<noteq> observed_rotation access \<or> recorded_key access = [] \<or> existing = None) in
                    do { se \<leftarrow> EnsureAccess driver cluster bkt access mintFresh;
                         case se of (state, err) \<Rightarrow>
                           (let observed = observed\<lparr>ao_access_key_id :=
                                    (if as_access_key_id state \<noteq> [] then as_access_key_id state else recorded_key access)\<rparr> in
                            case advance status bucketAccessStageOrder BucketAccessConditionAccessGranted (as_ready state) (as_message state) err of
                              (status, ok) \<Rightarrow>
                                if \<not> ok then access_finish cfg K access status observed err
                                else access_store own cfg K access status observed bkt cluster state existing) }) })"

text \<open>The decision of \<open>reconcileNormal\<close>, once the bucket and the store of the claim are resolved.\<close>

definition access_gate ::
  "own_ref \<Rightarrow> regexps \<Rightarrow> 'w registry \<Rightarrow> options \<Rightarrow> ('w, 'x) kube_scheme \<Rightarrow> bucket_access \<Rightarrow> status_builder \<Rightarrow> access_observed \<Rightarrow>
     bucket_claim \<Rightarrow> bucket option \<Rightarrow> object_store option \<Rightarrow> ('w, outcome) go" where
  "access_gate own re reg cfg K access status observed claim bkt cluster =
     do { authz \<leftarrow> (case bkt of None \<Rightarrow> return (Inr (True, [])) | Some b \<Rightarrow> accessAuthorized re K b (access_ns access));
          case authz of
            Inl aerr \<Rightarrow> access_finish cfg K access (not_granted status reasonError (emsg aerr)) observed (Some aerr)
          | Inr authz \<Rightarrow>
              (case bkt of
                 None \<Rightarrow> access_revoke reg cfg K access status observed (claimBound K claim) authz None cluster
               | Some b \<Rightarrow> (case cluster of
                   None \<Rightarrow> access_revoke reg cfg K access status observed (claimBound K claim) authz bkt None
                 | Some c \<Rightarrow>
                     if claimBound K claim \<and> fst authz
                     then (if bucketReadyState K b \<noteq> Some ConditionTrue
                           then access_finish cfg K access (not_granted status reasonInProgress
                             (''Bucket '' @ quoted (m_name (b_meta b)) @ '' is not Ready; keeping the issued credentials'')) observed None
                           else access_issue own reg cfg K access status observed b c)
                     else access_revoke reg cfg K access status observed (claimBound K claim) authz bkt cluster)) }"

definition access_reconcileNormal ::
  "own_ref \<Rightarrow> regexps \<Rightarrow> 'w registry \<Rightarrow> options \<Rightarrow> ('w, 'x) kube_scheme \<Rightarrow> bucket_access \<Rightarrow> ('w, outcome) go" where
  "access_reconcileNormal own re reg cfg K access =
     do { now \<leftarrow> sample (k_now K);
          let status = newStatusBuilder (m_generation (ba_meta access)) now; observed = no_access_observed in
          do { r \<leftarrow> kget Cached KClaim OClaim (k_claims K) (access_ns access, ba_bucket_claim_name (ba_spec access));
               case r of
                 Inl err \<Rightarrow>
                   (if \<not> is_not_found err then access_finish cfg K access status observed (Some err)
                    else do { observed \<leftarrow> revokeIfIssued K access observed;
                              access_finish cfg K access
                                (not_granted status ''WaitingForClaim''
                                   (''BucketClaim '' @ quoted (ba_bucket_claim_name (ba_spec access)) @ '' not found'')) observed None })
               | Inr claim \<Rightarrow>
                   (let observed = (case bc_status claim of None \<Rightarrow> observed | Some st \<Rightarrow> observed\<lparr>ao_endpoint := bcs_endpoint st\<rparr>) in
                    do { bc \<leftarrow> (if boundName claim \<noteq> [] then resolveBound K (boundName claim) else return (None, None));
                         case bc of (bkt, cluster) \<Rightarrow>
                           access_gate own re reg cfg K access status observed claim bkt cluster }) } }"

definition access_Reconcile ::
  "own_ref \<Rightarrow> regexps \<Rightarrow> 'w registry \<Rightarrow> options \<Rightarrow> ('w, 'x) kube_scheme \<Rightarrow> key \<Rightarrow> ('w, outcome) go" where
  "access_Reconcile own re reg cfg K req =
     do { r \<leftarrow> kget Cached KAccess OAccess (k_accesses K) req;
          case r of
            Inl err \<Rightarrow> if is_not_found err then return (None, None) else return (None, Some err)
          | Inr access \<Rightarrow>
              if m_deleting (ba_meta access)
              then do { e \<leftarrow> access_reconcileDelete reg K access; return (None, e) }
              else if \<not> contains_finalizer (ba_meta access)
              then (let access = access\<lparr>ba_meta := add_finalizer (ba_meta access)\<rparr> in
                    do { e \<leftarrow> kupdate KAccess OAccess (k_accesses K) access;
                         case e of Some err \<Rightarrow> return (None, Some err)
                         | None \<Rightarrow> access_reconcileNormal own re reg cfg K access })
              else access_reconcileNormal own re reg cfg K access }"

section \<open>What a reconcile may do\<close>

definition access_claim :: "event list \<Rightarrow> bucket_access \<Rightarrow> bucket_claim \<Rightarrow> bool" where
  "access_claim u a cl \<longleftrightarrow> EvGet Cached KClaim (access_ns a, ba_bucket_claim_name (ba_spec a)) (Inr (OClaim cl)) \<in> set u"

definition read_bound :: "event list \<Rightarrow> bucket_claim \<Rightarrow> bucket \<Rightarrow> bool" where
  "read_bound u cl b \<longleftrightarrow> boundName cl \<noteq> [] \<and> EvGet Cached KBucket ([], boundName cl) (Inr (OBucket b)) \<in> set u"

definition resolved :: "event list \<Rightarrow> bucket_access \<Rightarrow> bucket \<Rightarrow> object_store \<Rightarrow> bool" where
  "resolved u a b c \<longleftrightarrow> (\<exists>cl. access_claim u a cl \<and> read_bound u cl b)
     \<and> EvGet Cached KStore ([], b_object_store_ref (b_spec b)) (Inr (OStore c)) \<in> set u"

definition claim_owned :: "bucket \<Rightarrow> bool" where
  "claim_owned b \<longleftrightarrow> map_str (m_labels (b_meta b)) LabelBucketOrigin = BucketOriginBucketClaim"

definition owner_ns :: "bucket \<Rightarrow> string" where
  "owner_ns b = map_str (m_labels (b_meta b)) LabelOwnedByClaimNamespace"

definition allowed :: "regexps \<Rightarrow> event list \<Rightarrow> bucket \<Rightarrow> string \<Rightarrow> bool" where
  "allowed re u b ns \<longleftrightarrow> (if claim_owned b then owner_ns b = ns else policy_allows re u (m_name (b_meta b)) ns)"

definition policy_denies :: "regexps \<Rightarrow> event list \<Rightarrow> string \<Rightarrow> string \<Rightarrow> bool" where
  "policy_denies re u b ns \<longleftrightarrow> (\<exists>ps. EvList Uncached KPolicy list_all_opts (Inr (map OPolicy ps)) \<in> set u
     \<and> (\<forall>p \<in> set ps. bp_bucket_ref (bp_spec p) = b \<longrightarrow> \<not> selects re (bp_allowed_namespaces (bp_spec p)) ns))"

definition denied :: "regexps \<Rightarrow> event list \<Rightarrow> bucket \<Rightarrow> string \<Rightarrow> bool" where
  "denied re u b ns \<longleftrightarrow> (if claim_owned b then owner_ns b \<noteq> ns else policy_denies re u (m_name (b_meta b)) ns)"

definition access_active :: "key \<Rightarrow> event list \<Rightarrow> bucket_access \<Rightarrow> bool" where
  "access_active req u a \<longleftrightarrow> persisted KAccess OAccess req u a \<and> \<not> m_deleting (ba_meta a) \<and> contains_finalizer (ba_meta a)"

text \<open>What entitles an access to a key.\<close>

definition entitled :: "regexps \<Rightarrow> ('w, 'x) kube_scheme \<Rightarrow> key \<Rightarrow> event list \<Rightarrow> bucket_access \<Rightarrow> bucket \<Rightarrow> object_store \<Rightarrow> bool" where
  "entitled re K req u a b c \<longleftrightarrow> access_active req u a
     \<and> (\<exists>cl. access_claim u a cl \<and> claimBound K cl \<and> read_bound u cl b)
     \<and> EvGet Cached KStore ([], b_object_store_ref (b_spec b)) (Inr (OStore c)) \<in> set u
     \<and> bucketReadyState K b = Some ConditionTrue \<and> allowed re u b (access_ns a)"

text \<open>What leaves an access without a backend: the claim is gone or was never bound, or the bucket it is bound to,
  or the store of that bucket, is gone.\<close>

definition bound_gone :: "event list \<Rightarrow> bucket_access \<Rightarrow> bool" where
  "bound_gone u a \<longleftrightarrow>
     (\<exists>e. EvGet Cached KClaim (access_ns a, ba_bucket_claim_name (ba_spec a)) (Inl e) \<in> set u \<and> is_not_found e)
   \<or> (\<exists>cl. access_claim u a cl \<and> (boundName cl = []
        \<or> (\<exists>e. EvGet Cached KBucket ([], boundName cl) (Inl e) \<in> set u \<and> is_not_found e)
        \<or> (\<exists>b e. read_bound u cl b \<and> EvGet Cached KStore ([], b_object_store_ref (b_spec b)) (Inl e) \<in> set u \<and> is_not_found e)))"

text \<open>The bucket of the claim, or its store, could not be read: the API server answered with an error that does not say
  that the object is gone. \<open>resolveBound\<close> does not tell this case from \<open>bound_gone\<close>.\<close>

definition bound_unread :: "event list \<Rightarrow> bucket_access \<Rightarrow> bool" where
  "bound_unread u a \<longleftrightarrow> (\<exists>cl. access_claim u a cl
     \<and> ((\<exists>e. boundName cl \<noteq> [] \<and> EvGet Cached KBucket ([], boundName cl) (Inl e) \<in> set u \<and> \<not> is_not_found e)
        \<or> (\<exists>b e. read_bound u cl b \<and> EvGet Cached KStore ([], b_object_store_ref (b_spec b)) (Inl e) \<in> set u \<and> \<not> is_not_found e)))"

definition unresolved :: "event list \<Rightarrow> bucket_access \<Rightarrow> bool" where
  "unresolved u a \<longleftrightarrow> bound_gone u a \<or> bound_unread u a"

text \<open>What is known after resolving the bucket and the store of the claim.\<close>

definition resolution :: "event list \<Rightarrow> bucket_access \<Rightarrow> bucket_claim \<Rightarrow> bucket option \<Rightarrow> object_store option \<Rightarrow> bool" where
  "resolution u a cl bkt cluster = (case bkt of
       None \<Rightarrow> cluster = None \<and> unresolved u a
     | Some b \<Rightarrow> read_bound u cl b \<and> (case cluster of None \<Rightarrow> unresolved u a | Some c \<Rightarrow> resolved u a b c))"

text \<open>The cases that express intent: the claim or what it is bound to is gone, the claim is not bound, or the namespace
  is not allowed. The health of the bucket is not among them, and neither is a failed read.\<close>

definition revocation_intended :: "regexps \<Rightarrow> ('w, 'x) kube_scheme \<Rightarrow> event list \<Rightarrow> bucket_access \<Rightarrow> bool" where
  "revocation_intended re K u a \<longleftrightarrow> bound_gone u a
     \<or> (\<exists>cl. access_claim u a cl \<and> (\<not> claimBound K cl \<or> (\<exists>b. read_bound u cl b \<and> denied re u b (access_ns a))))"

definition backend_revoked :: "event list \<Rightarrow> bucket_access \<Rightarrow> bool" where
  "backend_revoked u a \<longleftrightarrow> (\<exists>b c. resolved u a b c \<and> driver_done (DrvDeleteAccess c b a None) u)"

definition access_released :: "key \<Rightarrow> event list \<Rightarrow> bucket_access \<Rightarrow> bool" where
  "access_released req u x \<longleftrightarrow> (\<exists>a. EvGet Cached KAccess req (Inr (OAccess a)) \<in> set u \<and> m_deleting (ba_meta a)
     \<and> contains_finalizer (ba_meta a) \<and> x = a\<lparr>ba_meta := remove_finalizer (ba_meta a)\<rparr>
     \<and> (unresolved u a \<or> backend_revoked u a))"

text \<open>The reconcile ended on an error it sets no condition for: the claim or the Secret could not be read, or the Secret
  could not be deleted. It then keeps the status it finds: its conditions with the phase they give, the key, the
  Secret and the rotation.\<close>

definition gave_up :: "event list \<Rightarrow> bucket_access \<Rightarrow> bool" where
  "gave_up u a \<longleftrightarrow> (\<exists>e. \<not> is_not_found e
     \<and> (EvGet Cached KClaim (access_ns a, ba_bucket_claim_name (ba_spec a)) (Inl e) \<in> set u
      \<or> EvGet Uncached KSecret (access_ns a, credentialsSecretName a) (Inl e) \<in> set u
      \<or> EvDelete KSecret (access_ns a, credentialsSecretName a) (Some e) \<in> set u))"

definition status_read :: "bucket_access \<Rightarrow> bucket_access_status" where
  "status_read y = (case ba_status y of None \<Rightarrow> empty_access_status | Some st \<Rightarrow> st)"

definition status_kept :: "('w, 'x) kube_scheme \<Rightarrow> bucket_access_status \<Rightarrow> bucket_access_status \<Rightarrow> bool" where
  "status_kept K old st \<longleftrightarrow> bas_conditions st = bas_conditions old
     \<and> bas_phase st = derivePhase (k_find_condition K) (bas_conditions old) bucketAccessStageOrder
     \<and> bas_access_key_id st = bas_access_key_id old \<and> bas_secret_ref st = bas_secret_ref old
     \<and> bas_observed_rotation st = bas_observed_rotation old \<and> bas_last_rotation_time st = bas_last_rotation_time old"

definition key_issued :: "regexps \<Rightarrow> ('w, 'x) kube_scheme \<Rightarrow> key \<Rightarrow> event list \<Rightarrow> bucket_access \<Rightarrow> access_state \<Rightarrow> bool" where
  "key_issued re K req u a s \<longleftrightarrow> (\<exists>b c mf. entitled re K req u a b c \<and> driver_done (DrvEnsureAccess c b a mf (s, None)) u \<and> as_ready s)"

definition secret_written :: "event list \<Rightarrow> bucket_access \<Rightarrow> bool" where
  "secret_written u a \<longleftrightarrow> (\<exists>x s. EvCreateOrUpdate KSecret (access_ns a, credentialsSecretName a) x (Inr (OSecret s)) \<in> set u)"

definition access_ready_evidence :: "regexps \<Rightarrow> ('w, 'x) kube_scheme \<Rightarrow> key \<Rightarrow> event list \<Rightarrow> bucket_access \<Rightarrow> bucket_access_status \<Rightarrow> bool" where
  "access_ready_evidence re K req u a st \<longleftrightarrow> (\<exists>s. key_issued re K req u a s \<and> secret_written u a
     \<and> bas_secret_ref st = Some (credentialsSecretName a)
     \<and> (as_access_key_id s \<noteq> [] \<longrightarrow> bas_access_key_id st = as_access_key_id s))"

definition mint_due :: "event list \<Rightarrow> bucket_access \<Rightarrow> bool \<Rightarrow> bool" where
  "mint_due u a fresh \<longleftrightarrow> (if fresh
     then rotation_value a \<noteq> observed_rotation a \<or> recorded_key a = []
        \<or> (\<exists>e. EvGet Uncached KSecret (access_ns a, credentialsSecretName a) (Inl e) \<in> set u \<and> is_not_found e)
     else rotation_value a = observed_rotation a \<and> recorded_key a \<noteq> []
        \<and> (\<exists>s. EvGet Uncached KSecret (access_ns a, credentialsSecretName a) (Inr (OSecret s)) \<in> set u))"

definition access_event_ok ::
  "regexps \<Rightarrow> 'w registry \<Rightarrow> ('w, 'x) kube_scheme \<Rightarrow> key \<Rightarrow> event list \<Rightarrow> event \<Rightarrow> bool" where
  "access_event_ok re reg K req u e = (case e of
      EvGet rd k ky r \<Rightarrow> True
    | EvList rd k opts r \<Rightarrow> True
    | EvDriver (DrvEnsureAccess c b a fresh r) \<Rightarrow> entitled re K req u a b c \<and> mint_due u a fresh
    | EvDriver (DrvDeleteAccess c b a r) \<Rightarrow> resolved u a b c
        \<and> (EvGet Cached KAccess req (Inr (OAccess a)) \<in> set u \<and> m_deleting (ba_meta a) \<and> contains_finalizer (ba_meta a)
         \<or> access_active req u a \<and> recorded_key a \<noteq> [] \<and> revocation_intended re K u a)
    | EvDelete k ky r \<Rightarrow> k = KSecret \<and> (\<exists>a. access_active req u a \<and> ky = (access_ns a, credentialsSecretName a)
        \<and> recorded_key a \<noteq> []
        \<and> (bound_unread u a \<or> revocation_intended re K u a
            \<and> (bound_gone u a \<or> backend_revoked u a \<or> (\<exists>b c e. resolved u a b c \<and> Registry_For reg c = Inl e))))
    | EvCreateOrUpdate k ky x r \<Rightarrow> k = KSecret
        \<and> (\<exists>a s. key_issued re K req u a s \<and> ky = (access_ns a, credentialsSecretName a))
    | EvUpdate k (OAccess x) r \<Rightarrow> adopted KAccess OAccess ba_meta ba_meta_update req u x \<or> access_released req u x
    | EvUpdateStatus k (OAccess x) r \<Rightarrow> (\<exists>a y st. access_active req u a
        \<and> EvGet Cached KAccess (access_key a) (Inr (OAccess y)) \<in> set u \<and> x = y\<lparr>ba_status := Some st\<rparr>
        \<and> (gave_up u a \<and> status_kept K (status_read y) st
          \<or> status_agrees K (bas_phase st) (bas_conditions st)
            \<and> (bas_phase st = PhaseReady \<longrightarrow> access_ready_evidence re K req u a st)))
    | _ \<Rightarrow> False)"

lemma access_evidence_mono:
  assumes sub: "set t \<subseteq> set u"
  shows "access_active req t a \<Longrightarrow> access_active req u a"
    and "allowed re t b ns \<Longrightarrow> allowed re u b ns"
    and "denied re t b ns \<Longrightarrow> denied re u b ns"
    and "resolved t a b c \<Longrightarrow> resolved u a b c"
    and "entitled re K req t a b c \<Longrightarrow> entitled re K req u a b c"
    and "unresolved t a \<Longrightarrow> unresolved u a"
    and "revocation_intended re K t a \<Longrightarrow> revocation_intended re K u a"
    and "backend_revoked t a \<Longrightarrow> backend_revoked u a"
    and "gave_up t a \<Longrightarrow> gave_up u a"
    and "key_issued re K req t a s \<Longrightarrow> key_issued re K req u a s"
    and "secret_written t a \<Longrightarrow> secret_written u a"
    and "bound_gone t a \<Longrightarrow> bound_gone u a"
    and "bound_unread t a \<Longrightarrow> bound_unread u a"
proof -
  have m: "e \<in> set t \<Longrightarrow> e \<in> set u" for e using sub by blast
  show 1: "access_active req t a \<Longrightarrow> access_active req u a" for a
    unfolding access_active_def persisted_def using m by blast
  have al: "allowed re t b ns \<Longrightarrow> allowed re u b ns" for b ns
    unfolding allowed_def policy_allows_def using m by (auto split: if_splits)
  then show "allowed re t b ns \<Longrightarrow> allowed re u b ns" .
  have de: "denied re t b ns \<Longrightarrow> denied re u b ns" for b ns
    unfolding denied_def policy_denies_def using m by (auto split: if_splits)
  then show "denied re t b ns \<Longrightarrow> denied re u b ns" .
  have rb: "read_bound t cl b \<Longrightarrow> read_bound u cl b" and ac: "access_claim t a cl \<Longrightarrow> access_claim u a cl" for cl a b
    unfolding read_bound_def access_claim_def using m by blast+
  show re: "resolved t a b c \<Longrightarrow> resolved u a b c" for b c
    unfolding resolved_def using rb ac m by blast
  have en: "entitled re K req t a b c \<Longrightarrow> entitled re K req u a b c" for b c
    unfolding entitled_def using 1 rb ac al m by blast
  then show "entitled re K req t a b c \<Longrightarrow> entitled re K req u a b c" .
  show go: "bound_gone t a \<Longrightarrow> bound_gone u a"
    unfolding bound_gone_def using rb ac m by blast
  show ur: "bound_unread t a \<Longrightarrow> bound_unread u a"
    unfolding bound_unread_def using rb ac m by blast
  show "unresolved t a \<Longrightarrow> unresolved u a"
    unfolding unresolved_def using go ur by blast
  show "revocation_intended re K t a \<Longrightarrow> revocation_intended re K u a"
    unfolding revocation_intended_def using go rb ac de by blast
  show "backend_revoked t a \<Longrightarrow> backend_revoked u a"
    unfolding backend_revoked_def driver_done_def using re m by blast
  show "gave_up t a \<Longrightarrow> gave_up u a"
    unfolding gave_up_def using m by blast
  show "key_issued re K req t a s \<Longrightarrow> key_issued re K req u a s"
    unfolding key_issued_def driver_done_def using en m by blast
  show "secret_written t a \<Longrightarrow> secret_written u a"
    unfolding secret_written_def using m by blast
qed

lemma set_prefix: "set t \<subseteq> set (t @ d)"
  by simp

lemmas access_evidence_app = access_evidence_mono [OF set_prefix]

text \<open>What a status write of this controller contains.\<close>

definition access_write ::
  "('w, 'x) kube_scheme \<Rightarrow> bucket_access \<Rightarrow> status_builder \<Rightarrow> access_observed \<Rightarrow> event list \<Rightarrow> event \<Rightarrow> bool" where
  "access_write K a sb ob u e \<longleftrightarrow> (\<exists>r. e = EvGet Cached KAccess (access_key a) r)
     \<or> (\<exists>now x r. e = EvUpdateStatus KAccess (OAccess (x\<lparr>ba_status := Some
          (if ao_revoked ob then clear_credentials (access_status_of K a sb ob (status_read x))
           else record_credentials ob now (access_status_of K a sb ob (status_read x)))\<rparr>)) r
        \<and> EvGet Cached KAccess (access_key a) (Inr (OAccess x)) \<in> set u)"

lemma wp_access_updateStatus:
  assumes "retry_law K" and "justified P t" and ok: "\<And>u e. set t \<subseteq> set u \<Longrightarrow> access_write K a sb ob u e \<Longrightarrow> P u e"
  shows "wp (access_updateStatus K a sb ob) (\<lambda>_. grown P t) (w, t)"
  unfolding access_updateStatus_def
proof (rule wp_retry [OF assms(1), where I = "grown P t"], rule grown_start [OF assms(2)], goal_cases)
  case (1 s)
  obtain w u where s: "s = (w, u)" by (cases s)
  note get = grown_step [OF 1 [unfolded s] ok [OF grown_sub [OF 1 [unfolded s]]]]
  show ?case
    unfolding s kget_def kupdate_status_def Let_def
    by (intro wp_rules conjI get grown_step [OF get] ok) (use grown_sub [OF 1 [unfolded s]] in \<open>auto simp: access_write_def status_read_def\<close>)
qed

lemma access_status_fields:
  "bas_phase (clear_credentials st) = bas_phase st" "bas_conditions (clear_credentials st) = bas_conditions st"
  "bas_phase (record_credentials ob now st) = bas_phase st" "bas_conditions (record_credentials ob now st) = bas_conditions st"
  "bas_phase (access_status_of K a sb ob old) = derivePhase (k_find_condition K) (flush K (bas_conditions old) sb) bucketAccessStageOrder"
  "bas_conditions (access_status_of K a sb ob old) = flush K (bas_conditions old) sb"
  by (simp_all add: clear_credentials_def record_credentials_def access_status_of_def Let_def split: option.split)

lemma record_credentials_fields:
  "ao_secret_name ob \<noteq> [] \<Longrightarrow> bas_secret_ref (record_credentials ob now st) = Some (ao_secret_name ob)"
  "ao_access_key_id ob \<noteq> [] \<Longrightarrow> bas_access_key_id (record_credentials ob now st) = ao_access_key_id ob"
  by (simp_all add: record_credentials_def Let_def split: option.split)

lemma credentialsSecretName_nonempty: "credentialsSecretName a \<noteq> []"
  by (simp add: credentialsSecretName_def)

definition issued_observed :: "bucket_access \<Rightarrow> access_state \<Rightarrow> access_observed \<Rightarrow> bool" where
  "issued_observed a s ob \<longleftrightarrow> \<not> ao_revoked ob \<and> ao_secret_name ob = credentialsSecretName a
     \<and> (as_access_key_id s \<noteq> [] \<longrightarrow> ao_access_key_id ob = as_access_key_id s)"

text \<open>An observation that records nothing of a key.\<close>

definition fresh_observed :: "access_observed \<Rightarrow> bool" where
  "fresh_observed ob \<longleftrightarrow> \<not> ao_revoked ob \<and> ao_access_key_id ob = [] \<and> ao_secret_name ob = []"

lemma fresh_observed_update:
  "fresh_observed no_access_observed" "fresh_observed ob \<Longrightarrow> fresh_observed (ob\<lparr>ao_endpoint := e\<rparr>)"
  "fresh_observed ob \<Longrightarrow> fresh_observed (ob\<lparr>ao_bucket_name := n\<rparr>)"
  by (simp_all add: fresh_observed_def no_access_observed_def)

lemma untouched_kept:
  assumes "fresh_observed ob"
  shows "status_kept K old (if ao_revoked ob then clear_credentials (access_status_of K a (newStatusBuilder g n) ob old)
           else record_credentials ob now (access_status_of K a (newStatusBuilder g n) ob old))"
  using assms by (simp add: status_kept_def fresh_observed_def record_credentials_def access_status_of_def Let_def flush_def newStatusBuilder_def)

lemma wp_access_finish:
  assumes "retry_law K" and "cond_law K" and "justified (access_event_ok re reg K req) t"
    and settled: "gave_up t a \<and> fresh_observed ob \<and> (\<exists>g n. sb = newStatusBuilder g n) \<or> settled bucketAccessStageOrder sb"
    and active: "access_active req t a"
    and ready: "aggregateReady sb \<Longrightarrow> (\<exists>s. key_issued re K req t a s \<and> secret_written t a \<and> issued_observed a s ob)"
    and "\<And>out w' d. justified (access_event_ok re reg K req) (t @ d) \<Longrightarrow> Q out (w', t @ d)"
  shows "wp (access_finish cfg K a sb ob err) Q (w, t)"
  unfolding access_finish_def
proof (rule wp_finish_grown, rule wp_access_updateStatus [OF assms(1,3)], goal_cases)
  case (1 u e)
  let ?st = "\<lambda>now old. if ao_revoked ob then clear_credentials (access_status_of K a sb ob old)
           else record_credentials ob now (access_status_of K a sb ob old)"
  have ok: "gave_up u a \<and> status_kept K old (?st now old)
      \<or> status_agrees K (bas_phase (?st now old)) (bas_conditions (?st now old))
            \<and> (bas_phase (?st now old) = PhaseReady \<longrightarrow> access_ready_evidence re K req u a (?st now old))" for now old
  proof (cases "settled bucketAccessStageOrder sb")
    case False
    then show ?thesis using settled access_evidence_mono(9) [OF 1(1)] untouched_kept by blast
  next
    case set: True
    have "access_ready_evidence re K req u a (?st now old)" if "bas_phase (?st now old) = PhaseReady"
    proof -
      have "aggregateReady sb" using that access_stages.settled_ready_iff [OF assms(2) set] by (simp add: access_status_fields split: if_splits)
      then obtain s where "key_issued re K req u a s" "secret_written u a" "issued_observed a s ob"
        using ready access_evidence_mono(10,11) [OF 1(1)] by blast
      then show ?thesis
        unfolding access_ready_evidence_def issued_observed_def
        using record_credentials_fields [of ob] credentialsSecretName_nonempty by (intro exI [of _ s]) auto
    qed
    then show ?thesis
      using access_stages.settled_agrees [OF assms(2) set] by (simp add: access_status_fields)
  qed
  from 1(2) show ?case
    unfolding access_write_def
  proof (elim disjE exE conjE)
    fix now x r assume e: "e = EvUpdateStatus KAccess (OAccess (x\<lparr>ba_status := Some (?st now (status_read x))\<rparr>)) r"
      and x: "EvGet Cached KAccess (access_key a) (Inr (OAccess x)) \<in> set u"
    show ?thesis using ok x access_evidence_mono(1) [OF 1(1) active] unfolding e access_event_ok_def event.case obj.case by blast
  qed (simp add: access_event_ok_def)
qed (rule assms(7))

lemma not_granted_settles:
  "settled bucketAccessStageOrder (not_granted sb r m)" "\<not> aggregateReady (not_granted sb r m)"
  using access_stages.gate_settles [OF access_stages.passed_0, of BucketAccessConditionAccessGranted]
  by (simp_all add: not_granted_def bucketAccessStageOrder_def)

lemma aggregateReady_new: "\<not> aggregateReady (newStatusBuilder g n)"
  by (simp add: aggregateReady_def)

text \<open>The branch that revokes, entered with the facts that make the key revocable.\<close>

lemma gave_up_steps:
  "\<not> is_not_found e \<Longrightarrow> gave_up (t @ [EvGet Cached KClaim (access_ns a, ba_bucket_claim_name (ba_spec a)) (Inl e)]) a"
  "\<not> is_not_found e \<Longrightarrow> gave_up (t @ [EvGet Uncached KSecret (access_ns a, credentialsSecretName a) (Inl e)]) a"
  "\<not> is_not_found e \<Longrightarrow> gave_up (t @ d @ [EvDelete KSecret (access_ns a, credentialsSecretName a) (Some e)]) a"
  unfolding gave_up_def by (auto intro: exI [of _ e])

lemma wp_access_revoke:
  assumes laws: "retry_law K" "cond_law K" and t: "justified (access_event_ok re reg K req) t"
    and active: "access_active req t a" and ob: "fresh_observed ob"
    and rev: "revocation_intended re K t a \<or> bound_unread t a \<and> (bkt = None \<or> cluster = None)"
    and res: "case bkt of None \<Rightarrow> unresolved t a | Some b \<Rightarrow> (case cluster of None \<Rightarrow> unresolved t a | Some c \<Rightarrow> resolved t a b c)"
  shows "wp (access_revoke reg cfg K a (newStatusBuilder g n) ob bound authz bkt cluster)
    (\<lambda>out s'. justified (access_event_ok re reg K req) (snd s')) (w, t)"
proof -
  note fin = wp_access_finish [OF laws, where req = req and re = re and reg = reg]
  note app = access_evidence_app
  have settle: "gave_up u a \<and> fresh_observed ob' \<and> (\<exists>g n. not_granted sb r m = newStatusBuilder g n)
      \<or> settled bucketAccessStageOrder (not_granted sb r m)" for u ob' sb r m
    using not_granted_settles(1) by blast
  have gone: "revocation_intended re K t a" if "bound_gone t a"
    using that by (simp add: revocation_intended_def)
  have unbound: "access_event_ok re reg K req t (EvDelete KSecret (access_ns a, credentialsSecretName a) r)"
    if "recorded_key a \<noteq> []" and "unresolved t a" for r
    using that active gone unfolding access_event_ok_def unresolved_def by simp blast
  have nodrv: "access_event_ok re reg K req t (EvDelete KSecret (access_ns a, credentialsSecretName a) r)"
    if "resolved t a b c" "Registry_For reg c = Inl e" "recorded_key a \<noteq> []" "revocation_intended re K t a" for b c e r
    using that active unfolding access_event_ok_def by simp blast
  have call: "access_event_ok re reg K req t (EvDriver (DrvDeleteAccess c b a r))"
    if "recorded_key a \<noteq> []" "resolved t a b c" "revocation_intended re K t a" for b c r
    using that active by (simp add: access_event_ok_def)
  have revoked: "access_event_ok re reg K req (t @ [EvDriver (DrvDeleteAccess c b a None)])
      (EvDelete KSecret (access_ns a, credentialsSecretName a) r)"
    if "resolved t a b c" "recorded_key a \<noteq> []" "revocation_intended re K t a" for b c r
  proof -
    have "backend_revoked (t @ [EvDriver (DrvDeleteAccess c b a None)]) a"
      using app(4) [OF that(1)] unfolding backend_revoked_def by (auto simp: driver_done_def)
    then show ?thesis
      using app(1) [OF active] app(7) [OF that(3)] that(2) unfolding access_event_ok_def by simp blast
  qed
  show ?thesis
    unfolding access_revoke_def Let_def DeleteAccess_def deleteCredentialsSecret_def kdelete_def
    by (intro wp_bind wp_if wp_case_option wp_case_sum wp_case_prod wp_return wp_call fin settle)
      (use t res rev ob in \<open>auto simp: app(1) [OF active] active not_granted_settles aggregateReady_new recorded_key_def
        gave_up_steps(3) [where d = "[]", simplified] gave_up_steps(3) [where d = "[_]", simplified] unbound call revoked
        intro: nodrv split: option.splits if_splits\<close>)
qed

text \<open>The branch that issues a key, entered with the entitlement.\<close>

lemma access_advance1:
  "advance sb bucketAccessStageOrder BucketAccessConditionAccessGranted d m e = (sb', False) \<Longrightarrow>
     settled bucketAccessStageOrder sb' \<and> \<not> aggregateReady sb'"
  "advance sb bucketAccessStageOrder BucketAccessConditionAccessGranted d m e = (sb', True) \<Longrightarrow>
     passed bucketAccessStageOrder 1 sb' \<and> d \<and> e = None"
  using access_stages.advance_stops [OF access_stages.passed_0, of BucketAccessConditionAccessGranted sb d m e sb']
    access_stages.advance_done [OF access_stages.passed_0, of BucketAccessConditionAccessGranted sb d m e sb']
  by (auto simp: bucketAccessStageOrder_def) (auto simp: advance_def split: option.splits if_splits)

lemma access_advance2:
  assumes "passed bucketAccessStageOrder 1 sb"
  shows "advance sb bucketAccessStageOrder BucketAccessConditionCredentialsReady d m e = (sb', False) \<Longrightarrow>
     settled bucketAccessStageOrder sb' \<and> \<not> aggregateReady sb'"
    and "advance sb bucketAccessStageOrder BucketAccessConditionCredentialsReady d m e = (sb', True) \<Longrightarrow>
     d \<and> settled bucketAccessStageOrder (setCondition sb' BucketAccessConditionReady ConditionTrue r x)"
  using access_stages.advance_stops [OF assms, of BucketAccessConditionCredentialsReady d m e sb']
    access_stages.advance_done [OF assms, of BucketAccessConditionCredentialsReady d m e sb']
    access_stages.all_passed_settles [of sb' r x]
  by (auto simp: bucketAccessStageOrder_def BucketAccessConditionReady_def conditionReady_def)
    (auto simp: advance_def split: option.splits if_splits)

lemma wp_access_store:
  assumes laws: "retry_law K" "cond_law K" and t: "justified (access_event_ok re reg K req) t" and issued: "key_issued re K req t a s"
    and active: "access_active req t a" and sb: "passed bucketAccessStageOrder 1 sb" and ob: "\<not> ao_revoked ob" "as_access_key_id s \<noteq> [] \<longrightarrow> ao_access_key_id ob = as_access_key_id s"
  shows "wp (access_store own cfg K a sb ob b c s existing)
    (\<lambda>out s'. justified (access_event_ok re reg K req) (snd s')) (w, t)"
  unfolding access_store_def ensureCredentialsSecret_def kcreate_or_update_def Let_def
proof (rule wp_bind, rule wp_bind, rule wp_call, rule wp_return, rule wp_case_prod, rule wp_case_prod, rule wp_if, goal_cases)
  case (1 r w' secretName err sb' ok)
  then show ?case
    using access_advance2(1) [OF sb]
    by (intro wp_access_finish [OF laws, where req = req and re = re and reg = reg])
      (use t issued access_evidence_app(1) [OF active] in \<open>auto simp: access_event_ok_def\<close>)
next
  case (2 r w' secretName err sb' ok)
  let ?y = "OSecret \<lparr>sec_meta = fresh_meta (credentialsSecretName a) (access_ns a) Map.empty, sec_data = Map.empty, sec_string_data = Map.empty\<rparr>"
  obtain z where z: "r = Inr z" "secretName = credentialsSecretName a"
    using 2 by (auto split: sum.splits dest: access_advance2(2) [OF sb])
  let ?t = "t @ [EvCreateOrUpdate KSecret (access_ns a, credentialsSecretName a) ?y (Inr (OSecret z))]"
  have set: "settled bucketAccessStageOrder (setCondition sb' BucketAccessConditionReady ConditionTrue x m)" for x m
    using 2 access_advance2(2) [OF sb] by auto
  have "key_issued re K req ?t a s" using issued by (rule access_evidence_app(10))
  moreover have "secret_written ?t a" by (auto simp: secret_written_def)
  ultimately show ?case
    unfolding z map_sum.simps
    by (intro wp_access_finish [OF laws, where req = req and re = re and reg = reg])
      (use t issued ob set access_evidence_app(1) [OF active] in \<open>auto simp: access_event_ok_def issued_observed_def\<close>)
qed

lemma wp_access_issue:
  assumes laws: "retry_law K" "cond_law K" and t: "justified (access_event_ok re reg K req) t" and ent: "entitled re K req t a b c"
    and ob: "fresh_observed ob"
  shows "wp (access_issue own reg cfg K a (newStatusBuilder g n) ob b c)
    (\<lambda>out s'. justified (access_event_ok re reg K req) (snd s')) (w, t)"
proof -
  note fin = wp_access_finish [OF laws, where req = req and re = re and reg = reg]
  have settle: "gave_up u a \<and> fresh_observed ob' \<and> (\<exists>g n. not_granted sb r m = newStatusBuilder g n)
      \<or> settled bucketAccessStageOrder (not_granted sb r m)" for u ob' sb r m
    using not_granted_settles(1) by blast
  have ens: "access_event_ok re reg K req (t @ [x]) (EvDriver (DrvEnsureAccess c b a fresh r))"
    if "mint_due (t @ [x]) a fresh" for x fresh r
    using that access_evidence_app(5) [OF ent] by (simp add: access_event_ok_def)
  have issued: "key_issued re K req ((t @ [x]) @ [EvDriver (DrvEnsureAccess c b a fresh (s, None))]) a s"
    if "as_ready s" for x fresh s
    using that access_evidence_app(5) [OF ent, of "[x, EvDriver (DrvEnsureAccess c b a fresh (s, None))]"]
    unfolding key_issued_def by (auto simp: driver_done_def)
  have read: "access_event_ok re reg K req u (EvGet rd k ky r)" for u rd k ky r
    by (simp add: access_event_ok_def)
  have active: "access_active req t a" using ent by (simp add: entitled_def)
  show ?thesis
    unfolding access_issue_def getSecret_def kget_def EnsureAccess_def Let_def
    by (intro wp_bind wp_if wp_case_option wp_case_sum wp_case_prod wp_return wp_call fin settle wp_access_store [OF laws])
      (use t ob in \<open>auto simp: active access_evidence_app(1) [OF active] not_granted_settles aggregateReady_new gave_up_steps read mint_due_def fresh_observed_def
        intro!: ens issued [simplified] dest!: access_advance1
        split: if_splits sum.splits\<close>)
qed

lemma wp_accessAuthorized:
  assumes "justified (access_event_ok re reg K req) t"
    and "\<And>w' d e. justified (access_event_ok re reg K req) (t @ d) \<Longrightarrow> Q (Inl e) (w', t @ d)"
    and "\<And>w' d m. justified (access_event_ok re reg K req) (t @ d) \<Longrightarrow> allowed re (t @ d) b ns \<Longrightarrow> Q (Inr (True, m)) (w', t @ d)"
    and "\<And>w' d m. justified (access_event_ok re reg K req) (t @ d) \<Longrightarrow> denied re (t @ d) b ns \<Longrightarrow> Q (Inr (False, m)) (w', t @ d)"
  shows "wp (accessAuthorized re K b ns) Q (w, t)"
proof -
  have "wp (accessAuthorized re K b ns) (\<lambda>r s'. (\<exists>d. snd s' = t @ d) \<and> justified (access_event_ok re reg K req) (snd s')
      \<and> (case r of Inl e \<Rightarrow> True | Inr v \<Rightarrow> if fst v then allowed re (snd s') b ns else denied re (snd s') b ns)) (w, t)"
    unfolding accessAuthorized_def namespaceAllowedForBucket_def klist_def Let_def
    by (intro wp_rules)
      (use assms(1) in \<open>auto simp: access_event_ok_def allowed_def denied_def claim_owned_def owner_ns_def policy_allows_def policy_denies_def
        split: sum.splits dest: decide_Inr\<close>)
  then show ?thesis
    by (rule wp_mono) (use assms(2-4) in \<open>auto split: sum.splits if_splits\<close>)
qed

text \<open>Resolving the bucket of a claim: both objects, or a reason why not.\<close>

lemma unresolved_reads:
  assumes "access_claim t a cl" and "boundName cl \<noteq> []"
  shows "unresolved (t @ [EvGet Cached KBucket ([], boundName cl) (Inl e)]) a"
    and "unresolved (t @ [EvGet Cached KBucket ([], boundName cl) (Inr (OBucket b)),
      EvGet Cached KStore ([], b_object_store_ref (b_spec b)) (Inl e)]) a" (is "unresolved ?u a")
proof -
  have "access_claim (t @ [EvGet Cached KBucket ([], boundName cl) (Inl e)]) a cl" using assms(1) by (simp add: access_claim_def)
  then show "unresolved (t @ [EvGet Cached KBucket ([], boundName cl) (Inl e)]) a"
    using assms(2) unfolding unresolved_def bound_gone_def bound_unread_def
    by (cases "is_not_found e") (auto intro!: exI [of _ cl] exI [of _ e])
  have "access_claim ?u a cl" and "read_bound ?u cl b" using assms by (auto simp: access_claim_def read_bound_def)
  then show "unresolved ?u a"
    unfolding unresolved_def bound_gone_def bound_unread_def by (cases "is_not_found e") (auto intro!: exI [of _ cl] exI [of _ b] exI [of _ e])
qed

lemma wp_resolveBound:
  assumes "justified (access_event_ok re reg K req) t" and "access_claim t a cl" and "boundName cl \<noteq> []"
    and "\<And>w' d bkt cluster. justified (access_event_ok re reg K req) (t @ d) \<Longrightarrow>
      resolution (t @ d) a cl bkt cluster \<Longrightarrow>
      Q (bkt, cluster) (w', t @ d)"
  shows "wp (resolveBound K (boundName cl)) Q (w, t)"
proof -
  have "wp (resolveBound K (boundName cl)) (\<lambda>r s'. (\<exists>d. snd s' = t @ d) \<and> justified (access_event_ok re reg K req) (snd s')
      \<and> resolution (snd s') a cl (fst r) (snd r)) (w, t)"
    unfolding resolveBound_def kget_def
    by (intro wp_rules)
      (use assms(1-3) in \<open>auto simp: access_event_ok_def resolution_def unresolved_reads [OF assms(2,3)] resolved_def read_bound_def access_claim_def
        split: sum.splits\<close>)
  then show ?thesis
  proof (rule wp_mono, goal_cases)
    case (1 r s')
    obtain w' d where s': "s' = (w', t @ d)" using 1 by (cases s') auto
    show ?case using 1 unfolding s' by (cases r) (auto intro!: assms(4))
  qed
qed

lemma wp_access_gate:
  assumes laws: "retry_law K" "cond_law K" and t: "justified (access_event_ok re reg K req) t" and active: "access_active req t a"
    and cl: "access_claim t a cl" and ob: "fresh_observed ob"
    and res: "resolution t a cl bkt cluster"
  shows "wp (access_gate own re reg cfg K a (newStatusBuilder g n) ob cl bkt cluster)
    (\<lambda>out s'. justified (access_event_ok re reg K req) (snd s')) (w, t)"
proof (cases bkt)
  case None
  then show ?thesis
    using res unfolding access_gate_def resolution_def
    by (auto intro!: wp_bind wp_return wp_access_revoke [OF laws t active ob] simp: unresolved_def revocation_intended_def)
next
  case (Some b)
  note fin = wp_access_finish [OF laws, where req = req and re = re and reg = reg]
  have settle: "gave_up u a \<and> fresh_observed ob' \<and> (\<exists>g n. not_granted sb r m = newStatusBuilder g n)
      \<or> settled bucketAccessStageOrder (not_granted sb r m)" for u ob' sb r m
    using not_granted_settles(1) by blast
  have cl': "access_claim (t @ d) a cl" and rb: "read_bound (t @ d) cl b" for d
    using cl res Some by (auto simp: access_claim_def read_bound_def resolution_def)
  have rest: "case cluster of None \<Rightarrow> unresolved (t @ d) a | Some c \<Rightarrow> resolved (t @ d) a b c" for d
    using res Some access_evidence_app(4,6) [where t = t and d = d] by (auto simp: resolution_def split: option.splits)
  have rvN: "revocation_intended re K (t @ d) a \<or> bound_unread (t @ d) a" if "cluster = None" for d
    using that rest [of d] unfolding revocation_intended_def unresolved_def by auto
  have rv: "revocation_intended re K (t @ d) a" if "\<not> claimBound K cl \<or> denied re (t @ d) b (access_ns a)" for d
    using that cl' rb unfolding revocation_intended_def by blast
  have ent: "entitled re K req (t @ d) a b c" if "cluster = Some c" "claimBound K cl" "bucketReadyState K b = Some ConditionTrue"
      "allowed re (t @ d) b (access_ns a)" for c d
    using that rest [of d] cl' [of d] rb [of d] access_evidence_app(1) [OF active] unfolding entitled_def resolved_def by auto
  show ?thesis
    unfolding access_gate_def Some option.case
    by (rule wp_bind, rule wp_accessAuthorized [OF t]; simp only: sum.case)
      (intro wp_case_option wp_if wp_access_issue [OF laws] fin settle; use rest rv rvN ent ob active in
        \<open>auto simp: not_granted_settles access_evidence_app(1) intro!: wp_access_revoke [OF laws]\<close>)+
qed

lemma wp_access_normal:
  assumes laws: "retry_law K" "cond_law K" and t: "justified (access_event_ok re reg K req) t" and active: "access_active req t a"
  shows "wp (access_reconcileNormal own re reg cfg K a) (\<lambda>out s'. justified (access_event_ok re reg K req) (snd s')) (w, t)"
proof -
  note fin = wp_access_finish [OF laws, where req = req and re = re and reg = reg]
  have settle: "gave_up u a \<and> fresh_observed ob' \<and> (\<exists>g n. not_granted sb r m = newStatusBuilder g n)
      \<or> settled bucketAccessStageOrder (not_granted sb r m)" for u ob' sb r m
    using not_granted_settles(1) by blast
  have read: "access_event_ok re reg K req u (EvGet rd k ky r)" for u rd k ky r
    by (simp add: access_event_ok_def)
  let ?get = "EvGet Cached KClaim (access_ns a, ba_bucket_claim_name (ba_spec a))"
  have claim: "access_claim (t @ ?get (Inr (OClaim cl)) # d) a cl" for cl d
    by (simp add: access_claim_def)
  show ?thesis
    unfolding access_reconcileNormal_def kget_def Let_def
  proof (rule wp_bind, rule wp_sample, rule wp_bind, rule wp_call, rule wp_case_sum, goal_cases)
    case (1 now v r w' err)
    have gone: "bound_gone (t @ [?get (Inl err)]) a" if "is_not_found err"
      using that unfolding bound_gone_def by (intro disjI1 exI [of _ err]) simp
    have "access_event_ok re reg K req (t @ [?get (Inl err)]) (EvDelete KSecret (access_ns a, credentialsSecretName a) x)"
      if "is_not_found err" "recorded_key a \<noteq> []" for x
      using gone [OF that(1)] access_evidence_app(1) [OF active, of "[?get (Inl err)]"] that(2)
      unfolding access_event_ok_def revocation_intended_def by auto
    then show ?case
      unfolding revokeIfIssued_def deleteCredentialsSecret_def kdelete_def 1(3) map_sum.simps
      by (intro wp_bind wp_if wp_call wp_return wp_case_option fin settle)
        (use t in \<open>auto simp: access_evidence_app(1) [OF active] read gave_up_steps aggregateReady_new not_granted_settles recorded_key_def fresh_observed_update split: option.splits if_splits\<close>)
  next
    case (2 now v r w' cl)
    let ?t = "t @ [?get (Inr (OClaim cl))]"
    have t': "justified (access_event_ok re reg K req) ?t" using t by (simp add: read)
    have active': "access_active req ?t a" using active by (rule access_evidence_app(1))
    have cl: "access_claim ?t a cl" by (rule claim)
    have gate: "wp (access_gate own re reg cfg K a (newStatusBuilder (m_generation (ba_meta a)) now)
         (case bc_status cl of None \<Rightarrow> no_access_observed | Some st \<Rightarrow> no_access_observed\<lparr>ao_endpoint := bcs_endpoint st\<rparr>) cl bkt cluster)
         (\<lambda>out s'. justified (access_event_ok re reg K req) (snd s')) (w', ?t @ d)"
      if "justified (access_event_ok re reg K req) (?t @ d)"
        and "resolution (?t @ d) a cl bkt cluster"
      for bkt cluster w' d
      using that cl access_evidence_app(1) [OF active']
      by (intro wp_access_gate [OF laws]) (auto simp: access_claim_def fresh_observed_update split: option.split)
    have nobound: "unresolved ?t a" if "boundName cl = []"
      using that cl unfolding unresolved_def bound_gone_def by blast
    show ?case
      unfolding 2(3) map_sum.simps
    proof (intro wp_bind wp_if, goal_cases)
      case 1
      then show ?case by (rule wp_resolveBound [OF t' cl]) (simp only: prod.case, rule gate)
    next
      case 2
      then show ?case using gate [of "[]" None None] nobound t' by (auto intro!: wp_return simp: resolution_def)
    qed
  qed
qed

lemma wp_access_delete:
  assumes t: "justified (access_event_ok re reg K req) t" and a: "EvGet Cached KAccess req (Inr (OAccess a)) \<in> set t" "m_deleting (ba_meta a)"
  shows "wp (access_reconcileDelete reg K a) (\<lambda>out s'. justified (access_event_ok re reg K req) (snd s')) (w, t)"
proof (cases "contains_finalizer (ba_meta a)")
  case True
  let ?get = "EvGet Cached KClaim (access_ns a, ba_bucket_claim_name (ba_spec a))"
  have read: "access_event_ok re reg K req u (EvGet rd k ky r)" for u rd k ky r
    by (simp add: access_event_ok_def)
  have upd: "access_event_ok re reg K req (t @ d) (EvUpdate KAccess (OAccess (a\<lparr>ba_meta := remove_finalizer (ba_meta a)\<rparr>)) r)"
    if "unresolved (t @ d) a \<or> backend_revoked (t @ d) a" for d r
    using that a True unfolding access_event_ok_def access_released_def by auto
  have call: "access_event_ok re reg K req (t @ d) (EvDriver (DrvDeleteAccess c b a r))" if "resolved (t @ d) a b c" for d b c r
    using that a True by (simp add: access_event_ok_def)
  have revoked: "backend_revoked (t @ d @ [EvDriver (DrvDeleteAccess c b a None)]) a" if "resolved (t @ d) a b c" for d b c
    using access_evidence_app(4) [OF that, of "[EvDriver (DrvDeleteAccess c b a None)]"]
    unfolding backend_revoked_def by (auto simp: driver_done_def)
  have nf: "unresolved (t @ [?get (Inl e)]) a" if "is_not_found e" for e
    using that unfolding unresolved_def bound_gone_def by (intro disjI1 exI [of _ e]) simp
  have cl: "access_claim (t @ [?get (Inr (OClaim c))]) a c" for c
    by (simp add: access_claim_def)
  have nb: "unresolved (t @ [?get (Inr (OClaim c))]) a" if "boundName c = []" for c
    using that cl unfolding unresolved_def bound_gone_def by blast
  show ?thesis
    unfolding access_reconcileDelete_def kget_def kupdate_def
  proof (rule wp_if, simp add: wp_return t, rule wp_bind, rule wp_call, rule wp_bind, rule wp_case_sum, goal_cases)
    case (1 r w' e)
    then show ?case
      by (auto intro!: wp_rules simp: t read upd nf split: if_splits)
  next
    case (2 r w' c)
    have t': "justified (access_event_ok re reg K req) (t @ [?get (Inr (OClaim c))])" using t by (simp add: read)
    show ?case
      unfolding 2(3) map_sum.simps
    proof (rule wp_if, rule wp_bind, rule wp_resolveBound [OF t' cl], assumption, goal_cases)
      case (1 w'' d bkt cluster)
      let ?d = "?get (Inr (OClaim c)) # d"
      from 1(3) show ?case
        unfolding resolution_def DeleteAccess_def
        by (intro wp_rules)
          (use 1(2) call [of ?d] upd [of ?d] upd [of "?d @ [EvDriver (DrvDeleteAccess _ _ a None)]"] revoked [of ?d] in
            \<open>auto simp: read split: option.splits\<close>)
    next
      case 2
      then show ?case using t' upd nb by (auto intro!: wp_rules)
    qed
  qed
qed (simp add: access_reconcileDelete_def wp_return t)

section \<open>Properties\<close>

lemma access_pass:
  assumes "retry_law K" and "cond_law K"
  shows "wp (access_Reconcile own re reg cfg K req) (\<lambda>out s'. justified (access_event_ok re reg K req) (snd s')) (w, [])"
  unfolding access_Reconcile_def kget_def kupdate_def Let_def
  by (intro wp_rules wp_access_normal [OF assms] wp_mono [OF wp_access_delete])
    (auto simp: access_event_ok_def access_active_def persisted_def split: sum.splits if_splits)

text \<open>C1: Credentials are issued only to the entitled, against every answer of the API server and of the driver. A
  driver is asked for a key only for an access whose claim was read bound, whose bucket was read with a True Ready
  condition, and whose namespace is allowed: the owner's for a claim-owned bucket, selected by a policy listed past
  the cache in the same reconcile for a shared one; a fresh key is minted exactly on a rotation, a missing record or a
  missing Secret. The Secret is written only after the driver granted the key. A driver is asked to revoke the key of a
  live access only on intent: the claim is gone or not bound, or the namespace is denied. The Secret of a live access
  is deleted only on intent, the backend's key first unless the backend is gone or has no driver, or because the
  bucket of the claim or its store could not be read, which the code does not tell from gone
  (\<open>access_revoked_on_read_error\<close>); never because the bucket is unhealthy. A status write agrees with its conditions, and
  says Ready only after the driver granted the key and the Secret was written; only when the claim or the Secret could
  not be read, or the Secret not be deleted, it keeps the conditions, the key and the Secret of the status it replaces
  instead, a Ready one included. Of the access itself, nothing but the finalizer and the status changes.\<close>

theorem access_reconcile_safe:
  assumes "retry_law K" and "cond_law K"
  shows "wp (access_Reconcile own re reg cfg K req) (\<lambda>out s'. justified (access_event_ok re reg K req) (snd s')) (w, [])"
  by (rule access_pass [OF assms])

definition team_access :: "bucket_access_status option \<Rightarrow> bool \<Rightarrow> bucket_access" where
  "team_access st deleting = \<lparr>ba_meta = (fresh_meta ''app'' ''team-a'' Map.empty)\<lparr>m_finalizers := [Finalizer], m_deleting := deleting\<rparr>,
     ba_spec = \<lparr>ba_bucket_claim_name = ''data'', ba_permission = AccessReadWrite, ba_credentials_secret_name = []\<rparr>,
     ba_status = st\<rparr>"

definition true_cond :: "string \<Rightarrow> condition" where
  "true_cond t = \<lparr>c_type = t, c_status = ConditionTrue, c_reason = ''Ready'', c_message = [], c_observed_generation = 1,
     c_last_transition = 0\<rparr>"

definition bound_claim :: bucket_claim where
  "bound_claim = demo_claim\<lparr>bc_status := Some \<lparr>bcs_observed_generation = 1, bcs_phase = PhaseReady,
     bcs_bound_bucket_name = ''claim-1'', bcs_endpoint = ''http://s3'', bcs_conditions = [true_cond BucketClaimConditionBound]\<rparr>\<rparr>"

definition owned_bucket :: bucket where
  "owned_bucket = plain_bucket\<lparr>b_meta := fresh_meta ''claim-1'' [] [LabelBucketOrigin \<mapsto> BucketOriginBucketClaim,
       LabelOwnedByClaimNamespace \<mapsto> ''team-a''],
     b_status := Some \<lparr>bs_observed_generation = 1, bs_phase = PhaseReady, bs_endpoint = [], bs_bucket_name = ''claim-1'',
       bs_conditions = [true_cond BucketConditionReady]\<rparr>\<rparr>"

definition stored_pair :: secret where
  "stored_pair = \<lparr>sec_meta = fresh_meta ''app-s3-credentials'' ''team-a'' Map.empty,
     sec_data = [SecretKeyAccessKeyID \<mapsto> ''K1'', SecretKeySecretAccessID \<mapsto> ''S1''], sec_string_data = Map.empty\<rparr>"

text \<open>A driver that mints the key K2, and keeps a recorded key as it is, without its secret part.\<close>

definition minting_driver :: "unit driver" where
  "minting_driver = (NotImplementedDriver BackendGarage)\<lparr>d_ensure_access := (\<lambda>c b a fresh w.
     ((if fresh then \<lparr>as_ready = True, as_message = [], as_access_key_id = ''K2'', as_secret_access_key = ''S2''\<rparr>
       else \<lparr>as_ready = True, as_message = [], as_access_key_id = recorded_key a, as_secret_access_key = []\<rparr>, None), w))\<rparr>"

definition access_env :: "bucket_access \<Rightarrow> bool \<Rightarrow> unit kube" where
  "access_env a failing = quiet_kube\<lparr>k_stores := answering (Inr demo_store) [], k_buckets := answering (Inr owned_bucket) [],
     k_claims := answering (Inr bound_claim) [], k_accesses := answering (Inr a) [],
     k_secrets := (answering (Inr stored_pair) [])\<lparr>r_create_or_update := (\<lambda>y f w.
       (if failing then Inl (new_err ''unavailable'') else f stored_pair, w))\<rparr>\<rparr>"

lemma access_env_laws: "retry_law (access_env a f)" "cond_law (access_env a f)"
  by (simp_all add: access_env_def quiet_kube_def quiet_retry_law quiet_cond_law)

definition access_trace :: "bucket_access \<Rightarrow> bool \<Rightarrow> event list" where
  "access_trace a failing = snd (snd (run_state (access_Reconcile (\<lambda>x m. Inr m) literal_regexps (NewRegistry [minting_driver])
     demo_options (access_env a failing) (''team-a'', ''app'')) ((), [])))"

lemma access_reconcile_safe_witness:
  "justified (access_event_ok literal_regexps (NewRegistry [minting_driver]) (access_env (team_access None False) False) (''team-a'', ''app''))
     (access_trace (team_access None False) False)"
  using access_reconcile_safe [OF access_env_laws, of "\<lambda>x m. Inr m" literal_regexps "NewRegistry [minting_driver]" demo_options
      "team_access None False" False "(''team-a'', ''app'')" "()"]
  unfolding access_trace_def by (simp add: wp_def split: prod.splits)

lemma access_env_answers:
  "r_get (k_accesses (access_env a f)) rd ky w = (Inr a, w)"
  "r_get (k_claims (access_env a f)) rd ky w = (Inr bound_claim, w)"
  "r_get (k_buckets (access_env a f)) rd ky w = (Inr owned_bucket, w)"
  "r_get (k_stores (access_env a f)) rd ky w = (Inr demo_store, w)"
  "r_get (k_secrets (access_env a f)) rd ky w = (Inr stored_pair, w)"
  "r_create_or_update (k_secrets (access_env a f)) y g w = (if f then Inl (new_err ''unavailable'') else g stored_pair, w)"
  "r_update_status (k_accesses (access_env a f)) x w = (None, w)"
  "k_now (access_env a f) w = (0, w)" "k_retry (access_env a f) m = m"
  "k_set_condition (access_env a f) = set_cond" "k_find_condition (access_env a f) = find_cond"
  by (simp_all add: access_env_def quiet_kube_def answering_def)

lemma access_demo_facts:
  "boundName bound_claim = ''claim-1''" "claimBound (access_env a f) bound_claim"
  "bucketReadyState (access_env a f) owned_bucket = Some ConditionTrue"
  "run_state (accessAuthorized re (access_env a f) owned_bucket ''team-a'') s = (Inr (True, []), s)"
  "Registry_For (NewRegistry [minting_driver]) demo_store = Inr minting_driver"
  "bc_status bound_claim \<noteq> None"
  by (simp_all add: boundName_def bound_claim_def claimBound_def access_env_answers find_cond_def true_cond_def bucketReadyState_def
      owned_bucket_def accessAuthorized_def map_str_def fresh_meta_def condition_type_defs LabelBucketOrigin_def
      LabelOwnedByClaimNamespace_def BucketOriginBucketClaim_def Registry_For_def demo_store_def ResolveBackendType_def
      NewRegistry_def minting_driver_def NotImplementedDriver_def Let_def)

lemma team_access_fields:
  "contains_finalizer (ba_meta (team_access st d))" "m_deleting (ba_meta (team_access st d)) = d"
  "access_ns (team_access st d) = ''team-a''" "ba_bucket_claim_name (ba_spec (team_access st d)) = ''data''"
  "m_generation (ba_meta (team_access st d)) = 0" "b_object_store_ref (b_spec owned_bucket) = ''main''"
  "credentialsSecretName (team_access st d) = ''app-s3-credentials''" "ba_status (team_access st d) = st"
  "rotation_value (team_access st d) = []"
  by (simp_all add: contains_finalizer_def team_access_def fresh_meta_def access_ns_def owned_bucket_def plain_bucket_def
      credentialsSecretName_def rotation_value_def map_str_def)

lemma access_demo_issue:
  "run_state (access_Reconcile own re (NewRegistry [minting_driver]) cfg (access_env (team_access st False) f) req) (w, t)
    = run_state (access_issue own (NewRegistry [minting_driver]) cfg (access_env (team_access st False) f) (team_access st False)
        (newStatusBuilder 0 0) (no_access_observed\<lparr>ao_endpoint := ''http://s3''\<rparr>) owned_bucket demo_store)
      (w, t @ [EvGet Cached KAccess req (Inr (OAccess (team_access st False))),
        EvGet Cached KClaim (''team-a'', ''data'') (Inr (OClaim bound_claim)),
        EvGet Cached KBucket ([], ''claim-1'') (Inr (OBucket owned_bucket)),
        EvGet Cached KStore ([], ''main'') (Inr (OStore demo_store))])"
proof -
  have "(case bc_status bound_claim of None \<Rightarrow> no_access_observed | Some st \<Rightarrow> no_access_observed\<lparr>ao_endpoint := bcs_endpoint st\<rparr>)
      = no_access_observed\<lparr>ao_endpoint := ''http://s3''\<rparr>" by (simp add: bound_claim_def)
  then show ?thesis
    by (simp add: Let_def access_Reconcile_def access_reconcileNormal_def kube_op_defs call_def sample_def access_env_answers
      team_access_fields resolveBound_def access_demo_facts access_gate_def)
qed

lemma minting_answers:
  "d_ensure_access minting_driver c b a fresh w = ((if fresh
     then \<lparr>as_ready = True, as_message = [], as_access_key_id = ''K2'', as_secret_access_key = ''S2''\<rparr>
     else \<lparr>as_ready = True, as_message = [], as_access_key_id = recorded_key a, as_secret_access_key = []\<rparr>, None), w)"
  by (simp add: minting_driver_def)

lemma recorded_demo: "recorded_key (team_access st d) = (case st of None \<Rightarrow> [] | Some x \<Rightarrow> bas_access_key_id x)"
  "observed_rotation (team_access st d) = (case st of None \<Rightarrow> [] | Some x \<Rightarrow> bas_observed_rotation x)"
  by (simp_all add: recorded_key_def observed_rotation_def team_access_fields)

lemmas access_run_simps = Let_def access_demo_facts getSecret_def kube_op_defs call_def sample_def access_env_answers
  team_access_fields recorded_demo EnsureAccess_def minting_answers advance_def access_store_def ensureCredentialsSecret_def
  access_finish_def finish_with_def access_updateStatus_def no_access_observed_def

lemma record_key_other:
  "ao_secret_name ob = [] \<Longrightarrow> bas_secret_ref (record_credentials ob now (access_status_of K a sb ob st)) = bas_secret_ref st
     \<and> bas_observed_rotation (record_credentials ob now (access_status_of K a sb ob st)) = bas_observed_rotation st"
  by (simp add: record_credentials_def access_status_of_def Let_def)

lemma record_differs:
  "ao_access_key_id ob \<noteq> [] \<Longrightarrow> bas_access_key_id x \<noteq> ao_access_key_id ob \<Longrightarrow> x \<noteq> record_credentials ob now st"
  "ao_secret_name ob \<noteq> [] \<Longrightarrow> bas_secret_ref x = None \<Longrightarrow> x \<noteq> record_credentials ob now st"
  using record_credentials_fields [of ob now st] by auto

lemma empty_access_fields [simp]:
  "bas_access_key_id empty_access_status = []" "bas_secret_ref empty_access_status = None"
  "bas_observed_rotation empty_access_status = []"
  by (simp_all add: empty_access_status_def)

lemma access_run_failing:
  obtains st where "EvUpdateStatus KAccess (OAccess ((team_access None False)\<lparr>ba_status := Some st\<rparr>)) None
       \<in> set (access_trace (team_access None False) True)"
    and "bas_access_key_id st = ''K2''" and "bas_secret_ref st = None" and "bas_observed_rotation st = []"
proof -
  define ob where "ob = no_access_observed\<lparr>ao_endpoint := ''http://s3'', ao_bucket_name := status_bucket_name owned_bucket, ao_access_key_id := ''K2''\<rparr>"
  have "\<exists>sb. EvUpdateStatus KAccess (OAccess ((team_access None False)\<lparr>ba_status := Some
      (record_credentials ob None (access_status_of (access_env (team_access None False) True) (team_access None False) sb ob empty_access_status))\<rparr>)) None
      \<in> set (access_trace (team_access None False) True)"
    unfolding access_trace_def access_demo_issue access_issue_def ob_def
    by (simp add: access_run_simps record_differs) blast
  then obtain sb where sb: "EvUpdateStatus KAccess (OAccess ((team_access None False)\<lparr>ba_status := Some
      (record_credentials ob None (access_status_of (access_env (team_access None False) True) (team_access None False) sb ob empty_access_status))\<rparr>)) None
      \<in> set (access_trace (team_access None False) True)" ..
  have "ao_secret_name ob = []" "ao_access_key_id ob = ''K2''" by (simp_all add: ob_def no_access_observed_def)
  then show ?thesis
    by (intro that [OF sb]) (simp_all add: record_credentials_fields record_key_other)
qed

lemma access_run_second:
  assumes "bas_access_key_id st = ''K2''" and "bas_secret_ref st = None" and "bas_observed_rotation st = []"
  shows "(\<exists>y s. EvCreateOrUpdate KSecret (''team-a'', ''app-s3-credentials'') y (Inr (OSecret s)) \<in> set (access_trace (team_access (Some st) False) False)
      \<and> sec_data s SecretKeyAccessKeyID = Some ''K2'' \<and> sec_data s SecretKeySecretAccessID = Some ''S1'')
    \<and> (\<exists>x st'. EvUpdateStatus KAccess (OAccess x) None \<in> set (access_trace (team_access (Some st) False) False)
      \<and> ba_status x = Some st' \<and> bas_phase st' = PhaseReady)"
proof -
  let ?K = "access_env (team_access (Some st) False) False"
  let ?sb = "setCondition (setCondition (setCondition (newStatusBuilder 0 0) BucketAccessConditionAccessGranted ConditionTrue reasonReady [])
      BucketAccessConditionCredentialsReady ConditionTrue reasonReady ''credentials Secret written'')
      BucketAccessConditionReady ConditionTrue reasonReady ''All stages reconciled''"
  have "settled bucketAccessStageOrder ?sb" and "aggregateReady ?sb"
    by (simp_all add: settled_def bucketAccessStageOrder_def condition_type_defs conditionReady_def aggregateReady_stat)
  then have phase: "derivePhase find_cond (flush ?K conds ?sb) bucketAccessStageOrder = PhaseReady" for conds
    using access_stages.settled_ready_iff [OF access_env_laws(2)] by (simp add: access_env_answers)
  have mutate: "credentials_mutate (\<lambda>x m. Inr m) a d stored_pair = Inr s \<Longrightarrow> sec_data s = sec_data stored_pair ++ d" for a d s
    by (auto simp: credentials_mutate_def)
  have data: "credentials_data c b s (Some stored_pair) SecretKeyAccessKeyID = Some ''K2''"
      "credentials_data c b s (Some stored_pair) SecretKeySecretAccessID = Some ''S1''"
    if "as_access_key_id s = ''K2''" "as_secret_access_key s = []" for c b s
    using that by (auto simp: credentials_data_def stored_pair_def map_str_def SecretKeyAccessKeyID_def SecretKeySecretAccessID_def
        SecretKeyS3Endpoint_def SecretKeyS3Region_def SecretKeyS3Bucket_def split: option.split)
  show ?thesis
    unfolding access_trace_def access_demo_issue access_issue_def
    by (simp add: access_run_simps record_differs assms access_status_fields phase credentialsSecretName_nonempty credentials_mutate_def data)
qed

text \<open>C34: A finding. A failed write of the Secret can leave an access Ready with a pair that does not
  match: with the pair (K1, S1) stored but not recorded in the status, a first reconcile mints K2 and records it
  while the write of its Secret fails; the next reconcile keeps K2, stores it with the secret part S1 of the
  old key, and reports Ready.\<close>

theorem access_pair_mismatch:
  "\<exists>st. EvUpdateStatus KAccess (OAccess ((team_access None False)\<lparr>ba_status := Some st\<rparr>)) None
       \<in> set (access_trace (team_access None False) True)
   \<and> bas_access_key_id st = ''K2''
   \<and> (\<exists>y s. EvCreateOrUpdate KSecret (''team-a'', ''app-s3-credentials'') y (Inr (OSecret s)) \<in> set (access_trace (team_access (Some st) False) False)
      \<and> sec_data s SecretKeyAccessKeyID = Some ''K2'' \<and> sec_data s SecretKeySecretAccessID = Some ''S1'')
   \<and> (\<exists>x st'. EvUpdateStatus KAccess (OAccess x) None \<in> set (access_trace (team_access (Some st) False) False)
      \<and> ba_status x = Some st' \<and> bas_phase st' = PhaseReady)"
  using access_run_failing access_run_second by metis

text \<open>C35: A finding. Any error of reading the bucket of the claim, transient ones included, makes the deletion of an
  access give up its finalizer without asking a driver to revoke the key.\<close>

theorem access_orphans_key:
  assumes "r_get (k_accesses K) Cached req w = (Inr a, w1)" and "m_deleting (ba_meta a)" and "contains_finalizer (ba_meta a)"
    and "r_get (k_claims K) Cached (access_ns a, ba_bucket_claim_name (ba_spec a)) w1 = (Inr cl, w2)" and "boundName cl \<noteq> []"
    and "r_get (k_buckets K) Cached ([], boundName cl) w2 = (Inl err, w3)"
    and "r_update (k_accesses K) (a\<lparr>ba_meta := remove_finalizer (ba_meta a)\<rparr>) w3 = (None, w4)"
  shows "run_state (access_Reconcile own re reg cfg K req) (w, []) = ((None, None), (w4,
    [EvGet Cached KAccess req (Inr (OAccess a)),
     EvGet Cached KClaim (access_ns a, ba_bucket_claim_name (ba_spec a)) (Inr (OClaim cl)),
     EvGet Cached KBucket ([], boundName cl) (Inl err),
     EvUpdate KAccess (OAccess (a\<lparr>ba_meta := remove_finalizer (ba_meta a)\<rparr>)) None]))"
  using assms by (simp add: access_Reconcile_def access_reconcileDelete_def resolveBound_def kube_op_defs call_def)

lemma access_orphans_key_witness:
  "snd (snd (run_state (access_Reconcile (\<lambda>x m. Inr m) literal_regexps DefaultRegistry demo_options
      ((access_env (team_access None True) False)\<lparr>k_buckets := answering (Inl (new_err ''etcdserver: request timed out'')) []\<rparr>)
      (''team-a'', ''app'')) ((), [])))
    = [EvGet Cached KAccess (''team-a'', ''app'') (Inr (OAccess (team_access None True))),
       EvGet Cached KClaim (''team-a'', ''data'') (Inr (OClaim bound_claim)),
       EvGet Cached KBucket ([], ''claim-1'') (Inl (new_err ''etcdserver: request timed out'')),
       EvUpdate KAccess (OAccess ((team_access None True)\<lparr>ba_meta := remove_finalizer (ba_meta (team_access None True))\<rparr>)) None]"
proof -
  let ?K = "(access_env (team_access None True) False)\<lparr>k_buckets := answering (Inl (new_err ''etcdserver: request timed out'')) []\<rparr>"
  have "r_update (k_accesses ?K) x () = (None, ())" for x by (simp add: access_env_def answering_def)
  then show ?thesis
    using access_orphans_key [of ?K "(''team-a'', ''app'')" "()" "team_access None True" "()" bound_claim "()" "new_err ''etcdserver: request timed out''" "()" "()"
      "\<lambda>x m. Inr m" literal_regexps DefaultRegistry demo_options]
    by (simp add: access_env_answers team_access_fields access_demo_facts) (simp add: answering_def)
qed

text \<open>A live access meets the same confusion: any error of reading the bucket of the claim, transient ones included,
  deletes the credentials Secret of an access whose key is recorded, although its claim is bound and nothing was
  revoked. The code calls for this only when the bucket or its store is gone.\<close>

lemma access_finish_extends:
  assumes "retry_law K"
  shows "wp (access_finish cfg K a sb ob err) (\<lambda>_ s'. \<exists>d. snd s' = t @ d) (w, t)"
  unfolding access_finish_def
  by (rule wp_finish_grown, rule wp_access_updateStatus [OF assms, where P = "\<lambda>_ _. True"]) (auto simp: justified_def)

lemma access_revoked_on_read_error:
  assumes "retry_law K" and "r_get (k_accesses K) Cached req w = (Inr a, w1)" and "\<not> m_deleting (ba_meta a)"
    and "contains_finalizer (ba_meta a)" and "recorded_key a \<noteq> []" and "k_now K w1 = (now, w2)"
    and "r_get (k_claims K) Cached (access_ns a, ba_bucket_claim_name (ba_spec a)) w2 = (Inr cl, w3)" and "boundName cl \<noteq> []"
    and "r_get (k_buckets K) Cached ([], boundName cl) w3 = (Inl err, w4)"
    and "r_delete (k_secrets K) (access_ns a, credentialsSecretName a) w4 = (None, w5)"
  shows "\<exists>out w' d. run_state (access_Reconcile own re reg cfg K req) (w, []) = (out, (w',
    [EvGet Cached KAccess req (Inr (OAccess a)),
     EvGet Cached KClaim (access_ns a, ba_bucket_claim_name (ba_spec a)) (Inr (OClaim cl)),
     EvGet Cached KBucket ([], boundName cl) (Inl err),
     EvDelete KSecret (access_ns a, credentialsSecretName a) None] @ d))"
proof -
  have "ba_status a \<noteq> None" using assms(5) by (cases "ba_status a") (simp_all add: recorded_key_def)
  then have "\<exists>sb ob. run_state (access_Reconcile own re reg cfg K req) (w, []) = run_state (access_finish cfg K a sb ob None) (w5,
      [EvGet Cached KAccess req (Inr (OAccess a)),
       EvGet Cached KClaim (access_ns a, ba_bucket_claim_name (ba_spec a)) (Inr (OClaim cl)),
       EvGet Cached KBucket ([], boundName cl) (Inl err),
       EvDelete KSecret (access_ns a, credentialsSecretName a) None])"
    using assms(2-)
    by (auto simp: Let_def access_Reconcile_def access_reconcileNormal_def access_gate_def access_revoke_def resolveBound_def
      deleteCredentialsSecret_def kube_op_defs call_def sample_def recorded_key_def)
  then obtain sb ob where run: "run_state (access_Reconcile own re reg cfg K req) (w, []) = run_state (access_finish cfg K a sb ob None) (w5,
      [EvGet Cached KAccess req (Inr (OAccess a)),
       EvGet Cached KClaim (access_ns a, ba_bucket_claim_name (ba_spec a)) (Inr (OClaim cl)),
       EvGet Cached KBucket ([], boundName cl) (Inl err),
       EvDelete KSecret (access_ns a, credentialsSecretName a) None])" by blast
  obtain out w' u where fin: "run_state (access_finish cfg K a sb ob None) (w5,
      [EvGet Cached KAccess req (Inr (OAccess a)),
       EvGet Cached KClaim (access_ns a, ba_bucket_claim_name (ba_spec a)) (Inr (OClaim cl)),
       EvGet Cached KBucket ([], boundName cl) (Inl err),
       EvDelete KSecret (access_ns a, credentialsSecretName a) None]) = (out, (w', u))"
    by (rule prod_cases3)
  show ?thesis
    unfolding run fin using wpD [OF access_finish_extends [OF assms(1)] fin] by simp
qed

lemma access_revoked_on_read_error_witness:
  "\<exists>out w' d. run_state (access_Reconcile (\<lambda>x m. Inr m) literal_regexps DefaultRegistry demo_options
      ((access_env (team_access (Some (empty_access_status\<lparr>bas_access_key_id := ''K1''\<rparr>)) False) False)
         \<lparr>k_buckets := answering (Inl (new_err ''etcdserver: request timed out'')) []\<rparr>)
      (''team-a'', ''app'')) ((), []) = (out, (w',
    [EvGet Cached KAccess (''team-a'', ''app'') (Inr (OAccess (team_access (Some (empty_access_status\<lparr>bas_access_key_id := ''K1''\<rparr>)) False))),
     EvGet Cached KClaim (''team-a'', ''data'') (Inr (OClaim bound_claim)),
     EvGet Cached KBucket ([], ''claim-1'') (Inl (new_err ''etcdserver: request timed out'')),
     EvDelete KSecret (''team-a'', ''app-s3-credentials'') None] @ d))"
proof -
  let ?a = "team_access (Some (empty_access_status\<lparr>bas_access_key_id := ''K1''\<rparr>)) False"
  let ?K = "(access_env ?a False)\<lparr>k_buckets := answering (Inl (new_err ''etcdserver: request timed out'')) []\<rparr>"
  have "r_delete (k_secrets ?K) ky () = (None, ())" for ky by (simp add: access_env_def answering_def)
  moreover have "retry_law ?K" using access_env_laws(1) [of ?a False] by (simp add: retry_law_def)
  ultimately show ?thesis
    using access_revoked_on_read_error [of ?K "(''team-a'', ''app'')" "()" ?a "()" 0 "()" bound_claim "()" "new_err ''etcdserver: request timed out''" "()" "()"
      "\<lambda>x m. Inr m" literal_regexps DefaultRegistry demo_options]
    by (simp add: access_env_answers team_access_fields access_demo_facts recorded_demo) (simp add: answering_def)
qed

end
