(* ===== verification/Garage_Resources.thy ===== *)
theory Garage_Resources
  imports Driver
begin

text \<open>
  \<open>backend/garage/resources.go\<close>: the names, the configuration file, the objects of a Garage data
  plane, and what is read back from them: the pinned replication factor and the incarnation of the
  System profile. \<open>resource.ParseQuantity\<close> is the parameter \<open>pq\<close> (the bytes of a quantity, or
  the error).
\<close>

section \<open>Constants\<close>

definition s3Port :: int where "s3Port = 3900"
definition rpcPort :: int where "rpcPort = 3901"
definition adminPort :: int where "adminPort = 3903"
definition dataMountPath :: string where "dataMountPath = ''/var/lib/garage''"
definition configMount :: string where "configMount = ''/etc/garage''"
definition configFileName :: string where "configFileName = ''garage.toml''"
definition hostPathBase :: string where "hostPathBase = ''/var/lib/deckhouse/sds-object/garage''"
definition registryPullSecret :: string where "registryPullSecret = ''deckhouse-registry''"
definition controlPlaneNodeLabel :: string where "controlPlaneNodeLabel = ''node-role.kubernetes.io/control-plane''"
definition hostnameTopologyKey :: string where "hostnameTopologyKey = ''kubernetes.io/hostname''"
definition systemLocalStorageClass :: string where "systemLocalStorageClass = ''sds-object-system-local''"
definition nodeIdentityMountPath :: string where "nodeIdentityMountPath = ''/etc/garage-node-identity''"
definition annConfigHash :: string where "annConfigHash = ''storage.deckhouse.io/config-hash''"
definition systemReplicasHA :: int where "systemReplicasHA = 3"
definition systemReplicasSingle :: int where "systemReplicasSingle = 1"
definition systemIncarnationKey :: string where "systemIncarnationKey = ''system-incarnation''"
definition firstSystemIncarnation :: int where "firstSystemIncarnation = 1"
definition labelSystemLocalNode :: string where "labelSystemLocalNode = ''storage.deckhouse.io/system-local-node''"
definition objectStoreLabel :: string where "objectStoreLabel = ''storage.deckhouse.io/object-store''"
definition secretKeyRPC :: string where "secretKeyRPC = ''rpc-secret''"
definition secretKeyAdmin :: string where "secretKeyAdmin = ''admin-token''"

section \<open>Names\<close>

abbreviation os_name :: "object_store \<Rightarrow> string" where
  "os_name c \<equiv> m_name (os_meta c)"

definition resourceName :: "object_store \<Rightarrow> string" where
  "resourceName c = os_name c @ ''-garage''"

definition secretName :: "object_store \<Rightarrow> string" where
  "secretName c = resourceName c @ ''-secrets''"

definition configName :: "object_store \<Rightarrow> string" where
  "configName c = resourceName c @ ''-config''"

definition rpcSvcName :: "object_store \<Rightarrow> string" where
  "rpcSvcName c = resourceName c @ ''-rpc''"

definition s3SvcName :: "object_store \<Rightarrow> string" where
  "s3SvcName c = resourceName c"

definition nodeIdentitySecretName :: "object_store \<Rightarrow> string" where
  "nodeIdentitySecretName c = resourceName c @ ''-node-identity''"

definition commonLabelList :: "object_store \<Rightarrow> (string \<times> string) list" where
  "commonLabelList c =
     [(''app.kubernetes.io/managed-by'', ''sds-object''), (''app.kubernetes.io/name'', ''garage''),
      (objectStoreLabel, os_name c)]"

definition commonLabels :: "object_store \<Rightarrow> str_map" where
  "commonLabels c = map_of (commonLabelList c)"

definition s3HostPort :: "object_store \<Rightarrow> string \<Rightarrow> string \<Rightarrow> string" where
  "s3HostPort c ns dmn = s3SvcName c @ ''.'' @ ns @ ''.svc.'' @ dmn @ '':'' @ itoa s3Port"

definition s3Endpoint :: "object_store \<Rightarrow> string \<Rightarrow> string \<Rightarrow> string" where
  "s3Endpoint c ns dmn = ''http://'' @ s3SvcName c @ ''.'' @ ns @ ''.svc.'' @ dmn @ '':'' @ itoa s3Port"

definition adminEndpoint :: "object_store \<Rightarrow> string \<Rightarrow> string \<Rightarrow> string" where
  "adminEndpoint c ns dmn = ''http://'' @ s3SvcName c @ ''.'' @ ns @ ''.svc.'' @ dmn @ '':'' @ itoa adminPort"

section \<open>Replicas and the replication factor\<close>

definition systemSingleReplica :: "object_store \<Rightarrow> bool" where
  "systemSingleReplica c \<longleftrightarrow> os_type (os_spec c) = ClusterTypeSystem \<and> os_redundancy (os_spec c) = RedundancyNone"

definition systemReplicas :: "object_store \<Rightarrow> int" where
  "systemReplicas c = (if systemSingleReplica c then systemReplicasSingle else systemReplicasHA)"

definition replicationFactor :: "object_store \<Rightarrow> int" where
  "replicationFactor c = (case os_redundancy (os_spec c) of RedundancyNone \<Rightarrow> 1 | RedundancyHigh \<Rightarrow> 5 | _ \<Rightarrow> 3)"

definition clampRF :: "int \<Rightarrow> int \<Rightarrow> int" where
  "clampRF desired nodes =
     (let rf = desired; rf = (if nodes < rf then nodes else rf) in if rf < 1 then 1 else rf)"

definition lightweightReplicas :: "object_store \<Rightarrow> int" where
  "lightweightReplicas c =
     (case os_storage (os_spec c) of
        None \<Rightarrow> replicationFactor c
      | Some st \<Rightarrow> (case sto_nodes st of
            None \<Rightarrow> replicationFactor c
          | Some n \<Rightarrow> if n \<ge> 1 then n else replicationFactor c))"

definition desiredReplicas :: "object_store \<Rightarrow> int" where
  "desiredReplicas c = (if os_type (os_spec c) = ClusterTypeSystem then systemReplicas c else lightweightReplicas c)"

definition initialReplicationFactor :: "object_store \<Rightarrow> int" where
  "initialReplicationFactor c = clampRF (replicationFactor c) (desiredReplicas c)"

definition storageSize :: "quantities \<Rightarrow> object_store \<Rightarrow> int" where
  "storageSize pq c =
     (case os_storage (os_spec c) of
        None \<Rightarrow> 10737418240
      | Some st \<Rightarrow>
          if sto_size_per_node st \<noteq> [] then (case pq (sto_size_per_node st) of Inr q \<Rightarrow> q | Inl _ \<Rightarrow> 10737418240)
          else 10737418240)"

section \<open>The configuration file\<close>

definition renderConfig :: "int \<Rightarrow> string" where
  \<open>renderConfig rf =
     ''metadata_dir = "'' @ dataMountPath @ ''/meta"'' @ nl
     @ ''data_dir = "'' @ dataMountPath @ ''/data"'' @ nl
     @ ''db_engine = "lmdb"'' @ nl @ nl
     @ ''replication_factor = '' @ itoa rf @ nl @ nl
     @ ''rpc_bind_addr = "[::]:'' @ itoa rpcPort @ ''"'' @ nl @ nl
     @ ''[s3_api]'' @ nl
     @ ''s3_region = "garage"'' @ nl
     @ ''api_bind_addr = "[::]:'' @ itoa s3Port @ ''"'' @ nl
     @ ''root_domain = ".s3.garage"'' @ nl @ nl
     @ ''[admin]'' @ nl
     @ ''api_bind_addr = "[::]:'' @ itoa adminPort @ ''"'' @ nl\<close>

text \<open>The expression \<open>(?m)^replication_factor\s*=\s*(\d+)\<close>: at the beginning of a line, the
  literal, blanks, an equals sign, blanks and the longest run of digits, which is the group. \<open>\s\<close> of RE2
  is tab, newline, form feed, carriage return and space. The leftmost line that matches wins.\<close>

definition re_space :: "char \<Rightarrow> bool" where
  "re_space c \<longleftrightarrow> (of_char c :: nat) \<in> {9, 10, 12, 13, 32}"

definition rf_literal :: string where "rf_literal = ''replication_factor''"

definition rf_at :: "string \<Rightarrow> string option" where
  "rf_at s =
     (if has_prefix s rf_literal
      then (case dropWhile re_space (drop (length rf_literal) s) of
              [] \<Rightarrow> None
            | c # cs \<Rightarrow>
                if c = CHR ''=''
                then (let ds = takeWhile is_digit (dropWhile re_space cs) in if ds = [] then None else Some ds)
                else None)
      else None)"

fun rf_scan :: "bool \<Rightarrow> string \<Rightarrow> string option" where
  "rf_scan at_line_start [] = None"
| "rf_scan at_line_start (c # cs) =
     (case (if at_line_start then rf_at (c # cs) else None) of
        Some ds \<Rightarrow> Some ds
      | None \<Rightarrow> rf_scan (c = CHR 0x0A) cs)"

definition replicationFactorFromConfigMap :: "config_map option \<Rightarrow> int" where
  "replicationFactorFromConfigMap cm =
     (case cm of
        None \<Rightarrow> 0
      | Some c \<Rightarrow> (case rf_scan True (map_str (cm_data c) configFileName) of
            None \<Rightarrow> 0
          | Some ds \<Rightarrow> (case atoi ds of None \<Rightarrow> 0 | Some n \<Rightarrow> if n < 1 then 0 else to_int32 n)))"

definition systemIncarnationFromConfigMap :: "config_map option \<Rightarrow> int" where
  "systemIncarnationFromConfigMap cm =
     (case cm of
        None \<Rightarrow> firstSystemIncarnation
      | Some c \<Rightarrow> (case atoi (map_str (cm_data c) systemIncarnationKey) of
            None \<Rightarrow> firstSystemIncarnation
          | Some n \<Rightarrow> if n < firstSystemIncarnation then firstSystemIncarnation else to_int32 n))"

definition configHash :: "string \<Rightarrow> string" where
  "configHash cfg = take 16 (sha256_hex cfg)"

definition buildConfigMap :: "object_store \<Rightarrow> string \<Rightarrow> int \<Rightarrow> int \<Rightarrow> config_map" where
  "buildConfigMap c ns rf incarnation =
     (let data = [configFileName \<mapsto> renderConfig rf] in
      \<lparr>cm_meta = fresh_meta (configName c) ns (commonLabels c),
       cm_data = (if os_type (os_spec c) = ClusterTypeSystem
                  then data(systemIncarnationKey \<mapsto> itoa incarnation) else data)\<rparr>)"

section \<open>Local volumes of the System profile\<close>

definition shortHash :: "string \<Rightarrow> string" where
  "shortHash s = take 10 (sha256_hex s)"

definition systemLocalPVName :: "object_store \<Rightarrow> string \<Rightarrow> int \<Rightarrow> int \<Rightarrow> string" where
  "systemLocalPVName c nd incarnation index =
     (if incarnation \<le> firstSystemIncarnation
      then resourceName c @ ''-local-'' @ shortHash nd @ ''-'' @ itoa index
      else resourceName c @ ''-local-'' @ shortHash nd @ ''-i'' @ itoa incarnation @ ''-'' @ itoa index)"

definition systemLocalPVPath :: "object_store \<Rightarrow> string \<Rightarrow> int \<Rightarrow> int \<Rightarrow> string" where
  "systemLocalPVPath c nd incarnation index =
     (if incarnation \<le> firstSystemIncarnation
      then hostPathBase @ ''/'' @ os_name c @ ''/'' @ shortHash nd @ ''-'' @ itoa index
      else hostPathBase @ ''/'' @ os_name c @ ''/i'' @ itoa incarnation @ ''/'' @ shortHash nd @ ''-'' @ itoa index)"

definition buildSystemLocalPV :: "quantities \<Rightarrow> object_store \<Rightarrow> string \<Rightarrow> int \<Rightarrow> int \<Rightarrow> persistent_volume" where
  "buildSystemLocalPV pq c nd incarnation index =
     \<lparr>pv_meta = fresh_meta (systemLocalPVName c nd incarnation index) [] ((commonLabels c)(labelSystemLocalNode \<mapsto> nd)),
      pv_phase = VolumeUnset,
      pv_capacity = storageSize pq c,
      pv_access_modes = [''ReadWriteOnce''],
      pv_reclaim = ''Retain'',
      pv_class = systemLocalStorageClass,
      pv_host_path = (systemLocalPVPath c nd incarnation index, ''DirectoryOrCreate''),
      pv_affinity = (hostnameTopologyKey, ''In'', [nd])\<rparr>"

section \<open>Reading the factor back\<close>

lemma rf_scan_mid: "rf_scan False (c # cs) = rf_scan (c = CHR 0x0A) cs"
  by simp

lemma rf_scan_other: "c \<noteq> CHR ''r'' \<Longrightarrow> rf_scan True (c # cs) = rf_scan (c = CHR 0x0A) cs"
  by (simp add: rf_at_def has_prefix_def rf_literal_def)

lemma digit_not_space: "is_digit c \<Longrightarrow> \<not> re_space c"
  by (auto simp: is_digit_def re_space_def)

lemma rf_at_setting:
  assumes "0 \<le> rf" and "\<not> is_digit (hd rest)" and "rest \<noteq> []"
  shows "rf_at (''replication_factor = '' @ itoa rf @ rest) = Some (itoa rf)"
proof -
  have dig: "list_all is_digit (itoa rf)" using assms(1) by (rule itoa_nonneg_digits)
  obtain d ds where i: "itoa rf = d # ds" by (cases "itoa rf") auto
  have blank: "re_space CHR '' ''" by (simp add: re_space_def)
  have "dropWhile re_space (CHR '' '' # itoa rf @ rest) = itoa rf @ rest"
    using dig i by (simp add: digit_not_space blank)
  moreover have "takeWhile is_digit (itoa rf @ rest) = itoa rf"
    using dig assms(2,3) by (cases rest) (auto simp: list_all_iff takeWhile_append2)
  ultimately show ?thesis
    by (simp add: rf_at_def rf_literal_def has_prefix_def re_space_def)
qed

lemma rf_scan_renderConfig:
  assumes "0 \<le> rf"
  shows "rf_scan True (renderConfig rf) = Some (itoa rf)"
proof -
  define rest where "rest = nl @ nl @ drop (length (''replication_factor = '' @ itoa rf) + 2)
    (''replication_factor = '' @ itoa rf @ nl @ nl
     @ ''rpc_bind_addr = \"[::]:'' @ itoa rpcPort @ ''\"'' @ nl @ nl
     @ ''[s3_api]'' @ nl
     @ ''s3_region = \"garage\"'' @ nl
     @ ''api_bind_addr = \"[::]:'' @ itoa s3Port @ ''\"'' @ nl
     @ ''root_domain = \".s3.garage\"'' @ nl @ nl
     @ ''[admin]'' @ nl
     @ ''api_bind_addr = \"[::]:'' @ itoa adminPort @ ''\"'' @ nl)"
  have r: "rest \<noteq> []" "\<not> is_digit (hd rest)" by (simp_all add: rest_def nl_def is_digit_def)
  let ?body = "''replication_factor = '' @ itoa rf @ rest"
  have render: "renderConfig rf = ''metadata_dir = \"/var/lib/garage/meta\"'' @ nl
      @ ''data_dir = \"/var/lib/garage/data\"'' @ nl @ ''db_engine = \"lmdb\"'' @ nl @ nl @ ?body"
    by (simp add: renderConfig_def dataMountPath_def rest_def nl_def)
  have body: "rf_scan True ?body = Some (itoa rf)"
    using rf_at_setting [OF assms r(2,1)] by (cases ?body) auto
  have skip: "rf_scan True (l @ CHR 0x0A # t) = rf_scan True t"
    if "l = [] \<or> hd l \<noteq> CHR ''r''" and "CHR 0x0A \<notin> set l" for l t
  proof -
    have "rf_scan False (l @ CHR 0x0A # t) = rf_scan True t" if "CHR 0x0A \<notin> set l" for l
      using that by (induction l) (auto simp: rf_scan_mid eq_commute [of "CHR 0x0A"] simp del: rf_scan.simps(2))
    with that show ?thesis by (cases l) (auto simp: rf_scan_other rf_scan_mid eq_commute [of "CHR 0x0A"] simp del: rf_scan.simps(2))
  qed
  have "rf_scan True (k @ nl @ l @ nl @ m @ nl @ nl @ t) = rf_scan True t"
    if "k \<noteq> []" "hd k \<noteq> CHR ''r''" "CHR 0x0A \<notin> set k" "l \<noteq> []" "hd l \<noteq> CHR ''r''" "CHR 0x0A \<notin> set l"
       "m \<noteq> []" "hd m \<noteq> CHR ''r''" "CHR 0x0A \<notin> set m" for k l m t
    using that skip [of "[]"] by (simp add: skip nl_def del: rf_scan.simps(2))
  from this [of "''metadata_dir = \"/var/lib/garage/meta\"''" "''data_dir = \"/var/lib/garage/data\"''"
      "''db_engine = \"lmdb\"''" ?body]
  have "rf_scan True (renderConfig rf) = rf_scan True ?body"
    unfolding render by simp
  then show ?thesis by (simp only: body)
qed

section \<open>Properties\<close>

text \<open>The pinned replication factor and the incarnation survive the round trip through the
  configuration map: reading back the map the driver writes gives the factor and, for System, the
  incarnation that were written.\<close>

theorem pinned_state_roundtrip:
  assumes "1 \<le> rf" and "rf < 2 ^ 31" and "1 \<le> inc" and "inc < 2 ^ 31"
  shows "replicationFactorFromConfigMap (Some (buildConfigMap c ns rf inc)) = rf
    \<and> (os_type (os_spec c) = ClusterTypeSystem \<longrightarrow>
         systemIncarnationFromConfigMap (Some (buildConfigMap c ns rf inc)) = inc)"
proof -
  have "atoi (itoa rf) = Some rf" "atoi (itoa inc) = Some inc"
    using assms by (auto intro!: atoi_itoa simp: max_int64_def)
  moreover have "map_str (cm_data (buildConfigMap c ns rf inc)) configFileName = renderConfig rf"
    by (simp add: buildConfigMap_def map_str_def configFileName_def systemIncarnationKey_def Let_def)
  moreover have "map_str (cm_data (buildConfigMap c ns rf inc)) systemIncarnationKey = itoa inc"
    if "os_type (os_spec c) = ClusterTypeSystem"
    using that by (simp add: buildConfigMap_def map_str_def Let_def)
  ultimately show ?thesis
    using assms
    by (simp add: replicationFactorFromConfigMap_def systemIncarnationFromConfigMap_def
        rf_scan_renderConfig to_int32_id firstSystemIncarnation_def)
qed

text \<open>An object store of a given name, type and redundancy, for the instances.\<close>

definition store :: "string \<Rightarrow> cluster_type \<Rightarrow> redundancy_mode \<Rightarrow> object_store" where
  "store n ty red =
     \<lparr>os_meta = fresh_meta n [] Map.empty,
      os_spec = \<lparr>os_type = ty, os_storage = None, os_placement = None, os_redundancy = red,
        os_reclaim_policy = ClusterReclaimRetain, os_elastic_cluster_ref = []\<rparr>,
      os_status = None\<rparr>"

lemma pinned_state_roundtrip_witness:
  "replicationFactorFromConfigMap (Some (buildConfigMap (store ''sys'' ClusterTypeSystem RedundancyNone) ''d8'' 3 2)) = 3
   \<and> systemIncarnationFromConfigMap (Some (buildConfigMap (store ''sys'' ClusterTypeSystem RedundancyNone) ''d8'' 3 2)) = 2"
  using pinned_state_roundtrip [of 3 2 "store ''sys'' ClusterTypeSystem RedundancyNone" "''d8''"]
  by (simp add: store_def)

text \<open>The factor a cluster is initialised with is one Garage accepts: between 1 and the number of
  nodes the cluster runs, and no more than the redundancy asks for. For System, where redundancy is None or
  unset, it is the number of replicas, whatever the number of masters.\<close>

theorem initial_factor_valid:
  "1 \<le> initialReplicationFactor c \<and> initialReplicationFactor c \<le> desiredReplicas c
   \<and> initialReplicationFactor c \<le> replicationFactor c
   \<and> (os_type (os_spec c) = ClusterTypeSystem \<longrightarrow> os_redundancy (os_spec c) \<in> {RedundancyNone, RedundancyOther []} \<longrightarrow>
        initialReplicationFactor c = systemReplicas c)"
  by (auto simp: initialReplicationFactor_def clampRF_def Let_def desiredReplicas_def systemReplicas_def
      lightweightReplicas_def replicationFactor_def systemReplicasHA_def systemReplicasSingle_def
      systemSingleReplica_def split: option.splits redundancy_mode.splits)

lemma initial_factor_valid_witness:
  "initialReplicationFactor (store ''sys'' ClusterTypeSystem (RedundancyOther [])) = 3"
  using initial_factor_valid [of "store ''sys'' ClusterTypeSystem (RedundancyOther [])"]
  by (simp add: store_def systemReplicas_def systemSingleReplica_def systemReplicasHA_def)

lemma digits_split:
  assumes "list_all is_digit x" "list_all is_digit y" "\<not> is_digit d"
  shows "x @ d # u = y @ d # v \<longleftrightarrow> x = y \<and> u = v"
proof
  assume eq: "x @ d # u = y @ d # v"
  have tw: "takeWhile is_digit (z @ d # w) = z" if "list_all is_digit z" for z w
    using that assms(3) by (simp add: list_all_iff takeWhile_append2)
  from tw [OF assms(1), of u] tw [OF assms(2), of v] eq have "x = y" by metis
  with eq show "x = y \<and> u = v" by simp
qed simp

lemma length_shortHash [simp]: "length (shortHash s) = 10"
  by (simp add: shortHash_def)

lemma slash_not_hash: "CHR ''/'' \<notin> set (shortHash s)"
  using sha256_hex_hex [of "CHR ''/''" s] by (auto simp: shortHash_def is_hex_def dest!: in_set_takeD)

text \<open>The part of a volume's path under the store's directory, and of its name after the hash.\<close>

lemma slash_digits: "CHR ''/'' \<notin> set (itoa i)"
proof -
  have "\<not> is_digit CHR ''/''" by (simp add: is_digit_def)
  then show ?thesis
    by (auto simp: itoa_def dest!: list_all_digit_nat_str [unfolded list_all_iff, THEN bspec])
qed

text \<open>A recreated System cluster starts on empty directories: the directory of a pool volume
  determines the incarnation, the hash of the node and the index, so volumes of two incarnations never share
  a directory, and neither do two volumes of one incarnation on a node.\<close>

theorem pv_path_fresh:
  assumes "1 \<le> i" and "1 \<le> j" and "0 \<le> x" and "0 \<le> y"
  shows "systemLocalPVPath c n i x = systemLocalPVPath c m j y \<longleftrightarrow> i = j \<and> shortHash n = shortHash m \<and> x = y"
proof -
  have hash: "shortHash n @ CHR ''-'' # itoa x = shortHash m @ CHR ''-'' # itoa y \<longleftrightarrow> shortHash n = shortHash m \<and> x = y"
    by (simp add: append_eq_same_length)
  have noslash: "CHR ''i'' # itoa k @ CHR ''/'' # t \<noteq> shortHash s @ CHR ''-'' # itoa z" for k t s z
  proof
    assume eq: "CHR ''i'' # itoa k @ CHR ''/'' # t = shortHash s @ CHR ''-'' # itoa z"
    have "CHR ''/'' \<in> set (CHR ''i'' # itoa k @ CHR ''/'' # t)" by simp
    then have "CHR ''/'' \<in> set (shortHash s @ CHR ''-'' # itoa z)" unfolding eq .
    then show False using slash_not_hash slash_digits by simp
  qed
  have inc: "itoa i @ CHR ''/'' # u = itoa j @ CHR ''/'' # v \<longleftrightarrow> i = j \<and> u = v" for u v
    using digits_split [of "itoa i" "itoa j" "CHR ''/''"] assms by (simp add: itoa_nonneg_digits is_digit_def)
  consider "i = 1" "j = 1" | "i = 1" "1 < j" | "1 < i" "j = 1" | "1 < i" "1 < j" using assms by linarith
  then show ?thesis
  proof cases
    case 2
    then show ?thesis using noslash [symmetric] by (simp add: systemLocalPVPath_def firstSystemIncarnation_def)
  next
    case 3
    then show ?thesis using noslash by (simp add: systemLocalPVPath_def firstSystemIncarnation_def)
  qed (simp_all add: systemLocalPVPath_def firstSystemIncarnation_def hash inc)
qed

lemma pv_path_fresh_witness:
  "systemLocalPVPath (store ''sys'' ClusterTypeSystem RedundancyNone) ''master-0'' 1 0
     \<noteq> systemLocalPVPath (store ''sys'' ClusterTypeSystem RedundancyNone) ''master-0'' 2 0"
  using pv_path_fresh [of 1 2 0 0 "store ''sys'' ClusterTypeSystem RedundancyNone" "''master-0''" "''master-0''"]
  by simp

lemma pv_name_fresh:
  assumes "1 \<le> i" and "1 \<le> j" and "0 \<le> x" and "0 \<le> y"
  shows "systemLocalPVName c n i x = systemLocalPVName c m j y \<longleftrightarrow> i = j \<and> shortHash n = shortHash m \<and> x = y"
proof -
  have plain: "shortHash n @ CHR ''-'' # u = shortHash m @ CHR ''-'' # v \<longleftrightarrow> shortHash n = shortHash m \<and> u = v" for u v
    by (simp add: append_eq_same_length)
  have no_i: "itoa z \<noteq> CHR ''i'' # t" if "0 \<le> z" for z t
    using itoa_nonneg_digits [OF that] by (cases "itoa z") (auto simp: is_digit_def)
  have inc: "itoa i @ CHR ''-'' # u = itoa j @ CHR ''-'' # v \<longleftrightarrow> i = j \<and> u = v" for u v
    using digits_split [of "itoa i" "itoa j" "CHR ''-''"] assms by (simp add: itoa_nonneg_digits is_digit_def)
  consider "i = 1" "j = 1" | "i = 1" "1 < j" | "1 < i" "j = 1" | "1 < i" "1 < j" using assms by linarith
  then show ?thesis
    using assms no_i no_i [THEN not_sym]
    by cases (auto simp: systemLocalPVName_def firstSystemIncarnation_def plain inc)
qed

end
