(* ===== verification/Garage_Placement.thy ===== *)
theory Garage_Placement
  imports Garage_Resources
begin

text \<open>
  The decision of \<open>backend/garage/rebalance.go\<close>: which System replica, if any, is relocated in this
  pass. A Go map \<open>replicaNode\<close> is the list of its entries in the order a range visits them; no property
  depends on that order. The step relation \<open>migrates\<close> is one relocation followed by the scheduler's
  choice, any control-plane node at all, and the convergence properties are about its paths.
\<close>

record placement_action =
  pa_act :: bool
  pa_ordinal :: int
  pa_reason :: string

definition no_action :: placement_action where
  "no_action = \<lparr>pa_act = False, pa_ordinal = 0, pa_reason = []\<rparr>"

type_synonym placements = "(int \<times> string) list"

definition node_of :: "placements \<Rightarrow> int \<Rightarrow> string" where
  "node_of rn ord = (case map_of rn ord of None \<Rightarrow> [] | Some n \<Rightarrow> n)"

text \<open>\<open>perNode\<close>: how many replicas are on a control-plane node.\<close>

definition perNode :: "string list \<Rightarrow> placements \<Rightarrow> string \<Rightarrow> nat" where
  "perNode cpNodes rn n = length (filter (\<lambda>(k, v). v = n \<and> v \<in> set cpNodes) rn)"

primrec spread_loop :: "string list \<Rightarrow> placements \<Rightarrow> int list \<Rightarrow> placement_action" where
  "spread_loop cpNodes rn [] = no_action"
| "spread_loop cpNodes rn (ord # rest) =
     (let n = node_of rn ord in
      if n = [] then spread_loop cpNodes rn rest
      else if n \<notin> set cpNodes
      then \<lparr>pa_act = True, pa_ordinal = ord, pa_reason = ''spread: replica off a control-plane node''\<rparr>
      else if perNode cpNodes rn n > 1
      then \<lparr>pa_act = True, pa_ordinal = ord, pa_reason = ''spread: replica co-located on '' @ n\<rparr>
      else spread_loop cpNodes rn rest)"

primrec consolidate_loop :: "string \<Rightarrow> placements \<Rightarrow> int list \<Rightarrow> placement_action" where
  "consolidate_loop target rn [] = no_action"
| "consolidate_loop target rn (ord # rest) =
     (let n = node_of rn ord in
      if n = [] then consolidate_loop target rn rest
      else if n \<noteq> target
      then \<lparr>pa_act = True, pa_ordinal = ord, pa_reason = ''consolidate onto '' @ target\<rparr>
      else consolidate_loop target rn rest)"

definition nextPlacementAction :: "string list \<Rightarrow> placements \<Rightarrow> int \<Rightarrow> bool \<Rightarrow> placement_action" where
  "nextPlacementAction cpNodes rn replicas healthy =
     (if to_int32 (int (length cpNodes)) \<ge> replicas
      then (if \<not> healthy then no_action else spread_loop cpNodes rn [0..replicas - 1])
      else (case cpNodes of
              [target] \<Rightarrow> consolidate_loop target rn [0..replicas - 1]
            | _ \<Rightarrow> no_action))"

section \<open>What an action says\<close>

lemma no_action_sel [simp]: "\<not> pa_act no_action"
  by (simp add: no_action_def)

lemma spread_act:
  "pa_act (spread_loop cp rn os) \<Longrightarrow>
     (let i = pa_ordinal (spread_loop cp rn os); n = node_of rn i in
        i \<in> set os \<and> n \<noteq> [] \<and> (n \<notin> set cp \<or> perNode cp rn n > 1))"
  by (induction os) (auto simp: Let_def split: if_splits)

lemma spread_none:
  "\<not> pa_act (spread_loop cp rn os) \<longleftrightarrow>
     (\<forall>i \<in> set os. node_of rn i = [] \<or> (node_of rn i \<in> set cp \<and> perNode cp rn (node_of rn i) \<le> 1))"
  by (induction os) (auto simp: Let_def)

lemma consolidate_act:
  "pa_act (consolidate_loop t rn os) \<Longrightarrow>
     (let i = pa_ordinal (consolidate_loop t rn os) in i \<in> set os \<and> node_of rn i \<noteq> [] \<and> node_of rn i \<noteq> t)"
  by (induction os) (auto simp: Let_def split: if_splits)

lemma consolidate_none:
  "\<not> pa_act (consolidate_loop t rn os) \<longleftrightarrow> (\<forall>i \<in> set os. node_of rn i = [] \<or> node_of rn i = t)"
  by (induction os) (auto simp: Let_def)

text \<open>The placements of a cluster: one entry per ordinal.\<close>

definition placed :: "int \<Rightarrow> placements \<Rightarrow> bool" where
  "placed replicas rn \<longleftrightarrow> distinct (map fst rn) \<and> set (map fst rn) = {0..<replicas}"

lemma node_of_entry: "distinct (map fst rn) \<Longrightarrow> (i, n) \<in> set rn \<Longrightarrow> node_of rn i = n"
  by (simp add: node_of_def)

lemma placed_entry:
  assumes "placed r rn" and "0 \<le> i" and "i < r"
  shows "(i, node_of rn i) \<in> set rn"
proof -
  have "i \<in> fst ` set rn" using assms by (simp add: placed_def)
  then obtain n where "(i, n) \<in> set rn" by auto
  then show ?thesis using assms(1) node_of_entry by (fastforce simp: placed_def)
qed

lemma perNode_gt_1:
  assumes "placed r rn" and "0 \<le> i" and "i < r" and "node_of rn i \<in> set cp"
  shows "perNode cp rn (node_of rn i) > 1 \<longleftrightarrow> (\<exists>j. 0 \<le> j \<and> j < r \<and> j \<noteq> i \<and> node_of rn j = node_of rn i)"
proof -
  let ?n = "node_of rn i"
  let ?fs = "filter (\<lambda>(k, v). v = ?n \<and> v \<in> set cp) rn"
  have d: "distinct (map fst rn)" using assms(1) by (simp add: placed_def)
  then have dfs: "distinct ?fs" by (simp add: distinct_map)
  have mem: "(j, v) \<in> set ?fs \<longleftrightarrow> 0 \<le> j \<and> j < r \<and> v = ?n \<and> node_of rn j = ?n" for j v
  proof
    assume "(j, v) \<in> set ?fs"
    then have v: "(j, v) \<in> set rn" "v = ?n" by auto
    then have "j \<in> fst ` set rn" by force
    then show "0 \<le> j \<and> j < r \<and> v = ?n \<and> node_of rn j = ?n"
      using v node_of_entry [OF d] assms(1) by (auto simp: placed_def)
  qed (use placed_entry [OF assms(1), of j] assms(4) in \<open>auto\<close>)
  have "set ?fs = (\<lambda>j. (j, ?n)) ` {j. 0 \<le> j \<and> j < r \<and> node_of rn j = ?n}"
    using mem by auto
  then have "length ?fs = card ((\<lambda>j. (j, ?n)) ` {j. 0 \<le> j \<and> j < r \<and> node_of rn j = ?n})"
    using distinct_card [OF dfs] by simp
  also have "\<dots> = card {j. 0 \<le> j \<and> j < r \<and> node_of rn j = ?n}"
    by (rule card_image) (simp add: inj_on_def)
  finally have card: "perNode cp rn ?n = card {j. 0 \<le> j \<and> j < r \<and> node_of rn j = ?n}"
    by (simp add: perNode_def)
  have fin: "finite {j. 0 \<le> j \<and> j < r \<and> node_of rn j = ?n}"
    by (rule finite_subset [of _ "{0..<r}"]) auto
  have "card {j. 0 \<le> j \<and> j < r \<and> node_of rn j = ?n} > 1
      \<longleftrightarrow> (\<exists>j. 0 \<le> j \<and> j < r \<and> j \<noteq> i \<and> node_of rn j = ?n)"
    using card_le_Suc0_iff_eq [OF fin] assms(2,3) by (auto simp: not_le [symmetric])
  then show ?thesis by (simp add: card)
qed

section \<open>Migration as a step relation\<close>

definition rehome :: "placements \<Rightarrow> int \<Rightarrow> string \<Rightarrow> placements" where
  "rehome rn ord m = map (\<lambda>(k, v). if k = ord then (k, m) else (k, v)) rn"

text \<open>Whether a choice of the scheduler helps: a node with no replica yet, when there is a control-plane node for each
  replica, and otherwise the one node there is.\<close>

definition empty_pick :: "string list \<Rightarrow> int \<Rightarrow> placements \<Rightarrow> string \<Rightarrow> bool" where
  "empty_pick cp replicas rn m \<longleftrightarrow> \<not> (replicas \<le> to_int32 (int (length cp)) \<and> m \<in> snd ` set rn)"

text \<open>One pass of the healthy cluster: the replica of the action is recycled and the scheduler places it on a
  control-plane node. The anti-affinity of the pods is soft, so it may be any of them; the step says whether it helped.\<close>

inductive migrates :: "string list \<Rightarrow> int \<Rightarrow> placements \<Rightarrow> bool \<Rightarrow> placements \<Rightarrow> bool" where
  "pa_act (nextPlacementAction cp rn replicas True) \<Longrightarrow> m \<in> set cp \<Longrightarrow>
   migrates cp replicas rn (empty_pick cp replicas rn m) (rehome rn (pa_ordinal (nextPlacementAction cp rn replicas True)) m)"

text \<open>Passes that follow one another, with what each choice was.\<close>

inductive migration :: "string list \<Rightarrow> int \<Rightarrow> placements \<Rightarrow> bool list \<Rightarrow> placements \<Rightarrow> bool" for cp replicas where
  settled_here: "migration cp replicas rn [] rn"
| relocated: "migrates cp replicas rn e rn1 \<Longrightarrow> migration cp replicas rn1 es rn' \<Longrightarrow> migration cp replicas rn (e # es) rn'"

inductive_cases migratesE: "migrates cp replicas rn e rn'"

lemma fst_rehome [simp]: "map fst (rehome rn i m) = map fst rn"
  by (induction rn) (auto simp: rehome_def)

lemma length_rehome [simp]: "length (rehome rn i m) = length rn"
  by (simp add: rehome_def)

lemma placed_rehome: "placed r rn \<Longrightarrow> placed r (rehome rn i m)"
  unfolding placed_def fst_rehome .

lemma map_of_rehome:
  "map_of (rehome rn i m) j = (if j = i then map_option (\<lambda>_. m) (map_of rn i) else map_of rn j)"
  by (induction rn) (auto simp: rehome_def)

lemma node_of_rehome: "i \<in> set (map fst rn) \<Longrightarrow> node_of (rehome rn i m) j = (if j = i then m else node_of rn j)"
  by (auto simp: node_of_def map_of_rehome map_of_eq_None_iff split: option.splits)

lemma action_cases:
  assumes "placed r rn" and "pa_act (nextPlacementAction cp rn r h)"
  defines "i \<equiv> pa_ordinal (nextPlacementAction cp rn r h)"
  shows "0 \<le> i" "i < r" "node_of rn i \<noteq> []"
    and "r \<le> to_int32 (int (length cp)) \<and> h
           \<and> (node_of rn i \<notin> set cp \<or> (\<exists>j. 0 \<le> j \<and> j < r \<and> j \<noteq> i \<and> node_of rn j = node_of rn i))
       \<or> \<not> r \<le> to_int32 (int (length cp)) \<and> (\<exists>t. cp = [t] \<and> node_of rn i \<noteq> t)"
proof -
  have *: "(0 \<le> i \<and> i < r \<and> node_of rn i \<noteq> []) \<and>
      (r \<le> to_int32 (int (length cp)) \<and> h \<and> (node_of rn i \<notin> set cp \<or> perNode cp rn (node_of rn i) > 1)
       \<or> \<not> r \<le> to_int32 (int (length cp)) \<and> (\<exists>t. cp = [t] \<and> node_of rn i \<noteq> t))"
    using assms(2) spread_act [of cp rn "[0..r - 1]"] consolidate_act [of _ rn "[0..r - 1]"]
    by (fastforce simp: nextPlacementAction_def i_def Let_def split: if_splits list.splits)
  then show "0 \<le> i" "i < r" "node_of rn i \<noteq> []" by auto
  with * show "r \<le> to_int32 (int (length cp)) \<and> h
           \<and> (node_of rn i \<notin> set cp \<or> (\<exists>j. 0 \<le> j \<and> j < r \<and> j \<noteq> i \<and> node_of rn j = node_of rn i))
       \<or> \<not> r \<le> to_int32 (int (length cp)) \<and> (\<exists>t. cp = [t] \<and> node_of rn i \<noteq> t)"
    using perNode_gt_1 [OF assms(1), of i cp] by blast
qed

text \<open>The measures: the control-plane nodes that are occupied, and the replicas on the last node. Both are
  at most the number of replicas.\<close>

definition nodes_used :: "int \<Rightarrow> placements \<Rightarrow> string set" where
  "nodes_used r rn = node_of rn ` {0..<r}"

definition spread_measure :: "string list \<Rightarrow> int \<Rightarrow> placements \<Rightarrow> nat" where
  "spread_measure cp r rn = card (set cp \<inter> nodes_used r rn)"

definition gathered :: "string \<Rightarrow> int \<Rightarrow> placements \<Rightarrow> nat" where
  "gathered t r rn = card {i. 0 \<le> i \<and> i < r \<and> node_of rn i = t}"

lemma snd_nodes_used: "placed r rn \<Longrightarrow> snd ` set rn = nodes_used r rn"
proof -
  assume p: "placed r rn"
  then have "snd e = node_of rn (fst e)" if "e \<in> set rn" for e
    using that node_of_entry [of rn "fst e" "snd e"] by (simp add: placed_def)
  then have "snd ` set rn = (\<lambda>e. node_of rn (fst e)) ` set rn" by (intro image_cong) simp_all
  also have "\<dots> = node_of rn ` set (map fst rn)" by (simp only: set_map image_image)
  also have "set (map fst rn) = {0..<r}" using p by (simp add: placed_def)
  finally show ?thesis by (simp add: nodes_used_def)
qed

lemma spread_measure_le: "spread_measure cp r rn \<le> nat r"
proof -
  have "card (set cp \<inter> nodes_used r rn) \<le> card (nodes_used r rn)"
    by (rule card_mono) (auto simp: nodes_used_def)
  also have "\<dots> \<le> card {0..<r}" unfolding nodes_used_def by (rule card_image_le) simp
  finally show ?thesis by (simp add: spread_measure_def)
qed

lemma gathered_le: "gathered t r rn \<le> nat r"
proof -
  have "gathered t r rn \<le> card {0..<r}" unfolding gathered_def by (rule card_mono) auto
  then show ?thesis by simp
qed

text \<open>A control-plane node in use stays in use, whatever the choice; an empty one that is chosen is used as well.\<close>

lemma migrates_spread:
  assumes "placed r rn" and "migrates cp r rn e rn'" and "r \<le> to_int32 (int (length cp))"
  shows "spread_measure cp r rn + of_bool e \<le> spread_measure cp r rn'"
  using assms(2)
proof (rule migratesE)
  fix m
  let ?i = "pa_ordinal (nextPlacementAction cp rn r True)"
  assume e: "e = empty_pick cp r rn m" and rn': "rn' = rehome rn ?i m" and act: "pa_act (nextPlacementAction cp rn r True)"
    and m: "m \<in> set cp"
  note a = action_cases [OF assms(1) act]
  have i: "?i \<in> set (map fst rn)" using assms(1) a(1,2) by (simp only: placed_def) simp
  have used': "m \<in> nodes_used r rn'"
    using a(1,2) by (auto simp: nodes_used_def rn' node_of_rehome [OF i] image_iff intro!: bexI [of _ ?i])
  have keep: "n \<in> nodes_used r rn'" if "n \<in> set cp" "n \<in> nodes_used r rn" for n
  proof -
    from that(2) obtain j where j: "j \<in> {0..<r}" "n = node_of rn j" by (auto simp: nodes_used_def)
    have "\<exists>k \<in> {0..<r}. k \<noteq> ?i \<and> node_of rn k = n"
      using j a(4) assms(3) that(1) by (cases "j = ?i") auto
    then obtain k where "k \<in> {0..<r}" "k \<noteq> ?i" "node_of rn k = n" by blast
    then show ?thesis by (auto simp: nodes_used_def rn' node_of_rehome [OF i] image_iff intro!: bexI [of _ k])
  qed
  show ?thesis
  proof (cases e)
    case True
    then have "m \<notin> nodes_used r rn" using e assms(3) snd_nodes_used [OF assms(1)] by (simp add: empty_pick_def)
    then have "set cp \<inter> nodes_used r rn \<subset> set cp \<inter> nodes_used r rn'" using keep used' m by blast
    then have "spread_measure cp r rn < spread_measure cp r rn'"
      unfolding spread_measure_def by (intro psubset_card_mono) simp_all
    then show ?thesis using True by simp
  next
    case False
    have "set cp \<inter> nodes_used r rn \<subseteq> set cp \<inter> nodes_used r rn'" using keep by blast
    then show ?thesis using False unfolding spread_measure_def by (simp add: card_mono)
  qed
qed

lemma migrates_gather:
  assumes "placed r rn" and "migrates [t] r rn e rn'" and "\<not> r \<le> to_int32 (int (length [t]))"
  shows "gathered t r rn < gathered t r rn'"
  using assms(2)
proof (rule migratesE)
  fix m
  let ?i = "pa_ordinal (nextPlacementAction [t] rn r True)"
  assume rn': "rn' = rehome rn ?i m" and act: "pa_act (nextPlacementAction [t] rn r True)" and m: "m \<in> set [t]"
  note a = action_cases [OF assms(1) act]
  have i: "?i \<in> set (map fst rn)" using assms(1) a(1,2) by (simp only: placed_def) simp
  have off: "node_of rn ?i \<noteq> t" using a(4) assms(3) by auto
  have fin: "finite {j. 0 \<le> j \<and> j < r \<and> node_of rn' j = t}" by (rule finite_subset [of _ "{0..<r}"]) auto
  have "{j. 0 \<le> j \<and> j < r \<and> node_of rn j = t} \<subset> {j. 0 \<le> j \<and> j < r \<and> node_of rn' j = t}"
    using a(1,2) off m by (auto simp: rn' node_of_rehome [OF i])
  then show ?thesis unfolding gathered_def by (rule psubset_card_mono [OF fin])
qed

lemma migrates_modes:
  assumes "placed r rn" and "migrates cp r rn e rn'"
  shows "r \<le> to_int32 (int (length cp)) \<or> e \<and> (\<exists>t. cp = [t])"
  using assms(2) by (rule migratesE) (use action_cases(4) [OF assms(1)] in \<open>auto simp: empty_pick_def\<close>)

lemma migrates_placed: "placed r rn \<Longrightarrow> migrates cp r rn e rn' \<Longrightarrow> placed r rn'"
  by (auto elim!: migratesE simp: placed_rehome)

definition place_measure :: "string list \<Rightarrow> int \<Rightarrow> placements \<Rightarrow> nat" where
  "place_measure cp r rn = (if r \<le> to_int32 (int (length cp)) then spread_measure cp r rn else gathered (hd cp) r rn)"

lemma place_measure_le: "place_measure cp r rn \<le> nat r"
  by (simp add: place_measure_def spread_measure_le gathered_le)

lemma migrates_measure:
  assumes "placed r rn" and "migrates cp r rn e rn'"
  shows "place_measure cp r rn + of_bool e \<le> place_measure cp r rn'"
proof (cases "r \<le> to_int32 (int (length cp))")
  case True
  then show ?thesis using migrates_spread [OF assms] by (simp add: place_measure_def)
next
  case False
  then obtain t where t: "e" "cp = [t]" using migrates_modes [OF assms] by blast
  show ?thesis
    using migrates_gather [OF assms(1), of t e rn'] assms(2) False unfolding t place_measure_def by simp
qed

lemma migration_measure:
  "migration cp r rn es rn' \<Longrightarrow> placed r rn \<Longrightarrow>
     placed r rn' \<and> place_measure cp r rn + length (filter id es) \<le> place_measure cp r rn'
   \<and> (r \<le> to_int32 (int (length cp)) \<or> list_all id es)"
proof (induction rule: migration.induct)
  case (relocated rn e rn1 es rn')
  then show ?case
    using migrates_placed [OF relocated.prems relocated.hyps(1)] migrates_measure [OF relocated.prems relocated.hyps(1)]
      migrates_modes [OF relocated.prems relocated.hyps(1)] by auto
qed simp

text \<open>A migration that is due can be made: with at least as many distinct masters as replicas there is
  always an empty one for the scheduler to pick, and with one master the replica goes there.\<close>

lemma placement_progress:
  assumes "placed replicas rn" and "distinct cp" and "length cp < 2 ^ 31"
    and "pa_act (nextPlacementAction cp rn replicas True)"
  shows "\<exists>rn'. migrates cp replicas rn True rn'"
proof (cases "replicas \<le> to_int32 (int (length cp))")
  case True
  note a = action_cases [OF assms(1,4)]
  let ?i = "pa_ordinal (nextPlacementAction cp rn replicas True)"
  have len: "replicas \<le> int (length cp)" using True assms(3) by (simp add: to_int32_id)
  have "spread_measure cp replicas rn < card (set cp)"
  proof -
    have sub: "set cp \<inter> nodes_used replicas rn \<subseteq> node_of rn ` ({0..<replicas} - {?i})"
      if c: "node_of rn ?i \<notin> set cp \<or> (\<exists>j. 0 \<le> j \<and> j < replicas \<and> j \<noteq> ?i \<and> node_of rn j = node_of rn ?i)"
    proof
      fix n assume n: "n \<in> set cp \<inter> nodes_used replicas rn"
      then obtain j where j: "j \<in> {0..<replicas}" "n = node_of rn j" by (auto simp: nodes_used_def)
      show "n \<in> node_of rn ` ({0..<replicas} - {?i})"
      proof (cases "j = ?i")
        case True
        then obtain k where "0 \<le> k" "k < replicas" "k \<noteq> ?i" "node_of rn k = node_of rn ?i" using c n j by blast
        then show ?thesis using j True by (auto simp: image_iff intro!: bexI [of _ k])
      qed (use j in auto)
    qed
    have "spread_measure cp replicas rn \<le> card (node_of rn ` ({0..<replicas} - {?i}))"
      unfolding spread_measure_def by (rule card_mono) (use sub a(4) True in auto)
    also have "\<dots> \<le> card ({0..<replicas} - {?i})" by (rule card_image_le) simp
    also have "\<dots> < card (set cp)" using a(1,2) len distinct_card [OF assms(2)] by simp
    finally show ?thesis .
  qed
  then have "\<not> set cp \<subseteq> nodes_used replicas rn"
    by (auto simp: spread_measure_def Int_absorb2)
  then obtain m where "m \<in> set cp" "m \<notin> snd ` set rn"
    using snd_nodes_used [OF assms(1)] by blast
  then show ?thesis using migrates.intros [OF assms(4), of m] True by (auto simp: empty_pick_def)
next
  case False
  then obtain t where "cp = [t]" using action_cases(4) [OF assms(1,4)] by blast
  then show ?thesis using migrates.intros [OF assms(4), of t] False by (auto simp: empty_pick_def)
qed

text \<open>So from every placement some choices of the scheduler lead to one at rest.\<close>

lemma placement_reaches_rest:
  assumes "distinct cp" and "length cp < 2 ^ 31"
  shows "placed r rn \<Longrightarrow> \<exists>es rn'. migration cp r rn es rn' \<and> list_all id es \<and> \<not> pa_act (nextPlacementAction cp rn' r True)"
proof (induction "nat r - place_measure cp r rn" arbitrary: rn rule: less_induct)
  case less
  show ?case
  proof (cases "pa_act (nextPlacementAction cp rn r True)")
    case True
    then obtain rn1 where step: "migrates cp r rn True rn1" using placement_progress [OF less.prems assms] by blast
    have "place_measure cp r rn + 1 \<le> place_measure cp r rn1" using migrates_measure [OF less.prems step] by simp
    then have "nat r - place_measure cp r rn1 < nat r - place_measure cp r rn"
      using place_measure_le [of cp r rn1] by linarith
    then obtain es rn' where "migration cp r rn1 es rn'" "list_all id es" "\<not> pa_act (nextPlacementAction cp rn' r True)"
      using less.hyps migrates_placed [OF less.prems step] by blast
    then show ?thesis using relocated [OF step] by (intro exI [of _ "True # es"] exI [of _ rn']) simp
  qed (intro exI [of _ "[]"] exI [of _ rn], simp add: settled_here)
qed

section \<open>Properties\<close>

text \<open>C30: A relocation never takes a replica it must not: the replica exists and is bound; when spreading,
  Garage is healthy and the replica is off the control plane or shares its node with another one, so the only
  copy on a master stays; when consolidating, the replica is not on the surviving node.\<close>

theorem relocation_safe:
  assumes "placed replicas rn" and "pa_act (nextPlacementAction cp rn replicas healthy)"
  shows "let i = pa_ordinal (nextPlacementAction cp rn replicas healthy) in
      0 \<le> i \<and> i < replicas \<and> node_of rn i \<noteq> []
    \<and> (replicas \<le> to_int32 (int (length cp)) \<and> healthy
         \<and> (node_of rn i \<notin> set cp \<or> (\<exists>j. 0 \<le> j \<and> j < replicas \<and> j \<noteq> i \<and> node_of rn j = node_of rn i))
       \<or> \<not> replicas \<le> to_int32 (int (length cp)) \<and> (\<exists>t. cp = [t] \<and> node_of rn i \<noteq> t))"
  using action_cases [OF assms] by (simp add: Let_def)

definition three_on :: "string \<Rightarrow> string \<Rightarrow> string \<Rightarrow> placements" where
  "three_on a b c = [(0, a), (1, b), (2, c)]"

lemma placed_three: "placed 3 (three_on a b c)"
proof -
  have "{0..<3} = {0, 1, 2 :: int}" by auto
  then show ?thesis by (simp add: placed_def three_on_def)
qed

lemma three_moves:
  "nextPlacementAction [''m0'', ''m1'', ''m2''] (three_on ''m0'' ''m0'' ''m1'') 3 True
     = \<lparr>pa_act = True, pa_ordinal = 0, pa_reason = ''spread: replica co-located on m0''\<rparr>"
  by (simp add: nextPlacementAction_def to_int32_id three_on_def node_of_def perNode_def upto.simps)

lemma relocation_safe_witness:
  "\<exists>j. 0 \<le> j \<and> j < 3 \<and> j \<noteq> 0
      \<and> node_of (three_on ''m0'' ''m0'' ''m1'') j = node_of (three_on ''m0'' ''m0'' ''m1'') 0"
proof -
  have "node_of (three_on ''m0'' ''m0'' ''m1'') 0 = ''m0''" by (simp add: three_on_def node_of_def)
  then show ?thesis
    using relocation_safe [OF placed_three, of "[''m0'', ''m1'', ''m2'']" "''m0''" "''m0''" "''m1''" True]
    by (simp only: three_moves placement_action.simps Let_def) (simp add: to_int32_id)
qed

text \<open>The pass rests exactly at the target topology: with a master for each replica, it does nothing
  if and only if Garage is unhealthy or every bound replica has a control-plane node of its own; with one
  master, if and only if every bound replica is there; in between (and with none) it never moves anything.\<close>

theorem placement_rests:
  assumes "placed replicas rn"
  shows "\<not> pa_act (nextPlacementAction cp rn replicas healthy) \<longleftrightarrow>
    (if replicas \<le> to_int32 (int (length cp))
     then healthy \<longrightarrow> (\<forall>i. 0 \<le> i \<and> i < replicas \<and> node_of rn i \<noteq> [] \<longrightarrow> node_of rn i \<in> set cp
            \<and> (\<forall>j. 0 \<le> j \<and> j < replicas \<and> j \<noteq> i \<longrightarrow> node_of rn j \<noteq> node_of rn i))
     else \<forall>t. cp = [t] \<longrightarrow> (\<forall>i. 0 \<le> i \<and> i < replicas \<and> node_of rn i \<noteq> [] \<longrightarrow> node_of rn i = t))"
proof (cases "replicas \<le> to_int32 (int (length cp))")
  case True
  have one: "(node_of rn i \<in> set cp \<and> perNode cp rn (node_of rn i) \<le> 1) \<longleftrightarrow>
      (node_of rn i \<in> set cp \<and> (\<forall>j. 0 \<le> j \<and> j < replicas \<and> j \<noteq> i \<longrightarrow> node_of rn j \<noteq> node_of rn i))"
    if "0 \<le> i" "i < replicas" for i
    using perNode_gt_1 [OF assms that, of cp] by (auto simp: not_less [symmetric])
  show ?thesis
    using True one by (auto simp: nextPlacementAction_def spread_none)
next
  case False
  then show ?thesis
    by (auto simp: nextPlacementAction_def consolidate_none split: list.splits)
qed

lemma placement_rests_witness:
  "\<not> pa_act (nextPlacementAction [''m0'', ''m1'', ''m2''] (three_on ''m2'' ''m0'' ''m1'') 3 True)"
  unfolding placement_rests [OF placed_three]
  by (auto simp: to_int32_id three_on_def node_of_def split: if_splits)

text \<open>C29: The migration converges as far as the scheduler lets it. Whichever nodes it picks, and however long the passes go on,
  at most as many relocations as there are replicas land on a node that had none (when consolidating, that is all of
  them), so with picks that honour the soft anti-affinity at most that many follow one another; and from wherever
  other picks have led, such picks lead to a placement where no relocation is due.\<close>

theorem placement_converges:
  assumes "placed replicas rn" and "distinct cp" and "length cp < 2 ^ 31" and "migration cp replicas rn es rn'"
  shows "placed replicas rn' \<and> length (filter id es) \<le> nat replicas
    \<and> (list_all id es \<or> replicas \<le> to_int32 (int (length cp)))
    \<and> (\<exists>es' rn''. migration cp replicas rn' es' rn'' \<and> list_all id es' \<and> length (filter id es) + length es' \<le> nat replicas
         \<and> \<not> pa_act (nextPlacementAction cp rn'' replicas True))"
proof -
  note run = migration_measure [OF assms(4,1)]
  obtain es' rn'' where rest: "migration cp replicas rn' es' rn''" "list_all id es'" "\<not> pa_act (nextPlacementAction cp rn'' replicas True)"
    using placement_reaches_rest [OF assms(2,3), of replicas rn'] run by blast
  have "filter id es' = es'" using rest(2) by (simp add: filter_id_conv list_all_iff)
  then have "place_measure cp replicas rn + length (filter id es) + length es' \<le> nat replicas"
    using migration_measure [OF rest(1)] run place_measure_le [of cp replicas rn''] by simp
  then have "length (filter id es) + length es' \<le> nat replicas" by simp
  then show ?thesis using run rest place_measure_le [of cp replicas rn'] by (intro conjI exI [of _ es'] exI [of _ rn'']) auto
qed

lemma placement_run: "migration [''m0'', ''m1'', ''m2''] 3 (three_on ''m0'' ''m0'' ''m1'') [False, True] (three_on ''m2'' ''m0'' ''m1'')"
proof -
  let ?cp = "[''m0'', ''m1'', ''m2'']" and ?rn = "three_on ''m0'' ''m0'' ''m1''"
  have "migrates ?cp 3 ?rn (empty_pick ?cp 3 ?rn m) (rehome ?rn (pa_ordinal (nextPlacementAction ?cp ?rn 3 True)) m)" if "m \<in> set ?cp" for m
    using that by (intro migrates.intros) (simp add: three_moves)
  from this [of "''m0''"] this [of "''m2''"]
  have "migrates ?cp 3 ?rn False ?rn" "migrates ?cp 3 ?rn True (three_on ''m2'' ''m0'' ''m1'')"
    by (simp_all add: three_moves empty_pick_def to_int32_id rehome_def) (simp_all add: three_on_def)
  then show ?thesis by (auto intro: migration.intros)
qed

lemma placement_converges_witness:
  "placed 3 (three_on ''m2'' ''m0'' ''m1'') \<and> length (filter id [False, True]) \<le> nat 3"
  using placement_converges [OF placed_three _ _ placement_run] by simp

text \<open>A finding. Nothing makes the scheduler pick an empty node, and the pass does not tell a replica that moved from one
  that came back to the node it shared: it is recycled again, so relocations can follow one another without end.\<close>

lemma placement_may_loop:
  "migration [''m0'', ''m1'', ''m2''] 3 (three_on ''m0'' ''m0'' ''m1'') (replicate k False) (three_on ''m0'' ''m0'' ''m1'')"
proof (induction k)
  case (Suc k)
  let ?cp = "[''m0'', ''m1'', ''m2'']" and ?rn = "three_on ''m0'' ''m0'' ''m1''"
  have "migrates ?cp 3 ?rn (empty_pick ?cp 3 ?rn ''m0'') (rehome ?rn (pa_ordinal (nextPlacementAction ?cp ?rn 3 True)) ''m0'')"
    by (intro migrates.intros) (simp_all add: three_moves)
  then have "migrates ?cp 3 ?rn False ?rn"
    by (simp add: three_moves empty_pick_def to_int32_id rehome_def) (simp add: three_on_def)
  then show ?case using Suc.IH by (auto intro: relocated)
qed (simp add: settled_here)

end
