(* ===== verification/Garage_Workload.thy ===== *)
theory Garage_Workload
  imports Garage_Resources
begin

text \<open>
  The workload half of \<open>backend/garage/resources.go\<close>: service account, services, pod template and the
  two stateful sets. What the pods mount and reference by name must be what the driver creates; the
  property at the end states it.
\<close>

definition buildServiceAccount :: "object_store \<Rightarrow> string \<Rightarrow> service_account" where
  "buildServiceAccount c ns =
     \<lparr>sa_meta = fresh_meta (resourceName c) ns (commonLabels c), sa_automount = Some False\<rparr>"

definition buildS3Service :: "object_store \<Rightarrow> string \<Rightarrow> service" where
  "buildS3Service c ns =
     \<lparr>svc_meta = fresh_meta (s3SvcName c) ns (commonLabels c), svc_cluster_ip = [],
      svc_publish_not_ready = False, svc_selector = commonLabels c,
      svc_ports = [(''s3'', s3Port, s3Port), (''admin'', adminPort, adminPort)]\<rparr>"

definition buildRPCService :: "object_store \<Rightarrow> string \<Rightarrow> service" where
  "buildRPCService c ns =
     \<lparr>svc_meta = fresh_meta (rpcSvcName c) ns (commonLabels c), svc_cluster_ip = ''None'',
      svc_publish_not_ready = True, svc_selector = commonLabels c,
      svc_ports = [(''rpc'', rpcPort, rpcPort)]\<rparr>"

definition secretKeyRef :: "string \<Rightarrow> env_source" where
  "secretKeyRef k = EnvSecret [] k"

definition garageContainer :: "string \<Rightarrow> container" where
  "garageContainer img =
     \<lparr>ct_name = ''garage'', ct_image = img, ct_command = [''/garage'', ''server''], ct_args = [],
      ct_env = [(''GARAGE_CONFIG_FILE'', EnvValue (configMount @ ''/'' @ configFileName)),
                (''GARAGE_RPC_SECRET'', secretKeyRef secretKeyRPC),
                (''GARAGE_ADMIN_TOKEN'', secretKeyRef secretKeyAdmin)],
      ct_ports = [(''s3'', s3Port), (''rpc'', rpcPort), (''admin'', adminPort)],
      ct_mounts = [(''config'', configMount, False), (''data'', dataMountPath, False)],
      ct_probe = Some (s3Port, 5, 10),
      ct_requests = [(''cpu'', ''100m''), (''memory'', ''256Mi'')],
      ct_user = None\<rparr>"

text \<open>The loop that patches the secret's name into the environment of the container.\<close>

definition patch_env :: "string \<Rightarrow> string \<times> env_source \<Rightarrow> string \<times> env_source" where
  "patch_env sec e = (case e of (n, EnvSecret _ k) \<Rightarrow> (n, EnvSecret sec k) | (n, EnvValue v) \<Rightarrow> (n, EnvValue v) | (n, EnvField f) \<Rightarrow> (n, EnvField f))"

definition podSpec :: "object_store \<Rightarrow> string \<Rightarrow> pod_spec" where
  "podSpec c img =
     (let ct = garageContainer img;
          ct = ct\<lparr>ct_env := map (patch_env (secretName c)) (ct_env ct)\<rparr>
      in \<lparr>ps_service_account = resourceName c,
          ps_pull_secrets = [registryPullSecret],
          ps_user = Some (0, 0, 0),
          ps_init = [],
          ps_containers = [ct],
          ps_volumes = [(''config'', VolConfigMap (configName c))],
          ps_node_selector = Map.empty,
          ps_tolerations = [],
          ps_anti_affinity = None\<rparr>)"

definition restoreNodeKeyScript :: string where
  \<open>restoreNodeKeyScript =
     ''set -eu'' @ nl
     @ ''ord="${HOSTNAME##*-}"'' @ nl
     @ ''meta="'' @ dataMountPath @ ''/meta"'' @ nl
     @ ''src="'' @ nodeIdentityMountPath @ ''/node-${ord}"'' @ nl
     @ ''mkdir -p "$meta"'' @ nl
     @ ''if [ -s "$src" ] && [ -s "${src}.pub" ]; then'' @ nl
     @ ''  cp "$src" "$meta/node_key"'' @ nl
     @ ''  cp "${src}.pub" "$meta/node_key.pub"'' @ nl
     @ ''  chmod 0600 "$meta/node_key"'' @ nl
     @ ''  echo "restored garage node identity for ordinal ${ord}"'' @ nl
     @ ''else'' @ nl
     @ ''  echo "no persisted identity for ordinal ${ord}; garage will generate one"'' @ nl
     @ ''fi'' @ nl\<close>

definition dataClaim :: "quantities \<Rightarrow> object_store \<Rightarrow> string \<Rightarrow> claim_template" where
  "dataClaim pq c cls =
     \<lparr>vct_name = ''data'', vct_labels = commonLabels c, vct_access_modes = [''ReadWriteOnce''],
      vct_class = cls, vct_size = storageSize pq c\<rparr>"

definition buildStatefulSet :: "quantities \<Rightarrow> object_store \<Rightarrow> string \<Rightarrow> string \<Rightarrow> string \<Rightarrow> stateful_set" where
  "buildStatefulSet pq c ns img cfgHash =
     (let spec = podSpec c img;
          spec = (case os_placement (os_spec c) of
                    None \<Rightarrow> spec
                  | Some p \<Rightarrow> spec\<lparr>ps_node_selector := pl_node_selector p, ps_tolerations := pl_tolerations p\<rparr>);
          storageClass = (case os_storage (os_spec c) of None \<Rightarrow> [] | Some st \<Rightarrow> sto_class st)
      in \<lparr>ss_meta = fresh_meta (resourceName c) ns (commonLabels c),
          ss_service_name = rpcSvcName c,
          ss_replicas = Some (lightweightReplicas c),
          ss_parallel = False,
          ss_selector = commonLabels c,
          ss_template_labels = commonLabels c,
          ss_template_annotations = [annConfigHash \<mapsto> cfgHash],
          ss_pod = spec,
          ss_claims = [dataClaim pq c storageClass],
          ss_ready_replicas = 0\<rparr>)"

definition buildSystemStatefulSet :: "quantities \<Rightarrow> object_store \<Rightarrow> string \<Rightarrow> string \<Rightarrow> string \<Rightarrow> stateful_set" where
  "buildSystemStatefulSet pq c ns img cfgHash =
     (let spec = podSpec c img;
          spec = spec\<lparr>ps_node_selector := [controlPlaneNodeLabel \<mapsto> []],
            ps_tolerations :=
              [\<lparr>tol_key = ''node-role.kubernetes.io/control-plane'', tol_operator = ''Exists'', tol_effect = ''NoSchedule''\<rparr>,
               \<lparr>tol_key = ''node-role.kubernetes.io/master'', tol_operator = ''Exists'', tol_effect = ''NoSchedule''\<rparr>],
            ps_anti_affinity := Some (100, commonLabels c, hostnameTopologyKey),
            ps_volumes := ps_volumes spec @ [(''node-identity'', VolSecret (nodeIdentitySecretName c) True)],
            ps_init :=
              [\<lparr>ct_name = ''restore-node-key'', ct_image = img, ct_command = [''sh'', ''-c'', restoreNodeKeyScript], ct_args = [],
                ct_env = [], ct_ports = [],
                ct_mounts = [(''data'', dataMountPath, False), (''node-identity'', nodeIdentityMountPath, True)],
                ct_probe = None, ct_requests = [], ct_user = Some (0, 0)\<rparr>]\<rparr>
      in \<lparr>ss_meta = fresh_meta (resourceName c) ns (commonLabels c),
          ss_service_name = rpcSvcName c,
          ss_replicas = Some (systemReplicas c),
          ss_parallel = True,
          ss_selector = commonLabels c,
          ss_template_labels = commonLabels c,
          ss_template_annotations = [annConfigHash \<mapsto> cfgHash],
          ss_pod = spec,
          ss_claims = [dataClaim pq c systemLocalStorageClass],
          ss_ready_replicas = 0\<rparr>)"

text \<open>The set the driver applies for a cluster (the choice in \<open>ensureWorkload\<close>).\<close>

definition workloadFor :: "quantities \<Rightarrow> object_store \<Rightarrow> string \<Rightarrow> string \<Rightarrow> string \<Rightarrow> stateful_set" where
  "workloadFor pq c ns img cfgHash =
     (let sts = buildStatefulSet pq c ns img cfgHash in
      if os_type (os_spec c) = ClusterTypeSystem then buildSystemStatefulSet pq c ns img cfgHash else sts)"

lemmas workload_defs =
  workloadFor_def buildStatefulSet_def buildSystemStatefulSet_def podSpec_def garageContainer_def
  dataClaim_def patch_env_def secretKeyRef_def

section \<open>Properties\<close>

text \<open>The names a pod template needs to resolve: volumes and claims behind its mounts.\<close>

definition mounts_resolve :: "stateful_set \<Rightarrow> bool" where
  "mounts_resolve ss \<longleftrightarrow>
     (\<forall>ct \<in> set (ps_init (ss_pod ss) @ ps_containers (ss_pod ss)). \<forall>(v, path, ro) \<in> set (ct_mounts ct).
        v \<in> fst ` set (ps_volumes (ss_pod ss)) \<or> v \<in> vct_name ` set (ss_claims ss))"

text \<open>The workload fits the rest of the data plane: it runs the replica count the factor was clamped
  to, its selector matches its own pods, every volume it mounts exists, its secrets are the cluster's secret
  with the two keys the driver writes, its services are the ones the driver creates, and its annotation is the
  hash given, so the pods roll exactly when the configuration changes.\<close>

theorem workload_consistent:
  "(let ss = workloadFor pq c ns img h in
      ss_replicas ss = Some (desiredReplicas c)
    \<and> ss_selector ss = ss_template_labels ss
    \<and> map_str (ss_template_annotations ss) annConfigHash = h
    \<and> mounts_resolve ss
    \<and> ss_service_name ss = m_name (svc_meta (buildRPCService c ns))
    \<and> svc_selector (buildRPCService c ns) = ss_template_labels ss
    \<and> svc_selector (buildS3Service c ns) = ss_template_labels ss
    \<and> ps_service_account (ss_pod ss) = m_name (sa_meta (buildServiceAccount c ns))
    \<and> ps_volumes (ss_pod ss) ! 0 = (''config'', VolConfigMap (m_name (cm_meta (buildConfigMap c ns rf inc))))
    \<and> (\<forall>ct \<in> set (ps_containers (ss_pod ss)). \<forall>(n, src) \<in> set (ct_env ct).
         case src of EnvValue v \<Rightarrow> v = ''/etc/garage/garage.toml''
         | EnvSecret s k \<Rightarrow> s = secretName c \<and> k \<in> {secretKeyRPC, secretKeyAdmin}
         | EnvField f \<Rightarrow> False))"
  by (simp add: Let_def workload_defs mounts_resolve_def desiredReplicas_def map_str_def buildRPCService_def
      buildS3Service_def buildServiceAccount_def buildConfigMap_def fresh_meta_def configMount_def configFileName_def
      split: option.split)

lemma workload_consistent_witness:
  "ss_replicas (workloadFor (\<lambda>_. Inr 0) (store ''sys'' ClusterTypeSystem RedundancyNone) ''d8'' ''img'' ''h'') = Some 1"
  using workload_consistent [of "\<lambda>_. Inr 0" "store ''sys'' ClusterTypeSystem RedundancyNone" "''d8''" "''img''" "''h''"]
  by (simp add: Let_def store_def desiredReplicas_def systemReplicas_def systemSingleReplica_def systemReplicasSingle_def)

end
