(* ===== verification/S3_Util.thy ===== *)
theory S3_Util
  imports Effects
begin

text \<open>
  \<open>backend/s3util/s3util.go\<close>: the bucket operations over the S3 API shared by the drivers. The minio client
  is a parameter, one function per operation.
\<close>

record s3_client =
  s3c_endpoint :: string
  s3c_access_key :: string
  s3c_secret_key :: string

record 'w s3_api =
  s3_new :: "string \<Rightarrow> string \<Rightarrow> string \<Rightarrow> go_error option"
  s3_bucket_exists :: "s3_client \<Rightarrow> string \<Rightarrow> 'w \<Rightarrow> bool result \<times> 'w"
  s3_make_bucket :: "s3_client \<Rightarrow> string \<Rightarrow> string \<Rightarrow> 'w \<Rightarrow> go_error option \<times> 'w"
  s3_remove_objects :: "s3_client \<Rightarrow> string \<Rightarrow> 'w \<Rightarrow> go_error option list \<times> 'w"
  s3_remove_bucket :: "s3_client \<Rightarrow> string \<Rightarrow> 'w \<Rightarrow> go_error option \<times> 'w"
  s3_get_policy :: "s3_client \<Rightarrow> string \<Rightarrow> 'w \<Rightarrow> string result \<times> 'w"
  s3_set_policy :: "s3_client \<Rightarrow> string \<Rightarrow> string \<Rightarrow> 'w \<Rightarrow> go_error option \<times> 'w"

definition S3_NewClient :: "('w, 'x) s3_api_scheme \<Rightarrow> string \<Rightarrow> string \<Rightarrow> string \<Rightarrow> s3_client result" where
  "S3_NewClient A endpoint accessKey secretKey =
     (case s3_new A endpoint accessKey secretKey of
        Some e \<Rightarrow> Inl e
      | None \<Rightarrow> Inr \<lparr>s3c_endpoint = endpoint, s3c_access_key = accessKey, s3c_secret_key = secretKey\<rparr>)"

definition mc_exists :: "('w, 'x) s3_api_scheme \<Rightarrow> s3_client \<Rightarrow> string \<Rightarrow> ('w, bool result) go" where
  "mc_exists A mc name = call (\<lambda>r. EvS3 (s3c_endpoint mc) (BucketExists name) (S3Bool r)) (s3_bucket_exists A mc name)"

definition S3_EnsureBucket ::
  "('w, 'x) s3_api_scheme \<Rightarrow> s3_client \<Rightarrow> string \<Rightarrow> string \<Rightarrow> ('w, go_error option) go" where
  "S3_EnsureBucket A mc name region =
     do { ex \<leftarrow> mc_exists A mc name;
          case ex of
            Inl err \<Rightarrow> return (Some (wrap_err (''check bucket '' @ quoted name @ '': '') err))
          | Inr found \<Rightarrow>
              if found then return None
              else do { r \<leftarrow> call (\<lambda>r. EvS3 (s3c_endpoint mc) (MakeBucket name region) (S3Done r))
                                (s3_make_bucket A mc name region);
                        case r of
                          None \<Rightarrow> return None
                        | Some err \<Rightarrow>
                            do { ex2 \<leftarrow> mc_exists A mc name;
                                 return (case ex2 of
                                     Inr found2 \<Rightarrow> if found2 then None
                                       else Some (wrap_err (''create bucket '' @ quoted name @ '': '') err)
                                   | Inl _ \<Rightarrow> Some (wrap_err (''create bucket '' @ quoted name @ '': '') err)) } } }"

definition S3_EmptyBucket :: "('w, 'x) s3_api_scheme \<Rightarrow> s3_client \<Rightarrow> string \<Rightarrow> ('w, go_error option) go" where
  "S3_EmptyBucket A mc name =
     do { ex \<leftarrow> mc_exists A mc name;
          case ex of
            Inl err \<Rightarrow> return (Some (wrap_err (''check bucket '' @ quoted name @ '': '') err))
          | Inr found \<Rightarrow>
              if \<not> found then return None
              else do { errs \<leftarrow> call (\<lambda>r. EvS3 (s3c_endpoint mc) (RemoveObjects name) (S3Stream r))
                                   (s3_remove_objects A mc name);
                        return (case find (\<lambda>r. r \<noteq> None) errs of
                            Some (Some e) \<Rightarrow> Some (wrap_err (''empty bucket '' @ quoted name @ '': '') e)
                          | _ \<Rightarrow> None) } }"

definition S3_GetBucketPolicy :: "('w, 'x) s3_api_scheme \<Rightarrow> s3_client \<Rightarrow> string \<Rightarrow> ('w, string result) go" where
  "S3_GetBucketPolicy A mc name =
     do { r \<leftarrow> call (\<lambda>r. EvS3 (s3c_endpoint mc) (GetBucketPolicy name) (S3Text r)) (s3_get_policy A mc name);
          return (case r of Inl e \<Rightarrow> Inl (wrap_err (''get bucket policy '' @ quoted name @ '': '') e) | Inr p \<Rightarrow> Inr p) }"

definition S3_SetBucketPolicy ::
  "('w, 'x) s3_api_scheme \<Rightarrow> s3_client \<Rightarrow> string \<Rightarrow> string \<Rightarrow> ('w, go_error option) go" where
  "S3_SetBucketPolicy A mc name policy =
     do { r \<leftarrow> call (\<lambda>r. EvS3 (s3c_endpoint mc) (SetBucketPolicy name policy) (S3Done r)) (s3_set_policy A mc name policy);
          return (case r of Some e \<Rightarrow> Some (wrap_err (''set bucket policy '' @ quoted name @ '': '') e) | None \<Rightarrow> None) }"

definition S3_DeleteBucket :: "('w, 'x) s3_api_scheme \<Rightarrow> s3_client \<Rightarrow> string \<Rightarrow> ('w, go_error option) go" where
  "S3_DeleteBucket A mc name =
     do { ex \<leftarrow> mc_exists A mc name;
          case ex of
            Inl err \<Rightarrow> return (Some (wrap_err (''check bucket '' @ quoted name @ '': '') err))
          | Inr found \<Rightarrow>
              if \<not> found then return None
              else do { r \<leftarrow> S3_EmptyBucket A mc name;
                        case r of
                          Some e \<Rightarrow> return (Some e)
                        | None \<Rightarrow>
                            do { r2 \<leftarrow> call (\<lambda>r. EvS3 (s3c_endpoint mc) (RemoveBucket name) (S3Done r))
                                          (s3_remove_bucket A mc name);
                                 return (case r2 of
                                     Some e \<Rightarrow> Some (wrap_err (''remove bucket '' @ quoted name @ '': '') e)
                                   | None \<Rightarrow> None) } } }"

section \<open>What the operations guarantee\<close>

text \<open>An event of a removal is justified when the bucket was emptied before: every object removal of the
  stream succeeded, or the bucket was not there when the emptying looked.\<close>

definition emptied :: "string \<Rightarrow> event list \<Rightarrow> bool" where
  "emptied name u \<longleftrightarrow>
     (\<exists>ep rs. EvS3 ep (RemoveObjects name) (S3Stream rs) \<in> set u \<and> list_all (\<lambda>r. r = None) rs)
   \<or> (\<exists>ep. EvS3 ep (BucketExists name) (S3Bool (Inr False)) \<in> set u)"

definition s3_removal_ok :: "string \<Rightarrow> event list \<Rightarrow> event \<Rightarrow> bool" where
  "s3_removal_ok name u e \<longleftrightarrow> (case e of
      EvS3 ep rq r \<Rightarrow> (case rq of
          RemoveBucket n \<Rightarrow> n = name \<and> emptied name u
        | BucketExists n \<Rightarrow> n = name
        | RemoveObjects n \<Rightarrow> n = name
        | _ \<Rightarrow> False)
    | _ \<Rightarrow> False)"

text \<open>Deleting a bucket touches only that bucket, removes it only after every object was removed, and
  reports success only when it is gone: removed, or absent at the first look.\<close>

lemma s3_delete_bucket_sound:
  "wp (S3_DeleteBucket A mc name)
     (\<lambda>r s'. justified (s3_removal_ok name) (snd s')
        \<and> (case r of Some e \<Rightarrow> True
           | None \<Rightarrow> EvS3 (s3c_endpoint mc) (RemoveBucket name) (S3Done None) \<in> set (snd s')
               \<or> EvS3 (s3c_endpoint mc) (BucketExists name) (S3Bool (Inr False)) \<in> set (snd s'))) (w, [])"
proof -
  have all: "list_all (\<lambda>r. r = None) rs" if "find (\<lambda>r. \<exists>y. r = Some y) rs = None" for rs :: "go_error option list"
    using that by (auto simp: find_None_iff_all list_all_iff)
  have no: "find (\<lambda>r. \<exists>y. r = Some y) rs \<noteq> Some None" for rs :: "go_error option list"
    by (auto dest: find_Some_iff_first)
  show ?thesis
    unfolding S3_DeleteBucket_def S3_EmptyBucket_def mc_exists_def
    by (intro wp_rules)
      (auto simp: s3_removal_ok_def emptied_def no split: option.splits dest: all)
qed

text \<open>Creating is idempotent and tolerant of a race: no error means that the bucket exists, as found
  before, created now, or found after a failed creation.\<close>

lemma s3_ensure_bucket_sound:
  "wp (S3_EnsureBucket A mc name region)
     (\<lambda>r s'. case r of Some e \<Rightarrow> True
        | None \<Rightarrow> EvS3 (s3c_endpoint mc) (BucketExists name) (S3Bool (Inr True)) \<in> set (snd s')
             \<or> EvS3 (s3c_endpoint mc) (MakeBucket name region) (S3Done None) \<in> set (snd s')) (w, [])"
  unfolding S3_EnsureBucket_def mc_exists_def
  by (intro wp_rules) (auto split: sum.splits if_splits)

lemma framed_s3:
  "framed (S3_DeleteBucket A mc name)" "framed (S3_EnsureBucket A mc name region)" "framed (S3_EmptyBucket A mc name)"
  unfolding S3_DeleteBucket_def S3_EnsureBucket_def S3_EmptyBucket_def mc_exists_def by (intro framed_rules)+

text \<open>Both as steps of a larger run.\<close>

definition s3_gone :: "string \<Rightarrow> string \<Rightarrow> event list \<Rightarrow> bool" where
  "s3_gone ep name u \<longleftrightarrow> EvS3 ep (RemoveBucket name) (S3Done None) \<in> set u \<or> EvS3 ep (BucketExists name) (S3Bool (Inr False)) \<in> set u"

definition s3_there :: "string \<Rightarrow> string \<Rightarrow> string \<Rightarrow> event list \<Rightarrow> bool" where
  "s3_there ep name region u \<longleftrightarrow>
     EvS3 ep (BucketExists name) (S3Bool (Inr True)) \<in> set u \<or> EvS3 ep (MakeBucket name region) (S3Done None) \<in> set u"

lemma wp_s3_delete:
  assumes "\<And>r w' d. justified (s3_removal_ok name) d \<Longrightarrow> (r = None \<Longrightarrow> s3_gone (s3c_endpoint mc) name (t @ d)) \<Longrightarrow> Q r (w', t @ d)"
  shows "wp (S3_DeleteBucket A mc name) Q (w, t)"
  by (rule framed_wp [OF framed_s3(1) s3_delete_bucket_sound], rule assms) (auto simp: s3_gone_def)

lemma wp_s3_ensure:
  assumes "\<And>r w' d. (r = None \<Longrightarrow> s3_there (s3c_endpoint mc) name region (t @ d)) \<Longrightarrow> Q r (w', t @ d)"
  shows "wp (S3_EnsureBucket A mc name region) Q (w, t)"
  by (rule framed_wp [OF framed_s3(2) s3_ensure_bucket_sound], rule assms) (auto simp: s3_there_def)

end
