(* ===== verification/Garage_Admin.thy ===== *)
theory Garage_Admin
  imports Garage_Workload S3_Util
begin

text \<open>
  \<open>backend/garage/admin.go\<close>: the client of the Garage v2 admin API, and the environment of the Garage
  driver. HTTP and JSON decoding are parameters: \<open>ga_http\<close> is one exchange (a transport error message,
  or status code and body), \<open>ga_dec_...\<close> what \<open>encoding/json\<close> makes of a body. What the code does
  with them is modelled: paths, status handling, error values, the "not found" test, idempotent deletes.
\<close>

section \<open>Wire types\<close>

record layout_role =
  lr_id :: string
  lr_zone :: string
  lr_capacity :: "int option"
  lr_tags :: "string list"

record cluster_layout =
  cl_version :: int
  cl_roles :: "layout_role list"

record health_response =
  h_status :: string
  h_known_nodes :: int
  h_connected_nodes :: int
  h_storage_nodes :: int
  h_storage_nodes_ok :: int
  h_partitions :: int
  h_partitions_quorum :: int
  h_partitions_all_ok :: int

record role_change =
  rc_id :: string
  rc_zone :: string
  rc_capacity :: "int option"
  rc_tags :: "string list"
  rc_remove :: bool

record key_info =
  ki_access_key_id :: string
  ki_secret_access_key :: string
  ki_name :: string

record bucket_info =
  bi_id :: string
  bi_global_aliases :: "string list"

record permissions =
  p_read :: bool
  p_write :: bool
  p_owner :: bool

record bucket_quotas =
  bq_max_size :: "int option"
  bq_max_objects :: "int option"

definition zero_layout :: cluster_layout where
  "zero_layout = \<lparr>cl_version = 0, cl_roles = []\<rparr>"

definition zero_health :: health_response where
  "zero_health = \<lparr>h_status = [], h_known_nodes = 0, h_connected_nodes = 0, h_storage_nodes = 0,
     h_storage_nodes_ok = 0, h_partitions = 0, h_partitions_quorum = 0, h_partitions_all_ok = 0\<rparr>"

definition zero_key :: key_info where
  "zero_key = \<lparr>ki_access_key_id = [], ki_secret_access_key = [], ki_name = []\<rparr>"

definition zero_bucket :: bucket_info where
  "zero_bucket = \<lparr>bi_id = [], bi_global_aliases = []\<rparr>"

section \<open>The environment of the driver\<close>

record 'w garage_env =
  ga_kube :: "'w kube"
  ga_namespace :: string
  ga_image :: string
  ga_cluster_domain :: string
  ga_has_rest_config :: bool
  ga_pq :: quantities
  ga_own :: "object_meta \<Rightarrow> object_meta \<Rightarrow> object_meta result"
  ga_rand :: "nat \<Rightarrow> 'w \<Rightarrow> string result \<times> 'w"
  ga_http :: "string \<Rightarrow> string \<Rightarrow> admin_req \<Rightarrow> 'w \<Rightarrow> (string + int \<times> string) \<times> 'w"
  ga_dec_node_info :: "string \<Rightarrow> string + (string \<times> string) list"
  ga_dec_health :: "string \<Rightarrow> string + health_response"
  ga_dec_layout :: "string \<Rightarrow> string + cluster_layout"
  ga_dec_key :: "string \<Rightarrow> string + key_info"
  ga_dec_bucket :: "string \<Rightarrow> string + bucket_info"
  ga_exec :: "string \<Rightarrow> string list \<Rightarrow> 'w \<Rightarrow> string result \<times> 'w"
  ga_base64 :: "string \<Rightarrow> string result"
  ga_s3 :: "'w s3_api"

section \<open>Requests\<close>

definition hex_upper :: "nat \<Rightarrow> char" where
  "hex_upper n = (if n < 10 then char_of (48 + n) else char_of (55 + n))"

text \<open>\<open>url.QueryEscape\<close>.\<close>

definition escape_char :: "char \<Rightarrow> string" where
  "escape_char c =
     (let n = (of_char c :: nat) in
      if (48 \<le> n \<and> n \<le> 57) \<or> (65 \<le> n \<and> n \<le> 90) \<or> (97 \<le> n \<and> n \<le> 122) \<or> n \<in> {45, 46, 95, 126} then [c]
      else if n = 32 then ''+''
      else [CHR ''%'', hex_upper (n div 16), hex_upper (n mod 16)])"

definition QueryEscape :: "string \<Rightarrow> string" where
  "QueryEscape s = concat (map escape_char s)"

fun admin_method :: "admin_req \<Rightarrow> string" where
  "admin_method GetNodeInfoSelf = ''GET''"
| "admin_method GetClusterHealth = ''GET''"
| "admin_method GetClusterLayout = ''GET''"
| "admin_method (GetKeyInfo _) = ''GET''"
| "admin_method (GetBucketInfo _) = ''GET''"
| "admin_method _ = ''POST''"

fun admin_path :: "admin_req \<Rightarrow> string" where
  "admin_path GetNodeInfoSelf = ''/v2/GetNodeInfo?node=self''"
| "admin_path GetClusterHealth = ''/v2/GetClusterHealth''"
| "admin_path (ConnectClusterNodes _) = ''/v2/ConnectClusterNodes''"
| "admin_path GetClusterLayout = ''/v2/GetClusterLayout''"
| "admin_path (UpdateClusterLayout _) = ''/v2/UpdateClusterLayout''"
| "admin_path (ApplyClusterLayout _) = ''/v2/ApplyClusterLayout''"
| "admin_path (CreateKey _) = ''/v2/CreateKey''"
| "admin_path (GetKeyInfo k) = ''/v2/GetKeyInfo?id='' @ QueryEscape k"
| "admin_path (DeleteKey k) = ''/v2/DeleteKey?id='' @ QueryEscape k"
| "admin_path (GetBucketInfo a) = ''/v2/GetBucketInfo?globalAlias='' @ QueryEscape a"
| "admin_path (CreateBucket _) = ''/v2/CreateBucket''"
| "admin_path (DeleteBucketReq b) = ''/v2/DeleteBucket?id='' @ QueryEscape b"
| "admin_path (AllowBucketKey _ _ _) = ''/v2/AllowBucketKey''"
| "admin_path (UpdateBucket b _) = ''/v2/UpdateBucket?id='' @ QueryEscape b"

record admin_client =
  ac_base :: string
  ac_token :: string

definition newAdminClient :: "string \<Rightarrow> string \<Rightarrow> admin_client" where
  "newAdminClient base token = \<lparr>ac_base = base, ac_token = token\<rparr>"

definition api_error :: "admin_req \<Rightarrow> int \<Rightarrow> string \<Rightarrow> go_error" where
  "api_error rq code body = GoErr (ApiStatus code body)
     (''garage admin '' @ admin_method rq @ '' '' @ admin_path rq @ '': status '' @ itoa code @ '': '' @ body)"

text \<open>\<open>do\<close>: the exchange, the status check, and the decoding of a non-empty body.\<close>

definition map_answer :: "string + int \<times> string \<Rightarrow> (int \<times> string) result" where
  "map_answer r = (case r of Inl m \<Rightarrow> Inl (new_err m) | Inr x \<Rightarrow> Inr x)"

definition admin_do ::
  "('w, 'x) garage_env_scheme \<Rightarrow> admin_client \<Rightarrow> admin_req \<Rightarrow> (string \<Rightarrow> string + 'a) \<Rightarrow> 'a \<Rightarrow> ('w, 'a result) go" where
  "admin_do E c rq dec zero =
     do { r \<leftarrow> call (\<lambda>r. EvAdmin (ac_base c) rq (map_answer r)) (ga_http E (ac_base c) (ac_token c) rq);
          return (case r of
              Inl m \<Rightarrow> Inl (new_err m)
            | Inr (code, data) \<Rightarrow>
                if code < 200 \<or> code \<ge> 300 then Inl (api_error rq code data)
                else if data \<noteq> []
                then (case dec data of
                        Inl m \<Rightarrow> Inl (new_err (''garage admin '' @ admin_method rq @ '' '' @ admin_path rq @ '': decode: '' @ m))
                      | Inr v \<Rightarrow> Inr v)
                else Inr zero) }"

definition no_body :: "string \<Rightarrow> string + unit" where
  "no_body _ = Inr ()"

definition err_of :: "'a result \<Rightarrow> go_error option" where
  "err_of r = (case r of Inl e \<Rightarrow> Some e | Inr _ \<Rightarrow> None)"

definition isNotFound :: "go_error \<Rightarrow> bool" where
  "isNotFound e = (case ekind e of
      ApiStatus code body \<Rightarrow> if code = 404 then True else code = 400 \<and> contains_str (to_lower body) ''not found''
    | _ \<Rightarrow> False)"

section \<open>Cluster calls\<close>

definition admin_status :: "('w, 'x) garage_env_scheme \<Rightarrow> admin_client \<Rightarrow> ('w, string result) go" where
  "admin_status E c =
     do { r \<leftarrow> admin_do E c GetNodeInfoSelf (ga_dec_node_info E) [];
          return (case r of
              Inl e \<Rightarrow> Inl e
            | Inr success \<Rightarrow> (case find (\<lambda>(k, node_id). node_id \<noteq> []) success of
                Some (k, node_id) \<Rightarrow> Inr node_id
              | None \<Rightarrow> Inr [])) }"

definition admin_health :: "('w, 'x) garage_env_scheme \<Rightarrow> admin_client \<Rightarrow> ('w, health_response result) go" where
  "admin_health E c = admin_do E c GetClusterHealth (ga_dec_health E) zero_health"

definition admin_connect :: "('w, 'x) garage_env_scheme \<Rightarrow> admin_client \<Rightarrow> string list \<Rightarrow> ('w, go_error option) go" where
  "admin_connect E c peers = do { r \<leftarrow> admin_do E c (ConnectClusterNodes peers) no_body (); return (err_of r) }"

definition admin_layout :: "('w, 'x) garage_env_scheme \<Rightarrow> admin_client \<Rightarrow> ('w, cluster_layout result) go" where
  "admin_layout E c = admin_do E c GetClusterLayout (ga_dec_layout E) zero_layout"

definition staged :: "role_change \<Rightarrow> staged_role" where
  "staged ch = (if rc_remove ch then RemoveRole (rc_id ch)
     else AssignRole (rc_id ch) (rc_zone ch) (rc_capacity ch) (rc_tags ch))"

definition admin_stageLayout ::
  "('w, 'x) garage_env_scheme \<Rightarrow> admin_client \<Rightarrow> role_change list \<Rightarrow> ('w, go_error option) go" where
  "admin_stageLayout E c changes =
     do { r \<leftarrow> admin_do E c (UpdateClusterLayout (map staged changes)) no_body (); return (err_of r) }"

definition admin_applyLayout :: "('w, 'x) garage_env_scheme \<Rightarrow> admin_client \<Rightarrow> int \<Rightarrow> ('w, go_error option) go" where
  "admin_applyLayout E c version =
     do { r \<leftarrow> admin_do E c (ApplyClusterLayout version) no_body (); return (err_of r) }"

section \<open>Buckets and keys\<close>

definition admin_createKey :: "('w, 'x) garage_env_scheme \<Rightarrow> admin_client \<Rightarrow> string \<Rightarrow> ('w, key_info result) go" where
  "admin_createKey E c name = admin_do E c (CreateKey name) (ga_dec_key E) zero_key"

definition admin_keyExists :: "('w, 'x) garage_env_scheme \<Rightarrow> admin_client \<Rightarrow> string \<Rightarrow> ('w, bool result) go" where
  "admin_keyExists E c k =
     do { r \<leftarrow> admin_do E c (GetKeyInfo k) no_body ();
          return (case r of Inr _ \<Rightarrow> Inr True | Inl e \<Rightarrow> if isNotFound e then Inr False else Inl e) }"

definition admin_deleteKey :: "('w, 'x) garage_env_scheme \<Rightarrow> admin_client \<Rightarrow> string \<Rightarrow> ('w, go_error option) go" where
  "admin_deleteKey E c k =
     do { r \<leftarrow> admin_do E c (DeleteKey k) no_body ();
          return (case r of Inr _ \<Rightarrow> None | Inl e \<Rightarrow> if isNotFound e then None else Some e) }"

definition admin_getBucketByAlias ::
  "('w, 'x) garage_env_scheme \<Rightarrow> admin_client \<Rightarrow> string \<Rightarrow> ('w, bucket_info option result) go" where
  "admin_getBucketByAlias E c a =
     do { r \<leftarrow> admin_do E c (GetBucketInfo a) (ga_dec_bucket E) zero_bucket;
          return (case r of Inr b \<Rightarrow> Inr (Some b) | Inl e \<Rightarrow> if isNotFound e then Inr None else Inl e) }"

definition admin_createBucket :: "('w, 'x) garage_env_scheme \<Rightarrow> admin_client \<Rightarrow> string \<Rightarrow> ('w, bucket_info result) go" where
  "admin_createBucket E c a = admin_do E c (CreateBucket a) (ga_dec_bucket E) zero_bucket"

definition admin_deleteBucket :: "('w, 'x) garage_env_scheme \<Rightarrow> admin_client \<Rightarrow> string \<Rightarrow> ('w, go_error option) go" where
  "admin_deleteBucket E c b =
     do { r \<leftarrow> admin_do E c (DeleteBucketReq b) no_body ();
          return (case r of Inr _ \<Rightarrow> None | Inl e \<Rightarrow> if isNotFound e then None else Some e) }"

definition admin_allow ::
  "('w, 'x) garage_env_scheme \<Rightarrow> admin_client \<Rightarrow> string \<Rightarrow> string \<Rightarrow> permissions \<Rightarrow> ('w, go_error option) go" where
  "admin_allow E c b k perms =
     do { r \<leftarrow> admin_do E c (AllowBucketKey b k (p_read perms, p_write perms, p_owner perms)) no_body ();
          return (err_of r) }"

definition admin_updateBucket ::
  "('w, 'x) garage_env_scheme \<Rightarrow> admin_client \<Rightarrow> string \<Rightarrow> bucket_quotas \<Rightarrow> ('w, go_error option) go" where
  "admin_updateBucket E c b q =
     do { r \<leftarrow> admin_do E c (UpdateBucket b (bq_max_size q, bq_max_objects q)) no_body (); return (err_of r) }"

lemmas admin_op_defs =
  admin_status_def admin_health_def admin_connect_def admin_layout_def admin_stageLayout_def
  admin_applyLayout_def admin_createKey_def admin_keyExists_def admin_deleteKey_def
  admin_getBucketByAlias_def admin_createBucket_def admin_deleteBucket_def admin_allow_def admin_updateBucket_def

section \<open>Credentials of the client\<close>

definition adminToken :: "('w, 'x) garage_env_scheme \<Rightarrow> object_store \<Rightarrow> ('w, string result) go" where
  "adminToken E cluster =
     do { r \<leftarrow> kget Cached KSecret OSecret (k_secrets (ga_kube E)) (ga_namespace E, secretName cluster);
          return (case r of Inl e \<Rightarrow> Inl e | Inr s \<Rightarrow> Inr (map_str (sec_data s) secretKeyAdmin)) }"

definition adminClientFor ::
  "('w, 'x) garage_env_scheme \<Rightarrow> object_store \<Rightarrow> ('w, admin_client option result) go" where
  "adminClientFor E cluster =
     do { r \<leftarrow> adminToken E cluster;
          return (case r of
              Inl e \<Rightarrow> Inl e
            | Inr token \<Rightarrow> if token = [] then Inr None
                else Inr (Some (newAdminClient (adminEndpoint cluster (ga_namespace E) (ga_cluster_domain E)) token))) }"

section \<open>Rules for the calls\<close>

text \<open>Each call leaves one event; its result is a function of the answer.\<close>

definition ok_answer :: "(int \<times> string) result \<Rightarrow> bool" where
  "ok_answer ans \<longleftrightarrow> (case ans of Inl _ \<Rightarrow> False | Inr (code, data) \<Rightarrow> 200 \<le> code \<and> code < 300)"

definition interp :: "admin_req \<Rightarrow> (string \<Rightarrow> string + 'a) \<Rightarrow> 'a \<Rightarrow> (int \<times> string) result \<Rightarrow> 'a result" where
  "interp rq dec zero ans = (case ans of
      Inl e \<Rightarrow> Inl e
    | Inr (code, data) \<Rightarrow>
        if code < 200 \<or> code \<ge> 300 then Inl (api_error rq code data)
        else if data \<noteq> []
        then (case dec data of
                Inl m \<Rightarrow> Inl (new_err (''garage admin '' @ admin_method rq @ '' '' @ admin_path rq @ '': decode: '' @ m))
              | Inr v \<Rightarrow> Inr v)
        else Inr zero)"

text \<open>The answers by which Garage says that the resource does not exist, and those after which it does not.\<close>

definition missing_answer :: "(int \<times> string) result \<Rightarrow> bool" where
  "missing_answer ans \<longleftrightarrow> (case ans of Inl e \<Rightarrow> isNotFound e
     | Inr (code, data) \<Rightarrow> code = 404 \<or> code = 400 \<and> contains_str (to_lower data) ''not found'')"

definition gone_answer :: "(int \<times> string) result \<Rightarrow> bool" where
  "gone_answer ans \<longleftrightarrow> ok_answer ans \<or> missing_answer ans"

lemma interp_ok: "interp rq dec zero ans = Inr v \<Longrightarrow> ok_answer ans"
  by (auto simp: interp_def ok_answer_def split: sum.splits if_splits)

lemma interp_no_body: "(\<exists>e. interp rq no_body () ans = Inl e) \<longleftrightarrow> \<not> ok_answer ans"
  by (auto simp: interp_def ok_answer_def no_body_def split: sum.splits if_splits)

lemma interp_missing: "interp rq dec zero ans = Inl e \<Longrightarrow> isNotFound e \<Longrightarrow> missing_answer ans"
  by (auto simp: interp_def missing_answer_def isNotFound_def api_error_def
      split: sum.splits if_splits err_kind.splits)

lemma interp_not_missing: "interp rq no_body () ans = Inl e \<Longrightarrow> \<not> isNotFound e \<Longrightarrow> \<not> gone_answer ans"
  by (auto simp: interp_def missing_answer_def gone_answer_def ok_answer_def isNotFound_def api_error_def no_body_def
      split: sum.splits if_splits err_kind.splits)

lemma wp_admin_do [wp_rules]:
  assumes "\<And>r ans w'. interp rq dec zero ans = r \<Longrightarrow> Q r (w', t @ [EvAdmin (ac_base c) rq ans])"
  shows "wp (admin_do E c rq dec zero) Q (w, t)"
proof -
  have "(case r of Inl m \<Rightarrow> Inl (new_err m)
      | Inr (code, data) \<Rightarrow>
          if code < 200 \<or> code \<ge> 300 then Inl (api_error rq code data)
          else if data \<noteq> []
          then (case dec data of
                  Inl m \<Rightarrow> Inl (new_err (''garage admin '' @ admin_method rq @ '' '' @ admin_path rq @ '': decode: '' @ m))
                | Inr v \<Rightarrow> Inr v)
          else Inr zero) = interp rq dec zero (map_answer r)" for r :: "string + int \<times> string"
    by (auto simp: interp_def map_answer_def split: sum.split)
  with assms show ?thesis
    unfolding admin_do_def by (intro wp_bind wp_call wp_return) simp
qed

lemma err_of_interp: "err_of (interp rq no_body () ans) = None \<longleftrightarrow> ok_answer ans"
  using interp_no_body [of rq ans] by (auto simp: err_of_def dest: interp_ok split: sum.splits)

lemma wp_allow [wp_rules]:
  "(\<And>r ans w'. r = None \<longleftrightarrow> ok_answer ans \<Longrightarrow>
      Q r (w', t @ [EvAdmin (ac_base c) (AllowBucketKey b k (p_read ps, p_write ps, p_owner ps)) ans])) \<Longrightarrow>
     wp (admin_allow E c b k ps) Q (w, t)"
  unfolding admin_allow_def
  by (intro wp_bind wp_admin_do wp_return) (drule sym, simp add: err_of_interp)

lemma delete_result:
  "(case interp rq no_body () ans of Inl e \<Rightarrow> if isNotFound e then None else Some e | Inr _ \<Rightarrow> None) = None
     \<longleftrightarrow> gone_answer ans"
  by (auto simp: gone_answer_def dest: interp_ok interp_missing interp_not_missing split: sum.splits)

lemma wp_deleteKey [wp_rules]:
  "(\<And>r ans w'. r = None \<longleftrightarrow> gone_answer ans \<Longrightarrow> Q r (w', t @ [EvAdmin (ac_base c) (DeleteKey k) ans])) \<Longrightarrow>
     wp (admin_deleteKey E c k) Q (w, t)"
  unfolding admin_deleteKey_def
  by (intro wp_bind wp_admin_do wp_return) (drule sym, simp add: delete_result)

lemma wp_deleteBucket [wp_rules]:
  "(\<And>r ans w'. r = None \<longleftrightarrow> gone_answer ans \<Longrightarrow> Q r (w', t @ [EvAdmin (ac_base c) (DeleteBucketReq k) ans])) \<Longrightarrow>
     wp (admin_deleteBucket E c k) Q (w, t)"
  unfolding admin_deleteBucket_def
  by (intro wp_bind wp_admin_do wp_return) (drule sym, simp add: delete_result)

lemma wp_createKey [wp_rules]:
  "(\<And>r ans w'. interp (CreateKey n) (ga_dec_key E) zero_key ans = r \<Longrightarrow>
      Q r (w', t @ [EvAdmin (ac_base c) (CreateKey n) ans])) \<Longrightarrow>
     wp (admin_createKey E c n) Q (w, t)"
  unfolding admin_createKey_def by (rule wp_admin_do) simp

lemma wp_keyExists [wp_rules]:
  "(\<And>r ans w'. (r = Inr True \<longrightarrow> ok_answer ans) \<Longrightarrow> (r = Inr False \<longrightarrow> missing_answer ans) \<Longrightarrow>
      Q r (w', t @ [EvAdmin (ac_base c) (GetKeyInfo k) ans])) \<Longrightarrow>
     wp (admin_keyExists E c k) Q (w, t)"
  unfolding admin_keyExists_def
  by (intro wp_bind wp_admin_do wp_return) (auto dest: interp_ok interp_missing split: sum.splits)

lemma wp_getBucketByAlias [wp_rules]:
  "(\<And>r ans w'. (\<forall>v. r = Inr (Some v) \<longrightarrow> interp (GetBucketInfo a) (ga_dec_bucket E) zero_bucket ans = Inr v) \<Longrightarrow>
      (r = Inr None \<longrightarrow> missing_answer ans) \<Longrightarrow>
      Q r (w', t @ [EvAdmin (ac_base c) (GetBucketInfo a) ans])) \<Longrightarrow>
     wp (admin_getBucketByAlias E c a) Q (w, t)"
  unfolding admin_getBucketByAlias_def
  by (intro wp_bind wp_admin_do wp_return) (auto dest: interp_missing split: sum.splits if_splits)

lemma wp_createBucket [wp_rules]:
  "(\<And>r ans w'. interp (CreateBucket a) (ga_dec_bucket E) zero_bucket ans = r \<Longrightarrow>
      Q r (w', t @ [EvAdmin (ac_base c) (CreateBucket a) ans])) \<Longrightarrow>
     wp (admin_createBucket E c a) Q (w, t)"
  unfolding admin_createBucket_def by (rule wp_admin_do) simp

lemma wp_updateBucket [wp_rules]:
  "(\<And>r ans w'. r = None \<longleftrightarrow> ok_answer ans \<Longrightarrow>
      Q r (w', t @ [EvAdmin (ac_base c) (UpdateBucket b (bq_max_size q, bq_max_objects q)) ans])) \<Longrightarrow>
     wp (admin_updateBucket E c b q) Q (w, t)"
  unfolding admin_updateBucket_def
  by (intro wp_bind wp_admin_do wp_return) (drule sym, simp add: err_of_interp)

abbreviation admin_base :: "('w, 'x) garage_env_scheme \<Rightarrow> object_store \<Rightarrow> string" where
  "admin_base E cluster \<equiv> adminEndpoint cluster (ga_namespace E) (ga_cluster_domain E)"

lemma wp_adminClientFor [wp_rules]:
  "(\<And>r ans w'. (\<forall>svc. r = Inr (Some svc) \<longrightarrow> ac_base svc = admin_base E cluster) \<Longrightarrow>
      Q r (w', t @ [EvGet Cached KSecret (ga_namespace E, secretName cluster) ans])) \<Longrightarrow>
     wp (adminClientFor E cluster) Q (w, t)"
  unfolding adminClientFor_def adminToken_def kget_def
  by (intro wp_bind wp_call wp_return) (simp add: newAdminClient_def split: sum.split)

end
