(* ===== verification/Garage_Access.thy ===== *)
theory Garage_Access
  imports Garage_Admin
begin

text \<open>
  \<open>backend/garage/buckets.go\<close> and \<open>backend/garage/access.go\<close>: buckets and access keys of a Garage cluster
  over the admin API. The properties say which calls a key's life cycle makes, in which order, and what a
  success means; two of them prove defects of the code (see the end of the theory).
\<close>

section \<open>Buckets\<close>

definition garageBucketQuotas :: "quantities \<Rightarrow> bucket_quota option \<Rightarrow> bucket_quotas result" where
  "garageBucketQuotas pq quota =
     (case quota of
        None \<Rightarrow> Inr \<lparr>bq_max_size = None, bq_max_objects = None\<rparr>
      | Some q \<Rightarrow>
          let objs = (if q_max_objects q > 0 then Some (q_max_objects q) else None) in
          if q_max_size q \<noteq> []
          then (case pq (q_max_size q) of
                  Inl err \<Rightarrow> Inl (wrap_err (''parse maxSize '' @ quoted (q_max_size q) @ '': '') err)
                | Inr n \<Rightarrow> Inr \<lparr>bq_max_size = Some n, bq_max_objects = objs\<rparr>)
          else Inr \<lparr>bq_max_size = None, bq_max_objects = objs\<rparr>)"

definition garageUnsupported :: "bucket \<Rightarrow> string list" where
  "garageUnsupported b = filter (\<lambda>f. f \<noteq> FeatureQuota) (RequestedFeatures b)"

definition bucket_ready :: "string \<Rightarrow> bucket \<Rightarrow> bucket_state" where
  "bucket_ready name b = \<lparr>bst_ready = True, bst_message = ''bucket provisioned'', bst_bucket_name = name,
     bst_unsupported = garageUnsupported b\<rparr>"

definition garageEnsureBucket ::
  "('w, 'x) garage_env_scheme \<Rightarrow> object_store \<Rightarrow> bucket \<Rightarrow> ('w, bucket_state \<times> go_error option) go" where
  "garageEnsureBucket E cluster b =
     do { r \<leftarrow> adminClientFor E cluster;
          case r of
            Inl err \<Rightarrow> return (empty_bucket_state, Some err)
          | Inr None \<Rightarrow> return (empty_bucket_state\<lparr>bst_message := ''Garage admin token is not provisioned yet''\<rparr>, None)
          | Inr (Some svc) \<Rightarrow>
              (let name = BucketDisplayName b in
               do { look \<leftarrow> admin_getBucketByAlias E svc name;
                    case look of
                      Inl err \<Rightarrow> return (empty_bucket_state, Some (wrap_err (''look up bucket '' @ quoted name @ '': '') err))
                    | Inr found \<Rightarrow>
                        do { made \<leftarrow> (case found of
                                 Some info \<Rightarrow> return (Inr info)
                               | None \<Rightarrow> admin_createBucket E svc name);
                             case made of
                               Inl err \<Rightarrow> return (empty_bucket_state, Some (wrap_err (''create bucket '' @ quoted name @ '': '') err))
                             | Inr info \<Rightarrow>
                                 (case b_quota (b_spec b) of
                                    None \<Rightarrow> return (bucket_ready name b, None)
                                  | Some q \<Rightarrow>
                                      (case garageBucketQuotas (ga_pq E) (Some q) of
                                         Inl err \<Rightarrow> return (empty_bucket_state, Some (wrap_err (''bucket '' @ quoted name @ '' quota: '') err))
                                       | Inr quotas \<Rightarrow>
                                           do { u \<leftarrow> admin_updateBucket E svc (bi_id info) quotas;
                                                case u of
                                                  Some err \<Rightarrow> return (empty_bucket_state,
                                                    Some (wrap_err (''apply quota to bucket '' @ quoted name @ '': '') err))
                                                | None \<Rightarrow> return (bucket_ready name b, None) })) } }) }"

text \<open>\<open>emptyBucket\<close>; its deferred \<open>deleteKey\<close> runs on every path after the key exists.\<close>

definition emptyBucket ::
  "('w, 'x) garage_env_scheme \<Rightarrow> object_store \<Rightarrow> admin_client \<Rightarrow> string \<Rightarrow> string \<Rightarrow> ('w, go_error option) go" where
  "emptyBucket E cluster svc bucketID name =
     do { k \<leftarrow> admin_createKey E svc (''sds-object-reclaim-'' @ name);
          case k of
            Inl err \<Rightarrow> return (Some (wrap_err (''create temporary key to empty bucket '' @ quoted name @ '': '') err))
          | Inr key \<Rightarrow>
              do { r \<leftarrow>
                     do { a \<leftarrow> admin_allow E svc bucketID (ki_access_key_id key) \<lparr>p_read = True, p_write = True, p_owner = True\<rparr>;
                          case a of
                            Some err \<Rightarrow> return (Some (wrap_err (''grant temporary key on bucket '' @ quoted name @ '': '') err))
                          | None \<Rightarrow>
                              (case S3_NewClient (ga_s3 E) (s3HostPort cluster (ga_namespace E) (ga_cluster_domain E))
                                      (ki_access_key_id key) (ki_secret_access_key key) of
                                 Inl err \<Rightarrow> return (Some (wrap_err (''build S3 client to empty bucket '' @ quoted name @ '': '') err))
                               | Inr mc \<Rightarrow>
                                   do { e \<leftarrow> S3_EmptyBucket (ga_s3 E) mc name;
                                        return (case e of None \<Rightarrow> None
                                          | Some err \<Rightarrow> Some (wrap_err (''empty bucket '' @ quoted name @ '' before delete: '') err)) }) };
                   _ \<leftarrow> admin_deleteKey E svc (ki_access_key_id key);
                   return r } }"

definition garageDeleteBucket ::
  "('w, 'x) garage_env_scheme \<Rightarrow> object_store \<Rightarrow> bucket \<Rightarrow> ('w, go_error option) go" where
  "garageDeleteBucket E cluster b =
     (if b_reclaim_policy (b_spec b) \<noteq> BucketReclaimDelete then return None
      else do { r \<leftarrow> adminClientFor E cluster;
                case r of
                  Inl err \<Rightarrow> (if is_not_found err then return None else return (Some err))
                | Inr None \<Rightarrow> return None
                | Inr (Some svc) \<Rightarrow>
                    (let name = BucketDisplayName b in
                     do { look \<leftarrow> admin_getBucketByAlias E svc name;
                          case look of
                            Inl err \<Rightarrow> return (Some (wrap_err (''look up bucket '' @ quoted name @ '': '') err))
                          | Inr None \<Rightarrow> return None
                          | Inr (Some info) \<Rightarrow>
                              do { e \<leftarrow> emptyBucket E cluster svc (bi_id info) name;
                                   case e of
                                     Some err \<Rightarrow> return (Some err)
                                   | None \<Rightarrow>
                                       do { d \<leftarrow> admin_deleteBucket E svc (bi_id info);
                                            return (case d of None \<Rightarrow> None
                                              | Some err \<Rightarrow> Some (wrap_err (''delete bucket '' @ quoted name @ '': '') err)) } } }) })"

section \<open>Access keys\<close>

definition accessKeyID :: "bucket_access \<Rightarrow> string" where
  "accessKeyID a = (case ba_status a of None \<Rightarrow> [] | Some st \<Rightarrow> bas_access_key_id st)"

definition garagePermissions :: "bucket_access \<Rightarrow> permissions" where
  "garagePermissions a =
     (if ba_permission (ba_spec a) = AccessReadOnly then \<lparr>p_read = True, p_write = False, p_owner = False\<rparr>
      else \<lparr>p_read = True, p_write = True, p_owner = False\<rparr>)"

definition access_error :: "string \<Rightarrow> go_error \<Rightarrow> access_state \<times> go_error option" where
  "access_error pre err = (empty_access_state, Some (wrap_err pre err))"

text \<open>The part of \<open>EnsureAccess\<close> after the key to use is settled: grant it, revoke the one it supersedes.\<close>

definition grantAndRevoke ::
  "('w, 'x) garage_env_scheme \<Rightarrow> admin_client \<Rightarrow> bucket_access \<Rightarrow> string \<Rightarrow> bool \<Rightarrow> bool \<Rightarrow> string \<Rightarrow> string
     \<Rightarrow> ('w, access_state \<times> go_error option) go" where
  "grantAndRevoke E svc access bucketID mintFresh minted accessKey secretKey =
     do { a \<leftarrow> admin_allow E svc bucketID accessKey (garagePermissions access);
          case a of
            Some err \<Rightarrow>
              if minted then do { _ \<leftarrow> admin_deleteKey E svc accessKey; return (access_error ''grant key on bucket: '' err) }
              else return (access_error ''grant key on bucket: '' err)
          | None \<Rightarrow>
              (let prevKeyID = accessKeyID access;
                   done_state = \<lparr>as_ready = True, as_message = ''access key provisioned'',
                     as_access_key_id = accessKey, as_secret_access_key = secretKey\<rparr> in
               if mintFresh \<and> prevKeyID \<noteq> [] \<and> prevKeyID \<noteq> accessKey
               then do { d \<leftarrow> admin_deleteKey E svc prevKeyID;
                         case d of
                           Some err \<Rightarrow> return (access_error ''revoke previous access key: '' err)
                         | None \<Rightarrow> return (done_state, None) }
               else return (done_state, None)) }"

definition garageEnsureAccess ::
  "('w, 'x) garage_env_scheme \<Rightarrow> object_store \<Rightarrow> bucket \<Rightarrow> bucket_access \<Rightarrow> bool
     \<Rightarrow> ('w, access_state \<times> go_error option) go" where
  "garageEnsureAccess E cluster b access mintFresh0 =
     do { r \<leftarrow> adminClientFor E cluster;
          case r of
            Inl err \<Rightarrow> return (empty_access_state, Some err)
          | Inr None \<Rightarrow> return (empty_access_state\<lparr>as_message := ''Garage admin token is not provisioned yet''\<rparr>, None)
          | Inr (Some svc) \<Rightarrow>
              (let name = BucketDisplayName b in
               do { look \<leftarrow> admin_getBucketByAlias E svc name;
                    case look of
                      Inl err \<Rightarrow> return (access_error (''look up bucket '' @ quoted name @ '': '') err)
                    | Inr None \<Rightarrow> return (empty_access_state\<lparr>as_message := ''bucket '' @ quoted name @ '' does not exist yet''\<rparr>, None)
                    | Inr (Some info) \<Rightarrow>
                        (let prevKeyID = accessKeyID access in
                         do { mf \<leftarrow> (if \<not> mintFresh0 \<and> prevKeyID \<noteq> []
                                then do { ex \<leftarrow> admin_keyExists E svc prevKeyID;
                                          return (case ex of Inl err \<Rightarrow> Inl err | Inr found \<Rightarrow> Inr (\<not> found)) }
                                else return (Inr mintFresh0));
                              case mf of
                                Inl err \<Rightarrow> return (access_error ''check access key: '' err)
                              | Inr mintFresh \<Rightarrow>
                                  if mintFresh \<or> prevKeyID = []
                                  then do { k \<leftarrow> admin_createKey E svc (AccessResourceName access);
                                            case k of
                                              Inl err \<Rightarrow> return (access_error ''create access key: '' err)
                                            | Inr key \<Rightarrow> grantAndRevoke E svc access (bi_id info) mintFresh True
                                                (ki_access_key_id key) (ki_secret_access_key key) }
                                  else grantAndRevoke E svc access (bi_id info) mintFresh False prevKeyID [] }) }) }"

definition garageDeleteAccess ::
  "('w, 'x) garage_env_scheme \<Rightarrow> object_store \<Rightarrow> bucket_access \<Rightarrow> ('w, go_error option) go" where
  "garageDeleteAccess E cluster access =
     (let keyID = accessKeyID access in
      if keyID = [] then return None
      else do { r \<leftarrow> adminClientFor E cluster;
                case r of
                  Inl err \<Rightarrow> (if is_not_found err then return None else return (Some err))
                | Inr None \<Rightarrow> return None
                | Inr (Some svc) \<Rightarrow>
                    do { d \<leftarrow> admin_deleteKey E svc keyID;
                         return (case d of None \<Rightarrow> None | Some err \<Rightarrow> Some (wrap_err ''delete access key: '' err)) } })"

section \<open>What a trace shows\<close>

definition bucket_answered :: "('w, 'x) garage_env_scheme \<Rightarrow> string \<Rightarrow> string \<Rightarrow> event list \<Rightarrow> bool" where
  "bucket_answered E name bid u \<longleftrightarrow> (\<exists>base ans info. EvAdmin base (GetBucketInfo name) ans \<in> set u
     \<and> interp (GetBucketInfo name) (ga_dec_bucket E) zero_bucket ans = Inr info \<and> bi_id info = bid)"

definition key_answered ::
  "('w, 'x) garage_env_scheme \<Rightarrow> bucket_access \<Rightarrow> string \<Rightarrow> string \<Rightarrow> event list \<Rightarrow> bool" where
  "key_answered E access k s u \<longleftrightarrow> (\<exists>base ans info. EvAdmin base (CreateKey (AccessResourceName access)) ans \<in> set u
     \<and> interp (CreateKey (AccessResourceName access)) (ga_dec_key E) zero_key ans = Inr info
     \<and> ki_access_key_id info = k \<and> ki_secret_access_key info = s)"

definition granted :: "string \<Rightarrow> string \<Rightarrow> bool \<Rightarrow> event list \<Rightarrow> bool" where
  "granted bid k rw u \<longleftrightarrow>
     (\<exists>base ans. EvAdmin base (AllowBucketKey bid k (True, rw, False)) ans \<in> set u \<and> ok_answer ans)"

definition revoked :: "string \<Rightarrow> event list \<Rightarrow> bool" where
  "revoked k u \<longleftrightarrow> (\<exists>base ans. EvAdmin base (DeleteKey k) ans \<in> set u \<and> gone_answer ans)"

lemmas trace_defs = bucket_answered_def key_answered_def granted_def revoked_def

lemma garagePermissions_sel [simp]:
  "p_read (garagePermissions a)" "p_write (garagePermissions a) \<longleftrightarrow> ba_permission (ba_spec a) \<noteq> AccessReadOnly"
  "\<not> p_owner (garagePermissions a)"
  by (simp_all add: garagePermissions_def)

lemmas access_state_defs = empty_access_state_def access_error_def

section \<open>Properties\<close>

definition garage_access_post ::
  "('w, 'x) garage_env_scheme \<Rightarrow> bucket \<Rightarrow> bucket_access \<Rightarrow> bool \<Rightarrow> access_state \<times> go_error option \<Rightarrow> event list \<Rightarrow> bool" where
  "garage_access_post E b access mf out u \<longleftrightarrow> (case out of (st, err) \<Rightarrow>
     (case err of Some e \<Rightarrow> st = empty_access_state
      | None \<Rightarrow>
         if as_ready st
         then (\<exists>bid. bucket_answered E (BucketDisplayName b) bid u
                \<and> granted bid (as_access_key_id st) (ba_permission (ba_spec access) \<noteq> AccessReadOnly) u)
            \<and> (if key_answered E access (as_access_key_id st) (as_secret_access_key st) u
               then mf \<and> accessKeyID access \<notin> {[], as_access_key_id st} \<longrightarrow> revoked (accessKeyID access) u
               else \<not> mf \<and> as_access_key_id st = accessKeyID access \<and> as_secret_access_key st = [])
         else as_access_key_id st = [] \<and> as_secret_access_key st = []))"

lemma garage_access_pass:
  "wp (garageEnsureAccess E cluster b access mf) (\<lambda>out s'. garage_access_post E b access mf out (snd s')) (w, [])"
  unfolding garageEnsureAccess_def grantAndRevoke_def garage_access_post_def
  by (intro wp_rules) (auto simp: access_state_defs trace_defs)

text \<open>C19: What a successful \<open>EnsureAccess\<close> of Garage means. An error hands out nothing; without an error and
  not ready, no key is handed out; when ready, the key is granted read (and write unless ReadOnly, never
  owner) on the bucket Garage answered for this bucket's name; the key is the one created in this run with its
  secret, or the recorded one without a secret; and a forced mint always gives a key created in this run, after
  which the recorded key, if there was another one, is revoked.\<close>

theorem garage_access_sound:
  "wp (garageEnsureAccess E cluster b access mf)
     (\<lambda>(st, err) s'. case err of Some e \<Rightarrow> st = empty_access_state
      | None \<Rightarrow>
         if as_ready st
         then (\<exists>bid. bucket_answered E (BucketDisplayName b) bid (snd s')
                \<and> granted bid (as_access_key_id st) (ba_permission (ba_spec access) \<noteq> AccessReadOnly) (snd s'))
            \<and> (if key_answered E access (as_access_key_id st) (as_secret_access_key st) (snd s')
               then mf \<and> accessKeyID access \<notin> {[], as_access_key_id st} \<longrightarrow> revoked (accessKeyID access) (snd s')
               else \<not> mf \<and> as_access_key_id st = accessKeyID access \<and> as_secret_access_key st = [])
         else as_access_key_id st = [] \<and> as_secret_access_key st = []) (w, [])"
  by (rule wp_mono [OF garage_access_pass]) (simp only: garage_access_post_def case_prod_beta)

text \<open>A key's life in one call of \<open>EnsureAccess\<close>: the recorded key is revoked only after another key was
  granted on the bucket, and a key created in the call is revoked only after its grant failed.\<close>

definition key_event_ok :: "bucket_access \<Rightarrow> event list \<Rightarrow> event \<Rightarrow> bool" where
  "key_event_ok access u e = (case e of
      EvGet rd k ky r \<Rightarrow> True
    | EvAdmin base rq ans \<Rightarrow> (case rq of
          GetBucketInfo n \<Rightarrow> True
        | GetKeyInfo k \<Rightarrow> k = accessKeyID access
        | CreateKey n \<Rightarrow> n = AccessResourceName access
        | AllowBucketKey bid k ps \<Rightarrow> ps = (True, ba_permission (ba_spec access) \<noteq> AccessReadOnly, False)
        | DeleteKey k \<Rightarrow>
            (k = accessKeyID access
               \<and> (\<exists>bid k' rw. k' \<noteq> k \<and> granted bid k' rw u))
            \<or> (\<exists>base' bid ps ans'. EvAdmin base' (AllowBucketKey bid k ps) ans' \<in> set u \<and> \<not> ok_answer ans')
        | _ \<Rightarrow> False)
    | _ \<Rightarrow> False)"

text \<open>Every call \<open>EnsureAccess\<close> makes is one of the above: rotation never leaves a moment without a
  granted key, no permission beyond the requested one is ever granted, and nothing else is touched.\<close>

theorem garage_access_order:
  "wp (garageEnsureAccess E cluster b access mf)
     (\<lambda>_ s'. justified (key_event_ok access) (snd s')) (w, [])"
  unfolding garageEnsureAccess_def grantAndRevoke_def
  by (intro wp_rules) (auto simp: key_event_ok_def granted_def)

text \<open>A defect: when revoking the superseded key fails, the fresh key, created and granted in the same
  call, is neither returned nor revoked. The call fails, nothing records the new key, and the next reconcile
  mints another one. The failure of the grant two statements earlier is rolled back for exactly this
  reason.\<close>

theorem garage_rotation_leaks_key:
  "wp (garageEnsureAccess E cluster b access mf)
     (\<lambda>(st, err) s'. \<forall>bid k rw base ans.
        granted bid k rw (snd s') \<and> EvAdmin base (DeleteKey (accessKeyID access)) ans \<in> set (snd s') \<and> \<not> gone_answer ans
        \<longrightarrow> err \<noteq> None \<and> st = empty_access_state \<and> k \<noteq> accessKeyID access
          \<and> (\<exists>s. key_answered E access k s (snd s')) \<and> \<not> revoked k (snd s')) (w, [])"
  unfolding garageEnsureAccess_def grantAndRevoke_def
  by (intro wp_rules) (auto simp: access_state_defs trace_defs)

text \<open>An instance: Garage answers every request except the revocation, which fails with status 500.\<close>

definition demo_secret :: secret where
  "demo_secret = \<lparr>sec_meta = fresh_meta ''store-garage-secrets'' ''d8'' Map.empty, sec_data = [''admin-token'' \<mapsto> ''t''], sec_string_data = Map.empty\<rparr>"

definition demo_http :: "string \<Rightarrow> string \<Rightarrow> admin_req \<Rightarrow> unit \<Rightarrow> (string + int \<times> string) \<times> unit" where
  "demo_http base token rq w = (case rq of DeleteKey k \<Rightarrow> Inr (500, ''busy'') | CreateKey n \<Rightarrow> Inr (200, ''new'')
     | _ \<Rightarrow> Inr (200, ''b1''), w)"

definition demo_s3 :: "unit s3_api" where
  "demo_s3 = \<lparr>s3_new = (\<lambda>_ _ _. None), s3_bucket_exists = (\<lambda>_ _ w. (Inr True, w)), s3_make_bucket = (\<lambda>_ _ _ w. (None, w)),
     s3_remove_objects = (\<lambda>_ _ w. ([None], w)), s3_remove_bucket = (\<lambda>_ _ w. (None, w)),
     s3_get_policy = (\<lambda>_ _ w. (Inr [], w)), s3_set_policy = (\<lambda>_ _ _ w. (None, w))\<rparr>"

definition demo_garage :: "unit garage_env" where
  "demo_garage = \<lparr>ga_kube = quiet_kube\<lparr>k_secrets := answering (Inr demo_secret) []\<rparr>,
     ga_namespace = ''d8'', ga_image = ''img'', ga_cluster_domain = ''cluster.local'', ga_has_rest_config = False,
     ga_pq = (\<lambda>_. Inr 0),
     ga_own = (\<lambda>ow m. Inr (m\<lparr>m_owner := Some (m_name ow)\<rparr>)), ga_rand = (\<lambda>n w. (Inr ''00'', w)), ga_http = demo_http,
     ga_dec_node_info = (\<lambda>_. Inr []), ga_dec_health = (\<lambda>_. Inr zero_health), ga_dec_layout = (\<lambda>_. Inr zero_layout),
     ga_dec_key = (\<lambda>s. Inr \<lparr>ki_access_key_id = s, ki_secret_access_key = ''secret'', ki_name = []\<rparr>),
     ga_dec_bucket = (\<lambda>s. Inr \<lparr>bi_id = s, bi_global_aliases = []\<rparr>),
     ga_exec = (\<lambda>_ _ w. (Inr [], w)), ga_base64 = Inr, ga_s3 = demo_s3\<rparr>"

definition demo_bucket :: bucket where
  "demo_bucket = \<lparr>b_meta = fresh_meta ''logs'' [] Map.empty,
     b_spec = \<lparr>b_object_store_ref = ''store'', b_bucket_name = [], b_access_policy = AccessPolicyPrivate,
       b_reclaim_policy = BucketReclaimDelete, b_quota = None\<rparr>, b_status = None\<rparr>"

definition demo_access :: "access_permission \<Rightarrow> bucket_access" where
  "demo_access perm = \<lparr>ba_meta = fresh_meta ''app'' ''team'' Map.empty,
     ba_spec = \<lparr>ba_bucket_claim_name = ''logs'', ba_permission = perm, ba_credentials_secret_name = []\<rparr>,
     ba_status = Some \<lparr>bas_observed_generation = 1, bas_phase = PhaseReady, bas_endpoint = [], bas_bucket_name = ''logs'',
       bas_access_key_id = ''old'', bas_secret_ref = None, bas_observed_rotation = [], bas_last_rotation_time = None,
       bas_conditions = []\<rparr>\<rparr>"

abbreviation demo_store :: object_store where
  "demo_store \<equiv> store ''store'' ClusterTypeSystem RedundancyNone"

definition demo_rotation :: "(access_state \<times> go_error option) \<times> unit \<times> event list" where
  "demo_rotation = run_state (garageEnsureAccess demo_garage demo_store demo_bucket (demo_access AccessReadWrite) True) ((), [])"

lemmas demo_run_defs =
  demo_garage_def demo_http_def adminClientFor_def adminToken_def admin_op_defs admin_do_def call_def kget_def
  no_body_def err_of_def demo_secret_def answering_def quiet_kube_def map_answer_def map_str_def
  newAdminClient_def secretKeyAdmin_def Let_def

lemma demo_rotation_events:
  "granted ''b1'' ''new'' True (snd (snd demo_rotation))"
  "\<exists>base ans. EvAdmin base (DeleteKey ''old'') ans \<in> set (snd (snd demo_rotation)) \<and> \<not> gone_answer ans"
  by (simp_all add: demo_rotation_def garageEnsureAccess_def grantAndRevoke_def demo_run_defs demo_access_def
      demo_bucket_def accessKeyID_def granted_def ok_answer_def gone_answer_def missing_answer_def isNotFound_def
      api_error_def garagePermissions_def contains_str.simps has_prefix_def to_lower_def to_lower_char_def)

lemma garage_rotation_leaks_key_witness:
  "snd (fst demo_rotation) \<noteq> None \<and> fst (fst demo_rotation) = empty_access_state
   \<and> (\<exists>s. key_answered demo_garage (demo_access AccessReadWrite) ''new'' s (snd (snd demo_rotation)))
   \<and> \<not> revoked ''new'' (snd (snd demo_rotation))"
proof -
  have old: "accessKeyID (demo_access AccessReadWrite) = ''old''" by (simp add: accessKeyID_def demo_access_def)
  obtain st err v t where run: "demo_rotation = ((st, err), (v, t))" by (metis surj_pair)
  have "\<forall>bid k rw base ans.
        granted bid k rw t \<and> EvAdmin base (DeleteKey ''old'') ans \<in> set t \<and> \<not> gone_answer ans
        \<longrightarrow> err \<noteq> None \<and> st = empty_access_state \<and> k \<noteq> ''old''
          \<and> (\<exists>s. key_answered demo_garage (demo_access AccessReadWrite) k s t) \<and> \<not> revoked k t"
    using wpD [OF garage_rotation_leaks_key run [unfolded demo_rotation_def]] by (simp add: old)
  moreover have "granted ''b1'' ''new'' True t"
    "\<exists>base ans. EvAdmin base (DeleteKey ''old'') ans \<in> set t \<and> \<not> gone_answer ans"
    using demo_rotation_events by (simp_all add: run)
  ultimately show ?thesis unfolding run fst_conv snd_conv by blast
qed

text \<open>The documented effect of the admin calls on the permissions of keys: \<open>AllowBucketKey\<close> activates the
  flags that are true and leaves the others, \<open>DeleteKey\<close> drops the key.\<close>

type_synonym grants = "string \<Rightarrow> string \<Rightarrow> bool \<times> bool \<times> bool"

definition garage_effect :: "grants \<Rightarrow> event \<Rightarrow> grants" where
  "garage_effect g e = (case e of
      EvAdmin base rq ans \<Rightarrow> (case rq of
          AllowBucketKey b k (r, w, ow) \<Rightarrow>
            if ok_answer ans
            then (\<lambda>b' k'. case g b' k' of (r', w', ow') \<Rightarrow>
                   if b' = b \<and> k' = k then (r' \<or> r, w' \<or> w, ow' \<or> ow) else (r', w', ow'))
            else g
        | DeleteKey k \<Rightarrow> if gone_answer ans then (\<lambda>b' k'. if k' = k then (False, False, False) else g b' k') else g
        | _ \<Rightarrow> g)
    | _ \<Rightarrow> g)"

definition can_write :: "grants \<Rightarrow> string \<Rightarrow> string \<Rightarrow> bool" where
  "can_write g b k = fst (snd (g b k))"

lemma can_write_effect:
  "can_write (garage_effect g e) b k = (case e of
      EvAdmin base rq ans \<Rightarrow> (case rq of
          AllowBucketKey b' k' (r, w, ow) \<Rightarrow> if ok_answer ans \<and> b' = b \<and> k' = k then can_write g b k \<or> w else can_write g b k
        | DeleteKey k' \<Rightarrow> if gone_answer ans \<and> k' = k then False else can_write g b k
        | _ \<Rightarrow> can_write g b k)
    | _ \<Rightarrow> can_write g b k)"
  by (auto simp: can_write_def garage_effect_def split: event.split admin_req.split prod.split)

text \<open>A defect: turning an access to ReadOnly does not take the write permission away. The code has no
  call that clears a flag, so the key that \<open>EnsureAccess\<close> reports as provisioned for a ReadOnly access can
  write exactly where it could before.\<close>

theorem garage_downgrade_ineffective:
  assumes "ba_permission (ba_spec access) = AccessReadOnly"
  shows "wp (garageEnsureAccess E cluster b access False)
     (\<lambda>(st, err) s'. as_ready st \<longrightarrow>
        (\<forall>g bid. can_write (foldl garage_effect g (snd s')) bid (as_access_key_id st) = can_write g bid (as_access_key_id st))) (w, [])"
  unfolding garageEnsureAccess_def grantAndRevoke_def
  by (intro wp_rules) (auto simp: access_state_defs can_write_effect assms)

lemma garage_downgrade_ineffective_witness:
  "can_write (foldl garage_effect (\<lambda>_ _. (True, True, False))
      (snd (snd (run_state (garageEnsureAccess demo_garage demo_store demo_bucket (demo_access AccessReadOnly) False) ((), [])))))
     ''b1'' ''old''"
proof -
  let ?run = "run_state (garageEnsureAccess demo_garage demo_store demo_bucket (demo_access AccessReadOnly) False) ((), [])"
  have ready: "as_ready (fst (fst ?run))" "as_access_key_id (fst (fst ?run)) = ''old''"
    by (simp_all add: garageEnsureAccess_def grantAndRevoke_def demo_run_defs demo_access_def demo_bucket_def
        accessKeyID_def garagePermissions_def)
  obtain st err v t where run: "?run = ((st, err), (v, t))" by (metis surj_pair)
  have ro: "ba_permission (ba_spec (demo_access AccessReadOnly)) = AccessReadOnly" by (simp add: demo_access_def)
  show ?thesis
    using wpD [OF garage_downgrade_ineffective [OF ro] run] ready by (simp add: run) (simp add: can_write_def)
qed

definition reclaim_event_ok :: "('w, 'x) garage_env_scheme \<Rightarrow> string \<Rightarrow> event list \<Rightarrow> event \<Rightarrow> bool" where
  "reclaim_event_ok E name u e = (case e of
      EvGet rd k ky r \<Rightarrow> True
    | EvS3 ep rq r \<Rightarrow> rq \<in> {BucketExists name, RemoveObjects name}
    | EvAdmin base rq ans \<Rightarrow> (case rq of
          GetBucketInfo n \<Rightarrow> n = name
        | CreateKey n \<Rightarrow> n = ''sds-object-reclaim-'' @ name
        | AllowBucketKey bid k ps \<Rightarrow> bucket_answered E name bid u
        | DeleteKey k \<Rightarrow> (\<exists>base' ans' info. EvAdmin base' (CreateKey (''sds-object-reclaim-'' @ name)) ans' \<in> set u
              \<and> interp (CreateKey (''sds-object-reclaim-'' @ name)) (ga_dec_key E) zero_key ans' = Inr info
              \<and> ki_access_key_id info = k)
        | DeleteBucketReq bid \<Rightarrow> bucket_answered E name bid u \<and> emptied name u
              \<and> (\<exists>base' k ans'. EvAdmin base' (DeleteKey k) ans' \<in> set u)
        | _ \<Rightarrow> False)
    | _ \<Rightarrow> False)"

text \<open>Reclaiming a bucket: nothing happens under Retain; otherwise the bucket Garage answered for the
  name is removed, and only after its objects were, and the temporary owner key used for that has been
  revoked, or its revocation tried, before.\<close>

theorem garage_reclaim_sound:
  "wp (garageDeleteBucket E cluster b)
     (\<lambda>r s'. justified (reclaim_event_ok E (BucketDisplayName b)) (snd s')
        \<and> (b_reclaim_policy (b_spec b) = BucketReclaimDelete \<or> snd s' = [])) (w, [])"
proof -
  have all: "list_all (\<lambda>r. r = None) rs" if "find (\<lambda>r. \<exists>y. r = Some y) rs = None" for rs :: "go_error option list"
    using that by (auto simp: find_None_iff_all list_all_iff)
  have no: "find (\<lambda>r. \<exists>y. r = Some y) rs \<noteq> Some None" for rs :: "go_error option list"
    by (auto dest: find_Some_iff_first)
  show ?thesis
    unfolding garageDeleteBucket_def emptyBucket_def S3_EmptyBucket_def mc_exists_def
    by (intro wp_rules)
      (auto simp: reclaim_event_ok_def bucket_answered_def emptied_def no split: option.splits dest: all)
qed

definition demo_reuse :: "(access_state \<times> go_error option) \<times> unit \<times> event list" where
  "demo_reuse = run_state (garageEnsureAccess demo_garage demo_store demo_bucket (demo_access AccessReadWrite) False) ((), [])"

lemma demo_reuse_result:
  "snd (fst demo_reuse) = None \<and> as_ready (fst (fst demo_reuse)) \<and> as_access_key_id (fst (fst demo_reuse)) = ''old''"
  by (simp add: demo_reuse_def garageEnsureAccess_def grantAndRevoke_def demo_run_defs demo_access_def demo_bucket_def
      accessKeyID_def garagePermissions_def)

lemma garage_access_sound_witness:
  "\<exists>bid. bucket_answered demo_garage ''logs'' bid (snd (snd demo_reuse)) \<and> granted bid ''old'' True (snd (snd demo_reuse))"
proof -
  obtain st err v t where run: "demo_reuse = ((st, err), (v, t))" by (metis surj_pair)
  have "BucketDisplayName demo_bucket = ''logs''"
    by (simp add: BucketDisplayName_def demo_bucket_def fresh_meta_def)
  then show ?thesis
    using wpD [OF garage_access_sound run [unfolded demo_reuse_def]] demo_reuse_result
    by (simp add: run) (simp add: demo_access_def)
qed

text \<open>A Garage bucket is ready only if Garage answered with it, found or made, and its quotas were applied when there are any.\<close>

definition bucket_created :: "('w, 'x) garage_env_scheme \<Rightarrow> string \<Rightarrow> string \<Rightarrow> event list \<Rightarrow> bool" where
  "bucket_created E name bid u \<longleftrightarrow> (\<exists>base ans info. EvAdmin base (CreateBucket name) ans \<in> set u
     \<and> interp (CreateBucket name) (ga_dec_bucket E) zero_bucket ans = Inr info \<and> bi_id info = bid)"

definition quotas_applied :: "('w, 'x) garage_env_scheme \<Rightarrow> bucket_quota option \<Rightarrow> string \<Rightarrow> event list \<Rightarrow> bool" where
  "quotas_applied E quota bid u \<longleftrightarrow> (case quota of
      None \<Rightarrow> True
    | Some q \<Rightarrow> (\<exists>qs base ans. garageBucketQuotas (ga_pq E) (Some q) = Inr qs
        \<and> EvAdmin base (UpdateBucket bid (bq_max_size qs, bq_max_objects qs)) ans \<in> set u \<and> ok_answer ans))"

definition garage_bucket_post :: "('w, 'x) garage_env_scheme \<Rightarrow> bucket \<Rightarrow> bucket_state \<times> go_error option \<Rightarrow> event list \<Rightarrow> bool" where
  "garage_bucket_post E b out u \<longleftrightarrow> (if bst_ready (fst out)
     then snd out = None \<and> bst_bucket_name (fst out) = BucketDisplayName b
       \<and> (\<exists>bid. (bucket_answered E (BucketDisplayName b) bid u \<or> bucket_created E (BucketDisplayName b) bid u)
            \<and> quotas_applied E (b_quota (b_spec b)) bid u)
       \<and> bst_unsupported (fst out) = filter (\<lambda>f. f \<noteq> FeatureQuota) (RequestedFeatures b)
     else True)"

lemma garage_bucket_pass:
  "wp (garageEnsureBucket E c b) (\<lambda>out s'. garage_bucket_post E b out (snd s')) (w, [])"
  unfolding garageEnsureBucket_def garage_bucket_post_def Let_def
  by (intro wp_rules)
    (auto simp: empty_bucket_state_def bucket_ready_def garageUnsupported_def bucket_answered_def bucket_created_def quotas_applied_def)

end
