(* ===== verification/Garage_Layout.thy ===== *)
theory Garage_Layout
  imports Garage_Access
begin

text \<open>
  \<open>backend/garage/mesh.go\<close>: discovering the live Garage nodes, connecting them, and converging the cluster
  layout onto them. \<open>layoutRoleChanges\<close> is compared with the layout Garage has after the changes
  (\<open>apply_roles\<close>, the documented effect of the two forms of a staged role).
\<close>

definition layoutZone :: string where "layoutZone = ''dc1''"
definition garageStatusHealthy :: string where "garageStatusHealthy = ''healthy''"

record mesh_result =
  mr_ready :: bool
  mr_msg :: string
  mr_total :: "int option"

record node_peer =
  np_id :: string
  np_ip :: string

definition mesh_wait :: "string \<Rightarrow> mesh_result" where
  "mesh_wait m = \<lparr>mr_ready = False, mr_msg = m, mr_total = None\<rparr>"

section \<open>The layout\<close>

definition layoutRoleChanges :: "cluster_layout \<Rightarrow> node_peer list \<Rightarrow> int \<Rightarrow> int \<Rightarrow> role_change list" where
  "layoutRoleChanges layout peers expected capacity =
     (let assigned = map lr_id (cl_roles layout);
          live = map np_id peers;
          adds = map (\<lambda>p. \<lparr>rc_id = np_id p, rc_zone = layoutZone, rc_capacity = Some capacity, rc_tags = [], rc_remove = False\<rparr>)
                   (filter (\<lambda>p. np_id p \<notin> set assigned) peers);
          removes = map (\<lambda>r. \<lparr>rc_id = lr_id r, rc_zone = [], rc_capacity = None, rc_tags = [], rc_remove = True\<rparr>)
                   (filter (\<lambda>r. lr_id r \<notin> set live) (cl_roles layout))
      in adds @ (if to_int32 (int (length peers)) \<ge> expected then removes else []))"

text \<open>The sum is an \<open>int64\<close>; a zero sum is no capacity.\<close>

definition layoutTotalCapacity :: "cluster_layout \<Rightarrow> int option" where
  "layoutTotalCapacity layout =
     (let sum = foldl (\<lambda>s r. case lr_capacity r of None \<Rightarrow> s | Some c \<Rightarrow> to_int64 (s + c)) 0 (cl_roles layout)
      in if sum = 0 then None else Some sum)"

section \<open>Discovery\<close>

fun discover_loop ::
  "('w, 'x) garage_env_scheme \<Rightarrow> string \<Rightarrow> pod list \<Rightarrow> node_peer list \<Rightarrow> ('w, node_peer list) go" where
  "discover_loop E token [] peers = return peers"
| "discover_loop E token (p # ps) peers =
     (if \<not> pod_running p \<or> pod_ip p = [] then discover_loop E token ps peers
      else do { st \<leftarrow> admin_status E (newAdminClient (''http://'' @ pod_ip p @ '':'' @ itoa adminPort) token);
                case st of
                  Inl _ \<Rightarrow> discover_loop E token ps peers
                | Inr n \<Rightarrow> if n = [] then discover_loop E token ps peers
                    else discover_loop E token ps (peers @ [\<lparr>np_id = n, np_ip = pod_ip p\<rparr>]) })"

definition discoverPeers ::
  "('w, 'x) garage_env_scheme \<Rightarrow> object_store \<Rightarrow> string \<Rightarrow> ('w, node_peer list result) go" where
  "discoverPeers E cluster token =
     do { r \<leftarrow> klist Uncached KPod OPod (k_pods (ga_kube E))
                 \<lparr>lo_namespace = Some (ga_namespace E), lo_match = commonLabelList cluster, lo_has = []\<rparr>;
          case r of
            Inl e \<Rightarrow> return (Inl e)
          | Inr pods \<Rightarrow> do { ps \<leftarrow> discover_loop E token pods []; return (Inr ps) } }"

section \<open>Connect, layout, health\<close>

definition peerSpec :: "node_peer \<Rightarrow> string" where
  "peerSpec p = np_id p @ ''@'' @ np_ip p @ '':'' @ itoa rpcPort"

definition healthGate ::
  "('w, 'x) garage_env_scheme \<Rightarrow> admin_client \<Rightarrow> cluster_layout \<Rightarrow> ('w, mesh_result result) go" where
  "healthGate E svc layout =
     do { h \<leftarrow> admin_health E svc;
          return (case h of
              Inl err \<Rightarrow> Inr (mesh_wait (''reading health: '' @ emsg err))
            | Inr hr \<Rightarrow>
                if h_status hr \<noteq> garageStatusHealthy
                then Inr \<lparr>mr_ready = False,
                   mr_msg = ''Garage cluster health is '' @ quoted (h_status hr) @ '' ('' @ itoa (h_storage_nodes_ok hr)
                     @ ''/'' @ itoa (h_storage_nodes hr) @ '' storage nodes ok)'',
                   mr_total = layoutTotalCapacity layout\<rparr>
                else Inr \<lparr>mr_ready = True, mr_msg = ''Garage cluster is healthy'', mr_total = layoutTotalCapacity layout\<rparr>) }"

definition ensureMeshAndLayout ::
  "('w, 'x) garage_env_scheme \<Rightarrow> object_store \<Rightarrow> ('w, mesh_result result) go" where
  "ensureMeshAndLayout E cluster =
     do { tk \<leftarrow> adminToken E cluster;
          case tk of
            Inl err \<Rightarrow> return (Inl err)
          | Inr token \<Rightarrow>
            if token = [] then return (Inr (mesh_wait ''Garage admin token is not provisioned yet''))
            else do { pr \<leftarrow> discoverPeers E cluster token;
              case pr of
                Inl err \<Rightarrow> return (Inl err)
              | Inr peers \<Rightarrow>
                if peers = [] then return (Inr (mesh_wait ''waiting for Garage pods to report a node identity''))
                else (let svc = newAdminClient (adminEndpoint cluster (ga_namespace E) (ga_cluster_domain E)) token in
                  do { c \<leftarrow> admin_connect E svc (map peerSpec peers);
                    case c of
                      Some err \<Rightarrow> return (Inr (mesh_wait (''connecting Garage peers: '' @ emsg err)))
                    | None \<Rightarrow>
                      do { l \<leftarrow> admin_layout E svc;
                        case l of
                          Inl err \<Rightarrow> return (Inr (mesh_wait (''reading layout: '' @ emsg err)))
                        | Inr layout \<Rightarrow>
                          (let changes = layoutRoleChanges layout peers (desiredReplicas cluster) (storageSize (ga_pq E) cluster) in
                           if changes = [] then healthGate E svc layout
                           else do { s \<leftarrow> admin_stageLayout E svc changes;
                             case s of
                               Some err \<Rightarrow> return (Inr (mesh_wait (''staging layout: '' @ emsg err)))
                             | None \<Rightarrow>
                               do { cu \<leftarrow> admin_layout E svc;
                                 case cu of
                                   Inl err \<Rightarrow> return (Inr (mesh_wait (''reading staged layout: '' @ emsg err)))
                                 | Inr cur \<Rightarrow>
                                   do { a \<leftarrow> admin_applyLayout E svc (cl_version cur + 1);
                                     case a of
                                       Some err \<Rightarrow> return (Inr (mesh_wait (''applying layout: '' @ emsg err)))
                                     | None \<Rightarrow> healthGate E svc layout } } }) } }) } }"

section \<open>The documented effect of a layout change\<close>

definition apply_role :: "string set \<Rightarrow> staged_role \<Rightarrow> string set" where
  "apply_role ids sr = (case sr of RemoveRole i \<Rightarrow> ids - {i} | AssignRole i z c tg \<Rightarrow> insert i ids)"

definition apply_roles :: "string set \<Rightarrow> role_change list \<Rightarrow> string set" where
  "apply_roles ids changes = foldl apply_role ids (map staged changes)"

definition role_ids :: "cluster_layout \<Rightarrow> string set" where
  "role_ids l = lr_id ` set (cl_roles l)"

definition peer_ids :: "node_peer list \<Rightarrow> string set" where
  "peer_ids ps = np_id ` set ps"

lemma foldl_assign: "(\<And>x. x \<in> set xs \<Longrightarrow> \<not> rc_remove x) \<Longrightarrow>
    foldl apply_role ids (map staged xs) = ids \<union> rc_id ` set xs"
  by (induction xs arbitrary: ids) (auto simp: apply_role_def staged_def)

lemma foldl_remove: "(\<And>x. x \<in> set xs \<Longrightarrow> rc_remove x) \<Longrightarrow>
    foldl apply_role ids (map staged xs) = ids - rc_id ` set xs"
  by (induction xs arbitrary: ids) (auto simp: apply_role_def staged_def)

lemma layout_adds_removes:
  "\<exists>adds removes. layoutRoleChanges l ps n cap = adds @ removes
     \<and> (\<forall>x \<in> set adds. \<not> rc_remove x) \<and> rc_id ` set adds = peer_ids ps - role_ids l
     \<and> (\<forall>x \<in> set removes. rc_remove x)
     \<and> rc_id ` set removes = (if to_int32 (int (length ps)) \<ge> n then role_ids l - peer_ids ps else {})"
  unfolding layoutRoleChanges_def Let_def
  by (intro exI conjI, rule refl) (auto simp: role_ids_def peer_ids_def image_image)

section \<open>Properties\<close>

text \<open>C27: The layout converges: after the changes, the nodes with a role are the live ones, and only while
  fewer than the full complement is live the old ones are kept as well. A recycled or restarting node is
  therefore never dropped while others are still missing.\<close>

theorem layout_changes_converge:
  "apply_roles (role_ids l) (layoutRoleChanges l ps n cap)
     = (if to_int32 (int (length ps)) \<ge> n then peer_ids ps else role_ids l \<union> peer_ids ps)"
proof -
  obtain adds removes where ar: "layoutRoleChanges l ps n cap = adds @ removes"
    "\<forall>x \<in> set adds. \<not> rc_remove x" "rc_id ` set adds = peer_ids ps - role_ids l"
    "\<forall>x \<in> set removes. rc_remove x"
    "rc_id ` set removes = (if to_int32 (int (length ps)) \<ge> n then role_ids l - peer_ids ps else {})"
    using layout_adds_removes [of l ps n cap] by (elim exE conjE) (rule that)
  have "apply_roles (role_ids l) (adds @ removes) = (role_ids l \<union> rc_id ` set adds) - rc_id ` set removes"
    using ar(2,4) by (simp add: apply_roles_def foldl_assign foldl_remove)
  then show ?thesis unfolding ar(1) ar(3) ar(5) by auto
qed

text \<open>Nothing to do means nothing is staged: the change list is empty exactly when every live node has a
  role and, with the full complement live, every role has a live node. So a pass over a converged layout
  never creates a new layout version.\<close>

theorem layout_changes_empty:
  "layoutRoleChanges l ps n cap = [] \<longleftrightarrow>
     peer_ids ps \<subseteq> role_ids l \<and> (to_int32 (int (length ps)) < n \<or> role_ids l \<subseteq> peer_ids ps)"
  by (simp add: layoutRoleChanges_def Let_def filter_empty_conv role_ids_def peer_ids_def image_subset_iff not_le)

text \<open>What justifies the calls of a mesh pass: a staged change list is the one computed from a layout read
  before and the peers that were connected, and it is applied at a version read before, plus one, after it was
  staged.\<close>

definition layout_read :: "('w, 'x) garage_env_scheme \<Rightarrow> event list \<Rightarrow> cluster_layout \<Rightarrow> bool" where
  "layout_read E u l \<longleftrightarrow> (\<exists>b a. EvAdmin b GetClusterLayout a \<in> set u
     \<and> interp GetClusterLayout (ga_dec_layout E) zero_layout a = Inr l)"

definition peers_connected :: "event list \<Rightarrow> node_peer list \<Rightarrow> bool" where
  "peers_connected u ps \<longleftrightarrow> (\<exists>b a. EvAdmin b (ConnectClusterNodes (map peerSpec ps)) a \<in> set u \<and> ok_answer a)"

definition layout_staged :: "event list \<Rightarrow> bool" where
  "layout_staged u \<longleftrightarrow> (\<exists>b a chs. EvAdmin b (UpdateClusterLayout chs) a \<in> set u \<and> ok_answer a)"

definition changes_computed ::
  "('w, 'x) garage_env_scheme \<Rightarrow> object_store \<Rightarrow> event list \<Rightarrow> staged_role list \<Rightarrow> bool" where
  "changes_computed E cluster u chs \<longleftrightarrow> (\<exists>l ps. layout_read E u l \<and> peers_connected u ps
     \<and> chs = map staged (layoutRoleChanges l ps (desiredReplicas cluster) (storageSize (ga_pq E) cluster)))"

definition version_computed :: "('w, 'x) garage_env_scheme \<Rightarrow> event list \<Rightarrow> int \<Rightarrow> bool" where
  "version_computed E u v \<longleftrightarrow> (\<exists>l. layout_read E u l \<and> v = cl_version l + 1)"

definition mesh_event_ok ::
  "('w, 'x) garage_env_scheme \<Rightarrow> object_store \<Rightarrow> event list \<Rightarrow> event \<Rightarrow> bool" where
  "mesh_event_ok E cluster u e = (case e of
      EvGet rd k ky r \<Rightarrow> True
    | EvList rd k lo r \<Rightarrow> rd = Uncached
    | EvAdmin base rq ans \<Rightarrow> (case rq of
          GetNodeInfoSelf \<Rightarrow> True
        | GetClusterHealth \<Rightarrow> True
        | GetClusterLayout \<Rightarrow> True
        | ConnectClusterNodes ps \<Rightarrow> ps \<noteq> []
        | UpdateClusterLayout chs \<Rightarrow> chs \<noteq> [] \<and> changes_computed E cluster u chs
        | ApplyClusterLayout v \<Rightarrow> layout_staged u \<and> version_computed E u v
        | _ \<Rightarrow> False)
    | _ \<Rightarrow> False)"

lemma status_emits: "emits (\<lambda>e. \<exists>base ans. e = EvAdmin base GetNodeInfoSelf ans) (admin_status E c)"
  unfolding admin_status_def admin_do_def by (intro emits_rules) auto

lemma discover_emits: "emits (\<lambda>e. \<exists>base ans. e = EvAdmin base GetNodeInfoSelf ans) (discover_loop E token pods peers)"
  by (induction E token pods peers rule: discover_loop.induct) (auto intro!: emits_rules status_emits)

lemma wp_discoverPeers:
  assumes "justified (mesh_event_ok E cluster) t"
    and "\<And>r w' d. justified (mesh_event_ok E cluster) (t @ d) \<Longrightarrow> Q r (w', t @ d)"
  shows "wp (discoverPeers E cluster token) Q (w, t)"
  unfolding discoverPeers_def klist_def
proof (intro wp_bind wp_call, goal_cases)
  case (1 r w')
  let ?t = "t @ [EvList Uncached KPod \<lparr>lo_namespace = Some (ga_namespace E), lo_match = commonLabelList cluster, lo_has = []\<rparr>
      (map_sum id (map OPod) r)]"
  have j: "justified (mesh_event_ok E cluster) ?t" using assms(1) by (simp add: mesh_event_ok_def)
  show ?case
  proof (intro wp_case_sum wp_return wp_bind, goal_cases)
    case (1 e)
    show ?case using assms(2) [of "[_]"] j by simp
  next
    case (2 pods)
    show ?case
      by (rule justified_emits [OF discover_emits j])
        (use assms(2) in \<open>auto simp: mesh_event_ok_def intro!: wp_return\<close>)
  qed
qed

lemma err_of_None: "err_of (interp rq no_body () ans) = None \<Longrightarrow> ok_answer ans"
  by (simp add: err_of_interp)

lemma layout_read_cons [simp]:
  "layout_read E (e # u) l \<longleftrightarrow> layout_read E u l \<or> (\<exists>b a. e = EvAdmin b GetClusterLayout a
     \<and> interp GetClusterLayout (ga_dec_layout E) zero_layout a = Inr l)"
  by (auto simp: layout_read_def)

lemma layout_read_app [simp]: "layout_read E (u @ v) l \<longleftrightarrow> layout_read E u l \<or> layout_read E v l"
  by (auto simp: layout_read_def)

lemma peers_connected_cons [simp]:
  "peers_connected (e # u) ps \<longleftrightarrow> peers_connected u ps
     \<or> (\<exists>b a. e = EvAdmin b (ConnectClusterNodes (map peerSpec ps)) a \<and> ok_answer a)"
  by (auto simp: peers_connected_def)

lemma peers_connected_app [simp]: "peers_connected (u @ v) ps \<longleftrightarrow> peers_connected u ps \<or> peers_connected v ps"
  by (auto simp: peers_connected_def)

lemma layout_staged_cons [simp]:
  "layout_staged (e # u) \<longleftrightarrow> layout_staged u \<or> (\<exists>b a chs. e = EvAdmin b (UpdateClusterLayout chs) a \<and> ok_answer a)"
  by (auto simp: layout_staged_def)

lemma layout_staged_app [simp]: "layout_staged (u @ v) \<longleftrightarrow> layout_staged u \<or> layout_staged v"
  unfolding layout_staged_def by (simp add: ex_disj_distrib conj_disj_distribR)

lemma changes_computedI:
  "layout_read E u l \<Longrightarrow> peers_connected u ps \<Longrightarrow>
     changes_computed E cluster u (map staged (layoutRoleChanges l ps (desiredReplicas cluster) (storageSize (ga_pq E) cluster)))"
  by (auto simp: changes_computed_def)

lemma version_computedI: "layout_read E u l \<Longrightarrow> version_computed E u (cl_version l + 1)"
  by (auto simp: version_computed_def)

definition healthy_answer :: "('w, 'x) garage_env_scheme \<Rightarrow> (int \<times> string) result \<Rightarrow> bool" where
  "healthy_answer E ans \<longleftrightarrow>
     (\<exists>h. interp GetClusterHealth (ga_dec_health E) zero_health ans = Inr h \<and> h_status h = ''healthy'')"

definition ends_healthy :: "('w, 'x) garage_env_scheme \<Rightarrow> object_store \<Rightarrow> event list \<Rightarrow> bool" where
  "ends_healthy E cluster t \<longleftrightarrow> t \<noteq> []
     \<and> (\<exists>ans. last t = EvAdmin (admin_base E cluster) GetClusterHealth ans \<and> healthy_answer E ans)"

lemma ends_healthy_append: "ends_healthy E cluster d \<Longrightarrow> ends_healthy E cluster (t @ d)"
  by (auto simp: ends_healthy_def)

lemma wp_healthGate:
  assumes "\<And>m ans w'. (mr_ready m \<longrightarrow> healthy_answer E ans) \<Longrightarrow>
      Q (Inr m) (w', t @ [EvAdmin (ac_base svc) GetClusterHealth ans])"
  shows "wp (healthGate E svc layout) Q (w, t)"
  unfolding healthGate_def admin_health_def
proof (intro wp_bind wp_admin_do wp_return, goal_cases)
  case (1 r ans w')
  then show ?case
    by (cases r) (auto intro!: assms simp: mesh_wait_def healthy_answer_def garageStatusHealthy_def)
qed

lemma mesh_pass:
  "wp (ensureMeshAndLayout E cluster)
     (\<lambda>r s'. justified (mesh_event_ok E cluster) (snd s')
        \<and> (case r of Inl e \<Rightarrow> True
           | Inr m \<Rightarrow> if mr_ready m
               then ends_healthy E cluster (snd s')
               else True)) (w, [])"
  unfolding ensureMeshAndLayout_def adminToken_def kget_def admin_connect_def admin_layout_def
    admin_stageLayout_def admin_applyLayout_def
  by (intro wp_rules wp_discoverPeers [where cluster = cluster] wp_healthGate)
    (auto simp: mesh_event_ok_def mesh_wait_def newAdminClient_def ends_healthy_def
      dest!: err_of_None intro!: changes_computedI intro: version_computedI)

lemma framed_discover_loop: "framed (discover_loop E token pods peers)"
proof (induction pods arbitrary: peers)
  case Nil
  show ?case by (simp add: framed_return)
next
  case (Cons p ps)
  show ?case
    unfolding discover_loop.simps admin_status_def admin_do_def by (intro framed_rules Cons.IH)
qed

lemma framed_mesh [framed_rules]: "framed (ensureMeshAndLayout E cluster)"
  unfolding ensureMeshAndLayout_def adminToken_def kget_def admin_op_defs admin_do_def discoverPeers_def klist_def
    healthGate_def
  by (intro framed_rules framed_discover_loop)

text \<open>C28: A mesh pass changes the layout only by the computed changes, on connected peers, and applies them
  under the next version; it reports ready only if Garage just answered that it is healthy.\<close>

theorem mesh_pass_sound:
  "wp (ensureMeshAndLayout E cluster)
     (\<lambda>r s'. justified (mesh_event_ok E cluster) (snd s')
        \<and> (case r of Inl e \<Rightarrow> True
           | Inr m \<Rightarrow> if mr_ready m
               then ends_healthy E cluster (snd s')
               else True)) (w, [])"
  by (rule mesh_pass)

end
