(* ===== verification/Garage_Pool.thy ===== *)
theory Garage_Pool
  imports Garage_Placement Garage_Layout
begin

text \<open>
  The storage of the System profile: the pool of node-sticky volumes and its garbage collection
  (\<open>backend/garage/local_pv.go\<close>), the placement pass (\<open>rebalance.go\<close>)
  and the teardown for a recreate (\<open>recreate.go\<close>).
  \<open>controllerutil.SetControllerReference\<close> is the parameter \<open>ga_own\<close>.
\<close>

section \<open>The pool of local volumes\<close>

definition hostname_of :: "node \<Rightarrow> string" where
  "hostname_of n = (let h = map_str (m_labels (node_meta n)) hostnameTopologyKey in
     if h = [] then m_name (node_meta n) else h)"

definition controlPlaneHostnames :: "('w, 'x) garage_env_scheme \<Rightarrow> ('w, string list result) go" where
  "controlPlaneHostnames E =
     do { r \<leftarrow> klist Uncached KNode ONode (k_nodes (ga_kube E))
                 \<lparr>lo_namespace = None, lo_match = [], lo_has = [controlPlaneNodeLabel]\<rparr>;
          return (case r of Inl e \<Rightarrow> Inl e | Inr ns \<Rightarrow> Inr (map hostname_of ns)) }"

definition desiredSystemLocalPVs ::
  "quantities \<Rightarrow> object_store \<Rightarrow> string list \<Rightarrow> int \<Rightarrow> persistent_volume list" where
  "desiredSystemLocalPVs pq c hostnames incarnation =
     concat (map (\<lambda>h. map (buildSystemLocalPV pq c h incarnation) [0..systemReplicas c - 1]) hostnames)"

abbreviation pv_name :: "persistent_volume \<Rightarrow> string" where
  "pv_name pv \<equiv> m_name (pv_meta pv)"

definition pv_stale :: "string list \<Rightarrow> string list \<Rightarrow> persistent_volume \<Rightarrow> bool" where
  "pv_stale hostnames wanted pv \<longleftrightarrow>
     (let onLiveNode = (map_str (m_labels (pv_meta pv)) labelSystemLocalNode \<in> set hostnames);
          inPool = (pv_name pv \<in> set wanted)
      in pv_phase pv = VolumeReleased \<or> (pv_phase pv = VolumeAvailable \<and> (\<not> onLiveNode \<or> \<not> inPool)))"

primrec gcSystemLocalPVs ::
  "('w, 'x) garage_env_scheme \<Rightarrow> string list \<Rightarrow> string list \<Rightarrow> persistent_volume list \<Rightarrow> ('w, go_error option) go" where
  "gcSystemLocalPVs E hostnames wanted [] = return None"
| "gcSystemLocalPVs E hostnames wanted (pv # pvs) =
     (if \<not> pv_stale hostnames wanted pv then gcSystemLocalPVs E hostnames wanted pvs
      else do { r \<leftarrow> kdelete KPv (k_pvs (ga_kube E)) ([], pv_name pv);
                case r of
                  None \<Rightarrow> gcSystemLocalPVs E hostnames wanted pvs
                | Some err \<Rightarrow> if \<not> is_not_found err then return (Some err)
                    else gcSystemLocalPVs E hostnames wanted pvs })"

primrec create_missing ::
  "('w, 'x) garage_env_scheme \<Rightarrow> object_store \<Rightarrow> string list \<Rightarrow> persistent_volume list \<Rightarrow> ('w, go_error option) go" where
  "create_missing E c have_names [] = return None"
| "create_missing E c have_names (pv # pvs) =
     (if pv_name pv \<in> set have_names then create_missing E c have_names pvs
      else (case ga_own E (os_meta c) (pv_meta pv) of
              Inl err \<Rightarrow> return (Some err)
            | Inr m \<Rightarrow>
                do { r \<leftarrow> kcreate KPv OPv (k_pvs (ga_kube E)) (pv\<lparr>pv_meta := m\<rparr>);
                     case r of
                       None \<Rightarrow> create_missing E c have_names pvs
                     | Some err \<Rightarrow> if \<not> is_already_exists err then return (Some err)
                         else create_missing E c have_names pvs }))"

definition pool_opts :: "object_store \<Rightarrow> list_opts" where
  "pool_opts c = \<lparr>lo_namespace = None, lo_match = [(objectStoreLabel, os_name c)], lo_has = [labelSystemLocalNode]\<rparr>"

definition ensureSystemLocalPVs ::
  "('w, 'x) garage_env_scheme \<Rightarrow> object_store \<Rightarrow> int \<Rightarrow> ('w, go_error option) go" where
  "ensureSystemLocalPVs E c incarnation =
     do { hr \<leftarrow> controlPlaneHostnames E;
          case hr of
            Inl err \<Rightarrow> return (Some err)
          | Inr hostnames \<Rightarrow>
              do { er \<leftarrow> klist Uncached KPv OPv (k_pvs (ga_kube E)) (pool_opts c);
                   case er of
                     Inl err \<Rightarrow> return (Some err)
                   | Inr existing \<Rightarrow>
                       (let desired = desiredSystemLocalPVs (ga_pq E) c hostnames incarnation in
                        do { cr \<leftarrow> create_missing E c (map pv_name existing) desired;
                             case cr of
                               Some err \<Rightarrow> return (Some err)
                             | None \<Rightarrow> gcSystemLocalPVs E hostnames (map pv_name desired) existing }) } }"

section \<open>The placement pass\<close>

definition dataClaimName :: "object_store \<Rightarrow> int \<Rightarrow> string" where
  "dataClaimName c ord = ''data-'' @ resourceName c @ ''-'' @ itoa ord"

fun replica_nodes_loop ::
  "('w, 'x) garage_env_scheme \<Rightarrow> object_store \<Rightarrow> int list \<Rightarrow> placements \<Rightarrow> ('w, placements result) go" where
  "replica_nodes_loop E c [] acc = return (Inr acc)"
| "replica_nodes_loop E c (ord # ords) acc =
     do { pr \<leftarrow> kget Uncached KPvc OPvc (k_pvcs (ga_kube E)) (ga_namespace E, dataClaimName c ord);
          case pr of
            Inl err \<Rightarrow> if is_not_found err then replica_nodes_loop E c ords (acc @ [(ord, [])]) else return (Inl err)
          | Inr claim \<Rightarrow>
              if pvc_volume_name claim = [] then replica_nodes_loop E c ords (acc @ [(ord, [])])
              else do { vr \<leftarrow> kget Uncached KPv OPv (k_pvs (ga_kube E)) ([], pvc_volume_name claim);
                        case vr of
                          Inl err \<Rightarrow> if is_not_found err then replica_nodes_loop E c ords (acc @ [(ord, [])])
                                     else return (Inl err)
                        | Inr pv \<Rightarrow> replica_nodes_loop E c ords
                                      (acc @ [(ord, map_str (m_labels (pv_meta pv)) labelSystemLocalNode)]) } }"

definition systemReplicaNodes :: "('w, 'x) garage_env_scheme \<Rightarrow> object_store \<Rightarrow> ('w, placements result) go" where
  "systemReplicaNodes E c = replica_nodes_loop E c [0..systemReplicas c - 1] []"

definition recycleReplica :: "('w, 'x) garage_env_scheme \<Rightarrow> object_store \<Rightarrow> int \<Rightarrow> ('w, go_error option) go" where
  "recycleReplica E c ord =
     (let name = resourceName c @ ''-'' @ itoa ord; pvcName = ''data-'' @ name in
      do { r \<leftarrow> kdelete KPvc (k_pvcs (ga_kube E)) (ga_namespace E, pvcName);
           case (case r of None \<Rightarrow> None | Some err \<Rightarrow> if is_not_found err then None else Some err) of
             Some err \<Rightarrow> return (Some (wrap_err (''delete pvc '' @ pvcName @ '': '') err))
           | None \<Rightarrow>
               do { r2 \<leftarrow> kdelete KPod (k_pods (ga_kube E)) (ga_namespace E, name);
                    return (case r2 of None \<Rightarrow> None
                      | Some err \<Rightarrow> if is_not_found err then None
                          else Some (wrap_err (''delete pod '' @ name @ '': '') err)) } })"

definition garageHealthy :: "('w, 'x) garage_env_scheme \<Rightarrow> object_store \<Rightarrow> ('w, bool) go" where
  "garageHealthy E c =
     do { tk \<leftarrow> adminToken E c;
          case tk of
            Inl _ \<Rightarrow> return False
          | Inr token \<Rightarrow>
              if token = [] then return False
              else do { h \<leftarrow> admin_health E (newAdminClient (adminEndpoint c (ga_namespace E) (ga_cluster_domain E)) token);
                        return (case h of Inl _ \<Rightarrow> False | Inr hr \<Rightarrow> h_status hr = garageStatusHealthy) } }"

definition reconcileSystemPlacement ::
  "('w, 'x) garage_env_scheme \<Rightarrow> object_store \<Rightarrow> ('w, (bool \<times> string) result) go" where
  "reconcileSystemPlacement E c =
     (if systemSingleReplica c then return (Inr (False, []))
      else do { hr \<leftarrow> controlPlaneHostnames E;
        case hr of
          Inl err \<Rightarrow> return (Inl (wrap_err ''list control-plane nodes: '' err))
        | Inr cpNodes \<Rightarrow>
          do { nr \<leftarrow> systemReplicaNodes E c;
            case nr of
              Inl err \<Rightarrow> return (Inl (wrap_err ''read replica PV placement: '' err))
            | Inr replicaNode \<Rightarrow>
              (let replicas = systemReplicas c in
               do { healthy \<leftarrow> (if to_int32 (int (length cpNodes)) \<ge> replicas then garageHealthy E c else return False);
                    let action = nextPlacementAction cpNodes replicaNode replicas healthy in
                    if \<not> pa_act action then return (Inr (False, []))
                    else do { r \<leftarrow> recycleReplica E c (pa_ordinal action);
                              return (case r of
                                  Some err \<Rightarrow> Inl (wrap_err (''recycle replica '' @ itoa (pa_ordinal action) @ '' ('' @ pa_reason action @ ''): '') err)
                                | None \<Rightarrow> Inr (True, ''rebalancing System placement: recycling '' @ resourceName c @ ''-''
                                    @ itoa (pa_ordinal action) @ '' ('' @ pa_reason action @ '')'')) } }) } })"

section \<open>Teardown for a recreate\<close>

definition deleteIfNotDeleting ::
  "kind \<Rightarrow> ('o, 'w) resource \<Rightarrow> object_meta \<Rightarrow> ('w, go_error option) go" where
  "deleteIfNotDeleting k res m =
     (if m_deleting m then return None
      else do { r \<leftarrow> kdelete k res (m_namespace m, m_name m);
                return (case r of None \<Rightarrow> None | Some err \<Rightarrow> if is_not_found err then None else Some err) })"

primrec delete_all ::
  "kind \<Rightarrow> ('o, 'w) resource \<Rightarrow> string \<Rightarrow> object_meta list \<Rightarrow> ('w, go_error option) go" where
  "delete_all k res what [] = return None"
| "delete_all k res what (m # ms) =
     do { r \<leftarrow> deleteIfNotDeleting k res m;
          case r of
            Some err \<Rightarrow> return (Some (wrap_err (what @ m_name m @ '': '') err))
          | None \<Rightarrow> delete_all k res what ms }"

definition teardownSystemDataPlane ::
  "('w, 'x) garage_env_scheme \<Rightarrow> object_store \<Rightarrow> ('w, (bool \<times> string) result) go" where
  "teardownSystemDataPlane E c =
     (let K = ga_kube E in
      do { sr \<leftarrow> kget Cached KStatefulSet OStatefulSet (k_stateful_sets K) (ga_namespace E, resourceName c);
           r1 \<leftarrow> (case sr of
               Inr sts \<Rightarrow>
                 do { e \<leftarrow> deleteIfNotDeleting KStatefulSet (k_stateful_sets K) (ss_meta sts);
                      return (case e of Some err \<Rightarrow> Inl (wrap_err ''delete statefulset: '' err) | None \<Rightarrow> Inr (1 :: int)) }
             | Inl err \<Rightarrow> return (if is_not_found err then Inr 0 else Inl (wrap_err ''get statefulset: '' err)));
           case r1 of
             Inl err \<Rightarrow> return (Inl err)
           | Inr n1 \<Rightarrow>
             do { lr \<leftarrow> klist Uncached KPvc OPvc (k_pvcs K)
                    \<lparr>lo_namespace = Some (ga_namespace E), lo_match = commonLabelList c, lo_has = []\<rparr>;
               case lr of
                 Inl err \<Rightarrow> return (Inl (wrap_err ''list replica pvcs: '' err))
               | Inr pvcs \<Rightarrow>
                 do { e2 \<leftarrow> delete_all KPvc (k_pvcs K) ''delete pvc '' (map pvc_meta pvcs);
                   case e2 of
                     Some err \<Rightarrow> return (Inl err)
                   | None \<Rightarrow>
                     do { ir \<leftarrow> kget Cached KSecret OSecret (k_secrets K) (ga_namespace E, nodeIdentitySecretName c);
                       r3 \<leftarrow> (case ir of
                           Inr sec \<Rightarrow>
                             do { e \<leftarrow> deleteIfNotDeleting KSecret (k_secrets K) (sec_meta sec);
                                  return (case e of Some err \<Rightarrow> Inl (wrap_err ''delete node identity secret: '' err)
                                    | None \<Rightarrow> Inr (1 :: int)) }
                         | Inl err \<Rightarrow> return (if is_not_found err then Inr 0 else Inl (wrap_err ''get node identity secret: '' err)));
                       case r3 of
                         Inl err \<Rightarrow> return (Inl err)
                       | Inr n3 \<Rightarrow>
                         do { vr \<leftarrow> klist Uncached KPv OPv (k_pvs K) (pool_opts c);
                           case vr of
                             Inl err \<Rightarrow> return (Inl (wrap_err ''list pool pvs: '' err))
                           | Inr pvs \<Rightarrow>
                             do { e4 \<leftarrow> delete_all KPv (k_pvs K) ''delete pool pv '' (map pv_meta pvs);
                               case e4 of
                                 Some err \<Rightarrow> return (Inl err)
                               | None \<Rightarrow>
                                 (let remaining = n1 + int (length pvcs) + n3 + int (length pvs) in
                                  return (Inr (if remaining > 0
                                    then (False, ''recreating the System store for a replica-count switch: waiting for ''
                                      @ itoa remaining @ '' object(s) of the previous data plane to be removed'')
                                    else (True, [])))) } } } } } })"

section \<open>What the loops do\<close>

lemma gc_emits:
  "set pvs \<subseteq> S \<Longrightarrow> emits (\<lambda>e. \<exists>pv \<in> S. pv_stale hosts wanted pv \<and> (\<exists>r. e = EvDelete KPv ([], pv_name pv) r))
     (gcSystemLocalPVs E hosts wanted pvs)"
  by (induction pvs) (auto intro!: emits_rules simp: kdelete_def)

lemma create_emits:
  "set pvs \<subseteq> S \<Longrightarrow> emits (\<lambda>e. \<exists>pv \<in> S. pv_name pv \<notin> set hv \<and> (\<exists>m r. ga_own E (os_meta c) (pv_meta pv) = Inr m
       \<and> e = EvCreate KPv (OPv (pv\<lparr>pv_meta := m\<rparr>)) r))
     (create_missing E c hv pvs)"
  by (induction pvs) (auto intro!: emits_rules simp: kcreate_def, blast)

text \<open>The volumes that a pass read.\<close>

definition pool_read :: "object_store \<Rightarrow> event list \<Rightarrow> persistent_volume \<Rightarrow> bool" where
  "pool_read c u pv \<longleftrightarrow> (\<exists>objs. EvList Uncached KPv (pool_opts c) (Inr objs) \<in> set u \<and> OPv pv \<in> set objs)"

definition hosts_read :: "event list \<Rightarrow> string list \<Rightarrow> bool" where
  "hosts_read u hosts \<longleftrightarrow>
     (\<exists>ns. EvList Uncached KNode \<lparr>lo_namespace = None, lo_match = [], lo_has = [controlPlaneNodeLabel]\<rparr> (Inr (map ONode ns)) \<in> set u
       \<and> hosts = map hostname_of ns)"

lemma map_obj_eq [simp]: "map ONode xs = map ONode ys \<longleftrightarrow> xs = ys" "map OPv vs = map OPv us \<longleftrightarrow> vs = us"
  by (simp_all add: inj_map_eq_map inj_def)

lemma pool_read_mono: "pool_read c t pv \<Longrightarrow> set t \<subseteq> set u \<Longrightarrow> pool_read c u pv"
  unfolding pool_read_def by blast

lemma hosts_read_mono: "hosts_read t h \<Longrightarrow> set t \<subseteq> set u \<Longrightarrow> hosts_read u h"
  unfolding hosts_read_def by blast

definition gc_justified ::
  "('w, 'x) garage_env_scheme \<Rightarrow> object_store \<Rightarrow> int \<Rightarrow> event list \<Rightarrow> string \<Rightarrow> bool" where
  "gc_justified E c inc u n \<longleftrightarrow> (\<exists>pv hosts. pool_read c u pv \<and> hosts_read u hosts \<and> pv_name pv = n
     \<and> (pv_phase pv = VolumeReleased \<or> pv_phase pv = VolumeAvailable
          \<and> (map_str (m_labels (pv_meta pv)) labelSystemLocalNode \<notin> set hosts
              \<or> n \<notin> pv_name ` set (desiredSystemLocalPVs (ga_pq E) c hosts inc))))"

definition create_justified ::
  "('w, 'x) garage_env_scheme \<Rightarrow> object_store \<Rightarrow> int \<Rightarrow> event list \<Rightarrow> persistent_volume \<Rightarrow> bool" where
  "create_justified E c inc u pv \<longleftrightarrow> (\<exists>hosts pv0 m. hosts_read u hosts
     \<and> pv0 \<in> set (desiredSystemLocalPVs (ga_pq E) c hosts inc)
     \<and> ga_own E (os_meta c) (pv_meta pv0) = Inr m \<and> pv = pv0\<lparr>pv_meta := m\<rparr>)"

definition pool_event_ok ::
  "('w, 'x) garage_env_scheme \<Rightarrow> object_store \<Rightarrow> int \<Rightarrow> event list \<Rightarrow> event \<Rightarrow> bool" where
  "pool_event_ok E c inc u e = (case e of
      EvList rd k lo r \<Rightarrow> rd = Uncached
    | EvCreate k (OPv pv) r \<Rightarrow> create_justified E c inc u pv
    | EvDelete k ky r \<Rightarrow> k = KPv \<and> gc_justified E c inc u (snd ky)
    | _ \<Rightarrow> False)"

lemma wp_hostnames [wp_rules]:
  assumes "\<And>r ans w'. (\<forall>hosts. r = Inr hosts \<longrightarrow> (\<exists>ns. ans = Inr (map ONode ns) \<and> hosts = map hostname_of ns)) \<Longrightarrow>
     Q r (w', t @ [EvList Uncached KNode \<lparr>lo_namespace = None, lo_match = [], lo_has = [controlPlaneNodeLabel]\<rparr> ans])"
  shows "wp (controlPlaneHostnames E) Q (w, t)"
  unfolding controlPlaneHostnames_def klist_def
  by (intro wp_bind wp_call wp_return) (rule assms, auto split: sum.splits)

lemma wp_create_missing:
  assumes "justified (pool_event_ok E c inc) t" and "hosts_read t hosts"
    and "\<And>r w' d. justified (pool_event_ok E c inc) (t @ d) \<Longrightarrow> Q r (w', t @ d)"
  shows "wp (create_missing E c hv (desiredSystemLocalPVs (ga_pq E) c hosts inc)) Q (w, t)"
proof (rule justified_emits [OF create_emits [OF subset_refl] assms(1)])
  fix u e
  assume u: "set t \<subseteq> set u" and e: "\<exists>pv \<in> set (desiredSystemLocalPVs (ga_pq E) c hosts inc). pv_name pv \<notin> set hv
       \<and> (\<exists>m r. ga_own E (os_meta c) (pv_meta pv) = Inr m \<and> e = EvCreate KPv (OPv (pv\<lparr>pv_meta := m\<rparr>)) r)"
  from hosts_read_mono [OF assms(2) u] e show "pool_event_ok E c inc u e"
    unfolding pool_event_ok_def create_justified_def by fastforce
qed (rule assms(3))

lemma wp_gc:
  assumes "justified (pool_event_ok E c inc) t" and "hosts_read t hosts" and "\<And>pv. pv \<in> set pvs \<Longrightarrow> pool_read c t pv"
    and "\<And>r w' d. justified (pool_event_ok E c inc) (t @ d) \<Longrightarrow> Q r (w', t @ d)"
  shows "wp (gcSystemLocalPVs E hosts (map pv_name (desiredSystemLocalPVs (ga_pq E) c hosts inc)) pvs) Q (w, t)"
proof (rule justified_emits [OF gc_emits [OF subset_refl] assms(1)])
  fix u e
  assume u: "set t \<subseteq> set u" and "\<exists>pv \<in> set pvs. pv_stale hosts (map pv_name (desiredSystemLocalPVs (ga_pq E) c hosts inc)) pv
      \<and> (\<exists>r. e = EvDelete KPv ([], pv_name pv) r)"
  then obtain pv r where pv: "pv \<in> set pvs" "pv_stale hosts (map pv_name (desiredSystemLocalPVs (ga_pq E) c hosts inc)) pv" "e = EvDelete KPv ([], pv_name pv) r" by blast
  have "gc_justified E c inc u (pv_name pv)"
    using pool_read_mono [OF assms(3) [OF pv(1)] u] hosts_read_mono [OF assms(2) u] pv(2)
    unfolding gc_justified_def pv_stale_def Let_def set_map by blast
  then show "pool_event_ok E c inc u e" by (simp add: pool_event_ok_def pv(3))
qed (rule assms(4))

section \<open>Properties\<close>

text \<open>The pool reconcile is safe for data: it deletes only volumes of this store that the same pass
  listed as Released, or as Available off the listed control-plane nodes or out of the wanted pool, so never one
  bound to a claim; and it creates only volumes of the current
  incarnation pinned to a control-plane node that the pass read, with the Retain policy.\<close>

theorem pool_reconcile_safe:
  "wp (ensureSystemLocalPVs E c inc) (\<lambda>r s'. justified (pool_event_ok E c inc) (snd s')) (w, [])"
  unfolding ensureSystemLocalPVs_def klist_def Let_def
  by (intro wp_rules wp_create_missing wp_gc)
    (auto simp: pool_event_ok_def hosts_read_def pool_read_def)

lemma desired_retain:
  "pv \<in> set (desiredSystemLocalPVs pq c hosts inc) \<Longrightarrow> pv_reclaim pv = ''Retain''
     \<and> (\<exists>h \<in> set hosts. pv_affinity pv = (hostnameTopologyKey, ''In'', [h]))"
  by (auto simp: desiredSystemLocalPVs_def buildSystemLocalPV_def)

text \<open>What the placement pass reads and does.\<close>

definition replica_read ::
  "('w, 'x) garage_env_scheme \<Rightarrow> object_store \<Rightarrow> event list \<Rightarrow> int \<Rightarrow> string \<Rightarrow> bool" where
  "replica_read E c u i n \<longleftrightarrow> (\<exists>claim pv.
      EvGet Uncached KPvc (ga_namespace E, dataClaimName c i) (Inr (OPvc claim)) \<in> set u
    \<and> EvGet Uncached KPv ([], pvc_volume_name claim) (Inr (OPv pv)) \<in> set u
    \<and> map_str (m_labels (pv_meta pv)) labelSystemLocalNode = n)"

definition is_read :: "event \<Rightarrow> bool" where
  "is_read e \<longleftrightarrow> (case e of EvGet _ _ _ _ \<Rightarrow> True | EvList _ _ _ _ \<Rightarrow> True
     | EvAdmin _ rq _ \<Rightarrow> rq = GetClusterHealth | _ \<Rightarrow> False)"

lemma replica_read_mono: "replica_read E c t i n \<Longrightarrow> set t \<subseteq> set u \<Longrightarrow> replica_read E c u i n"
  unfolding replica_read_def by blast

lemma replica_readI:
  "EvGet Uncached KPvc (ga_namespace E, dataClaimName c i) (Inr (OPvc claim)) \<in> set u \<Longrightarrow>
    EvGet Uncached KPv ([], pvc_volume_name claim) (Inr (OPv pv)) \<in> set u \<Longrightarrow>
    replica_read E c u i (map_str (m_labels (pv_meta pv)) labelSystemLocalNode)"
  unfolding replica_read_def by blast

lemma wp_replica_nodes:
  assumes "\<And>i n. (i, n) \<in> set acc \<Longrightarrow> n \<noteq> [] \<Longrightarrow> replica_read E c t i n"
    and "\<And>r w' d. list_all is_read d \<Longrightarrow>
      (\<forall>rn. r = Inr rn \<longrightarrow> map fst rn = map fst acc @ ords
         \<and> (\<forall>i n. (i, n) \<in> set rn \<longrightarrow> n \<noteq> [] \<longrightarrow> replica_read E c (t @ d) i n)) \<Longrightarrow> Q r (w', t @ d)"
  shows "wp (replica_nodes_loop E c ords acc) Q (w, t)"
  using assms
proof (induction ords arbitrary: acc t w)
  case Nil
  show ?case using Nil(2) [of "[]" "Inr acc"] Nil(1) by (auto intro!: wp_return)
next
  case (Cons ord ords)
  have skip: "wp (replica_nodes_loop E c ords (acc @ [(ord, n)])) Q (v, t @ d0)"
    if "list_all is_read d0" and "n \<noteq> [] \<Longrightarrow> replica_read E c (t @ d0) ord n" for d0 n v
  proof (rule Cons.IH)
    show "replica_read E c (t @ d0) i m" if "(i, m) \<in> set (acc @ [(ord, n)])" "m \<noteq> []" for i m
      using \<open>n \<noteq> [] \<Longrightarrow> _\<close> Cons.prems(1) replica_read_mono [of E c t i m "t @ d0"] that by auto
    show "Q r (w', (t @ d0) @ d)" if "list_all is_read d" "\<forall>rn. r = Inr rn \<longrightarrow> map fst rn = map fst (acc @ [(ord, n)]) @ ords
         \<and> (\<forall>i n. (i, n) \<in> set rn \<longrightarrow> n \<noteq> [] \<longrightarrow> replica_read E c ((t @ d0) @ d) i n)" for r w' d
      using Cons.prems(2) [of "d0 @ d" r w'] \<open>list_all is_read d0\<close> that by auto
  qed
  have stop: "Q (Inl e) (v, t @ d0)" if "list_all is_read d0" for d0 e v
    using Cons.prems(2) [of d0 "Inl e" v] that by simp
  show ?case
    unfolding replica_nodes_loop.simps kget_def
    by (intro wp_bind wp_call wp_case_sum wp_if wp_return)
      (simp_all add: stop skip is_read_def, (force simp: is_read_def intro!: skip replica_readI)+)
qed

lemma wp_systemReplicaNodes:
  assumes "\<And>r w' d. list_all is_read d \<Longrightarrow>
      (\<forall>rn. r = Inr rn \<longrightarrow> placed (systemReplicas c) rn
         \<and> (\<forall>i n. (i, n) \<in> set rn \<longrightarrow> n \<noteq> [] \<longrightarrow> replica_read E c (t @ d) i n)) \<Longrightarrow> Q r (w', t @ d)"
  shows "wp (systemReplicaNodes E c) Q (w, t)"
  unfolding systemReplicaNodes_def
proof (rule wp_replica_nodes)
  show "Q r (w', t @ d)" if "list_all is_read d"
    "\<forall>rn. r = Inr rn \<longrightarrow> map fst rn = map fst [] @ [0..systemReplicas c - 1]
       \<and> (\<forall>i n. (i, n) \<in> set rn \<longrightarrow> n \<noteq> [] \<longrightarrow> replica_read E c (t @ d) i n)" for r w' d
    using that by (intro assms) (auto simp: placed_def)
qed simp

lemma wp_garageHealthy:
  assumes "\<And>b w' d. list_all is_read d \<Longrightarrow>
      (b \<longrightarrow> (\<exists>base ans. EvAdmin base GetClusterHealth ans \<in> set d \<and> healthy_answer E ans)) \<Longrightarrow> Q b (w', t @ d)"
  shows "wp (garageHealthy E c) Q (w, t)"
  unfolding garageHealthy_def adminToken_def kget_def admin_health_def
proof (intro wp_rules, goal_cases)
  case (1 r w' e)
  show ?case by (rule assms) (simp_all add: is_read_def)
next
  case (2 r w' token)
  show ?case by (rule assms) (simp_all add: is_read_def)
next
  case (3 r w' token ra ans v)
  let ?b = "case ra of Inl x \<Rightarrow> False | Inr hr \<Rightarrow> h_status hr = garageStatusHealthy"
  show ?case
    using assms [of "[_, _]" ?b v] 3 by (auto simp: is_read_def healthy_answer_def garageStatusHealthy_def split: sum.splits)
qed

text \<open>A relocation is justified when the pass read the masters and where each bound replica's volume is, saw
  a healthy Garage if it spreads, and the decision on that reading is to move this replica.\<close>

definition healthy_seen :: "('w, 'x) garage_env_scheme \<Rightarrow> event list \<Rightarrow> bool" where
  "healthy_seen E u \<longleftrightarrow> (\<exists>base ans. EvAdmin base GetClusterHealth ans \<in> set u \<and> healthy_answer E ans)"

definition relocation_due ::
  "('w, 'x) garage_env_scheme \<Rightarrow> object_store \<Rightarrow> event list \<Rightarrow> int \<Rightarrow> bool" where
  "relocation_due E c u ord \<longleftrightarrow> (\<exists>cp rn healthy. hosts_read u cp \<and> placed (systemReplicas c) rn
     \<and> (\<forall>i n. (i, n) \<in> set rn \<longrightarrow> n \<noteq> [] \<longrightarrow> replica_read E c u i n)
     \<and> (healthy \<longrightarrow> healthy_seen E u)
     \<and> pa_act (nextPlacementAction cp rn (systemReplicas c) healthy)
     \<and> pa_ordinal (nextPlacementAction cp rn (systemReplicas c) healthy) = ord)"

definition placement_trace :: "('w, 'x) garage_env_scheme \<Rightarrow> object_store \<Rightarrow> event list \<Rightarrow> bool" where
  "placement_trace E c t \<longleftrightarrow> list_all is_read t \<or> (\<exists>u ord r. relocation_due E c u ord \<and> list_all is_read u
     \<and> (t = u @ [EvDelete KPvc (ga_namespace E, dataClaimName c ord) r]
      \<or> (\<exists>r'. t = u @ [EvDelete KPvc (ga_namespace E, dataClaimName c ord) r,
                     EvDelete KPod (ga_namespace E, resourceName c @ ''-'' @ itoa ord) r'])))"

lemma placement_traceI:
  "list_all is_read t \<Longrightarrow> placement_trace E c t"
  "relocation_due E c u ord \<Longrightarrow> list_all is_read u \<Longrightarrow>
     placement_trace E c (u @ [EvDelete KPvc (ga_namespace E, dataClaimName c ord) r])"
  "relocation_due E c u ord \<Longrightarrow> list_all is_read u \<Longrightarrow>
     placement_trace E c (u @ [EvDelete KPvc (ga_namespace E, dataClaimName c ord) r,
                     EvDelete KPod (ga_namespace E, resourceName c @ ''-'' @ itoa ord) r'])"
  unfolding placement_trace_def by blast+

lemma wp_recycle:
  assumes "relocation_due E c u ord" and "list_all is_read u"
    and "\<And>r w' t. placement_trace E c t \<Longrightarrow> Q r (w', t)"
  shows "wp (recycleReplica E c ord) Q (w, u)"
  unfolding recycleReplica_def kdelete_def Let_def
  using placement_traceI(2,3) [OF assms(1,2)]
  by (intro wp_rules) (auto simp: dataClaimName_def intro!: assms(3))

lemma relocation_dueI:
  "hosts_read u cp \<Longrightarrow> placed (systemReplicas c) rn \<Longrightarrow>
    (\<And>i n. (i, n) \<in> set rn \<Longrightarrow> n \<noteq> [] \<Longrightarrow> replica_read E c u i n) \<Longrightarrow> (healthy \<Longrightarrow> healthy_seen E u) \<Longrightarrow>
    pa_act (nextPlacementAction cp rn (systemReplicas c) healthy) \<Longrightarrow>
    relocation_due E c u (pa_ordinal (nextPlacementAction cp rn (systemReplicas c) healthy))"
  unfolding relocation_due_def by blast

lemma hosts_readI:
  "EvList Uncached KNode \<lparr>lo_namespace = None, lo_match = [], lo_has = [controlPlaneNodeLabel]\<rparr> (Inr (map ONode ns)) \<in> set u \<Longrightarrow>
    hosts_read u (map hostname_of ns)"
  unfolding hosts_read_def by blast

lemma healthy_seen_mono: "healthy_seen E t \<Longrightarrow> set t \<subseteq> set u \<Longrightarrow> healthy_seen E u"
  unfolding healthy_seen_def by blast

text \<open>The rest of the pass, once the masters and the placement have been read.\<close>

lemma wp_place:
  assumes "hosts_read t cp" and "placed (systemReplicas c) rn" and "list_all is_read t"
    and "\<And>i n. (i, n) \<in> set rn \<Longrightarrow> n \<noteq> [] \<Longrightarrow> replica_read E c t i n"
    and "\<And>r w' u. placement_trace E c u \<Longrightarrow> Q r (w', u)"
  shows "wp (do { healthy \<leftarrow> (if to_int32 (int (length cp)) \<ge> systemReplicas c then garageHealthy E c else return False);
       let action = nextPlacementAction cp rn (systemReplicas c) healthy in
       if \<not> pa_act action then return (Inr (False, []))
       else do { r \<leftarrow> recycleReplica E c (pa_ordinal action); return (f action r) } }) Q (w, t)"
proof -
  have rest: "wp (let action = nextPlacementAction cp rn (systemReplicas c) healthy in
       if \<not> pa_act action then return (Inr (False, []))
       else do { r \<leftarrow> recycleReplica E c (pa_ordinal action); return (f action r) }) Q (v, t @ d)"
    if d: "list_all is_read d" and h: "healthy \<Longrightarrow> healthy_seen E (t @ d)" for d healthy v
    unfolding Let_def
  proof (intro wp_if wp_bind wp_return)
    show "Q (Inr (False, [])) (v, t @ d)"
      by (intro assms(5) placement_traceI(1)) (simp add: assms(3) d)
    assume "\<not> \<not> pa_act (nextPlacementAction cp rn (systemReplicas c) healthy)"
    then have due: "relocation_due E c (t @ d) (pa_ordinal (nextPlacementAction cp rn (systemReplicas c) healthy))"
      using hosts_read_mono [OF assms(1)] replica_read_mono [OF assms(4)]
      by (intro relocation_dueI assms(2) h) auto
    show "wp (recycleReplica E c (pa_ordinal (nextPlacementAction cp rn (systemReplicas c) healthy)))
        (\<lambda>a. wp (return (f (nextPlacementAction cp rn (systemReplicas c) healthy) a)) Q) (v, t @ d)"
      by (rule wp_recycle [OF due]) (auto simp: assms(3) d intro!: wp_return assms(5))
  qed
  show ?thesis
  proof (intro wp_bind wp_if wp_garageHealthy wp_return)
    show "wp (let action = nextPlacementAction cp rn (systemReplicas c) b in
       if \<not> pa_act action then return (Inr (False, []))
       else do { r \<leftarrow> recycleReplica E c (pa_ordinal action); return (f action r) }) Q (w', t @ d)"
      if "list_all is_read d" "b \<longrightarrow> (\<exists>base ans. EvAdmin base GetClusterHealth ans \<in> set d \<and> healthy_answer E ans)" for b w' d
      using that by (intro rest) (auto simp: healthy_seen_def)
    show "wp (let action = nextPlacementAction cp rn (systemReplicas c) False in
       if \<not> pa_act action then return (Inr (False, []))
       else do { r \<leftarrow> recycleReplica E c (pa_ordinal action); return (f action r) }) Q (w, t)"
      using rest [of "[]" False w] by simp
  qed
qed

text \<open>C18: The placement pass relocates at most one replica and never on a guess: all it does is read, and then
  possibly delete one claim and the pod of the same replica, where the control-plane nodes and the node of every
  bound replica were read in this pass, the decision on that reading is to move exactly this replica, and a move to
  spread the replicas was preceded by a healthy answer of Garage. A single-replica store is never touched: the
  pass does nothing at all.\<close>

theorem placement_pass_safe:
  "wp (reconcileSystemPlacement E c)
     (\<lambda>r s'. if systemSingleReplica c then snd s' = [] else placement_trace E c (snd s')) (w, [])"
proof (cases "systemSingleReplica c")
  case True
  then show ?thesis by (simp add: reconcileSystemPlacement_def wp_return)
next
  case False
  show ?thesis
    unfolding reconcileSystemPlacement_def Let_def [of "systemReplicas c"] if_not_P [OF False]
  proof (rule wp_bind, rule wp_hostnames, rule wp_case_sum, goal_cases)
    case (2 r ans w' cp)
    then have hosts: "hosts_read ([EvList Uncached KNode \<lparr>lo_namespace = None, lo_match = [],
        lo_has = [controlPlaneNodeLabel]\<rparr> ans] @ d) cp" for d by (auto intro: hosts_readI)
    show ?case
    proof (rule wp_bind, rule wp_systemReplicaNodes, rule wp_case_sum, goal_cases)
      case (2 r w' d rn)
      then show ?case by (intro wp_place) (use hosts [of d] in \<open>auto simp: is_read_def\<close>)
    qed (auto intro!: wp_return placement_traceI(1) simp: is_read_def)
  qed (auto intro!: wp_return placement_traceI(1) simp: is_read_def False)
qed

section \<open>Teardown\<close>

text \<open>What the teardown may delete: an object of this store that the same pass read.\<close>

definition claim_opts :: "('w, 'x) garage_env_scheme \<Rightarrow> object_store \<Rightarrow> list_opts" where
  "claim_opts E c = \<lparr>lo_namespace = Some (ga_namespace E), lo_match = commonLabelList c, lo_has = []\<rparr>"

definition meta_key :: "object_meta \<Rightarrow> key" where
  "meta_key m = (m_namespace m, m_name m)"

definition seen :: "('w, 'x) garage_env_scheme \<Rightarrow> object_store \<Rightarrow> event list \<Rightarrow> kind \<Rightarrow> key \<Rightarrow> bool" where
  "seen E c u k ky \<longleftrightarrow>
     (\<exists>s. k = KStatefulSet \<and> EvGet Cached KStatefulSet (ga_namespace E, resourceName c) (Inr (OStatefulSet s)) \<in> set u
        \<and> ky = meta_key (ss_meta s))
   \<or> (\<exists>ps p. k = KPvc \<and> EvList Uncached KPvc (claim_opts E c) (Inr (map OPvc ps)) \<in> set u
        \<and> p \<in> set ps \<and> ky = meta_key (pvc_meta p))
   \<or> (\<exists>s. k = KSecret \<and> EvGet Cached KSecret (ga_namespace E, nodeIdentitySecretName c) (Inr (OSecret s)) \<in> set u
        \<and> ky = meta_key (sec_meta s))
   \<or> (\<exists>ps p. k = KPv \<and> EvList Uncached KPv (pool_opts c) (Inr (map OPv ps)) \<in> set u
        \<and> p \<in> set ps \<and> ky = meta_key (pv_meta p))"

lemma seenI:
  "EvGet Cached KStatefulSet (ga_namespace E, resourceName c) (Inr (OStatefulSet s)) \<in> set u \<Longrightarrow>
     seen E c u KStatefulSet (meta_key (ss_meta s))"
  "EvList Uncached KPvc (claim_opts E c) (Inr (map OPvc ps)) \<in> set u \<Longrightarrow> p \<in> set ps \<Longrightarrow>
     seen E c u KPvc (meta_key (pvc_meta p))"
  "EvGet Cached KSecret (ga_namespace E, nodeIdentitySecretName c) (Inr (OSecret s')) \<in> set u \<Longrightarrow>
     seen E c u KSecret (meta_key (sec_meta s'))"
  "EvList Uncached KPv (pool_opts c) (Inr (map OPv vs)) \<in> set u \<Longrightarrow> v \<in> set vs \<Longrightarrow>
     seen E c u KPv (meta_key (pv_meta v))"
  unfolding seen_def by blast+

lemma seen_mono: "seen E c t k ky \<Longrightarrow> set t \<subseteq> set u \<Longrightarrow> seen E c u k ky"
  unfolding seen_def by blast

definition teardown_event_ok :: "('w, 'x) garage_env_scheme \<Rightarrow> object_store \<Rightarrow> event list \<Rightarrow> event \<Rightarrow> bool" where
  "teardown_event_ok E c u e = (case e of
      EvGet rd k ky r \<Rightarrow> True
    | EvList rd k lo r \<Rightarrow> rd = Uncached
    | EvDelete k ky r \<Rightarrow> seen E c u k ky
    | _ \<Rightarrow> False)"

definition torn_down :: "('w, 'x) garage_env_scheme \<Rightarrow> object_store \<Rightarrow> event list \<Rightarrow> bool" where
  "torn_down E c t \<longleftrightarrow> (\<exists>e1 e2. is_not_found e1 \<and> is_not_found e2 \<and> t =
     [EvGet Cached KStatefulSet (ga_namespace E, resourceName c) (Inl e1),
      EvList Uncached KPvc (claim_opts E c) (Inr []),
      EvGet Cached KSecret (ga_namespace E, nodeIdentitySecretName c) (Inl e2),
      EvList Uncached KPv (pool_opts c) (Inr [])])"

lemma wp_delete_one:
  assumes "justified (teardown_event_ok E c) t" and "seen E c t k (meta_key m)"
    and "\<And>r w' d. justified (teardown_event_ok E c) (t @ d) \<Longrightarrow> Q r (w', t @ d)"
  shows "wp (deleteIfNotDeleting k res m) Q (w, t)"
  unfolding deleteIfNotDeleting_def kdelete_def
proof (intro wp_rules)
  show "Q None (w, t)" using assms(1) assms(3) [of "[]"] by simp
  have "justified (teardown_event_ok E c) (t @ [EvDelete k (m_namespace m, m_name m) r])" for r
    using assms(1,2) by (simp add: teardown_event_ok_def meta_key_def)
  then show "Q (case r of None \<Rightarrow> None | Some err \<Rightarrow> if is_not_found err then None else Some err)
      (w', t @ [EvDelete k (m_namespace m, m_name m) r])" for r w'
    by (rule assms(3))
qed

lemma wp_delete_all:
  assumes "justified (teardown_event_ok E c) t" and "\<And>m. m \<in> set ms \<Longrightarrow> seen E c t k (meta_key m)"
    and "\<And>r w' d. justified (teardown_event_ok E c) (t @ d) \<Longrightarrow> (ms = [] \<longrightarrow> r = None \<and> d = []) \<Longrightarrow> Q r (w', t @ d)"
  shows "wp (delete_all k res what ms) Q (w, t)"
  using assms
proof (induction ms arbitrary: t w)
  case Nil
  then show ?case using Nil(3) [of "[]" None w] by (simp add: wp_return)
next
  case (Cons m ms)
  have rec: "wp (delete_all k res what ms) Q (w', t @ d)" if "justified (teardown_event_ok E c) (t @ d)" for w' d
    using that Cons.prems(3) [of "d @ _"] by (intro Cons.IH) (auto intro: seen_mono [OF Cons.prems(2)])
  show ?case
    unfolding delete_all.simps
    by (intro wp_bind wp_delete_one [OF Cons.prems(1,2)] wp_case_option wp_return rec Cons.prems(3)) simp_all
qed

lemma remaining_pos: "(0::int) < int (length xs) + int (length ys) \<longleftrightarrow> xs \<noteq> [] \<or> ys \<noteq> []"
  by (cases xs; cases ys) simp_all

lemma teardown_pass:
  "wp (teardownSystemDataPlane E c) (\<lambda>r s'. justified (teardown_event_ok E c) (snd s')
     \<and> (\<forall>msg. r \<noteq> Inr (True, msg) \<or> torn_down E c (snd s'))) (w, [])"
  unfolding teardownSystemDataPlane_def Let_def kget_def klist_def claim_opts_def [symmetric]
  by (intro wp_bind wp_call wp_case_sum wp_case_option wp_return wp_delete_one [where E = E and c = c]
      wp_delete_all [where E = E and c = c])
    (auto simp: torn_down_def teardown_event_ok_def remaining_pos split: if_splits option.splits intro!: seenI)

lemma framed_delete_one [framed_rules]: "framed (deleteIfNotDeleting k res m)"
  unfolding deleteIfNotDeleting_def kdelete_def by (intro framed_rules)

lemma framed_delete_all [framed_rules]: "framed (delete_all k res what ms)"
  by (induction ms) (auto intro!: framed_rules)

lemma framed_teardown [framed_rules]: "framed (teardownSystemDataPlane E c)"
  unfolding teardownSystemDataPlane_def kget_def klist_def by (intro framed_rules)

text \<open>C17: The teardown reports that nothing is left only on evidence: when it answers done, everything the pass did
  was the four reads, all showing that nothing of the old data plane is there - no StatefulSet, no replica claim
  and no pool volume in uncached listings, no identity Secret - and it deleted nothing itself, since the deletion of
  anything it saw is asynchronous. Whatever it answers, it writes nothing, and it deletes only objects of these four
  kinds that it read in the same pass by the names and labels of this store.\<close>

theorem teardown_done_sound:
  "wp (teardownSystemDataPlane E c) (\<lambda>r s'. justified (teardown_event_ok E c) (snd s')
     \<and> (case r of Inl err \<Rightarrow> True | Inr (done, msg) \<Rightarrow> if done then torn_down E c (snd s') else True)) (w, [])"
  by (rule wp_mono [OF teardown_pass]) (auto split: sum.split)

end
