(* ===== verification/Garage_Identity.thy ===== *)
theory Garage_Identity
  imports Garage_Pool "HOL-Library.AList"
begin

text \<open>
  The persisted node identities of the System profile (\<open>backend/garage/identity.go\<close>, \<open>exec.go\<close>). The
  exec transport is the parameter \<open>ga_exec\<close> (its command is the container followed by the argument
  vector), \<open>base64.StdEncoding.DecodeString\<close> is \<open>ga_base64\<close>. Go maps that are iterated are association
  lists updated by key; the properties do not depend on their order.
\<close>

definition nodeKeyPath :: string where "nodeKeyPath = dataMountPath @ ''/meta/node_key''"
definition nodeKeyPubPath :: string where "nodeKeyPubPath = nodeKeyPath @ ''.pub''"
definition nodeKeyPrivBytes :: nat where "nodeKeyPrivBytes = 64"
definition nodeKeyPubBytes :: nat where "nodeKeyPubBytes = 32"

definition nodeIdentityDataKey :: "int \<Rightarrow> string" where
  "nodeIdentityDataKey ord = ''node-'' @ itoa ord"

definition podOrdinal :: "string \<Rightarrow> int option" where
  "podOrdinal name =
     (case after_last CHR ''-'' name of
        None \<Rightarrow> None
      | Some s \<Rightarrow> if s = [] then None
          else (case atoi s of None \<Rightarrow> None | Some n \<Rightarrow> if n < 0 then None else Some (to_int32 n)))"

definition running_step :: "(int \<times> string) list \<Rightarrow> pod \<Rightarrow> (int \<times> string) list" where
  "running_step out p =
     (if \<not> pod_running p then out
      else (case podOrdinal (m_name (pod_meta p)) of
              None \<Rightarrow> out | Some ord \<Rightarrow> AList.update ord (m_name (pod_meta p)) out))"

definition garage_pod_opts :: "('w, 'x) garage_env_scheme \<Rightarrow> object_store \<Rightarrow> list_opts" where
  "garage_pod_opts E c = \<lparr>lo_namespace = Some (ga_namespace E), lo_match = commonLabelList c, lo_has = []\<rparr>"

definition runningGaragePods ::
  "('w, 'x) garage_env_scheme \<Rightarrow> object_store \<Rightarrow> ('w, (int \<times> string) list result) go" where
  "runningGaragePods E c =
     do { r \<leftarrow> klist Uncached KPod OPod (k_pods (ga_kube E)) (garage_pod_opts E c);
          return (case r of Inl e \<Rightarrow> Inl e | Inr pods \<Rightarrow> Inr (foldl running_step [] pods)) }"

definition execInPod ::
  "('w, 'x) garage_env_scheme \<Rightarrow> string \<Rightarrow> string \<Rightarrow> string list \<Rightarrow> ('w, string result) go" where
  "execInPod E pod container cmd =
     (if \<not> ga_has_rest_config E then return (Inl (new_err ''no rest config configured for exec''))
      else call (EvExec pod (container # cmd)) (ga_exec E pod (container # cmd)))"

definition is_wrap :: "char \<Rightarrow> bool" where
  "is_wrap ch \<longleftrightarrow> (of_char ch :: nat) \<in> {9, 10, 13, 32}"

definition captureNodeKey ::
  "('w, 'x) garage_env_scheme \<Rightarrow> string \<Rightarrow> string \<Rightarrow> ('w, string result) go" where
  "captureNodeKey E pod path =
     do { r \<leftarrow> execInPod E pod ''garage'' [''base64'', path];
          return (case r of Inl e \<Rightarrow> Inl e | Inr out \<Rightarrow> ga_base64 E (filter (\<lambda>ch. \<not> is_wrap ch) out)) }"

definition identity_key :: "('w, 'x) garage_env_scheme \<Rightarrow> object_store \<Rightarrow> key" where
  "identity_key E c = (ga_namespace E, nodeIdentitySecretName c)"

definition ensureNodeIdentitySecret ::
  "('w, 'x) garage_env_scheme \<Rightarrow> object_store \<Rightarrow> ('w, secret result) go" where
  "ensureNodeIdentitySecret E c =
     (let K = ga_kube E in
      do { r \<leftarrow> kget Cached KSecret OSecret (k_secrets K) (identity_key E c);
           case r of
             Inr sec \<Rightarrow> return (Inr sec)
           | Inl err \<Rightarrow>
               if \<not> is_not_found err then return (Inl err)
               else (case ga_own E (os_meta c) (fresh_meta (nodeIdentitySecretName c) (ga_namespace E) (commonLabels c)) of
                       Inl err \<Rightarrow> return (Inl err)
                     | Inr m \<Rightarrow>
                         do { cr \<leftarrow> kcreate KSecret OSecret (k_secrets K) \<lparr>sec_meta = m, sec_data = Map.empty, sec_string_data = Map.empty\<rparr>;
                              case (case cr of None \<Rightarrow> None | Some e \<Rightarrow> if is_already_exists e then None else Some e) of
                                Some e \<Rightarrow> return (Inl e)
                              | None \<Rightarrow> kget Cached KSecret OSecret (k_secrets K) (identity_key E c) }) })"

definition merge_step :: "str_map \<times> bool \<Rightarrow> string \<times> string \<Rightarrow> str_map \<times> bool" where
  "merge_step = (\<lambda>(data, changed) (k, v).
     if length (map_str data k) \<noteq> 0 then (data, changed) else (data(k \<mapsto> v), True))"

definition merge_captured :: "str_map \<Rightarrow> (string \<times> string) list \<Rightarrow> str_map \<times> bool" where
  "merge_captured data captured = foldl merge_step (data, False) captured"

definition storeNodeIdentities ::
  "('w, 'x) garage_env_scheme \<Rightarrow> object_store \<Rightarrow> (string \<times> string) list \<Rightarrow> ('w, go_error option) go" where
  "storeNodeIdentities E c captured =
     k_retry (ga_kube E)
       (do { r \<leftarrow> kget Cached KSecret OSecret (k_secrets (ga_kube E)) (identity_key E c);
             case r of
               Inl err \<Rightarrow> return (Some err)
             | Inr sec \<Rightarrow>
                 (let (data, changed) = merge_captured (sec_data sec) captured in
                  if \<not> changed then return None
                  else kupdate KSecret OSecret (k_secrets (ga_kube E)) (sec\<lparr>sec_data := data\<rparr>)) })"

definition identity_complete :: "secret \<Rightarrow> int \<Rightarrow> bool" where
  "identity_complete sec ord \<longleftrightarrow>
     (let privKey = nodeIdentityDataKey ord; pubKey = privKey @ ''.pub''
      in length (map_str (sec_data sec) privKey) = nodeKeyPrivBytes \<and> length (map_str (sec_data sec) pubKey) = nodeKeyPubBytes)"

primrec capture_loop ::
  "('w, 'x) garage_env_scheme \<Rightarrow> secret \<Rightarrow> (int \<times> string) list \<Rightarrow> (string \<times> string) list \<Rightarrow>
     ('w, (string \<times> string) list) go" where
  "capture_loop E sec [] captured = return captured"
| "capture_loop E sec (op # pods) captured =
     (case op of (ord, pod) \<Rightarrow>
       if identity_complete sec ord then capture_loop E sec pods captured
       else do { pr \<leftarrow> captureNodeKey E pod nodeKeyPath;
                 case pr of
                   Inl _ \<Rightarrow> capture_loop E sec pods captured
                 | Inr priv \<Rightarrow>
                     do { ur \<leftarrow> captureNodeKey E pod nodeKeyPubPath;
                          case ur of
                            Inl _ \<Rightarrow> capture_loop E sec pods captured
                          | Inr pub \<Rightarrow>
                              if length priv \<noteq> nodeKeyPrivBytes \<or> length pub \<noteq> nodeKeyPubBytes
                              then capture_loop E sec pods captured
                              else capture_loop E sec pods
                                (AList.update (nodeIdentityDataKey ord @ ''.pub'') pub
                                  (AList.update (nodeIdentityDataKey ord) priv captured)) } })"

definition ensureNodeIdentities ::
  "('w, 'x) garage_env_scheme \<Rightarrow> object_store \<Rightarrow> ('w, go_error option) go" where
  "ensureNodeIdentities E c =
     (if \<not> ga_has_rest_config E then return None
      else do { sr \<leftarrow> ensureNodeIdentitySecret E c;
                case sr of
                  Inl err \<Rightarrow> return (Some err)
                | Inr sec \<Rightarrow>
                    do { pr \<leftarrow> runningGaragePods E c;
                         case pr of
                           Inl err \<Rightarrow> return (Some err)
                         | Inr pods \<Rightarrow>
                             do { captured \<leftarrow> capture_loop E sec pods [];
                                  if captured = [] then return None
                                  else storeNodeIdentities E c captured } } })"

section \<open>What a pass learns\<close>

definition identity_read :: "('w, 'x) garage_env_scheme \<Rightarrow> object_store \<Rightarrow> event list \<Rightarrow> secret \<Rightarrow> bool" where
  "identity_read E c u s \<longleftrightarrow> EvGet Cached KSecret (identity_key E c) (Inr (OSecret s)) \<in> set u"

definition pod_seen :: "('w, 'x) garage_env_scheme \<Rightarrow> object_store \<Rightarrow> event list \<Rightarrow> int \<Rightarrow> string \<Rightarrow> bool" where
  "pod_seen E c u ord pod \<longleftrightarrow> podOrdinal pod = Some ord \<and> (\<exists>ps p. p \<in> set ps \<and> pod_running p \<and> m_name (pod_meta p) = pod
     \<and> EvList Uncached KPod (garage_pod_opts E c) (Inr (map OPod ps)) \<in> set u)"

definition captured_from ::
  "('w, 'x) garage_env_scheme \<Rightarrow> object_store \<Rightarrow> event list \<Rightarrow> string \<Rightarrow> string \<Rightarrow> bool" where
  "captured_from E c u k v \<longleftrightarrow> (\<exists>ord pod out path. pod_seen E c u ord pod
     \<and> EvExec pod [''garage'', ''base64'', path] (Inr out) \<in> set u
     \<and> ga_base64 E (filter (\<lambda>ch. \<not> is_wrap ch) out) = Inr v
     \<and> (path = nodeKeyPath \<and> k = nodeIdentityDataKey ord \<and> length v = 64
       \<or> path = nodeKeyPath @ ''.pub'' \<and> k = nodeIdentityDataKey ord @ ''.pub'' \<and> length v = 32))"

definition identity_event_ok ::
  "('w, 'x) garage_env_scheme \<Rightarrow> object_store \<Rightarrow> event list \<Rightarrow> event \<Rightarrow> bool" where
  "identity_event_ok E c u e = (case e of
      EvGet rd k ky r \<Rightarrow> k = KSecret \<and> ky = identity_key E c
    | EvList rd k lo r \<Rightarrow> rd = Uncached \<and> k = KPod
    | EvCreate k (OSecret s) r \<Rightarrow> sec_data s = Map.empty
    | EvExec pod cmd r \<Rightarrow> (\<exists>s ord. identity_read E c u s \<and> pod_seen E c u ord pod \<and> \<not> identity_complete s ord)
    | EvUpdate k (OSecret s') r \<Rightarrow> (\<exists>s. identity_read E c u s \<and> sec_meta s' = sec_meta s
        \<and> (\<forall>key. sec_data s' key = sec_data s key
             \<or> map_str (sec_data s) key = [] \<and> (\<exists>v. sec_data s' key = Some v \<and> captured_from E c u key v)))
    | _ \<Rightarrow> False)"

lemma identity_read_mono: "identity_read E c t s \<Longrightarrow> set t \<subseteq> set u \<Longrightarrow> identity_read E c u s"
  unfolding identity_read_def by blast

lemma pod_seen_mono: "pod_seen E c t ord pod \<Longrightarrow> set t \<subseteq> set u \<Longrightarrow> pod_seen E c u ord pod"
  unfolding pod_seen_def by blast

lemma captured_from_mono: "captured_from E c t k v \<Longrightarrow> set t \<subseteq> set u \<Longrightarrow> captured_from E c u k v"
  unfolding captured_from_def by (elim exE conjE, intro exI conjI) (auto intro: pod_seen_mono)

lemma merge_captured_snoc: "merge_captured d (cap @ [kv]) = merge_step (merge_captured d cap) kv"
  by (simp add: merge_captured_def)

lemma merge_captured_keeps:
  "fst (merge_captured d cap) k = d k
     \<or> map_str d k = [] \<and> (\<exists>v. fst (merge_captured d cap) k = Some v \<and> (k, v) \<in> set cap)"
proof (induction cap rule: rev_induct)
  case (snoc kv cap)
  then show ?case
    by (cases "merge_captured d cap"; cases kv)
      (auto simp: merge_captured_snoc merge_step_def map_str_def split: option.splits if_splits)
qed (simp add: merge_captured_def)

lemma set_AList_update: "kv \<in> set (AList.update k v xs) \<Longrightarrow> kv \<in> set xs \<or> kv = (k, v)"
  by (induction xs) (auto split: if_splits)

lemma running_step_set:
  "(ord, pod) \<in> set (running_step acc p) \<Longrightarrow>
    (ord, pod) \<in> set acc \<or> podOrdinal pod = Some ord \<and> pod_running p \<and> m_name (pod_meta p) = pod"
  by (auto simp: running_step_def dest: set_AList_update split: if_splits option.splits)

lemma running_pods:
  "(ord, pod) \<in> set (foldl running_step acc ps) \<Longrightarrow>
    (ord, pod) \<in> set acc \<or> podOrdinal pod = Some ord \<and> (\<exists>p \<in> set ps. pod_running p \<and> m_name (pod_meta p) = pod)"
  by (induction ps arbitrary: acc) (auto dest: running_step_set)

text \<open>One capture: the two files of one pod whose pair is not stored yet.\<close>

lemma wp_capture [wp_rules]:
  assumes "\<And>e. Q (Inl e) (w, t)"
    and "\<And>r out w'. r = (case out of Inl e \<Rightarrow> Inl e | Inr o' \<Rightarrow> ga_base64 E (filter (\<lambda>ch. \<not> is_wrap ch) o')) \<Longrightarrow>
      Q r (w', t @ [EvExec pod [''garage'', ''base64'', path] out])"
  shows "wp (captureNodeKey E pod path) Q (w, t)"
  unfolding captureNodeKey_def execInPod_def by (intro wp_rules) (auto intro!: assms)

lemma captured_fromI:
  "pod_seen E c u ord pod \<Longrightarrow> EvExec pod [''garage'', ''base64'', nodeKeyPath] (Inr out) \<in> set u \<Longrightarrow>
     ga_base64 E (filter (\<lambda>ch. \<not> is_wrap ch) out) = Inr v \<Longrightarrow> length v = nodeKeyPrivBytes \<Longrightarrow>
     captured_from E c u (nodeIdentityDataKey ord) v"
  "pod_seen E c u ord pod \<Longrightarrow> EvExec pod [''garage'', ''base64'', nodeKeyPubPath] (Inr out) \<in> set u \<Longrightarrow>
     ga_base64 E (filter (\<lambda>ch. \<not> is_wrap ch) out) = Inr v \<Longrightarrow> length v = nodeKeyPubBytes \<Longrightarrow>
     captured_from E c u (nodeIdentityDataKey ord @ ''.pub'') v"
  unfolding captured_from_def nodeKeyPrivBytes_def nodeKeyPubBytes_def nodeKeyPubPath_def by blast+

lemma exec_ok:
  "identity_read E c u s \<Longrightarrow> pod_seen E c u ord pod \<Longrightarrow> \<not> identity_complete s ord \<Longrightarrow>
     identity_event_ok E c u (EvExec pod cmd r)"
  unfolding identity_event_ok_def by auto

lemma wp_capture_loop:
  assumes "justified (identity_event_ok E c) t" and "identity_read E c t sec"
    and "\<And>ord pod. (ord, pod) \<in> set pods \<Longrightarrow> pod_seen E c t ord pod"
    and "\<And>k v. (k, v) \<in> set captured \<Longrightarrow> captured_from E c t k v"
    and "\<And>cap w' d. justified (identity_event_ok E c) (t @ d) \<Longrightarrow>
      (\<And>k v. (k, v) \<in> set cap \<Longrightarrow> captured_from E c (t @ d) k v) \<Longrightarrow> Q cap (w', t @ d)"
  shows "wp (capture_loop E sec pods captured) Q (w, t)"
  using assms
proof (induction pods arbitrary: captured t w)
  case Nil
  then show ?case using Nil(5) [of "[]" captured w] by (simp add: wp_return)
next
  case (Cons op pods)
  obtain ord pod where op: "op = (ord, pod)" by fastforce
  have seen: "pod_seen E c (t @ d) ord pod" for d
    using pod_seen_mono [OF Cons.prems(3) [of ord pod], of "t @ d"] by (simp add: op)
  have next_: "wp (capture_loop E sec pods cap) Q (w', t @ d)"
    if "justified (identity_event_ok E c) (t @ d)" "\<And>k v. (k, v) \<in> set cap \<Longrightarrow> captured_from E c (t @ d) k v" for cap w' d
  proof (rule Cons.IH [OF that(1) _ _ that(2)])
    show "identity_read E c (t @ d) sec" using identity_read_mono [OF Cons.prems(2)] by auto
    show "pod_seen E c (t @ d) i p" if "(i, p) \<in> set pods" for i p
      using pod_seen_mono [OF Cons.prems(3) [of i p], of "t @ d"] that by simp
    show "Q cap (w', (t @ d) @ d')" if "justified (identity_event_ok E c) ((t @ d) @ d')"
      "\<And>k v. (k, v) \<in> set cap \<Longrightarrow> captured_from E c ((t @ d) @ d') k v" for cap w' d'
      using Cons.prems(5) [of "d @ d'" cap w'] that by simp
  qed
  have old: "captured_from E c (t @ d) k v" if "(k, v) \<in> set captured" for d k v
    using captured_from_mono [OF Cons.prems(4) [OF that]] by auto
  show ?case
  proof (cases "identity_complete sec ord")
    case True
    then show ?thesis using next_ [of "[]"] Cons.prems(1) old [of _ _ "[]"] by (simp add: op)
  next
    case False
    have ok: "justified (identity_event_ok E c) t" "identity_event_ok E c t (EvExec pod cmd r)"
      "identity_event_ok E c (t @ [e]) (EvExec pod cmd r)" for e cmd r
      using Cons.prems(1) seen [of "[]"] seen [of "[_]"] identity_read_mono [OF Cons.prems(2), of "t @ [_]"]
      by (auto intro: exec_ok [OF _ _ False] Cons.prems(2))
    have same: "wp (capture_loop E sec pods captured) Q (v, t)" for v
      using next_ [of "[]"] Cons.prems(1) old [of _ _ "[]"] by simp
    have new: "captured_from E c (t @ [EvExec pod [''garage'', ''base64'', nodeKeyPath] o1,
        EvExec pod [''garage'', ''base64'', nodeKeyPubPath] o2]) k v"
      if "(k, v) \<in> set (AList.update (nodeIdentityDataKey ord @ ''.pub'') pub (AList.update (nodeIdentityDataKey ord) priv captured))"
        "Inr priv = (case o1 of Inl x \<Rightarrow> Inl x | Inr o' \<Rightarrow> ga_base64 E (filter (\<lambda>ch. \<not> is_wrap ch) o'))"
        "Inr pub = (case o2 of Inl x \<Rightarrow> Inl x | Inr o' \<Rightarrow> ga_base64 E (filter (\<lambda>ch. \<not> is_wrap ch) o'))"
        "length priv = nodeKeyPrivBytes" "length pub = nodeKeyPubBytes" for k v o1 o2 priv pub
      using that seen by (auto dest!: set_AList_update intro: old intro!: captured_fromI split: sum.splits)
    show ?thesis
      unfolding capture_loop.simps op prod.case if_not_P [OF False]
      by (intro wp_rules) (auto intro!: same next_ intro: old new ok)
  qed
qed

lemma update_ok:
  "identity_read E c u s \<Longrightarrow> sec_meta s' = sec_meta s \<Longrightarrow>
     (\<And>key. sec_data s' key = sec_data s key
         \<or> map_str (sec_data s) key = [] \<and> (\<exists>v. sec_data s' key = Some v \<and> captured_from E c u key v)) \<Longrightarrow>
     identity_event_ok E c u (EvUpdate KSecret (OSecret s') r)"
  unfolding identity_event_ok_def by auto

lemma wp_store:
  assumes "retry_law (ga_kube E)" and "justified (identity_event_ok E c) t"
    and "\<And>k v. (k, v) \<in> set cap \<Longrightarrow> captured_from E c t k v"
    and "\<And>r w' u. justified (identity_event_ok E c) u \<Longrightarrow> Q r (w', u)"
  shows "wp (storeNodeIdentities E c cap) Q (w, t)"
  unfolding storeNodeIdentities_def
proof (rule wp_retry [OF assms(1), where I = "\<lambda>s. justified (identity_event_ok E c) (snd s) \<and> set t \<subseteq> set (snd s)"])
  show "justified (identity_event_ok E c) (snd (w, t)) \<and> set t \<subseteq> set (snd (w, t))" using assms(2) by simp
  fix s :: "'a run"
  assume I: "justified (identity_event_ok E c) (snd s) \<and> set t \<subseteq> set (snd s)"
  then have sub: "set t \<subseteq> set (snd s @ d)" for d by auto
  have upd: "identity_event_ok E c (snd s @ [EvGet Cached KSecret (identity_key E c) (Inr (OSecret sec))])
      (EvUpdate KSecret (OSecret (sec\<lparr>sec_data := fst (merge_captured (sec_data sec) cap)\<rparr>)) r)" for sec r
  proof (rule update_ok)
    show "identity_read E c (snd s @ [EvGet Cached KSecret (identity_key E c) (Inr (OSecret sec))]) sec"
      by (simp add: identity_read_def)
    show "sec_data (sec\<lparr>sec_data := fst (merge_captured (sec_data sec) cap)\<rparr>) key = sec_data sec key
        \<or> map_str (sec_data sec) key = []
        \<and> (\<exists>v. sec_data (sec\<lparr>sec_data := fst (merge_captured (sec_data sec) cap)\<rparr>) key = Some v
          \<and> captured_from E c (snd s @ [EvGet Cached KSecret (identity_key E c) (Inr (OSecret sec))]) key v)" for key
      using merge_captured_keeps [of "sec_data sec" cap key] by (auto intro: captured_from_mono [OF assms(3) sub])
  qed simp_all
  show "wp (do { r \<leftarrow> kget Cached KSecret OSecret (k_secrets (ga_kube E)) (identity_key E c);
        case r of Inl err \<Rightarrow> return (Some err)
        | Inr sec \<Rightarrow> (let (data, changed) = merge_captured (sec_data sec) cap in
            if \<not> changed then return None
            else kupdate KSecret OSecret (k_secrets (ga_kube E)) (sec\<lparr>sec_data := data\<rparr>)) })
      (\<lambda>r s'. Q r s' \<and> justified (identity_event_ok E c) (snd s') \<and> set t \<subseteq> set (snd s')) s"
  proof (cases s, simp only:, unfold kget_def kupdate_def Let_def, intro wp_rules, goal_cases)
    case (3 w0 t0 r w' sec data changed ru w'')
    then show ?case using I upd [of sec ru] assms(4) by (auto simp: identity_event_ok_def)
  qed (use I assms(4) in \<open>auto simp: identity_event_ok_def\<close>)
qed

lemma wp_identity_secret:
  assumes "\<And>r w' u. justified (identity_event_ok E c) u \<Longrightarrow>
    (\<And>sec. r = Inr sec \<Longrightarrow> identity_read E c u sec) \<Longrightarrow> Q r (w', u)"
  shows "wp (ensureNodeIdentitySecret E c) Q (w, [])"
  unfolding ensureNodeIdentitySecret_def kget_def kcreate_def Let_def
  by (intro wp_rules) (auto simp: identity_event_ok_def identity_read_def intro!: assms)

lemma wp_running:
  assumes "justified (identity_event_ok E c) t"
    and "\<And>r w' e. justified (identity_event_ok E c) (t @ [e]) \<Longrightarrow>
      (\<And>pods ord pod. r = Inr pods \<Longrightarrow> (ord, pod) \<in> set pods \<Longrightarrow> pod_seen E c (t @ [e]) ord pod) \<Longrightarrow> Q r (w', t @ [e])"
  shows "wp (runningGaragePods E c) Q (w, t)"
  unfolding runningGaragePods_def klist_def
proof (intro wp_rules assms(2), goal_cases)
  case (2 r w' pods ord pod)
  then obtain ps where r: "r = Inr ps" "pods = foldl running_step [] ps" by (auto split: sum.splits)
  with running_pods [of ord pod "[]" ps] 2 show ?case by (auto simp: pod_seen_def)
qed (use assms(1) in \<open>simp add: identity_event_ok_def\<close>)

section \<open>Properties\<close>

text \<open>C31: The identity pass never loses an identity and never invents one: the only object it creates is an
  empty identity Secret; it opens a shell only in a running pod of this store whose ordinal has no complete
  key pair stored; and an update keeps every non-empty key of the Secret it read, and each key it adds is the decoded
  content of the matching file of the running pod of that ordinal, with the exact size of an ed25519 key.\<close>

theorem node_identities_stable:
  assumes "retry_law (ga_kube E)"
  shows "wp (ensureNodeIdentities E c) (\<lambda>r s'. justified (identity_event_ok E c) (snd s')) (w, [])"
  unfolding ensureNodeIdentities_def
proof (intro wp_if wp_bind wp_identity_secret wp_case_sum wp_return wp_running, goal_cases)
  case (5 r w' u sec r2 w2 e pods)
  have "identity_read E c (u @ [e]) sec" using 5 by (auto intro: identity_read_mono)
  then show ?case using 5 by (intro wp_capture_loop) (auto intro!: wp_rules wp_store [OF assms])
qed simp_all

definition identity_env :: "unit garage_env" where
  "identity_env = demo_garage\<lparr>ga_has_rest_config := True,
     ga_kube := quiet_kube\<lparr>k_secrets := answering (Inr \<lparr>sec_meta = fresh_meta ''s'' ''d8'' Map.empty, sec_data = Map.empty, sec_string_data = Map.empty\<rparr>) [],
       k_pods := answering (Inl (GoErr NotFound [])) [\<lparr>pod_meta = fresh_meta ''x-garage-0'' ''d8'' Map.empty, pod_running = True, pod_ip = []\<rparr>]\<rparr>,
     ga_exec := (\<lambda>p cmd w. (Inr (replicate (if cmd ! 2 = nodeKeyPath then 64 else 32) CHR ''k''), w))\<rparr>"

lemma node_identities_stable_witness:
  "justified (identity_event_ok identity_env (store ''x'' ClusterTypeSystem RedundancyStandard))
     (snd (snd (run_state (ensureNodeIdentities identity_env (store ''x'' ClusterTypeSystem RedundancyStandard)) ((), []))))"
  using node_identities_stable [of identity_env "store ''x'' ClusterTypeSystem RedundancyStandard" "()"]
  by (simp add: wp_def quiet_retry_law identity_env_def demo_garage_def quiet_kube_def split: prod.splits)

text \<open>The ordinal under which an identity is stored is the ordinal of the StatefulSet pod, whatever dashes
  or digits the name of the store has: so the key that the capture writes is the file that the restore
  script of that pod reads, and two pods never share a key.\<close>

theorem pod_ordinal_roundtrip:
  assumes "0 \<le> n" and "n < 2 ^ 31"
  shows "podOrdinal (resourceName c @ ''-'' @ itoa n) = Some n"
proof -
  have "CHR ''-'' \<notin> set (itoa n)" using itoa_nonneg_digits [OF assms(1)] by (auto simp: list_all_iff)
  then have "after_last CHR ''-'' (resourceName c @ ''-'' @ itoa n) = Some (itoa n)"
    by (simp add: after_last_append)
  moreover have "atoi (itoa n) = Some n" using assms by (intro atoi_itoa) (simp_all add: max_int64_def)
  ultimately show ?thesis using assms by (simp add: podOrdinal_def to_int32_id)
qed

lemma pod_ordinal_roundtrip_witness: "podOrdinal (resourceName (store ''a-7'' ClusterTypeSystem RedundancyStandard) @ ''-2'') = Some 2"
proof -
  have "itoa 2 = ''2''" by code_simp
  then show ?thesis using pod_ordinal_roundtrip [of 2 "store ''a-7'' ClusterTypeSystem RedundancyStandard"] by simp
qed

end
