(* ===== verification/Garage_Driver.thy ===== *)
theory Garage_Driver
  imports Garage_Identity
begin

text \<open>
  \<open>backend/garage/garage.go\<close>: the Garage driver as a whole. The order in which the parts are applied, the
  pinned replication factor and its one way out (a recreate), and when the cluster is reported ready.
\<close>

definition garageVersion :: string where "garageVersion = ''v2.3.0''"

section \<open>The secret\<close>

text \<open>\<open>ga_rand\<close> is \<open>rand.Read\<close>.\<close>

definition randomHex :: "('w, 'x) garage_env_scheme \<Rightarrow> nat \<Rightarrow> ('w, string result) go" where
  "randomHex E n =
     do { r \<leftarrow> sample (ga_rand E n); return (case r of Inl e \<Rightarrow> Inl e | Inr buf \<Rightarrow> Inr (hex_encode buf)) }"

definition ensureSecret :: "('w, 'x) garage_env_scheme \<Rightarrow> object_store \<Rightarrow> ('w, go_error option) go" where
  "ensureSecret E c =
     do { r \<leftarrow> kget Cached KSecret OSecret (k_secrets (ga_kube E)) (ga_namespace E, secretName c);
          case r of
            Inr _ \<Rightarrow> return None
          | Inl err \<Rightarrow>
              if \<not> is_not_found err then return (Some err)
              else do { r1 \<leftarrow> randomHex E 32;
                case r1 of
                  Inl err \<Rightarrow> return (Some err)
                | Inr rpcSecret \<Rightarrow>
                  do { r2 \<leftarrow> randomHex E 32;
                    case r2 of
                      Inl err \<Rightarrow> return (Some err)
                    | Inr token \<Rightarrow>
                        (case ga_own E (os_meta c) (fresh_meta (secretName c) (ga_namespace E) (commonLabels c)) of
                           Inl err \<Rightarrow> return (Some err)
                         | Inr m \<Rightarrow> kcreate KSecret OSecret (k_secrets (ga_kube E))
                             \<lparr>sec_meta = m, sec_data = [secretKeyRPC \<mapsto> rpcSecret, secretKeyAdmin \<mapsto> token], sec_string_data = Map.empty\<rparr>) } } }"

section \<open>The pinned state\<close>

record pinned =
  pn_rf :: int
  pn_incarnation :: int
  pn_exists :: bool

definition pinnedState :: "('w, 'x) garage_env_scheme \<Rightarrow> object_store \<Rightarrow> ('w, pinned result) go" where
  "pinnedState E c =
     do { r \<leftarrow> kget Cached KConfigMap OConfigMap (k_config_maps (ga_kube E)) (ga_namespace E, configName c);
          return (case r of
              Inl err \<Rightarrow>
                if is_not_found err
                then Inr \<lparr>pn_rf = initialReplicationFactor c, pn_incarnation = firstSystemIncarnation, pn_exists = False\<rparr>
                else Inl err
            | Inr existing \<Rightarrow>
                (let rf = replicationFactorFromConfigMap (Some existing) in
                 if rf \<le> 0
                 then Inl (new_err (''garage.toml ConfigMap '' @ quoted (configName c)
                   @ '' exists but its replication_factor is absent or unparseable; refusing to recompute''
                   @ '' (would risk a replication_factor change on a live cluster)''))
                 else Inr \<lparr>pn_rf = rf, pn_incarnation = systemIncarnationFromConfigMap (Some existing), pn_exists = True\<rparr>)) }"

section \<open>Applying objects\<close>

text \<open>\<open>mergeDesired\<close>, one function per type of its switch.\<close>

definition with_labels :: "object_meta \<Rightarrow> object_meta \<Rightarrow> object_meta" where
  "with_labels live desired = live\<lparr>m_labels := m_labels desired\<rparr>"

definition merge_config_map :: "config_map \<Rightarrow> config_map \<Rightarrow> config_map" where
  "merge_config_map live desired = live\<lparr>cm_data := cm_data desired, cm_meta := with_labels (cm_meta live) (cm_meta desired)\<rparr>"

definition merge_service_account :: "service_account \<Rightarrow> service_account \<Rightarrow> service_account" where
  "merge_service_account live desired =
     live\<lparr>sa_automount := sa_automount desired, sa_meta := with_labels (sa_meta live) (sa_meta desired)\<rparr>"

definition merge_service :: "service \<Rightarrow> service \<Rightarrow> service" where
  "merge_service live desired =
     live\<lparr>svc_meta := with_labels (svc_meta live) (svc_meta desired), svc_selector := svc_selector desired,
       svc_ports := svc_ports desired, svc_publish_not_ready := svc_publish_not_ready desired\<rparr>"

text \<open>\<open>Spec.Template\<close> is the labels and annotations of the pods and their specification.\<close>

definition merge_stateful_set :: "stateful_set \<Rightarrow> stateful_set \<Rightarrow> stateful_set" where
  "merge_stateful_set live desired =
     live\<lparr>ss_meta := with_labels (ss_meta live) (ss_meta desired), ss_replicas := ss_replicas desired,
       ss_template_labels := ss_template_labels desired, ss_template_annotations := ss_template_annotations desired,
       ss_pod := ss_pod desired\<rparr>"

definition apply_obj ::
  "('w, 'x) garage_env_scheme \<Rightarrow> object_store \<Rightarrow> kind \<Rightarrow> ('o \<Rightarrow> obj) \<Rightarrow> ('o, 'w) resource \<Rightarrow> ('o \<Rightarrow> object_meta) \<Rightarrow>
     (object_meta \<Rightarrow> 'o \<Rightarrow> 'o) \<Rightarrow> ('o \<Rightarrow> 'o \<Rightarrow> 'o) \<Rightarrow> 'o \<Rightarrow> ('w, 'o result) go" where
  "apply_obj E c k mk res meta set_meta merge desired =
     kcreate_or_update k mk res (m_namespace (meta desired), m_name (meta desired)) desired
       (\<lambda>live. let obj = merge live desired in
          case ga_own E (os_meta c) (meta obj) of Inl err \<Rightarrow> Inl err | Inr m \<Rightarrow> Inr (set_meta m obj))"

definition apply_config_map :: "('w, 'x) garage_env_scheme \<Rightarrow> object_store \<Rightarrow> config_map \<Rightarrow> ('w, config_map result) go" where
  "apply_config_map E c = apply_obj E c KConfigMap OConfigMap (k_config_maps (ga_kube E)) cm_meta
     (\<lambda>m x. x\<lparr>cm_meta := m\<rparr>) merge_config_map"

definition apply_service_account ::
  "('w, 'x) garage_env_scheme \<Rightarrow> object_store \<Rightarrow> service_account \<Rightarrow> ('w, service_account result) go" where
  "apply_service_account E c = apply_obj E c KServiceAccount OServiceAccount (k_service_accounts (ga_kube E)) sa_meta
     (\<lambda>m x. x\<lparr>sa_meta := m\<rparr>) merge_service_account"

definition apply_service :: "('w, 'x) garage_env_scheme \<Rightarrow> object_store \<Rightarrow> service \<Rightarrow> ('w, service result) go" where
  "apply_service E c = apply_obj E c KService OService (k_services (ga_kube E)) svc_meta
     (\<lambda>m x. x\<lparr>svc_meta := m\<rparr>) merge_service"

definition apply_stateful_set ::
  "('w, 'x) garage_env_scheme \<Rightarrow> object_store \<Rightarrow> stateful_set \<Rightarrow> ('w, stateful_set result) go" where
  "apply_stateful_set E c = apply_obj E c KStatefulSet OStatefulSet (k_stateful_sets (ga_kube E)) ss_meta
     (\<lambda>m x. x\<lparr>ss_meta := m\<rparr>) merge_stateful_set"

lemmas apply_defs = apply_config_map_def apply_service_account_def apply_service_def apply_stateful_set_def

section \<open>The cluster\<close>

definition ensureWorkload ::
  "('w, 'x) garage_env_scheme \<Rightarrow> object_store \<Rightarrow> string \<Rightarrow> ('w, (bool \<times> string) result) go" where
  "ensureWorkload E c cfgHash =
     do { r \<leftarrow> apply_stateful_set E c (workloadFor (ga_pq E) c (ga_namespace E) (ga_image E) cfgHash);
          return (case r of
              Inl err \<Rightarrow> Inl (wrap_err ''ensure statefulset: '' err)
            | Inr sts \<Rightarrow>
                (let desired = (case ss_replicas sts of None \<Rightarrow> 0 | Some n \<Rightarrow> n) in
                 if ss_ready_replicas sts < desired
                 then Inr (False, ''Garage StatefulSet rolling out ('' @ itoa (ss_ready_replicas sts) @ ''/''
                        @ itoa desired @ '' pods ready)'')
                 else Inr (True, []))) }"

type_synonym cluster_outcome = "cluster_state \<times> go_error option"

definition fail_state :: "cluster_state \<Rightarrow> string \<Rightarrow> go_error \<Rightarrow> cluster_outcome" where
  "fail_state st p e = (st, Some (wrap_err p e))"

text \<open>The end of \<open>EnsureCluster\<close>: the workload, the mesh and the readiness.\<close>

definition garage_serve ::
  "('w, 'x) garage_env_scheme \<Rightarrow> object_store \<Rightarrow> string \<Rightarrow> cluster_state \<Rightarrow> ('w, cluster_outcome) go" where
  "garage_serve E c cfgHash st =
     do { wr \<leftarrow> ensureWorkload E c cfgHash;
          case wr of
            Inl err \<Rightarrow> return (st, Some err)
          | Inr (workloadReady, workloadMsg) \<Rightarrow>
              if \<not> workloadReady then return (st\<lparr>cs_message := workloadMsg\<rparr>, None)
              else do { mr \<leftarrow> ensureMeshAndLayout E c;
                case mr of
                  Inl err \<Rightarrow> return (st, Some err)
                | Inr mesh \<Rightarrow>
                    (let st = (case mr_total mesh of None \<Rightarrow> st | Some cap \<Rightarrow> st\<lparr>cs_capacity := Some cap\<rparr>) in
                     return (st\<lparr>cs_ready := mr_ready mesh, cs_message := mr_msg mesh\<rparr>, None)) } }"

text \<open>The storage of the System profile, then the rest.\<close>

definition garage_storage ::
  "('w, 'x) garage_env_scheme \<Rightarrow> object_store \<Rightarrow> string \<Rightarrow> int \<Rightarrow> cluster_state \<Rightarrow> ('w, cluster_outcome) go" where
  "garage_storage E c cfgHash incarnation st =
     (if os_type (os_spec c) \<noteq> ClusterTypeSystem then garage_serve E c cfgHash st
      else do { e1 \<leftarrow> ensureSystemLocalPVs E c incarnation;
        case e1 of
          Some err \<Rightarrow> return (fail_state st ''ensure system local PVs: '' err)
        | None \<Rightarrow>
          do { e2 \<leftarrow> ensureNodeIdentities E c;
            case e2 of
              Some err \<Rightarrow> return (fail_state st ''ensure node identities: '' err)
            | None \<Rightarrow>
              do { pr \<leftarrow> reconcileSystemPlacement E c;
                case pr of
                  Inl err \<Rightarrow> return (fail_state st ''reconcile system placement: '' err)
                | Inr (acted, msg) \<Rightarrow>
                    if acted then return (st\<lparr>cs_message := msg\<rparr>, None)
                    else garage_serve E c cfgHash st } } })"

text \<open>The objects that do not depend on the pods.\<close>

definition garage_apply ::
  "('w, 'x) garage_env_scheme \<Rightarrow> object_store \<Rightarrow> pinned \<Rightarrow> cluster_state \<Rightarrow> ('w, cluster_outcome) go" where
  "garage_apply E c pinned st =
     (let rf = pn_rf pinned; cfgHash = configHash (renderConfig rf); ns = ga_namespace E in
      do { a1 \<leftarrow> apply_config_map E c (buildConfigMap c ns rf (pn_incarnation pinned));
        case a1 of
          Inl err \<Rightarrow> return (fail_state st ''ensure configmap: '' err)
        | Inr _ \<Rightarrow>
          do { a2 \<leftarrow> apply_service_account E c (buildServiceAccount c ns);
            case a2 of
              Inl err \<Rightarrow> return (fail_state st ''ensure serviceaccount: '' err)
            | Inr _ \<Rightarrow>
              do { a3 \<leftarrow> apply_service E c (buildS3Service c ns);
                case a3 of
                  Inl err \<Rightarrow> return (fail_state st ''ensure s3 service: '' err)
                | Inr _ \<Rightarrow>
                  do { a4 \<leftarrow> apply_service E c (buildRPCService c ns);
                    case a4 of
                      Inl err \<Rightarrow> return (fail_state st ''ensure rpc service: '' err)
                    | Inr _ \<Rightarrow>
                        garage_storage E c cfgHash (pn_incarnation pinned)
                          (st\<lparr>cs_endpoint := \<lparr>ep_internal = s3Endpoint c ns (ga_cluster_domain E), ep_region = ''garage''\<rparr>\<rparr>) } } } })"

definition garageEnsureCluster ::
  "('w, 'x) garage_env_scheme \<Rightarrow> object_store \<Rightarrow> ('w, cluster_outcome) go" where
  "garageEnsureCluster E c =
     (let st = empty_cluster_state\<lparr>cs_backend := \<lparr>be_type = BackendGarage, be_version = garageVersion\<rparr>\<rparr> in
      if ga_image E = [] then return (st\<lparr>cs_message := ''GARAGE_IMAGE is not configured on the controller''\<rparr>, None)
      else do { e \<leftarrow> ensureSecret E c;
        case e of
          Some err \<Rightarrow> return (fail_state st ''ensure secret: '' err)
        | None \<Rightarrow>
          (let st = st\<lparr>cs_admin_secret_name := secretName c\<rparr> in
           do { pr \<leftarrow> pinnedState E c;
             case pr of
               Inl err \<Rightarrow> return (fail_state st ''read pinned cluster state: '' err)
             | Inr pinned \<Rightarrow>
                 (let want = initialReplicationFactor c in
                  if os_type (os_spec c) = ClusterTypeSystem \<and> pn_exists pinned \<and> pn_rf pinned \<noteq> want
                  then do { td \<leftarrow> teardownSystemDataPlane E c;
                    case td of
                      Inl err \<Rightarrow> return (fail_state st ''recreate system data plane: '' err)
                    | Inr (done, msg) \<Rightarrow>
                        if \<not> done then return (st\<lparr>cs_message := msg\<rparr>, None)
                        else garage_apply E c
                          \<lparr>pn_rf = want, pn_incarnation = to_int32 (pn_incarnation pinned + 1), pn_exists = True\<rparr> st }
                  else garage_apply E c pinned st) }) })"

definition garageDeleteCluster :: "('w, 'x) garage_env_scheme \<Rightarrow> object_store \<Rightarrow> ('w, go_error option) go" where
  "garageDeleteCluster E c =
     (if os_reclaim_policy (os_spec c) \<noteq> ClusterReclaimDelete then return None
      else DeleteClusterPVCs (ga_kube E) Uncached (ga_namespace E) (commonLabelList c))"

text \<open>The driver as the reconcilers see it.\<close>

definition garageDriver :: "('w, 'x) garage_env_scheme \<Rightarrow> 'w driver" where
  "garageDriver E =
     \<lparr>d_type = BackendGarage,
      d_ensure_cluster = (\<lambda>c. opaque (garageEnsureCluster E c)),
      d_delete_cluster = (\<lambda>c. opaque (garageDeleteCluster E c)),
      d_ensure_bucket = (\<lambda>c b. opaque (garageEnsureBucket E c b)),
      d_delete_bucket = (\<lambda>c b. opaque (garageDeleteBucket E c b)),
      d_ensure_access = (\<lambda>c b a f. opaque (garageEnsureAccess E c b a f)),
      d_delete_access = (\<lambda>c b a. opaque (garageDeleteAccess E c a))\<rparr>"

text \<open>It keeps the contract of drivers.\<close>

lemma garage_answers:
  "yields (cluster_answer_ok BackendGarage) (garageEnsureCluster E c)"
  "yields (bucket_answer_ok b) (garageEnsureBucket E c b)"
  "yields access_answer_ok (garageEnsureAccess E c b a f)"
  unfolding garageEnsureCluster_def garage_apply_def garage_storage_def garage_serve_def garageEnsureBucket_def
    garageEnsureAccess_def grantAndRevoke_def
  by (intro yields_rules; auto simp: answer_defs fail_state_def bucket_ready_def garageUnsupported_def access_error_def s3Endpoint_def split: option.splits)+

interpretation garage: driver_contract "garageDriver E" for E
  by unfold_locales (simp_all add: garageDriver_def opaque_fst garage_answers garageDeleteBucket_def)

section \<open>What may write the configuration\<close>

definition not_config :: "event \<Rightarrow> bool" where
  "not_config e \<longleftrightarrow> (case e of EvCreateOrUpdate k ky x r \<Rightarrow> k \<noteq> KConfigMap | _ \<Rightarrow> True)"

lemma not_config_simps [simp]:
  "not_config (EvGet rd k ky o1)" "not_config (EvList rd k lo o2)" "not_config (EvCreate k x o3)"
  "not_config (EvUpdate k x o3)" "not_config (EvDelete k ky o3)" "not_config (EvAdmin b rq o4)"
  "not_config (EvExec p cmd o5)" "not_config (EvCreateOrUpdate k ky x o1) \<longleftrightarrow> k \<noteq> KConfigMap"
  by (simp_all add: not_config_def)

lemma pool_not_config: "emits not_config (ensureSystemLocalPVs E c inc)"
  unfolding ensureSystemLocalPVs_def controlPlaneHostnames_def klist_def
  by (intro emits_rules emits_mono [OF gc_emits [OF subset_refl]] emits_mono [OF create_emits [OF subset_refl]]) auto

lemma capture_not_config: "emits not_config (capture_loop E sec pods cap)"
  by (induction pods arbitrary: cap) (auto intro!: emits_rules simp: captureNodeKey_def execInPod_def)

lemma identities_not_config: "retry_law (ga_kube E) \<Longrightarrow> emits not_config (ensureNodeIdentities E c)"
  unfolding ensureNodeIdentities_def ensureNodeIdentitySecret_def runningGaragePods_def storeNodeIdentities_def
    kget_def klist_def kcreate_def kupdate_def
  by (intro emits_rules emits_retry capture_not_config) auto

lemma replica_nodes_not_config: "emits not_config (replica_nodes_loop E c ords acc)"
  by (induction ords arbitrary: acc) (auto intro!: emits_rules simp: kget_def)

lemma placement_not_config: "emits not_config (reconcileSystemPlacement E c)"
  unfolding reconcileSystemPlacement_def controlPlaneHostnames_def systemReplicaNodes_def garageHealthy_def
    recycleReplica_def adminToken_def admin_health_def admin_do_def kget_def klist_def kdelete_def
  by (intro emits_rules replica_nodes_not_config) auto

lemma delete_all_not_config: "emits not_config (delete_all k res what ms)"
  by (induction ms) (auto intro!: emits_rules simp: deleteIfNotDeleting_def kdelete_def)

lemma teardown_not_config: "emits not_config (teardownSystemDataPlane E c)"
  unfolding teardownSystemDataPlane_def kget_def klist_def deleteIfNotDeleting_def kdelete_def
  by (intro emits_rules delete_all_not_config) auto

lemma serve_not_config: "emits not_config (garage_serve E c h st)"
  unfolding garage_serve_def ensureWorkload_def apply_stateful_set_def apply_obj_def kcreate_or_update_def
    ensureMeshAndLayout_def adminToken_def kget_def admin_op_defs admin_do_def discoverPeers_def klist_def healthGate_def
  by (intro emits_rules emits_mono [OF discover_emits]) auto

lemma storage_not_config:
  assumes "retry_law (ga_kube E)"
  shows "emits not_config (garage_storage E c h inc st)"
  unfolding garage_storage_def
  by (intro emits_rules pool_not_config identities_not_config [OF assms] placement_not_config serve_not_config)

text \<open>The writes of the configuration map that the code may make after what it has seen: the initial one when
  there was none; the pinned factor and incarnation again; and, for System, the factor of the current specification under the
  next incarnation once the old data plane is gone.\<close>

definition config_read :: "('w, 'x) garage_env_scheme \<Rightarrow> object_store \<Rightarrow> event list \<Rightarrow> config_map result \<Rightarrow> bool" where
  "config_read E c u r \<longleftrightarrow> EvGet Cached KConfigMap (ga_namespace E, configName c) (map_sum id OConfigMap r) \<in> set u"

definition config_initial :: "('w, 'x) garage_env_scheme \<Rightarrow> object_store \<Rightarrow> event list \<Rightarrow> config_map \<Rightarrow> bool" where
  "config_initial E c u cm \<longleftrightarrow> (\<exists>err. is_not_found err \<and> config_read E c u (Inl err))
     \<and> cm = buildConfigMap c (ga_namespace E) (initialReplicationFactor c) firstSystemIncarnation"

definition config_pinned :: "('w, 'x) garage_env_scheme \<Rightarrow> object_store \<Rightarrow> event list \<Rightarrow> config_map \<Rightarrow> bool" where
  "config_pinned E c u cm \<longleftrightarrow> (\<exists>old. config_read E c u (Inr old) \<and> 0 < replicationFactorFromConfigMap (Some old)
     \<and> cm = buildConfigMap c (ga_namespace E) (replicationFactorFromConfigMap (Some old)) (systemIncarnationFromConfigMap (Some old)))"

definition config_recreated :: "('w, 'x) garage_env_scheme \<Rightarrow> object_store \<Rightarrow> event list \<Rightarrow> config_map \<Rightarrow> bool" where
  "config_recreated E c u cm \<longleftrightarrow> os_type (os_spec c) = ClusterTypeSystem
     \<and> (\<exists>old before gone. u = before @ gone \<and> torn_down E c gone \<and> config_read E c before (Inr old)
        \<and> replicationFactorFromConfigMap (Some old) \<noteq> initialReplicationFactor c
        \<and> cm = buildConfigMap c (ga_namespace E) (initialReplicationFactor c)
                 (to_int32 (systemIncarnationFromConfigMap (Some old) + 1)))"

definition config_event_ok :: "('w, 'x) garage_env_scheme \<Rightarrow> object_store \<Rightarrow> event list \<Rightarrow> event \<Rightarrow> bool" where
  "config_event_ok E c u e \<longleftrightarrow> not_config e
     \<or> (\<exists>ky cm r. e = EvCreateOrUpdate KConfigMap ky (OConfigMap cm) r
          \<and> (config_initial E c u cm \<or> config_pinned E c u cm \<or> config_recreated E c u cm))"

lemma config_event_other [simp]: "not_config e \<Longrightarrow> config_event_ok E c u e"
  by (simp add: config_event_ok_def)

lemma wp_not_config:
  assumes "emits not_config m" and "justified (config_event_ok E c) t"
    and "\<And>a w' d. justified (config_event_ok E c) (t @ d) \<Longrightarrow> Q a (w', t @ d)"
  shows "wp m Q (w, t)"
  by (rule justified_emits [OF assms(1,2)]) (auto intro: assms(3))

lemma wp_garage_apply:
  assumes "retry_law (ga_kube E)" and "justified (config_event_ok E c) t"
    and "\<And>cm. cm = buildConfigMap c (ga_namespace E) (pn_rf p) (pn_incarnation p) \<Longrightarrow>
       config_initial E c t cm \<or> config_pinned E c t cm \<or> config_recreated E c t cm"
  shows "wp (garage_apply E c p st) (\<lambda>r s'. justified (config_event_ok E c) (snd s')) (w, t)"
proof -
  let ?cm = "buildConfigMap c (ga_namespace E) (pn_rf p) (pn_incarnation p)"
  have ok: "config_event_ok E c t (EvCreateOrUpdate KConfigMap ky (OConfigMap ?cm) r)" for ky r
    using assms(3) [OF refl] by (auto simp: config_event_ok_def)
  show ?thesis
    unfolding garage_apply_def apply_defs apply_obj_def kcreate_or_update_def Let_def
  proof (rule wp_bind, rule wp_call, goal_cases)
    case (1 r w')
    show ?case
    proof (rule wp_not_config)
      show "justified (config_event_ok E c) (t @ [EvCreateOrUpdate KConfigMap (m_namespace (cm_meta ?cm), m_name (cm_meta ?cm))
          (OConfigMap ?cm) (map_sum id OConfigMap r)])"
        using assms(2) ok by simp
    qed ((intro emits_rules storage_not_config assms(1); simp), simp)
  qed
qed

lemma config_recreatedI:
  "os_type (os_spec c) = ClusterTypeSystem \<Longrightarrow> config_read E c u (Inr old) \<Longrightarrow> torn_down E c d \<Longrightarrow>
    replicationFactorFromConfigMap (Some old) \<noteq> initialReplicationFactor c \<Longrightarrow>
    config_recreated E c (u @ d) (buildConfigMap c (ga_namespace E) (initialReplicationFactor c)
      (to_int32 (systemIncarnationFromConfigMap (Some old) + 1)))"
  unfolding config_recreated_def by blast

lemma wp_secret:
  assumes "\<And>r w' t. justified (config_event_ok E c) t \<Longrightarrow> Q r (w', t)"
  shows "wp (ensureSecret E c) Q (w, [])"
proof (rule wp_not_config)
  show "emits not_config (ensureSecret E c)"
    unfolding ensureSecret_def randomHex_def kget_def kcreate_def by (intro emits_rules) auto
qed (use assms in auto)

lemma wp_pinned:
  assumes "justified (config_event_ok E c) t"
    and "\<And>e w' u. justified (config_event_ok E c) u \<Longrightarrow> Q (Inl e) (w', u)"
    and "\<And>p w' u. justified (config_event_ok E c) u \<Longrightarrow>
      config_initial E c u (buildConfigMap c (ga_namespace E) (pn_rf p) (pn_incarnation p)) \<and> \<not> pn_exists p
      \<or> (\<exists>old. config_read E c u (Inr old) \<and> pn_rf p = replicationFactorFromConfigMap (Some old) \<and> 0 < pn_rf p
           \<and> pn_incarnation p = systemIncarnationFromConfigMap (Some old)) \<Longrightarrow> Q (Inr p) (w', u)"
  shows "wp (pinnedState E c) Q (w, t)"
  unfolding pinnedState_def kget_def
  by (intro wp_bind wp_call wp_return)
    (use assms(1) in \<open>auto simp: Let_def config_initial_def config_read_def split: sum.split intro!: assms(2,3)\<close>)

lemma wp_teardown:
  assumes "justified (config_event_ok E c) t"
    and "\<And>r w' d. justified (config_event_ok E c) (t @ d) \<Longrightarrow> (\<And>msg. r = Inr (True, msg) \<Longrightarrow> torn_down E c d) \<Longrightarrow> Q r (w', t @ d)"
  shows "wp (teardownSystemDataPlane E c) Q (w, t)"
proof (rule framed_wp [OF framed_teardown wp_conj])
  show "wp (teardownSystemDataPlane E c) (\<lambda>_ s'. list_all not_config (snd s')) (w, [])"
    by (rule emits_wp [OF teardown_not_config]) simp
  show "wp (teardownSystemDataPlane E c) (\<lambda>r s'. \<forall>msg. r \<noteq> Inr (True, msg) \<or> torn_down E c (snd s')) (w, [])"
    by (rule wp_mono [OF teardown_pass]) simp
  show "Q r (w', t @ d)" if "list_all not_config (snd (w', d)) \<and> (\<forall>msg. r \<noteq> Inr (True, msg) \<or> torn_down E c (snd (w', d)))"
    for r w' d
  proof (rule assms(2))
    show "justified (config_event_ok E c) (t @ d)"
      by (rule justified_append [OF assms(1) config_event_other]) (use that in auto)
  qed (use that in auto)
qed

text \<open>C13: The replication factor of a live cluster never changes, and neither does a System cluster mix two
  incarnations. Against every answer of the API, the configuration map is written only with the factor and the incarnation
  read from the existing map; or with the initial ones if there is no map; or, for System, with the factor of the
  specification under the next incarnation, immediately after a pass that saw that nothing of the old data plane is
  left. An existing map without a readable factor is never overwritten.\<close>

theorem garage_factor_pinned:
  assumes "retry_law (ga_kube E)"
  shows "wp (garageEnsureCluster E c) (\<lambda>r s'. justified (config_event_ok E c) (snd s')) (w, [])"
  unfolding garageEnsureCluster_def Let_def
proof (rule wp_if, simp add: wp_return, intro wp_bind, rule wp_secret, rule wp_case_option, goal_cases)
  case (1 r w' t)
  show ?case
  proof (intro wp_bind, rule wp_pinned [OF 1(2)], goal_cases)
    case (2 p v u)
    have pin: "config_initial E c u cm \<or> config_pinned E c u cm"
      if "cm = buildConfigMap c (ga_namespace E) (pn_rf p) (pn_incarnation p)" for cm
      using that 2(2) by (auto simp: config_pinned_def)
    show ?case
    proof (unfold sum.case, rule wp_if, goal_cases)
      case 1
      show ?case
      proof (intro wp_bind, rule wp_teardown [OF 2(1)], goal_cases)
        case (1 r w' d)
        then show ?case
          using 2(2) \<open>os_type _ = _ \<and> _\<close>
          by (intro wp_case_sum wp_case_prod wp_if wp_return wp_garage_apply [OF assms])
            (auto intro!: config_recreatedI)
      qed
    next
      case 2
      then show ?case using pin by (intro wp_garage_apply [OF assms]) (use \<open>justified _ u\<close> in auto)
    qed
  qed (simp add: wp_return)
qed (simp add: wp_return)

definition driver_env :: "unit garage_env" where
  "driver_env = demo_garage\<lparr>ga_kube := quiet_kube\<rparr>"

lemma garage_factor_pinned_witness:
  "justified (config_event_ok driver_env (store ''x'' ClusterTypeLightweight RedundancyNone))
     (snd (snd (run_state (garageEnsureCluster driver_env (store ''x'' ClusterTypeLightweight RedundancyNone)) ((), []))))"
  using garage_factor_pinned [of driver_env "store ''x'' ClusterTypeLightweight RedundancyNone" "()"]
  by (simp add: wp_def quiet_kube_laws driver_env_def demo_garage_def split: prod.splits)

section \<open>Readiness\<close>

definition rolled_out :: "('w, 'x) garage_env_scheme \<Rightarrow> object_store \<Rightarrow> event list \<Rightarrow> bool" where
  "rolled_out E c u \<longleftrightarrow> (\<exists>x sts. EvCreateOrUpdate KStatefulSet (ga_namespace E, resourceName c) x (Inr (OStatefulSet sts)) \<in> set u
     \<and> (case ss_replicas sts of None \<Rightarrow> 0 | Some n \<Rightarrow> n) \<le> ss_ready_replicas sts)"

definition ready_seen :: "('w, 'x) garage_env_scheme \<Rightarrow> object_store \<Rightarrow> cluster_outcome \<Rightarrow> 'w run \<Rightarrow> bool" where
  "ready_seen E c out s' \<longleftrightarrow> (if cs_ready (fst out)
     then snd out = None \<and> rolled_out E c (snd s') \<and> ends_healthy E c (snd s')
     else True)"

lemma wp_skip: "(\<And>a w' t. wp (f a) Q (w', t)) \<Longrightarrow> wp (State_Monad.bind m f) Q s"
  by (rule wp_bind, rule wpI) (metis prod.exhaust)

lemma ready_seen_fail [simp]:
  "\<not> cs_ready st \<Longrightarrow> ready_seen E c (st, e) s'" "\<not> cs_ready st \<Longrightarrow> ready_seen E c (fail_state st p err) s'"
  by (simp_all add: ready_seen_def fail_state_def)

lemma workload_key:
  "m_namespace (ss_meta (workloadFor pq c ns img h)) = ns \<and> m_name (ss_meta (workloadFor pq c ns img h)) = resourceName c"
  by (simp add: workload_defs Let_def fresh_meta_def)

lemma rolled_out_mono: "rolled_out E c t \<Longrightarrow> set t \<subseteq> set u \<Longrightarrow> rolled_out E c u"
  unfolding rolled_out_def by blast

lemma rolled_outI:
  "EvCreateOrUpdate KStatefulSet (ga_namespace E, resourceName c) x (Inr (OStatefulSet sts)) \<in> set u \<Longrightarrow>
     (case ss_replicas sts of None \<Rightarrow> 0 | Some n \<Rightarrow> n) \<le> ss_ready_replicas sts \<Longrightarrow> rolled_out E c u"
  unfolding rolled_out_def by blast

lemma wp_workload:
  assumes "\<And>r w' e. (\<And>m. r = Inr (True, m) \<Longrightarrow> rolled_out E c (t @ [e])) \<Longrightarrow> Q r (w', t @ [e])"
  shows "wp (ensureWorkload E c h) Q (w, t)"
  unfolding ensureWorkload_def apply_stateful_set_def apply_obj_def kcreate_or_update_def
  by (intro wp_bind wp_call wp_return)
    (auto simp: Let_def workload_key not_less split: sum.splits if_splits intro!: assms rolled_outI)

lemma wp_serve:
  assumes "\<not> cs_ready st"
  shows "wp (garage_serve E c h st) (ready_seen E c) (w, t)"
  unfolding garage_serve_def
proof (rule wp_bind, rule wp_workload, intro wp_case_sum wp_case_prod wp_if wp_return wp_bind, goal_cases)
  case (3 r w' e x b m)
  then have out: "rolled_out E c (t @ [e])" by simp
  show ?case
  proof (rule framed_wp [OF framed_mesh mesh_pass], intro wp_case_sum wp_let wp_return, goal_cases)
    case (2 r w' d mesh st')
    then have "rolled_out E c ((t @ [e]) @ d)" by (auto intro: rolled_out_mono [OF out])
    with 2 show ?case using assms
      by (auto simp: ready_seen_def ends_healthy_append [of _ _ d "t @ [e]", simplified] split: option.splits)
  qed (use assms in simp)
qed (use assms in auto)

lemma wp_storage: "\<not> cs_ready st \<Longrightarrow> wp (garage_storage E c h inc st) (ready_seen E c) (w, t)"
  unfolding garage_storage_def
  by (intro wp_if wp_serve wp_skip wp_case_option wp_case_sum wp_case_prod wp_return) simp_all

lemma wp_apply: "\<not> cs_ready st \<Longrightarrow> wp (garage_apply E c p st) (ready_seen E c) (w, t)"
  unfolding garage_apply_def Let_def
  by (intro wp_skip wp_case_sum wp_return wp_storage) simp_all

lemma garage_ready_pass:
  "wp (garageEnsureCluster E c) (ready_seen E c) (w, [])"
  unfolding garageEnsureCluster_def Let_def
  by (intro wp_if wp_skip wp_case_option wp_case_sum wp_case_prod wp_return wp_apply)
    (simp_all add: empty_cluster_state_def)

text \<open>C14: The driver reports a cluster ready only if, in this reconcile, the stateful set as applied had at least as
  many ready pods as it wants and the last thing that happened was Garage's answer that it is healthy.\<close>

theorem garage_ready_sound:
  "wp (garageEnsureCluster E c) (ready_seen E c) (w, [])"
  by (rule garage_ready_pass)

end
