(* ===== verification/Go_Json.thy ===== *)
theory Go_Json
  imports Api_Types
begin

text \<open>
  The text syntax of \<open>encoding/json\<close>: \<open>json_print\<close> is what \<open>json.Marshal\<close> writes (compact, keys in the order of
  the fields, \<open><\<close>, \<open>>\<close> and \<open>&\<close> escaped), \<open>json_parse\<close> what \<open>json.Unmarshal\<close> accepts. Text is valid UTF-8, and
  \<open>json.Unmarshal\<close>'s limit on nesting is not modelled. The fuel of the parser is twice the length of the text: every
  second call consumes a character.
\<close>

section \<open>Printing\<close>

definition json_esc :: "char \<Rightarrow> string" where
  "json_esc c =
     (let n = (of_char c :: nat) in
      if n = 34 then [CHR 0x5C, CHR 0x22]
      else if n = 92 then [CHR 0x5C, CHR 0x5C]
      else if n = 8 then [CHR 0x5C, CHR ''b'']
      else if n = 12 then [CHR 0x5C, CHR ''f'']
      else if n = 10 then [CHR 0x5C, CHR ''n'']
      else if n = 13 then [CHR 0x5C, CHR ''r'']
      else if n = 9 then [CHR 0x5C, CHR ''t'']
      else if n < 32 \<or> n \<in> {38, 60, 62}
      then [CHR 0x5C, CHR ''u'', CHR ''0'', CHR ''0'', hex_digit (n div 16), hex_digit (n mod 16)]
      else [c])"

definition json_quote :: "string \<Rightarrow> string" where
  "json_quote s = CHR 0x22 # concat (map json_esc s) @ [CHR 0x22]"

text \<open>The layout: \<open>None\<close> is the compact form, \<open>Some ind\<close> the form of \<open>json.MarshalIndent(v, "", ind)\<close> at a depth.\<close>

type_synonym layout = "string option"

definition gap :: "layout \<Rightarrow> nat \<Rightarrow> string" where
  "gap l d = (case l of None \<Rightarrow> [] | Some ind \<Rightarrow> CHR 0x0A # concat (replicate d ind))"

definition after_colon :: "layout \<Rightarrow> string" where
  "after_colon l = (case l of None \<Rightarrow> [] | Some ind \<Rightarrow> '' '')"

fun json_layout :: "layout \<Rightarrow> nat \<Rightarrow> json \<Rightarrow> string"
  and layout_items :: "layout \<Rightarrow> nat \<Rightarrow> json list \<Rightarrow> string"
  and layout_members :: "layout \<Rightarrow> nat \<Rightarrow> (string \<times> json) list \<Rightarrow> string" where
  "json_layout l d JNull = ''null''"
| "json_layout l d (JBool b) = (if b then ''true'' else ''false'')"
| "json_layout l d (JNum i) = itoa i"
| "json_layout l d (JFloat s) = s"
| "json_layout l d (JStr s) = json_quote s"
| "json_layout l d (JArr js) = CHR ''['' # (if js = [] then '']'' else gap l (Suc d) @ layout_items l d js)"
| "json_layout l d (JObj ms) = CHR ''{'' # (if ms = [] then ''}'' else gap l (Suc d) @ layout_members l d ms)"
| "layout_items l d [] = []"
| "layout_items l d (j # js) = json_layout l (Suc d) j
     @ (if js = [] then gap l d @ '']'' else CHR '','' # gap l (Suc d) @ layout_items l d js)"
| "layout_members l d [] = []"
| "layout_members l d ((k, j) # ms) = json_quote k @ CHR '':'' # after_colon l @ json_layout l (Suc d) j
     @ (if ms = [] then gap l d @ ''}'' else CHR '','' # gap l (Suc d) @ layout_members l d ms)"

definition json_print :: "json \<Rightarrow> string" where
  "json_print j = json_layout None 0 j"

definition json_print_indent :: "json \<Rightarrow> string" where
  "json_print_indent j = json_layout (Some ''  '') 0 j"

section \<open>Parsing\<close>

definition json_space :: "char \<Rightarrow> bool" where
  "json_space c \<longleftrightarrow> (of_char c :: nat) \<in> {9, 10, 13, 32}"

definition skip_ws :: "string \<Rightarrow> string" where
  "skip_ws s = dropWhile json_space s"

definition hex_val :: "char \<Rightarrow> nat option" where
  "hex_val c =
     (let n = (of_char c :: nat) in
      if 48 \<le> n \<and> n \<le> 57 then Some (n - 48)
      else if 97 \<le> n \<and> n \<le> 102 then Some (n - 87)
      else if 65 \<le> n \<and> n \<le> 70 then Some (n - 55) else None)"

fun hex4 :: "string \<Rightarrow> (nat \<times> string) option" where
  "hex4 (a # b # c # d # s) =
     (case (hex_val a, hex_val b, hex_val c, hex_val d) of
        (Some w, Some x, Some y, Some z) \<Rightarrow> Some (w * 4096 + x * 256 + y * 16 + z, s)
      | _ \<Rightarrow> None)"
| "hex4 s = None"

definition utf8 :: "nat \<Rightarrow> string" where
  "utf8 n =
     (if n < 128 then [char_of n]
      else if n < 2048 then [char_of (192 + n div 64), char_of (128 + n mod 64)]
      else if 55296 \<le> n \<and> n < 57344 then [char_of (239 :: nat), char_of (191 :: nat), char_of (189 :: nat)]
      else if n < 65536 then [char_of (224 + n div 4096), char_of (128 + n div 64 mod 64), char_of (128 + n mod 64)]
      else [char_of (240 + n div 262144), char_of (128 + n div 4096 mod 64), char_of (128 + n div 64 mod 64), char_of (128 + n mod 64)])"

text \<open>What follows \<open>\u\<close>: a code unit, or a surrogate pair.\<close>

definition unicode_escape :: "string \<Rightarrow> (string \<times> string) option" where
  "unicode_escape s =
     (case hex4 s of
        None \<Rightarrow> None
      | Some (n, t) \<Rightarrow>
          (if 55296 \<le> n \<and> n < 56320 \<and> take 2 t = [CHR 0x5C, CHR ''u'']
           then (case hex4 (drop 2 t) of
               Some (m, t') \<Rightarrow> if 56320 \<le> m \<and> m < 57344
                 then Some (utf8 (65536 + (n - 55296) * 1024 + (m - 56320)), t') else Some (utf8 n, t)
             | None \<Rightarrow> Some (utf8 n, t))
           else Some (utf8 n, t)))"

definition unescape :: "char \<Rightarrow> char option" where
  "unescape e =
     (if e = CHR 0x22 \<or> e = CHR 0x5C \<or> e = CHR ''/'' then Some e
      else if e = CHR ''b'' then Some (CHR 0x08)
      else if e = CHR ''f'' then Some (CHR 0x0C)
      else if e = CHR ''n'' then Some (CHR 0x0A)
      else if e = CHR ''r'' then Some (CHR 0x0D)
      else if e = CHR ''t'' then Some (CHR 0x09) else None)"

definition prepend :: "string \<Rightarrow> (string \<times> string) option \<Rightarrow> (string \<times> string) option" where
  "prepend x r = map_option (\<lambda>(y, t). (x @ y, t)) r"

lemma hex4_length: "hex4 s = Some (n, t) \<Longrightarrow> length t < length s"
  by (induction s rule: hex4.induct) (auto split: option.splits)

lemma unicode_escape_length: "unicode_escape s = Some (x, t) \<Longrightarrow> length t < length s"
  by (auto simp: unicode_escape_def dest!: hex4_length split: option.splits if_splits)

text \<open>A string after its opening quote.\<close>

function p_chars :: "string \<Rightarrow> (string \<times> string) option" where
  "p_chars [] = None"
| "p_chars (c # s) =
     (if c = CHR 0x22 then Some ([], s)
      else if c = CHR 0x5C
      then (case s of
              [] \<Rightarrow> None
            | e # s' \<Rightarrow>
                if e = CHR ''u''
                then (case unicode_escape s' of None \<Rightarrow> None | Some (x, t) \<Rightarrow> prepend x (p_chars t))
                else (case unescape e of None \<Rightarrow> None | Some x \<Rightarrow> prepend [x] (p_chars s')))
      else if (of_char c :: nat) < 32 then None
      else prepend [c] (p_chars s))"
  by pat_completeness auto
termination
  by (relation "measure length") (auto dest: unicode_escape_length)

definition p_fraction :: "string \<Rightarrow> (string \<times> string) option" where
  "p_fraction s = (case s of
      [] \<Rightarrow> Some ([], s)
    | c # r \<Rightarrow> if c = CHR ''.''
        then (let ds = takeWhile is_digit r in if ds = [] then None else Some (c # ds, dropWhile is_digit r))
        else Some ([], s))"

definition p_exponent :: "string \<Rightarrow> (string \<times> string) option" where
  "p_exponent s = (case s of
      [] \<Rightarrow> Some ([], s)
    | c # r \<Rightarrow> if c = CHR ''e'' \<or> c = CHR ''E''
        then (let (sgn, r) = (case r of [] \<Rightarrow> ([], r) | d # r' \<Rightarrow> if d = CHR ''-'' \<or> d = CHR ''+'' then ([d], r') else ([], r));
                  ds = takeWhile is_digit r
              in if ds = [] then None else Some (c # sgn @ ds, dropWhile is_digit r))
        else Some ([], s))"

definition p_number :: "string \<Rightarrow> (json \<times> string) option" where
  "p_number s =
     (let (neg, r) = (case s of [] \<Rightarrow> (False, s) | c # r' \<Rightarrow> if c = CHR ''-'' then (True, r') else (False, s));
          ds = takeWhile is_digit r
      in if ds = [] \<or> (hd ds = CHR ''0'' \<and> length ds > 1) then None
         else (case p_fraction (dropWhile is_digit r) of
             None \<Rightarrow> None
           | Some (fr, r1) \<Rightarrow> (case p_exponent r1 of
               None \<Rightarrow> None
             | Some (ex, r2) \<Rightarrow>
                 if fr = [] \<and> ex = [] then Some (JNum (if neg then - int (digits_val ds) else int (digits_val ds)), r2)
                 else Some (JFloat ((if neg then ''-'' else []) @ ds @ fr @ ex), r2))))"

fun p_value :: "nat \<Rightarrow> string \<Rightarrow> (json \<times> string) option"
  and p_items :: "nat \<Rightarrow> string \<Rightarrow> (json list \<times> string) option"
  and p_members :: "nat \<Rightarrow> string \<Rightarrow> ((string \<times> json) list \<times> string) option" where
  "p_value 0 s = None"
| "p_value (Suc n) s =
     (case skip_ws s of
        [] \<Rightarrow> None
      | c # r \<Rightarrow>
          if c = CHR 0x22 then map_option (\<lambda>(x, t). (JStr x, t)) (p_chars r)
          else if c = CHR ''[''
          then (case skip_ws r of
                  [] \<Rightarrow> None
                | d # r' \<Rightarrow> if d = CHR '']'' then Some (JArr [], r') else map_option (\<lambda>(js, t). (JArr js, t)) (p_items n r))
          else if c = CHR ''{''
          then (case skip_ws r of
                  [] \<Rightarrow> None
                | d # r' \<Rightarrow> if d = CHR ''}'' then Some (JObj [], r') else map_option (\<lambda>(ms, t). (JObj ms, t)) (p_members n r))
          else if has_prefix (c # r) ''null'' then Some (JNull, drop 4 (c # r))
          else if has_prefix (c # r) ''true'' then Some (JBool True, drop 4 (c # r))
          else if has_prefix (c # r) ''false'' then Some (JBool False, drop 5 (c # r))
          else p_number (c # r))"
| "p_items 0 s = None"
| "p_items (Suc n) s =
     (case p_value n s of
        None \<Rightarrow> None
      | Some (j, t) \<Rightarrow>
          (case skip_ws t of
             [] \<Rightarrow> None
           | c # r \<Rightarrow> if c = CHR '']'' then Some ([j], r)
               else if c = CHR '','' then map_option (\<lambda>(js, u). (j # js, u)) (p_items n r) else None))"
| "p_members 0 s = None"
| "p_members (Suc n) s =
     (case skip_ws s of
        [] \<Rightarrow> None
      | q # s' \<Rightarrow>
          if q \<noteq> CHR 0x22 then None
          else (case p_chars s' of
                  None \<Rightarrow> None
                | Some (k, t) \<Rightarrow>
                    (case skip_ws t of
                       [] \<Rightarrow> None
                     | c # r \<Rightarrow>
                         if c \<noteq> CHR '':'' then None
                         else (case p_value n r of
                                 None \<Rightarrow> None
                               | Some (j, u) \<Rightarrow>
                                   (case skip_ws u of
                                      [] \<Rightarrow> None
                                    | d # u' \<Rightarrow> if d = CHR ''}'' then Some ([(k, j)], u')
                                        else if d = CHR '','' then map_option (\<lambda>(ms, v). ((k, j) # ms, v)) (p_members n u')
                                        else None)))))"

definition json_parse :: "string \<Rightarrow> json result" where
  "json_parse s =
     (case p_value (2 * length s + 2) s of
        None \<Rightarrow> Inl (new_err ''invalid character in JSON input'')
      | Some (j, t) \<Rightarrow> if skip_ws t = [] then Inr j else Inl (new_err ''invalid character after top-level value''))"

section \<open>Round trip\<close>

lemma char_code: "c = CHR 0x22 \<longleftrightarrow> (of_char c :: nat) = 34" "c = CHR 0x5C \<longleftrightarrow> (of_char c :: nat) = 92"
  by (auto simp flip: of_char_eq_iff [where 'a = nat])

lemma hex_val_digit: "n < 16 \<Longrightarrow> hex_val (hex_digit n) = Some n"
  by (auto simp: hex_val_def hex_digit_def of_char_of)

lemma p_chars_esc: "p_chars (json_esc c @ t) = prepend [c] (p_chars t)"
proof -
  let ?n = "of_char c :: nat"
  consider "?n \<in> {34, 92, 8, 12, 10, 13, 9}" | "?n \<notin> {34, 92, 8, 12, 10, 13, 9}" "?n < 32 \<or> ?n \<in> {38, 60, 62}"
    | "?n \<notin> {34, 92, 8, 12, 10, 13, 9}" "\<not> ?n < 32" "?n \<notin> {38, 60, 62}" by blast
  then show ?thesis
  proof cases
    case 1
    then have "c \<in> {CHR 0x22, CHR 0x5C, CHR 0x08, CHR 0x0C, CHR 0x0A, CHR 0x0D, CHR 0x09}"
      by (auto simp flip: of_char_eq_iff [where 'a = nat])
    then show ?thesis by (auto simp: json_esc_def unescape_def)
  next
    case 2
    then have less: "?n < 128" by auto
    have "unicode_escape (CHR ''0'' # CHR ''0'' # hex_digit (?n div 16) # hex_digit (?n mod 16) # t) = Some ([c], t)"
    proof -
      have "hex_val CHR ''0'' = Some 0" by (simp add: hex_val_def)
      moreover have "?n div 16 < 16" using less by simp
      ultimately have "hex4 (CHR ''0'' # CHR ''0'' # hex_digit (?n div 16) # hex_digit (?n mod 16) # t) = Some (?n, t)"
        by (simp add: hex_val_digit)
      moreover have "utf8 ?n = [c]" using less by (simp add: utf8_def)
      ultimately show ?thesis using less by (simp add: unicode_escape_def)
    qed
    with 2 show ?thesis by (simp add: json_esc_def Let_def)
  next
    case 3
    then show ?thesis by (simp add: json_esc_def char_code Let_def)
  qed
qed

lemma p_chars_quote: "p_chars (concat (map json_esc s) @ CHR 0x22 # rest) = Some (s, rest)"
  by (induction s) (simp_all add: p_chars_esc prepend_def)

definition num_end :: "string \<Rightarrow> bool" where
  "num_end s \<longleftrightarrow> (case s of [] \<Rightarrow> True | c # _ \<Rightarrow> \<not> is_digit c \<and> c \<noteq> CHR ''.'' \<and> c \<noteq> CHR ''e'' \<and> c \<noteq> CHR ''E'')"

lemma hd_nat_str_zero: "hd (nat_str n) = CHR ''0'' \<Longrightarrow> n < 10"
proof (induction n rule: nat_str.induct)
  case (1 n)
  show ?case
  proof (rule ccontr)
    assume n: "\<not> n < 10"
    then have "hd (nat_str n) = hd (nat_str (n div 10))" by (subst nat_str.simps) simp
    with 1 n have "n div 10 < 10" by simp
    then have "nat_str (n div 10) = [digit_char (n div 10)]" by (subst nat_str.simps) simp
    with \<open>hd (nat_str n) = hd (nat_str (n div 10))\<close> 1(2) have "digit_char (n div 10) = CHR ''0''" by simp
    then have "(of_char (digit_char (n div 10)) :: nat) = 48" by simp
    with n \<open>n div 10 < 10\<close> show False by (simp add: digit_char_def of_char_of)
  qed
qed

lemma nat_str_single: "n < 10 \<Longrightarrow> length (nat_str n) = 1"
  by (subst nat_str.simps) simp

lemma takeWhile_digits:
  assumes "num_end rest"
  shows "takeWhile is_digit (nat_str n @ rest) = nat_str n" and "dropWhile is_digit (nat_str n @ rest) = rest"
proof -
  have "\<forall>c \<in> set (nat_str n). is_digit c" using list_all_digit_nat_str [of n] by (simp add: list_all_iff)
  moreover have "takeWhile is_digit rest = []" "dropWhile is_digit rest = rest"
    using assms by (auto simp: num_end_def split: list.splits)
  ultimately show "takeWhile is_digit (nat_str n @ rest) = nat_str n" "dropWhile is_digit (nat_str n @ rest) = rest"
    by (simp_all add: takeWhile_append2 dropWhile_append2)
qed

lemma p_number_itoa: "num_end rest \<Longrightarrow> p_number (itoa i @ rest) = Some (JNum i, rest)"
proof -
  assume rest: "num_end rest"
  have fr: "p_fraction rest = Some ([], rest)" and ex: "p_exponent rest = Some ([], rest)"
    using rest by (auto simp: num_end_def p_fraction_def p_exponent_def split: list.splits)
  have zero: "\<not> (hd (nat_str n) = CHR ''0'' \<and> 1 < length (nat_str n))" for n
    using hd_nat_str_zero [of n] nat_str_single [of n] by auto
  show ?thesis
  proof (cases "i < 0")
    case True
    then show ?thesis using zero by (simp add: p_number_def itoa_def Let_def takeWhile_digits [OF rest] fr ex)
  next
    case False
    obtain c cs where s: "nat_str (nat i) = c # cs" by (cases "nat_str (nat i)") auto
    with hd_nat_str_digit [of "nat i"] have "c \<noteq> CHR ''-''" by (auto simp: is_digit_def)
    then have "(case nat_str (nat i) @ rest of [] \<Rightarrow> (False, nat_str (nat i) @ rest)
        | c # r' \<Rightarrow> if c = CHR ''-'' then (True, r') else (False, nat_str (nat i) @ rest)) = (False, nat_str (nat i) @ rest)"
      by (simp add: s)
    then show ?thesis
      using False zero unfolding p_number_def itoa_def by (simp add: Let_def takeWhile_digits [OF rest] fr ex)
  qed
qed

text \<open>Values without fractional numbers, and the fuel a value needs.\<close>

fun exact :: "json \<Rightarrow> bool" where
  "exact (JFloat s) = False"
| "exact (JArr js) = (\<forall>j \<in> set js. exact j)"
| "exact (JObj ms) = (\<forall>(k, j) \<in> set ms. exact j)"
| "exact j = True"

fun need :: "json \<Rightarrow> nat"
  and need_items :: "json list \<Rightarrow> nat"
  and need_members :: "(string \<times> json) list \<Rightarrow> nat" where
  "need (JArr js) = Suc (need_items js)"
| "need (JObj ms) = Suc (need_members ms)"
| "need JNull = 1" | "need (JBool b) = 1" | "need (JNum i) = 1" | "need (JFloat s) = 1" | "need (JStr s) = 1"
| "need_items [] = 0"
| "need_items (j # js) = Suc (max (need j) (need_items js))"
| "need_members [] = 0"
| "need_members ((k, j) # ms) = Suc (max (need j) (need_members ms))"

definition white :: "layout \<Rightarrow> bool" where
  "white l \<longleftrightarrow> (case l of None \<Rightarrow> True | Some ind \<Rightarrow> list_all json_space ind)"

lemma skip_ws_all: "list_all json_space u \<Longrightarrow> skip_ws (u @ s) = skip_ws s"
  by (induction u) (simp_all add: skip_ws_def)

lemma skip_gap [simp]: "white l \<Longrightarrow> skip_ws (gap l d @ s) = skip_ws s"
  by (rule skip_ws_all) (auto simp: white_def gap_def json_space_def list_all_iff split: option.splits)

lemma skip_after_colon [simp]: "skip_ws (after_colon l @ s) = skip_ws s"
  by (rule skip_ws_all) (auto simp: after_colon_def json_space_def split: option.split)

lemma need_print:
  "exact j \<Longrightarrow> need j \<le> 2 * length (json_layout l d j)"
  "\<forall>j \<in> set js. exact j \<Longrightarrow> need_items js \<le> 2 * length (layout_items l d js)"
  "\<forall>(k, j) \<in> set ms. exact j \<Longrightarrow> need_members ms \<le> 2 * length (layout_members l d ms)"
proof (induction l d j and l d js and l d ms rule: json_layout_layout_items_layout_members.induct)
  case (3 l d i)
  have "length (itoa i) \<noteq> 0" using itoa_nonempty by blast
  then show ?case by (simp only: need.simps json_layout.simps)
next
  case (5 l d s)
  then show ?case by (simp add: json_quote_def)
qed auto

lemma print_head:
  "exact j \<Longrightarrow> \<exists>c r. json_layout l d j = c # r \<and> \<not> json_space c \<and> c \<noteq> CHR '']'' \<and> c \<noteq> CHR ''}''"
proof (cases j)
  case (JNum i)
  have "is_digit (hd (nat_str n))" for n by (rule hd_nat_str_digit)
  moreover have "nat_str n \<noteq> []" for n by simp
  ultimately have "\<exists>c r. nat_str n = c # r \<and> is_digit c" for n by (metis list.collapse)
  then show ?thesis using JNum by (fastforce simp: itoa_def json_space_def is_digit_def)
qed (auto simp: json_quote_def json_space_def)

lemma skip_ws_char: "\<not> json_space c \<Longrightarrow> skip_ws (c # s) = c # s"
  by (simp add: skip_ws_def)

lemma json_space_simps [simp]:
  "\<not> json_space CHR 0x22" "\<not> json_space CHR '']''" "\<not> json_space CHR ''}''" "\<not> json_space CHR '',''"
  "\<not> json_space CHR '':''" "\<not> json_space CHR ''[''" "\<not> json_space CHR ''{''"
  by (simp_all add: json_space_def)

lemma num_end_simps [simp]:
  "num_end (CHR '']'' # s)" "num_end (CHR ''}'' # s)" "num_end (CHR '','' # s)" "num_end []"
  by (simp_all add: num_end_def is_digit_def)

lemma num_end_gap [simp]: "num_end s \<Longrightarrow> num_end (gap l d @ s)"
  by (auto simp: gap_def num_end_def is_digit_def split: option.split)

lemma p_value_number: "num_end rest \<Longrightarrow> p_value (Suc n) (itoa i @ rest) = Some (JNum i, rest)"
proof -
  assume rest: "num_end rest"
  obtain c r where s: "itoa i @ rest = c # r" "c = CHR ''-'' \<or> is_digit c"
    using hd_nat_str_digit [of "nat (- i)"] hd_nat_str_digit [of "nat i"]
    by (cases "i < 0"; cases "nat_str (nat i)") (auto simp: itoa_def)
  then have "\<not> json_space c" "c \<noteq> CHR 0x22" "c \<noteq> CHR ''[''" "c \<noteq> CHR ''{''"
      "c \<noteq> CHR ''n''" "c \<noteq> CHR ''t''" "c \<noteq> CHR ''f''"
    by (auto simp: is_digit_def json_space_def)
  then show ?thesis using p_number_itoa [OF rest, of i] s(1) by (simp add: skip_ws_char has_prefix_def)
qed

lemma p_value_white: "skip_ws s = skip_ws t \<Longrightarrow> p_value n s = p_value n t"
  by (cases n) simp_all

lemma p_members_white: "skip_ws s = skip_ws t \<Longrightarrow> p_members n s = p_members n t"
  by (cases n) simp_all

lemma p_items_white: "skip_ws s = skip_ws t \<Longrightarrow> p_items n s = p_items n t"
  by (cases n) (simp_all add: p_value_white [of s t])

lemma p_gap [simp]:
  "white l \<Longrightarrow> p_items n (gap l d @ s) = p_items n s" "white l \<Longrightarrow> p_members n (gap l d @ s) = p_members n s"
  "p_value n (after_colon l @ s) = p_value n s"
  by (simp_all add: p_items_white [of "gap l d @ s" s] p_members_white [of "gap l d @ s" s] p_value_white [of "after_colon l @ s" s])

lemma parse_print:
  "exact j \<Longrightarrow> white l \<Longrightarrow> need j \<le> n \<Longrightarrow> num_end rest \<Longrightarrow> p_value n (json_layout l d j @ rest) = Some (j, rest)"
  "js \<noteq> [] \<Longrightarrow> \<forall>j \<in> set js. exact j \<Longrightarrow> white l \<Longrightarrow> need_items js \<le> n \<Longrightarrow> p_items n (layout_items l d js @ rest) = Some (js, rest)"
  "ms \<noteq> [] \<Longrightarrow> \<forall>(k, j) \<in> set ms. exact j \<Longrightarrow> white l \<Longrightarrow> need_members ms \<le> n \<Longrightarrow> p_members n (layout_members l d ms @ rest) = Some (ms, rest)"
proof (induction l d j and l d js and l d ms arbitrary: n rest and n rest and n rest rule: json_layout_layout_items_layout_members.induct)
  case 1
  then show ?case by (cases n) (simp_all add: skip_ws_char json_space_def has_prefix_def)
next
  case (2 l d b)
  then show ?case by (cases n) (simp_all add: skip_ws_char json_space_def has_prefix_def)
next
  case (3 l d i)
  then show ?case by (cases n) (simp_all add: p_value_number del: p_value.simps)
next
  case (5 l d s)
  then show ?case by (cases n) (simp_all add: json_quote_def skip_ws_char p_chars_quote)
next
  case (6 l d js)
  then obtain m where n: "n = Suc m" "need_items js \<le> m" by (cases n) auto
  show ?case
  proof (cases js)
    case Nil
    then show ?thesis by (simp add: n skip_ws_char)
  next
    case (Cons j js')
    then obtain c r where "json_layout l (Suc d) j = c # r" "\<not> json_space c" "c \<noteq> CHR '']''"
      using print_head [of j l "Suc d"] 6 by auto
    then show ?thesis using 6 n Cons by (simp add: skip_ws_char)
  qed
next
  case (7 l d ms)
  then obtain m where n: "n = Suc m" "need_members ms \<le> m" by (cases n) auto
  show ?case
  proof (cases ms)
    case Nil
    then show ?thesis by (simp add: n skip_ws_char)
  next
    case (Cons kj ms')
    then show ?thesis using 7 n by (cases kj) (simp add: skip_ws_char json_quote_def)
  qed
next
  case (9 l d j js)
  then obtain m where n: "n = Suc m" "need j \<le> m" "need_items js \<le> m" by (cases n) auto
  show ?case using 9 n by (cases "js = []") (simp_all add: skip_ws_char)
next
  case (11 l d k j ms)
  then obtain m where n: "n = Suc m" "need j \<le> m" "need_members ms \<le> m" by (cases n) auto
  show ?case using 11 n by (cases "ms = []") (simp_all add: skip_ws_char json_quote_def p_chars_quote)
qed auto

lemma json_parse_layout: "exact j \<Longrightarrow> white l \<Longrightarrow> json_parse (json_layout l d j) = Inr j"
  using parse_print(1) [of j l "2 * length (json_layout l d j) + 2" "[]" d] need_print(1) [of j l d]
  by (simp add: json_parse_def skip_ws_def)

lemma json_parse_print: "exact j \<Longrightarrow> json_parse (json_print j) = Inr j"
  by (simp add: json_print_def json_parse_layout white_def)

lemma json_parse_print_indent: "exact j \<Longrightarrow> json_parse (json_print_indent j) = Inr j"
  by (simp add: json_print_indent_def json_parse_layout white_def json_space_def)

section \<open>Unstructured fields\<close>

text \<open>\<open>unstructured.NestedString\<close>, \<open>NestedInt64\<close> and \<open>NestedStringSlice\<close> with the error ignored: the zero value
  when the field is missing or of another type.\<close>

fun nested :: "json \<Rightarrow> string list \<Rightarrow> json option" where
  "nested j [] = Some j"
| "nested (JObj entries) (k # ks) = (case map_of entries k of None \<Rightarrow> None | Some j \<Rightarrow> nested j ks)"
| "nested j (k # ks) = None"

definition nested_string :: "json \<Rightarrow> string list \<Rightarrow> string" where
  "nested_string j path = (case nested j path of Some (JStr s) \<Rightarrow> s | _ \<Rightarrow> [])"

definition nested_int64 :: "json \<Rightarrow> string list \<Rightarrow> int option" where
  "nested_int64 j path = (case nested j path of Some (JNum i) \<Rightarrow> Some i | _ \<Rightarrow> None)"

fun strings_of :: "json list \<Rightarrow> string list option" where
  "strings_of [] = Some []"
| "strings_of (JStr s # js) = map_option (\<lambda>ss. s # ss) (strings_of js)"
| "strings_of (_ # js) = None"

definition nested_strings :: "json \<Rightarrow> string list \<Rightarrow> string list" where
  "nested_strings j path = (case nested j path of Some (JArr js) \<Rightarrow> (case strings_of js of None \<Rightarrow> [] | Some ss \<Rightarrow> ss) | _ \<Rightarrow> [])"

section \<open>Decoding into Go values\<close>

text \<open>Keys match without regard to case, the last one wins, \<open>null\<close> leaves the zero value. \<open>json_decode\<close> is
  \<open>Decoder.Decode\<close>: it reads the first value and leaves the rest alone.\<close>

definition json_field :: "string \<Rightarrow> (string \<times> json) list \<Rightarrow> json option" where
  "json_field name ms = map_option snd (find (\<lambda>(k, j). to_lower k = to_lower name) (rev ms))"

definition type_error :: "string \<Rightarrow> go_error" where
  "type_error t = new_err (''json: cannot unmarshal into Go value of type '' @ t)"

fun decode_string :: "json option \<Rightarrow> string result" where
  "decode_string None = Inr []"
| "decode_string (Some JNull) = Inr []"
| "decode_string (Some (JStr s)) = Inr s"
| "decode_string (Some _) = Inl (type_error ''string'')"

fun decode_strings :: "json list \<Rightarrow> string list result" where
  "decode_strings [] = Inr []"
| "decode_strings (j # js) =
     (case decode_string (Some j) of
        Inl e \<Rightarrow> Inl e
      | Inr s \<Rightarrow> (case decode_strings js of Inl e \<Rightarrow> Inl e | Inr ss \<Rightarrow> Inr (s # ss)))"

definition json_decode :: "string \<Rightarrow> json result" where
  "json_decode s =
     (case p_value (2 * length s + 2) s of
        None \<Rightarrow> Inl (new_err ''invalid character in JSON input'')
      | Some (j, t) \<Rightarrow> Inr j)"

lemma json_decode_print_indent: "exact j \<Longrightarrow> json_decode (json_print_indent j) = Inr j"
  using json_parse_print_indent [of j]
  by (auto simp: json_decode_def json_parse_def split: option.splits prod.splits if_splits)

lemma json_field_Cons:
  "json_field n [] = None"
  "json_field n ((k, j) # ms) = (case json_field n ms of Some x \<Rightarrow> Some x
     | None \<Rightarrow> if to_lower k = to_lower n then Some j else None)"
proof -
  have app: "find P (xs @ [x]) = (case find P xs of Some y \<Rightarrow> Some y | None \<Rightarrow> if P x then Some x else None)" for P xs and x :: "string \<times> json"
    by (induction xs) auto
  show "json_field n [] = None" by (simp add: json_field_def)
  show "json_field n ((k, j) # ms) = (case json_field n ms of Some x \<Rightarrow> Some x
     | None \<Rightarrow> if to_lower k = to_lower n then Some j else None)"
    by (simp add: json_field_def app split: option.split)
qed

lemma decode_strings_map: "decode_strings (map JStr xs) = Inr xs"
  by (induction xs) simp_all

end
