(* ===== verification/Ceph_Policy.thy ===== *)
theory Ceph_Policy
  imports Go_Json Driver
begin

text \<open>
  \<open>backend/cephrgw/policy.go\<close>: the bucket policy document, one statement per access user. Decoding is that of
  \<open>encoding/json\<close> into the Go structs: keys match without regard to case, the last one wins, \<open>null\<close>
  leaves the zero value, keys without a field are dropped. A nil slice is \<open>None\<close>. Left out: of a key that occurs twice
  \<open>encoding/json\<close> decodes the second value into what the first left, so that a \<open>Principal\<close> keeps the wildcard of the
  first; here the last value alone counts.
\<close>

section \<open>Decoding into Go values\<close>

type_synonym stringOrSlice = "string list option"

definition slice :: "stringOrSlice \<Rightarrow> string list" where
  "slice s = (case s of None \<Rightarrow> [] | Some xs \<Rightarrow> xs)"

fun unmarshal_stringOrSlice :: "json option \<Rightarrow> stringOrSlice result" where
  "unmarshal_stringOrSlice None = Inr None"
| "unmarshal_stringOrSlice (Some JNull) = Inr (Some [[]])"
| "unmarshal_stringOrSlice (Some (JStr s)) = Inr (Some [s])"
| "unmarshal_stringOrSlice (Some (JArr js)) = (case decode_strings js of Inl e \<Rightarrow> Inl e | Inr ss \<Rightarrow> Inr (Some ss))"
| "unmarshal_stringOrSlice (Some _) = Inl (type_error ''[]string'')"

record policyPrincipal =
  pp_aws :: stringOrSlice
  pp_wildcard :: bool

fun unmarshal_principal :: "json option \<Rightarrow> policyPrincipal result" where
  "unmarshal_principal None = Inr \<lparr>pp_aws = None, pp_wildcard = False\<rparr>"
| "unmarshal_principal (Some JNull) = Inr \<lparr>pp_aws = None, pp_wildcard = False\<rparr>"
| "unmarshal_principal (Some (JStr s)) =
     Inr \<lparr>pp_aws = (if s \<noteq> ''*'' \<and> s \<noteq> [] then Some [s] else None), pp_wildcard = (s = ''*'')\<rparr>"
| "unmarshal_principal (Some (JObj ms)) =
     (case unmarshal_stringOrSlice (json_field ''AWS'' ms) of
        Inl e \<Rightarrow> Inl e
      | Inr aws \<Rightarrow> Inr \<lparr>pp_aws = aws, pp_wildcard = False\<rparr>)"
| "unmarshal_principal (Some _) = Inl (type_error ''struct'')"

record policyStatement =
  st_sid :: string
  st_effect :: string
  st_principal :: policyPrincipal
  st_action :: stringOrSlice
  st_resource :: stringOrSlice

definition zero_statement :: policyStatement where
  "zero_statement = \<lparr>st_sid = [], st_effect = [], st_principal = \<lparr>pp_aws = None, pp_wildcard = False\<rparr>, st_action = None, st_resource = None\<rparr>"

definition decode_statement_fields :: "(string \<times> json) list \<Rightarrow> policyStatement result" where
  "decode_statement_fields ms =
     (case decode_string (json_field ''Sid'' ms) of Inl e \<Rightarrow> Inl e | Inr sid \<Rightarrow>
     (case decode_string (json_field ''Effect'' ms) of Inl e \<Rightarrow> Inl e | Inr effect \<Rightarrow>
     (case unmarshal_principal (json_field ''Principal'' ms) of Inl e \<Rightarrow> Inl e | Inr prin \<Rightarrow>
     (case unmarshal_stringOrSlice (json_field ''Action'' ms) of Inl e \<Rightarrow> Inl e | Inr action \<Rightarrow>
     (case unmarshal_stringOrSlice (json_field ''Resource'' ms) of Inl e \<Rightarrow> Inl e | Inr resource \<Rightarrow>
        Inr \<lparr>st_sid = sid, st_effect = effect, st_principal = prin, st_action = action, st_resource = resource\<rparr>)))))"

fun decode_statement :: "json \<Rightarrow> policyStatement result" where
  "decode_statement (JObj ms) = decode_statement_fields ms"
| "decode_statement JNull = Inr zero_statement"
| "decode_statement _ = Inl (type_error ''policyStatement'')"

fun decode_statements :: "json list \<Rightarrow> policyStatement list result" where
  "decode_statements [] = Inr []"
| "decode_statements (j # js) =
     (case decode_statement j of
        Inl e \<Rightarrow> Inl e
      | Inr s \<Rightarrow> (case decode_statements js of Inl e \<Rightarrow> Inl e | Inr ss \<Rightarrow> Inr (s # ss)))"

record bucketPolicy =
  bp_version :: string
  bp_statements :: "policyStatement list"

fun decode_policy :: "json \<Rightarrow> bucketPolicy result" where
  "decode_policy (JObj ms) =
     (case decode_string (json_field ''Version'' ms) of Inl e \<Rightarrow> Inl e | Inr v \<Rightarrow>
     (case json_field ''Statement'' ms of
        None \<Rightarrow> Inr \<lparr>bp_version = v, bp_statements = []\<rparr>
      | Some j \<Rightarrow> (case j of
            JNull \<Rightarrow> Inr \<lparr>bp_version = v, bp_statements = []\<rparr>
          | JArr js \<Rightarrow> (case decode_statements js of Inl e \<Rightarrow> Inl e | Inr ss \<Rightarrow> Inr \<lparr>bp_version = v, bp_statements = ss\<rparr>)
          | _ \<Rightarrow> Inl (type_error ''[]policyStatement''))))"
| "decode_policy JNull = Inr \<lparr>bp_version = [], bp_statements = []\<rparr>"
| "decode_policy _ = Inl (type_error ''bucketPolicy'')"

section \<open>The document\<close>

definition parsePolicy :: "string \<Rightarrow> bucketPolicy result" where
  "parsePolicy raw =
     (if trim_space raw = [] then Inr \<lparr>bp_version = ''2012-10-17'', bp_statements = []\<rparr>
      else (case json_parse raw of
          Inl err \<Rightarrow> Inl (wrap_err ''parse bucket policy: '' err)
        | Inr j \<Rightarrow> (case decode_policy j of
            Inl err \<Rightarrow> Inl (wrap_err ''parse bucket policy: '' err)
          | Inr p \<Rightarrow> Inr (if bp_version p = [] then p\<lparr>bp_version := ''2012-10-17''\<rparr> else p))))"

definition sid :: "string \<Rightarrow> string" where
  "sid uid = ''osba'' @ take 32 (sha256_hex uid)"

definition principalARN :: "string \<Rightarrow> string" where
  "principalARN uid = ''arn:aws:iam:::user/'' @ uid"

definition slicesEqual :: "stringOrSlice \<Rightarrow> stringOrSlice \<Rightarrow> bool" where
  "slicesEqual a b \<longleftrightarrow> slice a = slice b"

definition statementEqual :: "policyStatement \<Rightarrow> policyStatement \<Rightarrow> bool" where
  "statementEqual a b \<longleftrightarrow> st_sid a = st_sid b \<and> st_effect a = st_effect b
     \<and> slicesEqual (st_action a) (st_action b) \<and> slicesEqual (st_resource a) (st_resource b)
     \<and> slicesEqual (pp_aws (st_principal a)) (pp_aws (st_principal b))
     \<and> pp_wildcard (st_principal a) = pp_wildcard (st_principal b)"

definition access_statement :: "string \<Rightarrow> string \<Rightarrow> string list \<Rightarrow> policyStatement" where
  "access_statement uid bkt actions =
     \<lparr>st_sid = sid uid, st_effect = ''Allow'',
      st_principal = \<lparr>pp_aws = Some [principalARN uid], pp_wildcard = False\<rparr>,
      st_action = Some actions,
      st_resource = Some [''arn:aws:s3:::'' @ bkt, ''arn:aws:s3:::'' @ bkt @ ''/*'']\<rparr>"

text \<open>The loop of \<open>upsert\<close>: replace the first statement with the Sid, or append.\<close>

fun upsert_loop :: "policyStatement \<Rightarrow> policyStatement list \<Rightarrow> policyStatement list \<times> bool" where
  "upsert_loop stmt [] = ([stmt], True)"
| "upsert_loop stmt (s # ss) =
     (if st_sid s = st_sid stmt
      then (if statementEqual s stmt then (s # ss, False) else (stmt # ss, True))
      else (case upsert_loop stmt ss of (out, changed) \<Rightarrow> (s # out, changed)))"

definition upsert :: "bucketPolicy \<Rightarrow> string \<Rightarrow> string \<Rightarrow> string list \<Rightarrow> bucketPolicy \<times> bool" where
  "upsert p uid bkt actions =
     (case upsert_loop (access_statement uid bkt actions) (bp_statements p) of (out, changed) \<Rightarrow> (p\<lparr>bp_statements := out\<rparr>, changed))"

definition remove_statement :: "bucketPolicy \<Rightarrow> string \<Rightarrow> bucketPolicy \<times> bool" where
  "remove_statement p uid =
     (p\<lparr>bp_statements := filter (\<lambda>s. st_sid s \<noteq> sid uid) (bp_statements p)\<rparr>,
      list_ex (\<lambda>s. st_sid s = sid uid) (bp_statements p))"

section \<open>Encoding\<close>

definition encode_slice :: "stringOrSlice \<Rightarrow> json" where
  "encode_slice s = (case s of None \<Rightarrow> JNull | Some xs \<Rightarrow> JArr (map JStr xs))"

definition encode_principal :: "policyPrincipal \<Rightarrow> json" where
  "encode_principal p = (if pp_wildcard p then JStr ''*'' else JObj [(''AWS'', encode_slice (pp_aws p))])"

definition encode_statement :: "policyStatement \<Rightarrow> json" where
  "encode_statement s = JObj [(''Sid'', JStr (st_sid s)), (''Effect'', JStr (st_effect s)), (''Principal'', encode_principal (st_principal s)),
     (''Action'', encode_slice (st_action s)), (''Resource'', encode_slice (st_resource s))]"

definition encode_policy :: "bucketPolicy \<Rightarrow> json" where
  "encode_policy p = JObj [(''Version'', JStr (bp_version p)), (''Statement'', JArr (map encode_statement (bp_statements p)))]"

definition marshal :: "bucketPolicy \<Rightarrow> string" where
  "marshal p = (if bp_statements p = [] then [] else json_print (encode_policy p))"

section \<open>Lemmas\<close>

text \<open>Statements of other users are untouched, in their order.\<close>

lemma upsert_loop_others:
  "upsert_loop stmt ss = (out, changed) \<Longrightarrow>
     filter (\<lambda>s. st_sid s \<noteq> st_sid stmt) out = filter (\<lambda>s. st_sid s \<noteq> st_sid stmt) ss"
  by (induction ss arbitrary: out changed) (auto split: if_splits prod.splits)

lemma upsert_loop_own:
  "upsert_loop stmt ss = (out, changed) \<Longrightarrow> \<exists>s. find (\<lambda>s. st_sid s = st_sid stmt) out = Some s \<and> statementEqual s stmt"
  by (induction ss arbitrary: out changed) (auto simp: statementEqual_def slicesEqual_def split: if_splits prod.splits)

lemma upsert_loop_unchanged: "upsert_loop stmt ss = (out, False) \<Longrightarrow> out = ss"
  by (induction ss arbitrary: out) (auto split: if_splits prod.splits)

lemma upsert_loop_again: "upsert_loop stmt ss = (out, changed) \<Longrightarrow> upsert_loop stmt out = (out, False)"
  by (induction ss arbitrary: out changed) (auto simp: statementEqual_def slicesEqual_def split: if_splits prod.splits)

text \<open>What the encoder writes can be read back, when no slice is nil: a nil slice is written as \<open>null\<close> and
  read back as a slice with one empty string.\<close>

definition complete_principal :: "policyPrincipal \<Rightarrow> bool" where
  "complete_principal p \<longleftrightarrow> (if pp_wildcard p then pp_aws p = None else pp_aws p \<noteq> None)"

definition complete_statement :: "policyStatement \<Rightarrow> bool" where
  "complete_statement s \<longleftrightarrow> complete_principal (st_principal s) \<and> st_action s \<noteq> None \<and> st_resource s \<noteq> None"

lemma to_lower_keys:
  "to_lower ''Sid'' = ''sid''" "to_lower ''Effect'' = ''effect''" "to_lower ''Principal'' = ''principal''"
  "to_lower ''Action'' = ''action''" "to_lower ''Resource'' = ''resource''" "to_lower ''AWS'' = ''aws''"
  "to_lower ''Version'' = ''version''" "to_lower ''Statement'' = ''statement''" "to_lower ''Condition'' = ''condition''"
  by code_simp+

lemma decode_encode_slice: "x \<noteq> None \<Longrightarrow> unmarshal_stringOrSlice (Some (encode_slice x)) = Inr x"
  by (cases x) (simp_all add: encode_slice_def decode_strings_map)

lemma decode_encode_principal: "complete_principal p \<Longrightarrow> unmarshal_principal (Some (encode_principal p)) = Inr p"
  by (cases p) (auto simp: complete_principal_def encode_principal_def json_field_Cons to_lower_keys decode_encode_slice split: if_splits)

lemma decode_encode_statement: "complete_statement s \<Longrightarrow> decode_statement (encode_statement s) = Inr s"
  by (cases s) (simp add: complete_statement_def encode_statement_def decode_statement_fields_def json_field_Cons to_lower_keys
      decode_encode_slice decode_encode_principal)

lemma decode_encode_statements: "\<forall>s \<in> set ss. complete_statement s \<Longrightarrow> decode_statements (map encode_statement ss) = Inr ss"
  by (induction ss) (simp_all add: decode_encode_statement)

lemma decode_encode_policy:
  "\<forall>s \<in> set (bp_statements p). complete_statement s \<Longrightarrow> decode_policy (encode_policy p) = Inr p"
  by (simp add: encode_policy_def json_field_Cons to_lower_keys decode_encode_statements)

lemma exact_encode: "exact (encode_policy p)"
  by (auto simp: encode_policy_def encode_statement_def encode_principal_def encode_slice_def split: option.split)

lemma trim_print_obj: "trim_space (json_print (JObj ms)) \<noteq> []"
proof -
  have "\<not> is_space CHR ''{''" by (simp add: is_space_def)
  then show ?thesis by (simp add: json_print_def trim_space_def dropWhile_eq_Nil_conv)
qed

lemma parse_printed: "exact (JObj ms) \<Longrightarrow> parsePolicy (json_print (JObj ms)) =
   (case decode_policy (JObj ms) of Inl err \<Rightarrow> Inl (wrap_err ''parse bucket policy: '' err)
    | Inr p \<Rightarrow> Inr (if bp_version p = [] then p\<lparr>bp_version := ''2012-10-17''\<rparr> else p))"
  using trim_print_obj [of ms] json_parse_print [of "JObj ms"] by (simp add: parsePolicy_def)

section \<open>The document as JSON\<close>

text \<open>The statements of a document as they stand in its text (no text is no statement), and what a rewrite makes of one: the five fields the
  structs name, as decoded, and no other.\<close>

definition document_statements :: "string \<Rightarrow> json list" where
  "document_statements raw = (if trim_space raw = [] then [] else (case json_parse raw of
      Inr (JObj ms) \<Rightarrow> (case json_field ''Statement'' ms of Some (JArr js) \<Rightarrow> js | _ \<Rightarrow> [])
    | _ \<Rightarrow> []))"

definition rewritten :: "json \<Rightarrow> json" where
  "rewritten j = (case decode_statement j of Inr s \<Rightarrow> encode_statement s | Inl e \<Rightarrow> j)"

definition foreign :: "string \<Rightarrow> json \<Rightarrow> bool" where
  "foreign uid j \<longleftrightarrow> (case decode_statement j of Inr s \<Rightarrow> st_sid s \<noteq> sid uid | Inl e \<Rightarrow> True)"

definition others_kept :: "string \<Rightarrow> string \<Rightarrow> string \<Rightarrow> bool" where
  "others_kept uid raw written \<longleftrightarrow>
     filter (foreign uid) (document_statements written) = map rewritten (filter (foreign uid) (document_statements raw))"

text \<open>A statement whose fields are all there reads the same after a rewrite.\<close>

lemma rewritten_reads_same:
  "decode_statement j = Inr s \<Longrightarrow> complete_statement s \<Longrightarrow> decode_statement (rewritten j) = Inr s"
  by (simp add: rewritten_def decode_encode_statement)

lemma foreign_encoded: "foreign uid (encode_statement s) \<longleftrightarrow> st_sid s \<noteq> sid uid"
  by (auto simp: foreign_def encode_statement_def encode_principal_def encode_slice_def decode_statement_fields_def json_field_Cons
      to_lower_keys decode_strings_map split: option.split)

lemma decode_statements_all: "decode_statements js = Inr ss \<Longrightarrow> list_all2 (\<lambda>j s. decode_statement j = Inr s) js ss"
  by (induction js arbitrary: ss) (auto split: sum.splits)

lemma parsed_statements:
  assumes "parsePolicy raw = Inr doc"
  shows "list_all2 (\<lambda>j s. decode_statement j = Inr s) (document_statements raw) (bp_statements doc)"
proof (cases "trim_space raw = []")
  case True
  then show ?thesis using assms by (auto simp: parsePolicy_def document_statements_def)
next
  case False
  then obtain j p where j: "json_parse raw = Inr j" "decode_policy j = Inr p" "bp_statements doc = bp_statements p"
    using assms by (auto simp: parsePolicy_def split: sum.splits if_splits)
  then show ?thesis
    using False by (cases j) (auto simp: document_statements_def decode_statements_all split: sum.splits option.splits json.splits)
qed

lemma document_marshal: "document_statements (marshal p) = map encode_statement (bp_statements p)"
proof (cases "bp_statements p = []")
  case True
  then show ?thesis by (simp add: marshal_def document_statements_def trim_space_def)
next
  case False
  obtain ms where ms: "encode_policy p = JObj ms" by (simp add: encode_policy_def)
  have "json_field ''Statement'' ms = Some (JArr (map encode_statement (bp_statements p)))"
    using ms by (auto simp: encode_policy_def json_field_Cons to_lower_keys)
  then show ?thesis
    using False trim_print_obj [of ms] json_parse_print [OF exact_encode, of p]
    by (simp add: marshal_def document_statements_def ms)
qed

lemma foreign_filter:
  "list_all2 (\<lambda>j s. decode_statement j = Inr s) js ss \<Longrightarrow>
     map rewritten (filter (foreign uid) js) = map encode_statement (filter (\<lambda>s. st_sid s \<noteq> sid uid) ss)"
  by (induction rule: list_all2_induct) (simp_all add: foreign_def rewritten_def)

lemma others_kept_marshal:
  assumes "parsePolicy raw = Inr doc"
    and "filter (\<lambda>s. st_sid s \<noteq> sid uid) (bp_statements doc') = filter (\<lambda>s. st_sid s \<noteq> sid uid) (bp_statements doc)"
  shows "others_kept uid raw (marshal doc')"
  using foreign_filter [OF parsed_statements [OF assms(1)], of uid] assms(2)
  by (simp add: others_kept_def document_marshal filter_map comp_def foreign_encoded)

section \<open>Properties\<close>

text \<open>Granting is an upsert: the statements of every other Sid stay as they are, in order; the first statement of
  the user is the one asked for; an unchanged document is returned as it was; and granting again changes nothing.\<close>

theorem upsert_keeps_others:
  "case upsert p uid bkt actions of (p', changed) \<Rightarrow>
     filter (\<lambda>s. st_sid s \<noteq> sid uid) (bp_statements p') = filter (\<lambda>s. st_sid s \<noteq> sid uid) (bp_statements p)
   \<and> (\<exists>s. find (\<lambda>s. st_sid s = sid uid) (bp_statements p') = Some s \<and> statementEqual s (access_statement uid bkt actions))
   \<and> (changed \<or> p' = p)
   \<and> upsert p' uid bkt actions = (p', False)"
proof -
  obtain out changed where u: "upsert_loop (access_statement uid bkt actions) (bp_statements p) = (out, changed)" by fastforce
  have id: "st_sid (access_statement uid bkt actions) = sid uid" by (simp add: access_statement_def)
  have same: "changed \<or> out = bp_statements p"
    using upsert_loop_unchanged u by (cases changed) auto
  show ?thesis
    using upsert_loop_others [OF u] upsert_loop_own [OF u] upsert_loop_again [OF u] same
    unfolding id by (auto simp: upsert_def u)
qed

text \<open>C23: A policy document survives being written and read back: with a version, at least one statement and no nil
  slice, parsing what \<open>marshal\<close> prints gives the document again.\<close>

theorem policy_roundtrip:
  assumes "bp_version p \<noteq> []" and "bp_statements p \<noteq> []" and "\<forall>s \<in> set (bp_statements p). complete_statement s"
  shows "parsePolicy (marshal p) = Inr p"
proof -
  obtain ms where ms: "encode_policy p = JObj ms" by (simp add: encode_policy_def)
  show ?thesis
    using parse_printed [of ms] exact_encode [of p] decode_encode_policy [OF assms(3)] assms(1,2)
    by (simp add: marshal_def ms)
qed

lemma policy_roundtrip_witness:
  "parsePolicy (marshal \<lparr>bp_version = ''2012-10-17'', bp_statements = [access_statement ''team-a.app'' ''logs'' [''s3:GetObject'']]\<rparr>)
     = Inr \<lparr>bp_version = ''2012-10-17'', bp_statements = [access_statement ''team-a.app'' ''logs'' [''s3:GetObject'']]\<rparr>"
  by (rule policy_roundtrip) (simp_all add: complete_statement_def complete_principal_def access_statement_def)

definition policy_document :: "json list \<Rightarrow> json" where
  "policy_document ss = JObj [(''Version'', JStr ''2012-10-17''), (''Statement'', JArr ss)]"

definition open_to_all :: "(string \<times> json) list \<Rightarrow> json" where
  "open_to_all extra = JObj ([(''Sid'', JStr ''office''), (''Effect'', JStr ''Allow''), (''Principal'', JStr ''*''),
     (''Action'', JArr [JStr ''s3:GetObject'']), (''Resource'', JArr [JStr ''arn:aws:s3:::logs/*''])] @ extra)"

text \<open>A finding. The rewrite of the document drops what the structs do not name: a foreign statement that allows everyone
  under a condition is written back without the condition when an access is granted, so it then holds
  unconditionally.\<close>

theorem policy_condition_dropped:
  assumes "exact cond"
  shows "\<exists>p. parsePolicy (json_print (policy_document [open_to_all [(''Condition'', cond)]])) = Inr p
    \<and> json_parse (marshal (fst (upsert p uid ''logs'' actions)))
        = Inr (policy_document [open_to_all [], encode_statement (access_statement uid ''logs'' actions)])"
proof -
  let ?s = "\<lparr>st_sid = ''office'', st_effect = ''Allow'', st_principal = \<lparr>pp_aws = None, pp_wildcard = True\<rparr>,
     st_action = Some [''s3:GetObject''], st_resource = Some [''arn:aws:s3:::logs/*'']\<rparr>"
  let ?p = "\<lparr>bp_version = ''2012-10-17'', bp_statements = [?s]\<rparr>"
  have "parsePolicy (json_print (policy_document [open_to_all [(''Condition'', cond)]])) = Inr ?p"
    using assms unfolding policy_document_def open_to_all_def
    by (subst parse_printed) (simp_all add: json_field_Cons to_lower_keys decode_statement_fields_def)
  moreover have "upsert ?p uid ''logs'' actions
      = (?p\<lparr>bp_statements := [?s, access_statement uid ''logs'' actions]\<rparr>, True)"
    by (simp add: upsert_def access_statement_def sid_def)
  moreover have "encode_statement ?s = open_to_all []"
    by (simp add: encode_statement_def encode_principal_def encode_slice_def open_to_all_def)
  moreover have "json_parse (marshal q) = Inr (policy_document (map encode_statement (bp_statements q)))"
    if "bp_statements q \<noteq> []" "bp_version q = ''2012-10-17''" for q
    using json_parse_print [OF exact_encode, of q] that by (simp add: marshal_def encode_policy_def policy_document_def)
  ultimately show ?thesis
    by (intro exI [of _ ?p] conjI) (simp_all)
qed

lemma policy_condition_dropped_witness:
  "\<exists>p. parsePolicy (json_print (policy_document
         [open_to_all [(''Condition'', JObj [(''IpAddress'', JObj [(''aws:SourceIp'', JStr ''10.0.0.0/8'')])])]])) = Inr p
    \<and> json_parse (marshal (fst (upsert p ''team.app'' ''logs'' [''s3:GetObject''])))
        = Inr (policy_document [open_to_all [], encode_statement (access_statement ''team.app'' ''logs'' [''s3:GetObject''])])"
  by (rule policy_condition_dropped) simp

end
