(* ===== verification/Ceph_Rgw.thy ===== *)
theory Ceph_Rgw
  imports Ceph_Policy S3_Util
begin

text \<open>
  \<open>backend/cephrgw\<close>: the driver of the Heavy profile. A cluster is a Rook \<open>CephObjectStore\<close> of the sds-elastic module, a
  bucket is owned by a Rook user of its own, an access is a Rook user that the bucket policy grants. Rook and its resources are
  reached through the Kubernetes client only; the maps of their specifications are JSON objects with the keys in
  alphabetical order, so that equal maps are equal values.
\<close>

section \<open>Resources\<close>

record 'w ceph_env =
  ce_kube :: "'w kube"
  ce_s3 :: "'w s3_api"
  ce_own :: "object_meta \<Rightarrow> object_meta \<Rightarrow> object_meta result"
  ce_cluster_domain :: string

definition elasticNamespace :: string where "elasticNamespace = ''d8-sds-elastic''"
definition s3Region :: string where "s3Region = ''us-east-1''"
definition metadataPoolReplicas :: int where "metadataPoolReplicas = 3"
definition rgwPort :: int where "rgwPort = 80"

definition cephObjectStoreGVK :: string where
  "cephObjectStoreGVK = ''internal.sdselastic.deckhouse.io/v1, Kind=CephObjectStore''"

definition cephObjectStoreUserGVK :: string where
  "cephObjectStoreUserGVK = ''internal.sdselastic.deckhouse.io/v1, Kind=CephObjectStoreUser''"

definition elasticClusterGVK :: string where
  "elasticClusterGVK = ''storage.deckhouse.io/v1alpha1, Kind=ElasticCluster''"

definition storeName :: "object_store \<Rightarrow> string" where
  "storeName cluster = m_name (os_meta cluster)"

definition cephLabels :: "object_store \<Rightarrow> str_map" where
  "cephLabels cluster = [''app.kubernetes.io/managed-by'' \<mapsto> ''sds-object'', ''app.kubernetes.io/name'' \<mapsto> ''ceph-rgw'',
     ''storage.deckhouse.io/object-store'' \<mapsto> m_name (os_meta cluster)]"

definition rgwHostPort :: "object_store \<Rightarrow> string \<Rightarrow> string" where
  "rgwHostPort cluster clusterDomain =
     ''rook-ceph-rgw-'' @ storeName cluster @ ''.'' @ elasticNamespace @ ''.svc.'' @ clusterDomain @ '':'' @ itoa rgwPort"

definition rgwEndpoint :: "object_store \<Rightarrow> string \<Rightarrow> string" where
  "rgwEndpoint cluster clusterDomain =
     ''http://rook-ceph-rgw-'' @ storeName cluster @ ''.'' @ elasticNamespace @ ''.svc.'' @ clusterDomain @ '':'' @ itoa rgwPort"

definition ownerUID :: "bucket \<Rightarrow> string" where
  "ownerUID b = BucketDisplayName b @ ''-owner''"

definition accessUID :: "bucket_access \<Rightarrow> string" where
  "accessUID access = AccessResourceName access"

definition rgwUserSecretName :: "object_store \<Rightarrow> string \<Rightarrow> string" where
  "rgwUserSecretName cluster uid = ''rook-ceph-object-user-'' @ storeName cluster @ ''-'' @ uid"

definition rookUserQuotas :: "bucket_quota option \<Rightarrow> json option" where
  "rookUserQuotas quota =
     (case quota of
        None \<Rightarrow> None
      | Some q \<Rightarrow>
          (let m = (if q_max_objects q > 0 then [(''maxObjects'', JNum (q_max_objects q))] else [])
                 @ (if q_max_size q \<noteq> [] then [(''maxSize'', JStr (q_max_size q))] else []) in
           if m = [] then None else Some (JObj m)))"

definition buildCephObjectStoreUser :: "object_store \<Rightarrow> string \<Rightarrow> bucket_quota option \<Rightarrow> unstructured" where
  "buildCephObjectStoreUser cluster uid quota =
     \<lparr>un_meta = fresh_meta uid elasticNamespace (cephLabels cluster),
      un_spec = JObj ([(''displayName'', JStr uid)]
        @ (case rookUserQuotas quota of None \<Rightarrow> [] | Some q \<Rightarrow> [(''quotas'', q)])
        @ [(''store'', JStr (storeName cluster))]),
      un_status = JNull\<rparr>"

definition pool_size :: "object_store \<Rightarrow> int \<times> bool" where
  "pool_size cluster =
     (case os_redundancy (os_spec cluster) of
        RedundancyNone \<Rightarrow> (2, False)
      | RedundancyHigh \<Rightarrow> (4, True)
      | _ \<Rightarrow> (3, True))"

definition replicatedPool :: "object_store \<Rightarrow> json" where
  "replicatedPool cluster =
     (case pool_size cluster of (copies, safe) \<Rightarrow> JObj [(''requireSafeReplicaSize'', JBool safe), (''size'', JNum copies)])"

definition buildCephObjectStore :: "object_store \<Rightarrow> unstructured" where
  "buildCephObjectStore cluster =
     \<lparr>un_meta = fresh_meta (storeName cluster) elasticNamespace (cephLabels cluster),
      un_spec = JObj
        [(''dataPool'', JObj [(''failureDomain'', JStr ''host''), (''replicated'', replicatedPool cluster)]),
         (''gateway'', JObj [(''instances'', JNum 1), (''port'', JNum rgwPort)]),
         (''metadataPool'', JObj [(''failureDomain'', JStr ''host''),
            (''replicated'', JObj [(''requireSafeReplicaSize'', JBool True), (''size'', JNum metadataPoolReplicas)])]),
         (''preservePoolsOnDelete'', JBool (os_reclaim_policy (os_spec cluster) \<noteq> ClusterReclaimDelete))],
      un_status = JNull\<rparr>"

definition objectStoreKey :: "object_store \<Rightarrow> key" where
  "objectStoreKey cluster = (elasticNamespace, storeName cluster)"

section \<open>Creating and updating\<close>

definition unstructuredManagedFieldsChanged :: "unstructured \<Rightarrow> unstructured \<Rightarrow> bool" where
  "unstructuredManagedFieldsChanged existing desired \<longleftrightarrow>
     un_spec existing \<noteq> un_spec desired \<or> m_labels (un_meta existing) \<noteq> m_labels (un_meta desired)
     \<or> m_owner (un_meta existing) \<noteq> m_owner (un_meta desired)"

abbreviation stores_of :: "('w, 'x) ceph_env_scheme \<Rightarrow> (unstructured, 'w) resource" where
  "stores_of E \<equiv> k_unstructured (ce_kube E) cephObjectStoreGVK"

abbreviation users_of :: "('w, 'x) ceph_env_scheme \<Rightarrow> (unstructured, 'w) resource" where
  "users_of E \<equiv> k_unstructured (ce_kube E) cephObjectStoreUserGVK"

text \<open>The body that \<open>ensureObjectStore\<close> and \<open>ensureUser\<close> share.\<close>

definition managed_update :: "unstructured \<Rightarrow> unstructured \<Rightarrow> unstructured" where
  "managed_update existing desired =
     existing\<lparr>un_spec := un_spec desired,
       un_meta := (un_meta existing)\<lparr>m_labels := m_labels (un_meta desired), m_owner := m_owner (un_meta desired)\<rparr>\<rparr>"

definition ensure_managed ::
  "('w, 'x) ceph_env_scheme \<Rightarrow> string \<Rightarrow> object_store \<Rightarrow> unstructured \<Rightarrow> ('w, go_error option) go" where
  "ensure_managed E gvk cluster built =
     (case ce_own E (os_meta cluster) (un_meta built) of
        Inl err \<Rightarrow> return (Some err)
      | Inr m \<Rightarrow>
          (let desired = built\<lparr>un_meta := m\<rparr>; res = k_unstructured (ce_kube E) gvk in
           do { r \<leftarrow> kget Uncached (KUnstructured gvk) OUnstructured res (m_namespace (un_meta built), m_name (un_meta built));
                case r of
                  Inl err \<Rightarrow>
                    (if is_not_found err then kcreate (KUnstructured gvk) OUnstructured res desired else return (Some err))
                | Inr existing \<Rightarrow>
                    (if \<not> unstructuredManagedFieldsChanged existing desired then return None
                     else kupdate (KUnstructured gvk) OUnstructured res (managed_update existing desired)) }))"

definition ensureObjectStore :: "('w, 'x) ceph_env_scheme \<Rightarrow> object_store \<Rightarrow> ('w, go_error option) go" where
  "ensureObjectStore E cluster = ensure_managed E cephObjectStoreGVK cluster (buildCephObjectStore cluster)"

definition ensureUser ::
  "('w, 'x) ceph_env_scheme \<Rightarrow> object_store \<Rightarrow> string \<Rightarrow> bucket_quota option \<Rightarrow> ('w, go_error option) go" where
  "ensureUser E cluster uid quota = ensure_managed E cephObjectStoreUserGVK cluster (buildCephObjectStoreUser cluster uid quota)"

definition deleteUser :: "('w, 'x) ceph_env_scheme \<Rightarrow> string \<Rightarrow> ('w, go_error option) go" where
  "deleteUser E uid =
     do { r \<leftarrow> kdelete (KUnstructured cephObjectStoreUserGVK) (users_of E) (elasticNamespace, uid);
          return (case r of
              None \<Rightarrow> None
            | Some err \<Rightarrow> if \<not> is_not_found err \<and> \<not> is_no_match err
                then Some (wrap_err (''delete CephObjectStoreUser '' @ quoted uid @ '': '') err) else None) }"

definition user_keys_of :: "secret \<Rightarrow> string \<times> string" where
  "user_keys_of s = (map_str (sec_data s) ''AccessKey'', map_str (sec_data s) ''SecretKey'')"

definition userKeys :: "('w, 'x) ceph_env_scheme \<Rightarrow> object_store \<Rightarrow> string \<Rightarrow> ('w, (string \<times> string) result) go" where
  "userKeys E cluster uid =
     do { r \<leftarrow> kget Uncached KSecret OSecret (k_secrets (ce_kube E)) (elasticNamespace, rgwUserSecretName cluster uid);
          return (case r of
              Inl err \<Rightarrow> if is_not_found err then Inr ([], []) else Inl err
            | Inr s \<Rightarrow> Inr (user_keys_of s)) }"

section \<open>The cluster\<close>

definition ceph_waiting :: "cluster_state \<Rightarrow> string \<Rightarrow> cluster_state \<times> go_error option" where
  "ceph_waiting st msg = (st\<lparr>cs_message := msg\<rparr>, None)"

definition ceph_store_ready :: "('w, 'x) ceph_env_scheme \<Rightarrow> object_store \<Rightarrow> cluster_state \<Rightarrow> ('w, cluster_state \<times> go_error option) go" where
  "ceph_store_ready E cluster st =
     do { r \<leftarrow> kget Uncached (KUnstructured cephObjectStoreGVK) OUnstructured (stores_of E) (objectStoreKey cluster);
          return (case r of
              Inl err \<Rightarrow> (st, Some (wrap_err ''get CephObjectStore: '' err))
            | Inr s \<Rightarrow>
                (let phase = nested_string (un_status s) [''phase''] in
                 if phase \<noteq> ''Ready''
                 then ceph_waiting st (''waiting for CephObjectStore to be Ready (phase='' @ quoted phase @ '')'')
                 else (st\<lparr>cs_ready := True, cs_message := ''Ceph RGW is ready'',
                     cs_endpoint := \<lparr>ep_internal = rgwEndpoint cluster (ce_cluster_domain E), ep_region = s3Region\<rparr>\<rparr>, None))) }"

definition cephEnsureCluster :: "('w, 'x) ceph_env_scheme \<Rightarrow> object_store \<Rightarrow> ('w, cluster_state \<times> go_error option) go" where
  "cephEnsureCluster E cluster =
     (let st = empty_cluster_state\<lparr>cs_backend := \<lparr>be_type = BackendCephRGW, be_version = []\<rparr>\<rparr>;
          ref = os_elastic_cluster_ref (os_spec cluster) in
      if ref = [] then return (ceph_waiting st ''spec.elasticClusterRef is required for type Heavy'')
      else do { r \<leftarrow> kget Uncached (KUnstructured elasticClusterGVK) OUnstructured
                      (k_unstructured (ce_kube E) elasticClusterGVK) ([], ref);
        case r of
          Inl err \<Rightarrow> return
            (if is_not_found err then ceph_waiting st (''ElasticCluster '' @ quoted ref @ '' not found'')
             else if is_no_match err
             then ceph_waiting st ''ElasticCluster CRD not found; is the sds-elastic module installed?''
             else (st, Some (wrap_err (''get ElasticCluster '' @ quoted ref @ '': '') err)))
        | Inr ec \<Rightarrow>
            (let phase = nested_string (un_status ec) [''phase''] in
             if phase \<noteq> ''Ready''
             then return (ceph_waiting st (''ElasticCluster '' @ quoted ref @ '' is not Ready (phase='' @ quoted phase @ '')''))
             else
              (let v = nested_string (un_status ec) [''cephVersion'', ''running''];
                   st = (if v \<noteq> [] then st\<lparr>cs_backend := \<lparr>be_type = BackendCephRGW, be_version = v\<rparr>\<rparr> else st) in
               do { e \<leftarrow> ensureObjectStore E cluster;
                 case e of
                   Some err \<Rightarrow> return
                     (if is_no_match err
                      then ceph_waiting st ''CephObjectStore CRD not found; is the sds-elastic module installed?''
                      else (st, Some (wrap_err ''ensure CephObjectStore: '' err)))
                 | None \<Rightarrow> ceph_store_ready E cluster st })) })"

definition cephDeleteCluster :: "('w, 'x) ceph_env_scheme \<Rightarrow> object_store \<Rightarrow> ('w, go_error option) go" where
  "cephDeleteCluster E cluster =
     do { r \<leftarrow> kdelete (KUnstructured cephObjectStoreGVK) (stores_of E) (objectStoreKey cluster);
          return (case r of
              None \<Rightarrow> None
            | Some err \<Rightarrow> if is_not_found err \<or> is_no_match err then None else Some err) }"

section \<open>Buckets\<close>

definition cephRGWUnsupported :: "bucket \<Rightarrow> string list" where
  "cephRGWUnsupported b = filter (\<lambda>f. f \<noteq> FeatureQuota) (RequestedFeatures b)"

definition ceph_client :: "('w, 'x) ceph_env_scheme \<Rightarrow> object_store \<Rightarrow> string \<Rightarrow> string \<Rightarrow> s3_client result" where
  "ceph_client E cluster ak sk = S3_NewClient (ce_s3 E) (rgwHostPort cluster (ce_cluster_domain E)) ak sk"

definition no_user_crd :: string where
  "no_user_crd = ''CephObjectStoreUser CRD not found; is the sds-elastic module installed?''"

definition cephEnsureBucket ::
  "('w, 'x) ceph_env_scheme \<Rightarrow> object_store \<Rightarrow> bucket \<Rightarrow> ('w, bucket_state \<times> go_error option) go" where
  "cephEnsureBucket E cluster b =
     do { e \<leftarrow> ensureUser E cluster (ownerUID b) (b_quota (b_spec b));
          case e of
            Some err \<Rightarrow> return
              (if is_no_match err then (empty_bucket_state\<lparr>bst_message := no_user_crd\<rparr>, None)
               else (empty_bucket_state, Some (wrap_err ''ensure owner CephObjectStoreUser: '' err)))
          | None \<Rightarrow>
            do { k \<leftarrow> userKeys E cluster (ownerUID b);
              case k of
                Inl err \<Rightarrow> return (empty_bucket_state, Some err)
              | Inr (ak, sk) \<Rightarrow>
                  if ak = [] \<or> sk = []
                  then return (empty_bucket_state\<lparr>bst_message := ''waiting for Rook to issue the bucket owner credentials''\<rparr>, None)
                  else (case ceph_client E cluster ak sk of
                      Inl err \<Rightarrow> return (empty_bucket_state, Some (wrap_err ''build S3 client: '' err))
                    | Inr mc \<Rightarrow>
                        do { r \<leftarrow> S3_EnsureBucket (ce_s3 E) mc (BucketDisplayName b) s3Region;
                             return (case r of
                                 Some err \<Rightarrow> (empty_bucket_state, Some err)
                               | None \<Rightarrow> (\<lparr>bst_ready = True, bst_message = ''bucket provisioned'',
                                   bst_bucket_name = BucketDisplayName b, bst_unsupported = cephRGWUnsupported b\<rparr>, None)) }) } }"

definition cephDeleteBucket :: "('w, 'x) ceph_env_scheme \<Rightarrow> object_store \<Rightarrow> bucket \<Rightarrow> ('w, go_error option) go" where
  "cephDeleteBucket E cluster b =
     (if b_reclaim_policy (b_spec b) \<noteq> BucketReclaimDelete then return None
      else do { k \<leftarrow> userKeys E cluster (ownerUID b);
        case k of
          Inl err \<Rightarrow> return (Some err)
        | Inr (ak, sk) \<Rightarrow>
            if ak \<noteq> [] \<and> sk \<noteq> []
            then (case ceph_client E cluster ak sk of
                Inl err \<Rightarrow> return (Some (wrap_err ''build S3 client: '' err))
              | Inr mc \<Rightarrow>
                  do { r \<leftarrow> S3_DeleteBucket (ce_s3 E) mc (BucketDisplayName b);
                       case r of Some err \<Rightarrow> return (Some err) | None \<Rightarrow> deleteUser E (ownerUID b) })
            else deleteUser E (ownerUID b) })"

section \<open>Accesses\<close>

definition policyActions :: "access_permission \<Rightarrow> string list" where
  "policyActions perm =
     (if perm = AccessReadOnly then [''s3:GetObject'', ''s3:ListBucket'', ''s3:GetBucketLocation'']
      else [''s3:GetObject'', ''s3:PutObject'', ''s3:DeleteObject'', ''s3:ListBucket'', ''s3:GetBucketLocation'',
            ''s3:AbortMultipartUpload'', ''s3:ListMultipartUploadParts'', ''s3:ListBucketMultipartUploads''])"

definition ownerClient :: "('w, 'x) ceph_env_scheme \<Rightarrow> object_store \<Rightarrow> bucket \<Rightarrow> ('w, s3_client option result) go" where
  "ownerClient E cluster b =
     do { k \<leftarrow> userKeys E cluster (ownerUID b);
          return (case k of
              Inl err \<Rightarrow> Inl err
            | Inr (ak, sk) \<Rightarrow> if ak = [] \<or> sk = [] then Inr None else map_sum id Some (ceph_client E cluster ak sk)) }"

text \<open>What \<open>updateBucketPolicy\<close> makes of the document: \<open>None\<close> actions remove the statement.\<close>

definition changed_policy :: "bucketPolicy \<Rightarrow> string \<Rightarrow> string \<Rightarrow> string list option \<Rightarrow> bucketPolicy \<times> bool" where
  "changed_policy doc bucketName uid actions =
     (case actions of None \<Rightarrow> remove_statement doc uid | Some acts \<Rightarrow> upsert doc uid bucketName acts)"

definition updateBucketPolicy ::
  "('w, 'x) ceph_env_scheme \<Rightarrow> s3_client \<Rightarrow> string \<Rightarrow> string \<Rightarrow> string list option \<Rightarrow> ('w, go_error option) go" where
  "updateBucketPolicy E owner bucketName uid actions =
     do { r \<leftarrow> S3_GetBucketPolicy (ce_s3 E) owner bucketName;
          case r of
            Inl err \<Rightarrow> return (Some err)
          | Inr raw \<Rightarrow>
              (case parsePolicy raw of
                 Inl err \<Rightarrow> return (Some (wrap_err (''bucket '' @ quoted bucketName @ '': refusing to modify an unparseable policy: '') err))
               | Inr doc \<Rightarrow>
                   (case changed_policy doc bucketName uid actions of (doc', changed) \<Rightarrow>
                      if \<not> changed then return None
                      else S3_SetBucketPolicy (ce_s3 E) owner bucketName (marshal doc'))) }"

definition grantBucketAccess ::
  "('w, 'x) ceph_env_scheme \<Rightarrow> object_store \<Rightarrow> bucket \<Rightarrow> string \<Rightarrow> access_permission \<Rightarrow> ('w, go_error option) go" where
  "grantBucketAccess E cluster b uid perm =
     do { o1 \<leftarrow> ownerClient E cluster b;
          case o1 of
            Inl err \<Rightarrow> return (Some err)
          | Inr None \<Rightarrow> return (Some (new_err ''bucket owner credentials not available yet''))
          | Inr (Some owner) \<Rightarrow> updateBucketPolicy E owner (BucketDisplayName b) uid (Some (policyActions perm)) }"

definition rgw_recorded :: "bucket_access \<Rightarrow> string" where
  "rgw_recorded access = (case ba_status access of None \<Rightarrow> [] | Some s \<Rightarrow> bas_access_key_id s)"

definition user_error :: "go_error \<Rightarrow> access_state \<times> go_error option" where
  "user_error err =
     (if is_no_match err then (empty_access_state\<lparr>as_message := no_user_crd\<rparr>, None)
      else (empty_access_state, Some (wrap_err ''ensure CephObjectStoreUser: '' err)))"

text \<open>The last part of \<open>EnsureAccess\<close>, with the keys it ended up with.\<close>

definition ceph_hand_out ::
  "('w, 'x) ceph_env_scheme \<Rightarrow> object_store \<Rightarrow> bucket \<Rightarrow> bucket_access \<Rightarrow> string \<Rightarrow> string \<Rightarrow>
     ('w, access_state \<times> go_error option) go" where
  "ceph_hand_out E cluster b access ak sk =
     (if ak = [] \<or> sk = [] then return (empty_access_state\<lparr>as_message := ''waiting for Rook to issue RGW user credentials''\<rparr>, None)
      else do { g \<leftarrow> grantBucketAccess E cluster b (accessUID access) (ba_permission (ba_spec access));
        return (case g of
            Some err \<Rightarrow> (empty_access_state, Some err)
          | None \<Rightarrow> (\<lparr>as_ready = True, as_message = ''access key provisioned'', as_access_key_id = ak,
                    as_secret_access_key = sk\<rparr>, None)) })"

definition ceph_rotate ::
  "('w, 'x) ceph_env_scheme \<Rightarrow> object_store \<Rightarrow> string \<Rightarrow> ('w, access_state \<times> go_error option) go" where
  "ceph_rotate E cluster uid =
     do { d \<leftarrow> deleteUser E uid;
          case d of
            Some err \<Rightarrow> return (empty_access_state, Some err)
          | None \<Rightarrow>
              do { e \<leftarrow> ensureUser E cluster uid None;
                   return (case e of
                       Some err \<Rightarrow> user_error err
                     | None \<Rightarrow> (empty_access_state\<lparr>as_message := ''rotating RGW user credentials''\<rparr>, None)) } }"

definition cephEnsureAccess ::
  "('w, 'x) ceph_env_scheme \<Rightarrow> object_store \<Rightarrow> bucket \<Rightarrow> bucket_access \<Rightarrow> bool \<Rightarrow> ('w, access_state \<times> go_error option) go" where
  "cephEnsureAccess E cluster b access mintFresh =
     (let uid = accessUID access in
      do { k \<leftarrow> userKeys E cluster uid;
        case k of
          Inl err \<Rightarrow> return (empty_access_state, Some err)
        | Inr (ak, sk) \<Rightarrow>
            if mintFresh
            then (if ak = [] \<or> ak = rgw_recorded access then ceph_rotate E cluster uid
                  else ceph_hand_out E cluster b access ak sk)
            else do { e \<leftarrow> ensureUser E cluster uid None;
              case e of
                Some err \<Rightarrow> return (user_error err)
              | None \<Rightarrow>
                do { k2 \<leftarrow> userKeys E cluster uid;
                  case k2 of
                    Inl err \<Rightarrow> return (empty_access_state, Some err)
                  | Inr (ak, sk) \<Rightarrow> ceph_hand_out E cluster b access ak sk } } })"

definition cephDeleteAccess ::
  "('w, 'x) ceph_env_scheme \<Rightarrow> object_store \<Rightarrow> bucket \<Rightarrow> bucket_access \<Rightarrow> ('w, go_error option) go" where
  "cephDeleteAccess E cluster b access =
     (let uid = accessUID access in
      do { o1 \<leftarrow> ownerClient E cluster b;
        case o1 of
          Inr (Some owner) \<Rightarrow>
            do { r \<leftarrow> updateBucketPolicy E owner (BucketDisplayName b) uid None;
                 case r of Some err \<Rightarrow> return (Some err) | None \<Rightarrow> deleteUser E uid }
        | Inr None \<Rightarrow> deleteUser E uid
        | Inl _ \<Rightarrow> deleteUser E uid })"

definition cephDriver :: "('w, 'x) ceph_env_scheme \<Rightarrow> 'w driver" where
  "cephDriver E =
     \<lparr>d_type = BackendCephRGW,
      d_ensure_cluster = (\<lambda>c. opaque (cephEnsureCluster E c)),
      d_delete_cluster = (\<lambda>c. opaque (cephDeleteCluster E c)),
      d_ensure_bucket = (\<lambda>c b. opaque (cephEnsureBucket E c b)),
      d_delete_bucket = (\<lambda>c b. opaque (cephDeleteBucket E c b)),
      d_ensure_access = (\<lambda>c b a f. opaque (cephEnsureAccess E c b a f)),
      d_delete_access = (\<lambda>c b a. opaque (cephDeleteAccess E c b a))\<rparr>"

text \<open>It keeps the contract of drivers.\<close>

lemma ceph_answers:
  "yields (cluster_answer_ok BackendCephRGW) (cephEnsureCluster E c)"
  "yields (bucket_answer_ok b) (cephEnsureBucket E c b)"
  "yields access_answer_ok (cephEnsureAccess E c b a f)"
  unfolding cephEnsureCluster_def ceph_store_ready_def cephEnsureBucket_def
    cephEnsureAccess_def ceph_rotate_def ceph_hand_out_def
  by (intro yields_rules; auto simp: answer_defs Let_def ceph_waiting_def user_error_def cephRGWUnsupported_def rgwEndpoint_def split: option.splits sum.splits)+

interpretation ceph: driver_contract "cephDriver E" for E
  by unfold_locales (simp_all add: cephDriver_def opaque_fst ceph_answers cephDeleteBucket_def)

section \<open>The bucket policy\<close>

definition own_statements :: "string \<Rightarrow> bucketPolicy \<Rightarrow> policyStatement list" where
  "own_statements uid p = filter (\<lambda>s. st_sid s = sid uid) (bp_statements p)"

definition other_statements :: "string \<Rightarrow> bucketPolicy \<Rightarrow> policyStatement list" where
  "other_statements uid p = filter (\<lambda>s. st_sid s \<noteq> sid uid) (bp_statements p)"

text \<open>The contract of a rewrite: the version and the statements of others stay; the user's own statement is the one
  asked for, or gone.\<close>

definition policy_rewrite :: "string \<Rightarrow> string \<Rightarrow> string list option \<Rightarrow> bucketPolicy \<Rightarrow> bucketPolicy \<Rightarrow> bool" where
  "policy_rewrite bkt uid actions doc doc' \<longleftrightarrow> bp_version doc' = bp_version doc
     \<and> other_statements uid doc' = other_statements uid doc
     \<and> (case actions of
          None \<Rightarrow> own_statements uid doc' = []
        | Some acts \<Rightarrow> (\<exists>s rest. own_statements uid doc' = s # rest \<and> statementEqual s (access_statement uid bkt acts)))"

definition policy_text :: "string \<Rightarrow> string \<Rightarrow> string \<Rightarrow> bucketPolicy \<Rightarrow> event list \<Rightarrow> bool" where
  "policy_text ep bkt raw doc u \<longleftrightarrow> EvS3 ep (GetBucketPolicy bkt) (S3Text (Inr raw)) \<in> set u \<and> parsePolicy raw = Inr doc"

definition policy_read :: "string \<Rightarrow> string \<Rightarrow> bucketPolicy \<Rightarrow> event list \<Rightarrow> bool" where
  "policy_read ep bkt doc u \<longleftrightarrow> (\<exists>raw. policy_text ep bkt raw doc u)"

definition ceph_policy_event_ok :: "string \<Rightarrow> string \<Rightarrow> string list option \<Rightarrow> event list \<Rightarrow> event \<Rightarrow> bool" where
  "ceph_policy_event_ok bkt uid actions u e \<longleftrightarrow> (case e of
      EvS3 ep rq r \<Rightarrow> (case rq of
          GetBucketPolicy n \<Rightarrow> n = bkt
        | SetBucketPolicy n text \<Rightarrow> n = bkt
            \<and> (\<exists>raw doc doc'. policy_text ep bkt raw doc u \<and> policy_rewrite bkt uid actions doc doc' \<and> text = marshal doc'
                \<and> others_kept uid raw text)
        | _ \<Rightarrow> False)
    | _ \<Rightarrow> False)"

text \<open>The policy in force after a run: the one read, when it was as asked, or the one written.\<close>

definition policy_in_force :: "string \<Rightarrow> string \<Rightarrow> string \<Rightarrow> string list option \<Rightarrow> event list \<Rightarrow> bool" where
  "policy_in_force ep bkt uid actions u \<longleftrightarrow> (\<exists>doc doc'. policy_read ep bkt doc u \<and> policy_rewrite bkt uid actions doc doc'
     \<and> (doc' = doc \<or> EvS3 ep (SetBucketPolicy bkt (marshal doc')) (S3Done None) \<in> set u))"

lemma find_filter: "find P xs = Some x \<Longrightarrow> \<exists>rest. filter P xs = x # rest"
  by (induction xs) (auto split: if_splits)

lemma changed_policy_rewrite:
  assumes "changed_policy doc bkt uid actions = (doc', changed)"
  shows "policy_rewrite bkt uid actions doc doc' \<and> (changed \<or> doc' = doc)"
proof (cases actions)
  case None
  with assms show ?thesis
    by (auto simp: changed_policy_def remove_statement_def policy_rewrite_def own_statements_def other_statements_def
        filter_empty_conv list_ex_iff intro: filter_eq_self)
next
  case (Some acts)
  obtain out where u: "upsert_loop (access_statement uid bkt acts) (bp_statements doc) = (out, changed)"
    and d: "doc' = doc\<lparr>bp_statements := out\<rparr>"
    using assms by (auto simp: changed_policy_def upsert_def Some split: prod.splits)
  have id: "st_sid (access_statement uid bkt acts) = sid uid" by (simp add: access_statement_def)
  have "changed \<or> out = bp_statements doc" using upsert_loop_unchanged u by (cases changed) auto
  with upsert_loop_others [OF u] upsert_loop_own [OF u] show ?thesis
    unfolding id by (auto simp: d policy_rewrite_def own_statements_def other_statements_def Some dest!: find_filter)
qed

lemma rewrite_keeps_others:
  assumes "policy_rewrite bkt uid actions doc doc'" and "parsePolicy raw = Inr doc"
  shows "others_kept uid raw (marshal doc')"
  using others_kept_marshal [OF assms(2), of uid doc'] assms(1) by (simp add: policy_rewrite_def other_statements_def)



definition policy_steps :: "string \<Rightarrow> string \<Rightarrow> string \<Rightarrow> string list option \<Rightarrow> event list \<Rightarrow> bool" where
  "policy_steps ep bkt uid actions d \<longleftrightarrow>
     justified (\<lambda>u e. ceph_policy_event_ok bkt uid actions u e \<and> (\<exists>rq x. e = EvS3 ep rq x)) d"

lemma policy_pass:
  "wp (updateBucketPolicy E owner bkt uid actions)
     (\<lambda>r s'. policy_steps (s3c_endpoint owner) bkt uid actions (snd s')
        \<and> (r = None \<longrightarrow> policy_in_force (s3c_endpoint owner) bkt uid actions (snd s'))) (w, [])"
  unfolding updateBucketPolicy_def S3_GetBucketPolicy_def S3_SetBucketPolicy_def
  by (intro wp_rules)
    (auto simp: policy_steps_def ceph_policy_event_ok_def policy_in_force_def policy_read_def policy_text_def
      dest!: changed_policy_rewrite intro: rewrite_keeps_others split: option.splits sum.splits)

lemma framed_policy: "framed (updateBucketPolicy E owner bkt uid actions)"
  unfolding updateBucketPolicy_def S3_GetBucketPolicy_def S3_SetBucketPolicy_def by (intro framed_rules)

lemma policy_event_mono: "ceph_policy_event_ok bkt uid actions u e \<Longrightarrow> set u \<subseteq> set v \<Longrightarrow> ceph_policy_event_ok bkt uid actions v e"
  by (fastforce simp: ceph_policy_event_ok_def policy_text_def split: event.splits s3_req.splits)

lemma policy_in_force_mono: "policy_in_force ep bkt uid actions u \<Longrightarrow> set u \<subseteq> set v \<Longrightarrow> policy_in_force ep bkt uid actions v"
  unfolding policy_in_force_def policy_read_def policy_text_def by blast

lemma wp_policy:
  assumes "\<And>r w' d. policy_steps (s3c_endpoint owner) bkt uid actions d \<Longrightarrow>
      (r = None \<Longrightarrow> policy_in_force (s3c_endpoint owner) bkt uid actions (t @ d)) \<Longrightarrow> Q r (w', t @ d)"
  shows "wp (updateBucketPolicy E owner bkt uid actions) Q (w, t)"
  by (rule framed_wp [OF framed_policy policy_pass], rule assms) (auto intro: policy_in_force_mono)

lemma policy_steps_justified:
  assumes "policy_steps ep bkt uid actions d"
    and "\<And>u rq x. ceph_policy_event_ok bkt uid actions u (EvS3 ep rq x) \<Longrightarrow> P u (EvS3 ep rq x)"
  shows "justified P d"
  by (rule justified_mono [OF assms(1) [unfolded policy_steps_def]]) (use assms(2) in auto)

section \<open>Accesses\<close>

definition keys_read :: "object_store \<Rightarrow> string \<Rightarrow> string \<Rightarrow> string \<Rightarrow> event list \<Rightarrow> bool" where
  "keys_read c uid ak sk u \<longleftrightarrow>
     (\<exists>s. EvGet Uncached KSecret (elasticNamespace, rgwUserSecretName c uid) (Inr (OSecret s)) \<in> set u \<and> user_keys_of s = (ak, sk))"

definition keys_missing :: "object_store \<Rightarrow> string \<Rightarrow> event list \<Rightarrow> bool" where
  "keys_missing c uid u \<longleftrightarrow>
     (\<exists>err. EvGet Uncached KSecret (elasticNamespace, rgwUserSecretName c uid) (Inl err) \<in> set u \<and> is_not_found err)"

definition rgw_access :: "('w, 'x) ceph_env_scheme \<Rightarrow> object_store \<Rightarrow> bucket \<Rightarrow> bucket_access \<Rightarrow> event list \<Rightarrow> bool" where
  "rgw_access E c b access u \<longleftrightarrow> policy_in_force (rgwHostPort c (ce_cluster_domain E)) (BucketDisplayName b) (accessUID access)
     (Some (policyActions (ba_permission (ba_spec access)))) u"

definition ceph_access_event_ok ::
  "('w, 'x) ceph_env_scheme \<Rightarrow> object_store \<Rightarrow> bucket \<Rightarrow> bucket_access \<Rightarrow> bool \<Rightarrow> event list \<Rightarrow> event \<Rightarrow> bool" where
  "ceph_access_event_ok E c b access mf u e \<longleftrightarrow> (case e of
      EvGet rd k ky r \<Rightarrow> True
    | EvDelete k ky r \<Rightarrow> mf \<and> k = KUnstructured cephObjectStoreUserGVK \<and> ky = (elasticNamespace, accessUID access)
        \<and> (keys_missing c (accessUID access) u \<or> (\<exists>ak sk. keys_read c (accessUID access) ak sk u \<and> (ak = [] \<or> ak = rgw_recorded access)))
    | EvCreate k x r \<Rightarrow> k = KUnstructured cephObjectStoreUserGVK
        \<and> (\<exists>y. x = OUnstructured y \<and> un_spec y = un_spec (buildCephObjectStoreUser c (accessUID access) None))
    | EvUpdate k x r \<Rightarrow> k = KUnstructured cephObjectStoreUserGVK
        \<and> (\<exists>y. x = OUnstructured y \<and> un_spec y = un_spec (buildCephObjectStoreUser c (accessUID access) None))
    | EvS3 ep rq r \<Rightarrow> ep = rgwHostPort c (ce_cluster_domain E)
        \<and> ceph_policy_event_ok (BucketDisplayName b) (accessUID access) (Some (policyActions (ba_permission (ba_spec access)))) u e
    | _ \<Rightarrow> False)"

lemma ceph_access_event_simps [simp]:
  "ceph_access_event_ok E c b access mf u (EvGet rd k ky r)"
  "ceph_access_event_ok E c b access mf u (EvDelete k ky r') \<longleftrightarrow> mf \<and> k = KUnstructured cephObjectStoreUserGVK
     \<and> ky = (elasticNamespace, accessUID access)
     \<and> (keys_missing c (accessUID access) u \<or> (\<exists>ak sk. keys_read c (accessUID access) ak sk u \<and> (ak = [] \<or> ak = rgw_recorded access)))"
  "ceph_access_event_ok E c b access mf u (EvCreate k (OUnstructured y) r') \<longleftrightarrow> k = KUnstructured cephObjectStoreUserGVK
     \<and> un_spec y = un_spec (buildCephObjectStoreUser c (accessUID access) None)"
  "ceph_access_event_ok E c b access mf u (EvUpdate k (OUnstructured y) r') \<longleftrightarrow> k = KUnstructured cephObjectStoreUserGVK
     \<and> un_spec y = un_spec (buildCephObjectStoreUser c (accessUID access) None)"
  by (simp_all add: ceph_access_event_ok_def)

lemma ceph_access_event_policy:
  "ceph_policy_event_ok (BucketDisplayName b) (accessUID access) (Some (policyActions (ba_permission (ba_spec access)))) u
     (EvS3 (rgwHostPort c (ce_cluster_domain E)) rq x) \<Longrightarrow>
   ceph_access_event_ok E c b access mf (t @ u) (EvS3 (rgwHostPort c (ce_cluster_domain E)) rq x)"
  by (simp add: ceph_access_event_ok_def) (erule policy_event_mono, simp)

lemma ceph_access_event_policy_Cons:
  "ceph_policy_event_ok (BucketDisplayName b) (accessUID access) (Some (policyActions (ba_permission (ba_spec access)))) u
     (EvS3 (rgwHostPort c (ce_cluster_domain E)) rq x) \<Longrightarrow>
   ceph_access_event_ok E c b access mf (y # t @ u) (EvS3 (rgwHostPort c (ce_cluster_domain E)) rq x)"
  using ceph_access_event_policy [of b access u c E rq x mf "y # t"] by simp

lemma ceph_client_endpoint: "ceph_client E c ak sk = Inr mc \<Longrightarrow> s3c_endpoint mc = rgwHostPort c (ce_cluster_domain E)"
  by (auto simp: ceph_client_def S3_NewClient_def split: option.splits)

definition keys_answer :: "object_store \<Rightarrow> string \<Rightarrow> string \<Rightarrow> string \<Rightarrow> event list \<Rightarrow> bool" where
  "keys_answer c uid ak sk u \<longleftrightarrow> keys_read c uid ak sk u \<or> (keys_missing c uid u \<and> ak = [] \<and> sk = [])"

lemma keys_answer_mono: "keys_answer c uid ak sk u \<Longrightarrow> set u \<subseteq> set v \<Longrightarrow> keys_answer c uid ak sk v"
  unfolding keys_answer_def keys_read_def keys_missing_def by blast

lemma wp_user_keys:
  assumes "\<And>r w' x. (\<And>ak sk. r = Inr (ak, sk) \<Longrightarrow>
       keys_answer c uid ak sk (t @ [EvGet Uncached KSecret (elasticNamespace, rgwUserSecretName c uid) x])) \<Longrightarrow>
     Q r (w', t @ [EvGet Uncached KSecret (elasticNamespace, rgwUserSecretName c uid) x])"
  shows "wp (userKeys E c uid) Q (w, t)"
  unfolding userKeys_def kget_def
  by (intro wp_rules assms) (auto simp: keys_answer_def keys_read_def keys_missing_def split: sum.splits if_splits)

text \<open>What ensuring a user may do: read it, and write it with the specification built for it.\<close>

definition user_event :: "object_store \<Rightarrow> string \<Rightarrow> bucket_quota option \<Rightarrow> event \<Rightarrow> bool" where
  "user_event c uid quota e \<longleftrightarrow> (case e of
      EvGet rd k ky r \<Rightarrow> k = KUnstructured cephObjectStoreUserGVK
    | EvCreate k x r \<Rightarrow> k = KUnstructured cephObjectStoreUserGVK
        \<and> (\<exists>y. x = OUnstructured y \<and> un_spec y = un_spec (buildCephObjectStoreUser c uid quota))
    | EvUpdate k x r \<Rightarrow> k = KUnstructured cephObjectStoreUserGVK
        \<and> (\<exists>y. x = OUnstructured y \<and> un_spec y = un_spec (buildCephObjectStoreUser c uid quota))
    | _ \<Rightarrow> False)"

lemma ensureUser_emits: "emits (user_event c uid quota) (ensureUser E c uid quota)"
  unfolding ensureUser_def ensure_managed_def Let_def kget_def kcreate_def kupdate_def
  by (intro emits_rules) (auto simp: user_event_def managed_update_def)

lemma user_event_ok: "user_event c (accessUID access) None e \<Longrightarrow> ceph_access_event_ok E c b access mf u e"
  by (auto simp: user_event_def ceph_access_event_ok_def split: event.splits)

definition ceph_access_post ::
  "('w, 'x) ceph_env_scheme \<Rightarrow> object_store \<Rightarrow> bucket \<Rightarrow> bucket_access \<Rightarrow> bool \<Rightarrow> access_state \<times> go_error option \<Rightarrow> 'w run \<Rightarrow> bool" where
  "ceph_access_post E c b access mf out s' \<longleftrightarrow> justified (ceph_access_event_ok E c b access mf) (snd s')
     \<and> (if as_ready (fst out)
        then snd out = None \<and> as_access_key_id (fst out) \<noteq> [] \<and> as_secret_access_key (fst out) \<noteq> []
          \<and> keys_read c (accessUID access) (as_access_key_id (fst out)) (as_secret_access_key (fst out)) (snd s')
          \<and> rgw_access E c b access (snd s') \<and> (mf \<longrightarrow> as_access_key_id (fst out) \<noteq> rgw_recorded access)
        else as_access_key_id (fst out) = [] \<and> as_secret_access_key (fst out) = [])"

lemma access_post_none [simp]:
  "ceph_access_post E c b access mf (empty_access_state, err) (w, t) \<longleftrightarrow> justified (ceph_access_event_ok E c b access mf) t"
  "ceph_access_post E c b access mf (empty_access_state\<lparr>as_message := m\<rparr>, err) (w, t) \<longleftrightarrow> justified (ceph_access_event_ok E c b access mf) t"
  "ceph_access_post E c b access mf (user_error e) (w, t) \<longleftrightarrow> justified (ceph_access_event_ok E c b access mf) t"
  by (simp_all add: ceph_access_post_def empty_access_state_def user_error_def)

lemma wp_ensure_user:
  assumes "justified (ceph_access_event_ok E c b access mf) t"
    and "\<And>r w' d. justified (ceph_access_event_ok E c b access mf) (t @ d) \<Longrightarrow> Q r (w', t @ d)"
  shows "wp (ensureUser E c (accessUID access) None) Q (w, t)"
  by (rule justified_emits [OF ensureUser_emits assms(1)]) (auto intro: user_event_ok assms(2))

lemma wp_owner_client:
  assumes "\<And>r w' x. (\<And>mc. r = Inr (Some mc) \<Longrightarrow> s3c_endpoint mc = rgwHostPort c (ce_cluster_domain E)) \<Longrightarrow>
     Q r (w', t @ [EvGet Uncached KSecret (elasticNamespace, rgwUserSecretName c (ownerUID b)) x])"
  shows "wp (ownerClient E c b) Q (w, t)"
  unfolding ownerClient_def
proof (rule wp_bind, rule wp_user_keys, rule wp_return, rule assms, goal_cases)
  case (1 r w' x mc)
  then show ?case by (cases "ceph_client E c (fst (projr r)) (snd (projr r))")
    (auto split: sum.splits if_splits prod.splits dest!: ceph_client_endpoint)
qed

lemma wp_hand_out:
  assumes t: "justified (ceph_access_event_ok E c b access mf) t" and k: "keys_answer c (accessUID access) ak sk t"
    and mf: "mf \<Longrightarrow> ak \<noteq> rgw_recorded access"
  shows "wp (ceph_hand_out E c b access ak sk) (ceph_access_post E c b access mf) (w, t)"
  unfolding ceph_hand_out_def grantBucketAccess_def
proof (rule wp_if, simp add: wp_return t, rule wp_bind, rule wp_bind, rule wp_owner_client, goal_cases)
  case (1 r w' x)
  let ?t = "t @ [EvGet Uncached KSecret (elasticNamespace, rgwUserSecretName c (ownerUID b)) x]"
  have k: "keys_read c (accessUID access) ak sk ?t"
    using keys_answer_mono [OF k, of ?t] 1(1) by (auto simp: keys_answer_def)
  show ?case
  proof (rule wp_case_sum, goal_cases)
    case (2 o1)
    show ?case
    proof (rule wp_case_option, goal_cases)
      case (2 owner)
      with \<open>r = Inr o1\<close> 1 have ep: "s3c_endpoint owner = rgwHostPort c (ce_cluster_domain E)" by simp
      show ?case
      proof (rule wp_policy, rule wp_return, goal_cases)
        case (1 res v d)
        have "justified (\<lambda>u. ceph_access_event_ok E c b access mf (?t @ u)) d"
          by (rule policy_steps_justified [OF 1(1)]) (simp add: ep ceph_access_event_policy del: append_assoc)
        moreover have "keys_read c (accessUID access) ak sk (?t @ d)" using k by (auto simp: keys_read_def)
        ultimately show ?case
          using 1(2) t mf \<open>\<not> (ak = [] \<or> sk = [])\<close>
          by (cases res) (simp_all add: ceph_access_post_def rgw_access_def ep empty_access_state_def)
      qed
    qed (simp add: wp_return t)
  qed (simp add: wp_return t)
qed

lemma wp_rotate:
  assumes "justified (ceph_access_event_ok E c b access mf) t" and "keys_answer c (accessUID access) ak sk t"
    and "ak = [] \<or> ak = rgw_recorded access" and mf
  shows "wp (ceph_rotate E c (accessUID access)) (ceph_access_post E c b access mf) (w, t)"
proof -
  have "ceph_access_event_ok E c b access mf t (EvDelete (KUnstructured cephObjectStoreUserGVK) (elasticNamespace, accessUID access) r)" for r
    using assms(2-4) by (auto simp: keys_answer_def)
  then show ?thesis
    unfolding ceph_rotate_def deleteUser_def kdelete_def
    by (intro wp_bind wp_call wp_return wp_case_option wp_ensure_user [where b = b and mf = mf])
      (use assms(1) in \<open>auto split: option.split\<close>)
qed

lemma ceph_access_pass:
  "wp (cephEnsureAccess E c b access mf) (ceph_access_post E c b access mf) (w, [])"
  unfolding cephEnsureAccess_def Let_def
proof (rule wp_bind, rule wp_user_keys, rule wp_case_sum, simp add: wp_return, rule wp_case_prod, rule wp_if, goal_cases)
  case (1 r w' x p ak sk)
  then show ?case by (intro wp_if wp_rotate wp_hand_out) auto
next
  case (2 r w' x p ak sk)
  show ?case
  proof (rule wp_bind, rule wp_ensure_user [where b = b and mf = mf], goal_cases)
    case (2 r w'' d)
    then show ?case
    proof (intro wp_case_option, goal_cases)
      case 1
      show ?case
      proof (rule wp_bind, rule wp_user_keys, goal_cases)
        case (1 r w' x)
        then show ?case
          using \<open>\<not> mf\<close> \<open>justified _ _\<close> by (intro wp_case_sum wp_case_prod wp_hand_out) (auto simp: wp_return)
      qed
    qed (simp add: wp_return)
  qed simp
qed

text \<open>C20: What \<open>EnsureAccess\<close> does on Ceph and what its success means. The user of the access is deleted only when a new key was
  asked for and the key read is still the recorded one or not issued; it is written only with its own specification,
  without a quota; the policy of the bucket is touched only as above, over the cluster's own endpoint. Ready means: the
  keys are those of the access user's Secret as read in this run, not the recorded one if a new one was asked for,
  and the policy in force has the statement for the requested permission. Otherwise no key is handed out.\<close>

theorem ceph_access_sound:
  "wp (cephEnsureAccess E c b access mf) (ceph_access_post E c b access mf) (w, [])"
  by (rule ceph_access_pass)

section \<open>The cluster: what may be written\<close>

text \<open>The contract of a rendered store: the pools outlive it unless the reclaim policy is Delete, the data has at
  least two copies and the metadata three.\<close>

definition store_spec_ok :: "object_store \<Rightarrow> json \<Rightarrow> bool" where
  "store_spec_ok c spec \<longleftrightarrow>
     nested spec [''preservePoolsOnDelete''] = Some (JBool (os_reclaim_policy (os_spec c) \<noteq> ClusterReclaimDelete))
   \<and> (case nested_int64 spec [''dataPool'', ''replicated'', ''size''] of Some n \<Rightarrow> 2 \<le> n | None \<Rightarrow> False)
   \<and> nested_int64 spec [''metadataPool'', ''replicated'', ''size''] = Some 3"

definition elastic_ready :: "object_store \<Rightarrow> event list \<Rightarrow> bool" where
  "elastic_ready c u \<longleftrightarrow> (\<exists>ec. EvGet Uncached (KUnstructured elasticClusterGVK) ([], os_elastic_cluster_ref (os_spec c))
     (Inr (OUnstructured ec)) \<in> set u \<and> nested_string (un_status ec) [''phase''] = ''Ready'')"

definition ceph_store_event_ok :: "object_store \<Rightarrow> event list \<Rightarrow> event \<Rightarrow> bool" where
  "ceph_store_event_ok c u e \<longleftrightarrow> (case e of
      EvGet rd k ky r \<Rightarrow> True
    | EvCreate k x r \<Rightarrow> k = KUnstructured cephObjectStoreGVK \<and> elastic_ready c u
        \<and> (\<exists>y. x = OUnstructured y \<and> store_spec_ok c (un_spec y))
    | EvUpdate k x r \<Rightarrow> k = KUnstructured cephObjectStoreGVK \<and> elastic_ready c u
        \<and> (\<exists>y. x = OUnstructured y \<and> store_spec_ok c (un_spec y))
    | _ \<Rightarrow> False)"

definition store_ready :: "object_store \<Rightarrow> event list \<Rightarrow> bool" where
  "store_ready c u \<longleftrightarrow> (\<exists>s before. u = before @ [EvGet Uncached (KUnstructured cephObjectStoreGVK) (objectStoreKey c) (Inr (OUnstructured s))]
     \<and> nested_string (un_status s) [''phase''] = ''Ready'')"

lemma built_store_ok [simp]: "store_spec_ok c (un_spec (buildCephObjectStore c))"
  by (simp add: store_spec_ok_def buildCephObjectStore_def replicatedPool_def pool_size_def nested_int64_def metadataPoolReplicas_def
      split: redundancy_mode.split)

lemma un_spec_managed [simp]: "un_spec (managed_update x y) = un_spec y"
  by (simp add: managed_update_def)

lemma ensureObjectStore_emits:
  "emits (\<lambda>e. \<forall>u. elastic_ready c u \<longrightarrow> ceph_store_event_ok c u e) (ensureObjectStore E c)"
  unfolding ensureObjectStore_def ensure_managed_def Let_def kget_def kcreate_def kupdate_def
  by (intro emits_rules) (auto simp: ceph_store_event_ok_def)

lemma elastic_ready_mono: "elastic_ready c t \<Longrightarrow> set t \<subseteq> set u \<Longrightarrow> elastic_ready c u"
  unfolding elastic_ready_def by blast

lemma ceph_cluster_pass:
  "wp (cephEnsureCluster E c)
     (\<lambda>(st, err) s'. justified (ceph_store_event_ok c) (snd s')
        \<and> (if cs_ready st then err = None \<and> elastic_ready c (snd s') \<and> store_ready c (snd s')
             \<and> ep_internal (cs_endpoint st) = rgwEndpoint c (ce_cluster_domain E) else True)) (w, [])"
  unfolding cephEnsureCluster_def Let_def kget_def
proof (rule wp_if, simp add: wp_return ceph_waiting_def empty_cluster_state_def, rule wp_bind, rule wp_call, rule wp_case_sum, goal_cases)
  case (1 r w' err)
  then show ?case by (auto simp: wp_return ceph_waiting_def empty_cluster_state_def ceph_store_event_ok_def)
next
  case (2 r w' ec)
  let ?t = "[EvGet Uncached (KUnstructured elasticClusterGVK) ([], os_elastic_cluster_ref (os_spec c)) (map_sum id OUnstructured r)]"
  show ?case
  proof (rule wp_if, goal_cases)
    case 1
    then show ?case by (auto simp: wp_return ceph_waiting_def empty_cluster_state_def ceph_store_event_ok_def)
  next
    case nr: 2
    have ready: "elastic_ready c ?t" using nr 2 by (auto simp: elastic_ready_def)
    have ok: "justified (ceph_store_event_ok c) ?t" by (simp add: ceph_store_event_ok_def)
    show ?case
      unfolding append.simps
    proof (rule wp_bind, rule justified_emits [OF ensureObjectStore_emits ok], goal_cases)
      case (1 u e)
      then show ?case using elastic_ready_mono [OF ready] by simp
    next
      case (2 a w' d)
      then show ?case
        using elastic_ready_mono [OF ready, of "?t @ d"] elastic_ready_mono [OF ready, of "?t @ d @ [x]" for x]
        unfolding ceph_store_ready_def kget_def
        by (intro wp_rules) (auto simp: ceph_waiting_def empty_cluster_state_def ceph_store_event_ok_def store_ready_def Let_def split: sum.splits)
    qed
  qed
qed

text \<open>C21: Heavy storage is safe. The store is written only after the referenced ElasticCluster was read as Ready, and always with the
  pools preserved unless the reclaim policy is Delete and with at least two copies; it is never deleted here. The cluster is ready
  only if the last answer of the run was the store itself, as Ready, and then the endpoint is that of its gateway.\<close>

theorem ceph_cluster_safe:
  "wp (cephEnsureCluster E c)
     (\<lambda>(st, err) s'. justified (ceph_store_event_ok c) (snd s')
        \<and> (if cs_ready st then err = None \<and> elastic_ready c (snd s') \<and> store_ready c (snd s')
             \<and> ep_internal (cs_endpoint st) = rgwEndpoint c (ce_cluster_domain E) else True)) (w, [])"
  by (rule ceph_cluster_pass)

section \<open>Buckets\<close>

definition owner_keyless :: "object_store \<Rightarrow> bucket \<Rightarrow> event list \<Rightarrow> bool" where
  "owner_keyless c b u \<longleftrightarrow> (\<exists>ak sk. keys_answer c (ownerUID b) ak sk u \<and> (ak = [] \<or> sk = []))"

definition bucket_delete_ok :: "('w, 'x) ceph_env_scheme \<Rightarrow> object_store \<Rightarrow> bucket \<Rightarrow> event list \<Rightarrow> event \<Rightarrow> bool" where
  "bucket_delete_ok E c b u e \<longleftrightarrow> (case e of
      EvGet rd k ky r \<Rightarrow> True
    | EvS3 ep rq r \<Rightarrow> s3_removal_ok (BucketDisplayName b) u e
    | EvDelete k ky r \<Rightarrow> k = KUnstructured cephObjectStoreUserGVK \<and> ky = (elasticNamespace, ownerUID b)
        \<and> (s3_gone (rgwHostPort c (ce_cluster_domain E)) (BucketDisplayName b) u \<or> owner_keyless c b u)
    | _ \<Rightarrow> False)"

lemma removal_delete_ok: "s3_removal_ok (BucketDisplayName b) u e \<Longrightarrow> set u \<subseteq> set v \<Longrightarrow> bucket_delete_ok E c b v e"
  by (auto simp: s3_removal_ok_def bucket_delete_ok_def emptied_def split: event.splits s3_req.splits)

lemma s3_gone_mono: "s3_gone ep name u \<Longrightarrow> set u \<subseteq> set v \<Longrightarrow> s3_gone ep name v"
  by (auto simp: s3_gone_def)

text \<open>A Ceph bucket is deleted only under the Delete policy, and its owner only after the bucket: success means that
  the bucket is gone from the gateway, after every object of it was removed, or that its owner had no keys.\<close>

theorem ceph_delete_bucket_sound:
  "wp (cephDeleteBucket E c b)
     (\<lambda>r s'. if b_reclaim_policy (b_spec b) = BucketReclaimDelete
        then justified (bucket_delete_ok E c b) (snd s')
          \<and> (case r of Some e \<Rightarrow> True
             | None \<Rightarrow> s3_gone (rgwHostPort c (ce_cluster_domain E)) (BucketDisplayName b) (snd s') \<or> owner_keyless c b (snd s'))
        else r = None \<and> snd s' = []) (w, [])"
  unfolding cephDeleteBucket_def deleteUser_def kdelete_def
proof (rule wp_if, simp add: wp_return, rule wp_bind, rule wp_user_keys, goal_cases)
  case (1 r w' x)
  let ?e = "EvGet Uncached KSecret (elasticNamespace, rgwUserSecretName c (ownerUID b)) x"
  have keyless: "owner_keyless c b (?e # u)" if "r = Inr (ak, sk)" "ak = [] \<or> sk = []" for ak sk u
    using 1(2) [OF that(1)] that(2) keys_answer_mono [of c "ownerUID b" ak sk "[] @ [?e]" "?e # u"]
    by (auto simp: owner_keyless_def)
  have get: "bucket_delete_ok E c b u ?e" for u by (simp add: bucket_delete_ok_def)
  have removal: "justified (\<lambda>u. bucket_delete_ok E c b (?e # u)) d" if "justified (s3_removal_ok (BucketDisplayName b)) d" for d
    using that by (rule justified_mono) (auto elim: removal_delete_ok)
  have del: "bucket_delete_ok E c b u (EvDelete (KUnstructured cephObjectStoreUserGVK) (elasticNamespace, ownerUID b) y)"
    if "s3_gone (rgwHostPort c (ce_cluster_domain E)) (BucketDisplayName b) u \<or> owner_keyless c b u" for u y
    using that by (simp add: bucket_delete_ok_def)
  have gone: "s3_gone ep n (?e # d @ [y])" if "s3_gone ep n (?e # d)" for ep n d y
    using that by (rule s3_gone_mono) auto
  show ?case
    using 1(1) keyless get
    by (intro wp_rules wp_s3_delete)
      (auto simp: removal del gone split: option.splits dest!: ceph_client_endpoint)
qed

text \<open>The user of a bucket or an access, with the quota asked for, is in force: read as it should be, or written so.\<close>

definition user_in_force :: "object_store \<Rightarrow> string \<Rightarrow> bucket_quota option \<Rightarrow> event list \<Rightarrow> bool" where
  "user_in_force c uid quota u \<longleftrightarrow> (\<exists>y. un_spec y = un_spec (buildCephObjectStoreUser c uid quota)
     \<and> (EvGet Uncached (KUnstructured cephObjectStoreUserGVK) (elasticNamespace, uid) (Inr (OUnstructured y)) \<in> set u
      \<or> EvCreate (KUnstructured cephObjectStoreUserGVK) (OUnstructured y) None \<in> set u
      \<or> EvUpdate (KUnstructured cephObjectStoreUserGVK) (OUnstructured y) None \<in> set u))"

definition ceph_bucket_post :: "('w, 'x) ceph_env_scheme \<Rightarrow> object_store \<Rightarrow> bucket \<Rightarrow> bucket_state \<times> go_error option \<Rightarrow> event list \<Rightarrow> bool" where
  "ceph_bucket_post E c b out u \<longleftrightarrow> (if bst_ready (fst out)
     then snd out = None \<and> bst_bucket_name (fst out) = BucketDisplayName b
       \<and> user_in_force c (ownerUID b) (b_quota (b_spec b)) u
       \<and> (\<exists>ak sk. ak \<noteq> [] \<and> sk \<noteq> [] \<and> keys_read c (ownerUID b) ak sk u)
       \<and> s3_there (rgwHostPort c (ce_cluster_domain E)) (BucketDisplayName b) s3Region u
       \<and> bst_unsupported (fst out) = filter (\<lambda>f. f \<noteq> FeatureQuota) (RequestedFeatures b)
     else True)"

lemma in_force_steps:
  assumes "un_spec y = un_spec (buildCephObjectStoreUser c uid quota)"
  shows "user_in_force c uid quota (t @ [EvGet Uncached (KUnstructured cephObjectStoreUserGVK) (elasticNamespace, uid) (Inr (OUnstructured y))])"
    and "user_in_force c uid quota (t @ [x, EvCreate (KUnstructured cephObjectStoreUserGVK) (OUnstructured y) None])"
    and "user_in_force c uid quota (t @ [x, EvUpdate (KUnstructured cephObjectStoreUserGVK) (OUnstructured y) None])"
  unfolding user_in_force_def by (intro exI [of _ y]; simp add: assms)+

lemma built_user_key:
  "m_namespace (un_meta (buildCephObjectStoreUser c uid quota)) = elasticNamespace"
  "m_name (un_meta (buildCephObjectStoreUser c uid quota)) = uid"
  by (simp_all add: buildCephObjectStoreUser_def fresh_meta_def)

lemma wp_user_in_force:
  assumes "\<And>r w' d. (r = None \<Longrightarrow> user_in_force c uid quota (t @ d)) \<Longrightarrow> Q r (w', t @ d)"
  shows "wp (ensureUser E c uid quota) Q (w, t)"
proof -
  have "wp (ensureUser E c uid quota) (\<lambda>r s'. \<exists>d. snd s' = t @ d \<and> (r = None \<longrightarrow> user_in_force c uid quota (t @ d))) (w, t)"
    unfolding ensureUser_def ensure_managed_def Let_def kget_def kcreate_def kupdate_def
    by (intro wp_rules) (auto simp: in_force_steps built_user_key managed_update_def unstructuredManagedFieldsChanged_def split: sum.splits)
  then show ?thesis
    by (rule wp_mono) (use assms in \<open>metis prod.collapse\<close>)
qed

lemma keys_read_app: "keys_read c uid ak sk t \<Longrightarrow> keys_read c uid ak sk (t @ d)"
  by (auto simp: keys_read_def)

lemma user_in_force_app: "user_in_force c uid q t \<Longrightarrow> user_in_force c uid q (t @ d)"
  unfolding user_in_force_def by auto

text \<open>A Ceph bucket is ready only if its owner is in force with the quota of the bucket and has its keys, and the bucket was
  found or made with them in this pass.\<close>

lemma ceph_bucket_pass:
  "wp (cephEnsureBucket E c b) (\<lambda>out s'. ceph_bucket_post E c b out (snd s')) (w, [])"
  unfolding cephEnsureBucket_def
proof (rule wp_bind, rule wp_user_in_force, rule wp_case_option, goal_cases)
  case (1 r w' d)
  have force: "user_in_force c (ownerUID b) (b_quota (b_spec b)) d" using 1 by simp
  show ?case
  proof (rule wp_bind, rule wp_user_keys, rule wp_case_sum, simp add: wp_return ceph_bucket_post_def empty_bucket_state_def,
      rule wp_case_prod, rule wp_if, simp add: wp_return ceph_bucket_post_def empty_bucket_state_def, goal_cases)
    case (1 r w' x p ak sk)
    let ?t = "([] @ d) @ [EvGet Uncached KSecret (elasticNamespace, rgwUserSecretName c (ownerUID b)) x]"
    have keys: "keys_read c (ownerUID b) ak sk (?t @ e)" for e
      using 1 keys_read_app unfolding keys_answer_def by blast
    show ?case
    proof (rule wp_case_sum, simp add: wp_return ceph_bucket_post_def empty_bucket_state_def, rule wp_bind, rule wp_s3_ensure, rule wp_return, goal_cases)
      case (1 mc r w'' e)
      then have "s3c_endpoint mc = rgwHostPort c (ce_cluster_domain E)" by (auto dest: ceph_client_endpoint)
      then show ?case
        using 1 keys [of e] user_in_force_app [OF force] \<open>\<not> (ak = [] \<or> sk = [])\<close>
        by (auto simp: ceph_bucket_post_def empty_bucket_state_def cephRGWUnsupported_def split: option.splits)
    qed
  qed
qed (simp add: wp_return ceph_bucket_post_def empty_bucket_state_def)

section \<open>Names that collide\<close>

text \<open>A run on a cluster that has the keys of every user.\<close>

definition demo_rgw :: "unit s3_api" where
  "demo_rgw = \<lparr>s3_new = (\<lambda>_ _ _. None), s3_bucket_exists = (\<lambda>_ _ w. (Inr True, w)), s3_make_bucket = (\<lambda>_ _ _ w. (None, w)),
     s3_remove_objects = (\<lambda>_ _ w. ([], w)), s3_remove_bucket = (\<lambda>_ _ w. (None, w)), s3_get_policy = (\<lambda>_ _ w. (Inr [], w)),
     s3_set_policy = (\<lambda>_ _ _ w. (None, w))\<rparr>"

definition user_secret :: secret where
  "user_secret = \<lparr>sec_meta = fresh_meta ''user'' elasticNamespace Map.empty, sec_data = [''AccessKey'' \<mapsto> ''AK'', ''SecretKey'' \<mapsto> ''SK''], sec_string_data = Map.empty\<rparr>"

definition demo_ceph :: "unit ceph_env" where
  "demo_ceph = \<lparr>ce_kube = quiet_kube\<lparr>k_secrets := answering (Inr user_secret) []\<rparr>, ce_s3 = demo_rgw,
     ce_own = (\<lambda>ow m. Inr (m\<lparr>m_owner := Some (m_name ow)\<rparr>)), ce_cluster_domain = ''cluster.local''\<rparr>"

definition heavy :: object_store where
  "heavy = \<lparr>os_meta = fresh_meta ''main'' [] Map.empty, os_spec = \<lparr>os_type = ClusterTypeHeavy, os_storage = None, os_placement = None,
     os_redundancy = RedundancyStandard, os_reclaim_policy = ClusterReclaimRetain, os_elastic_cluster_ref = ''ec''\<rparr>, os_status = None\<rparr>"

definition named_bucket :: "string \<Rightarrow> bucket" where
  "named_bucket n = \<lparr>b_meta = fresh_meta ''b'' [] Map.empty, b_spec = \<lparr>b_object_store_ref = ''main'', b_bucket_name = n,
     b_access_policy = AccessPolicyPrivate, b_reclaim_policy = BucketReclaimDelete, b_quota = None\<rparr>, b_status = None\<rparr>"

definition tenant_access :: bucket_access where
  "tenant_access = \<lparr>ba_meta = fresh_meta ''logs-owner'' ''team'' Map.empty,
     ba_spec = \<lparr>ba_bucket_claim_name = ''own'', ba_permission = AccessReadOnly, ba_credentials_secret_name = []\<rparr>, ba_status = None\<rparr>"

text \<open>C36: A finding. Owner users and access users share one name space. Bucket names may have dots, so a namespace that creates the
  access \<open>n-owner\<close>, for whatever bucket of the store, is handed the keys of the owner of the bucket called
  \<open>namespace.n\<close>, a user that may do everything with that bucket.\<close>

theorem ceph_owner_keys_handed_out:
  assumes "BucketDisplayName victim = m_namespace (ba_meta access) @ ''.'' @ n" and "m_name (ba_meta access) = n @ ''-owner''"
  shows "wp (cephEnsureAccess E c b access mf)
     (\<lambda>(st, err) s'. as_ready st \<longrightarrow> keys_read c (ownerUID victim) (as_access_key_id st) (as_secret_access_key st) (snd s')) (w, [])"
proof -
  have "accessUID access = ownerUID victim" by (simp add: accessUID_def ownerUID_def AccessResourceName_def assms)
  then show ?thesis by (intro wp_mono [OF ceph_access_pass]) (auto simp: ceph_access_post_def split: if_splits)
qed

lemma ceph_owner_keys_handed_out_witness:
  "case run_state (cephEnsureAccess demo_ceph heavy (named_bucket ''own'') tenant_access False) ((), []) of ((st, err), s') \<Rightarrow>
     as_ready st \<and> keys_read heavy (ownerUID (named_bucket ''team.logs'')) (as_access_key_id st) (as_secret_access_key st) (snd s')"
proof -
  let ?run = "run_state (cephEnsureAccess demo_ceph heavy (named_bucket ''own'') tenant_access False) ((), [])"
  have "as_ready (fst (fst ?run))"
    by (simp add: cephEnsureAccess_def ensureUser_def ensure_managed_def userKeys_def kget_def kcreate_def call_def demo_ceph_def
        quiet_kube_def answering_def absent_def user_keys_of_def user_secret_def map_str_def ceph_hand_out_def grantBucketAccess_def
        ownerClient_def ceph_client_def S3_NewClient_def demo_rgw_def updateBucketPolicy_def S3_GetBucketPolicy_def
        S3_SetBucketPolicy_def parsePolicy_def trim_space_def changed_policy_def upsert_def Let_def)
  moreover obtain st err s' where run: "?run = ((st, err), s')" by (metis surj_pair)
  moreover have "BucketDisplayName (named_bucket ''team.logs'') = m_namespace (ba_meta tenant_access) @ ''.'' @ ''logs''"
      "m_name (ba_meta tenant_access) = ''logs'' @ ''-owner''"
    by (simp_all add: named_bucket_def tenant_access_def BucketDisplayName_def fresh_meta_def)
  ultimately show ?thesis
    using wpD [OF ceph_owner_keys_handed_out run] by simp
qed

end
