(* ===== verification/Webhooks.thy ===== *)
theory Webhooks
  imports Policy Claim_Name Go_Json
begin

text \<open>
  \<open>images/webhooks/handlers\<close>: the admission validators. They see objects as unstructured JSON, and read others
  through the dynamic client, which has no cache. The state machine at the end is what the uniqueness checks buy
  for the objects that pass them.
\<close>

section \<open>Fields of the objects\<close>

definition spec_string :: "unstructured \<Rightarrow> string \<Rightarrow> string" where
  "spec_string u field = nested_string (un_spec u) [field]"

definition un_name :: "unstructured \<Rightarrow> string" where
  "un_name u = m_name (un_meta u)"

section \<open>The validators\<close>

record validator_result =
  vr_valid :: bool
  vr_message :: string
  vr_warnings :: "string list"

definition reject :: "string \<Rightarrow> validator_result" where
  "reject message = \<lparr>vr_valid = False, vr_message = message, vr_warnings = []\<rparr>"

definition admitted :: "string list \<Rightarrow> validator_result" where
  "admitted warnings = \<lparr>vr_valid = True, vr_message = [], vr_warnings = warnings\<rparr>"

text \<open>The parts of an admission review that are used: the user name.\<close>

definition moduleServiceAccountPrefix :: string where
  "moduleServiceAccountPrefix = ''system:serviceaccount:d8-sds-object:''"

definition isModuleServiceAccount :: "string option \<Rightarrow> bool" where
  "isModuleServiceAccount ar = (case ar of None \<Rightarrow> False | Some user \<Rightarrow> has_prefix user moduleServiceAccountPrefix)"

definition effectiveBucketName :: "unstructured \<Rightarrow> string" where
  "effectiveBucketName u = (if spec_string u ''bucketName'' \<noteq> [] then spec_string u ''bucketName'' else un_name u)"

definition dyn_get :: "('w, 'x) kube_scheme \<Rightarrow> string \<Rightarrow> key \<Rightarrow> ('w, unstructured result) go" where
  "dyn_get K gvr ky = kget Uncached (KUnstructured gvr) OUnstructured (k_unstructured K gvr) ky"

definition dyn_list :: "('w, 'x) kube_scheme \<Rightarrow> string \<Rightarrow> ('w, unstructured list result) go" where
  "dyn_list K gvr = klist Uncached (KUnstructured gvr) OUnstructured (k_unstructured K gvr) list_all_opts"

definition minVolumeNodes :: "string \<Rightarrow> int" where
  "minVolumeNodes redundancy = (if redundancy = ''None'' then 1 else if redundancy = ''High'' then 3 else 2)"

definition other_system :: "string \<Rightarrow> unstructured list \<Rightarrow> unstructured option" where
  "other_system name items = find (\<lambda>other. un_name other \<noteq> name \<and> spec_string other ''type'' = ''System'') items"

definition ObjectStoreValidate :: "('w, 'x) kube_scheme \<Rightarrow> unstructured \<Rightarrow> ('w, validator_result) go" where
  "ObjectStoreValidate K u =
     (let clusterType = spec_string u ''type'' in
      do { unique \<leftarrow> (if clusterType = ''System''
             then do { r \<leftarrow> dyn_list K ''objectstores'';
                       return (case r of
                           Inl err \<Rightarrow> Inr [''could not verify System cluster uniqueness: '' @ emsg err]
                         | Inr items \<Rightarrow> (case other_system (un_name u) items of
                               Some other \<Rightarrow> Inl (''only one System ObjectStore is allowed; '' @ quoted (un_name other) @ '' already exists'')
                             | None \<Rightarrow> Inr [])) }
             else return (Inr []));
           case unique of
             Inl msg \<Rightarrow> return (reject msg)
           | Inr warnings \<Rightarrow>
               do { warnings \<leftarrow> (let ref = spec_string u ''elasticClusterRef'' in
                      if clusterType = ''Heavy'' \<and> ref \<noteq> []
                      then do { r \<leftarrow> dyn_get K ''elasticclusters'' ([], ref);
                                return (case r of Inr _ \<Rightarrow> warnings
                                  | Inl err \<Rightarrow> warnings @ [''referenced ElasticCluster '' @ quoted ref @ '' not found ('' @ emsg err
                                      @ ''); the cluster will stay pending until it exists'']) }
                      else return warnings);
                    return (case nested_int64 (un_spec u) [''storage'', ''nodes''] of
                        None \<Rightarrow> admitted warnings
                      | Some nodes \<Rightarrow>
                          (let redundancy = spec_string u ''redundancy'' in
                           if clusterType = ''Full'' \<and> nodes > 0 \<and> nodes < minVolumeNodes redundancy
                           then reject (''spec.storage.nodes='' @ itoa nodes @ '' is too low for redundancy '' @ quoted redundancy
                                  @ '': it needs at least '' @ itoa (minVolumeNodes redundancy) @ '' volume server(s) to satisfy replication'')
                           else admitted warnings)) } })"

definition conflicting :: "unstructured \<Rightarrow> unstructured list \<Rightarrow> unstructured option" where
  "conflicting u items = find (\<lambda>other. un_name other \<noteq> un_name u
     \<and> spec_string other ''objectStoreRef'' = spec_string u ''objectStoreRef''
     \<and> effectiveBucketName other = effectiveBucketName u) items"

definition BucketValidate :: "('w, 'x) kube_scheme \<Rightarrow> string option \<Rightarrow> unstructured \<Rightarrow> ('w, validator_result) go" where
  "BucketValidate K ar u =
     (let name = un_name u; objectStoreRef = spec_string u ''objectStoreRef'' in
      if has_prefix name ReservedBucketNamePrefix \<and> \<not> isModuleServiceAccount ar
      then return (reject (''Bucket name '' @ quoted name @ '' uses the reserved prefix '' @ quoted ReservedBucketNamePrefix
             @ '', which is reserved for controller-provisioned greenfield buckets''))
      else do { r \<leftarrow> dyn_list K ''buckets'';
                case r of
                  Inl err \<Rightarrow> return (reject (''could not verify bucket name uniqueness: '' @ emsg err))
                | Inr items \<Rightarrow>
                    (case conflicting u items of
                       Some other \<Rightarrow> return (reject (''bucket name '' @ quoted (effectiveBucketName u) @ '' on object store ''
                           @ quoted objectStoreRef @ '' is already claimed by Bucket '' @ quoted (un_name other)))
                     | None \<Rightarrow>
                         if objectStoreRef \<noteq> []
                         then do { r \<leftarrow> dyn_get K ''objectstores'' ([], objectStoreRef);
                                   return (admitted (case r of Inr _ \<Rightarrow> []
                                     | Inl err \<Rightarrow> [''referenced ObjectStore '' @ quoted objectStoreRef @ '' not found ('' @ emsg err
                                         @ ''); the bucket will stay pending until it exists''])) }
                         else return (admitted [])) })"

fun matches_any :: "regexps \<Rightarrow> string list \<Rightarrow> string \<Rightarrow> bool" where
  "matches_any re [] ns = False"
| "matches_any re (pat # pats) ns =
     (case re (anchor pat) of
        Inr rx \<Rightarrow> if rx ns then True else matches_any re pats ns
      | Inl _ \<Rightarrow> matches_any re pats ns)"

definition policy_grants :: "regexps \<Rightarrow> string \<Rightarrow> string \<Rightarrow> unstructured \<Rightarrow> bool" where
  "policy_grants re bucketRef ns p \<longleftrightarrow> spec_string p ''bucketRef'' = bucketRef
     \<and> (list_ex (\<lambda>n. n = ns) (nested_strings (un_spec p) [''allowedNamespaces'', ''names''])
      \<or> matches_any re (nested_strings (un_spec p) [''allowedNamespaces'', ''patterns'']) ns)"

definition webhook_namespaceAllowed ::
  "regexps \<Rightarrow> ('w, 'x) kube_scheme \<Rightarrow> string \<Rightarrow> string \<Rightarrow> ('w, bool) go" where
  "webhook_namespaceAllowed re K bucketRef ns =
     do { r \<leftarrow> dyn_list K ''bucketclaimpolicies'';
          return (case r of Inl _ \<Rightarrow> False | Inr items \<Rightarrow> list_ex (policy_grants re bucketRef ns) items) }"

definition BucketClaimValidate :: "regexps \<Rightarrow> ('w, 'x) kube_scheme \<Rightarrow> unstructured \<Rightarrow> ('w, validator_result) go" where
  "BucketClaimValidate re K u =
     (let ns = m_namespace (un_meta u); existing = spec_string u ''existingBucketName''; objectStoreRef = spec_string u ''objectStoreRef'' in
      if existing \<noteq> []
      then do { r \<leftarrow> dyn_get K ''buckets'' ([], existing);
                let warnings = (case r of
                    Inl err \<Rightarrow> [''referenced Bucket '' @ quoted existing @ '' not found ('' @ emsg err @ ''); the claim will stay pending until it exists'']
                  | Inr bkt \<Rightarrow>
                      if map_str (m_labels (un_meta bkt)) LabelBucketOrigin = BucketOriginBucketClaim
                      then [''Bucket '' @ quoted existing @ '' is owned by another claim and cannot be bound; the claim will stay unbound'']
                      else []) in
                do { ok \<leftarrow> webhook_namespaceAllowed re K existing ns;
                     return (admitted (if \<not> ok
                       then warnings @ [''no BucketClaimPolicy currently grants namespace '' @ quoted ns @ '' the right to bind bucket ''
                              @ quoted existing @ ''; binding is deny-by-default and will stay pending until a matching policy exists'']
                       else warnings)) } }
      else if objectStoreRef \<noteq> []
      then do { r \<leftarrow> dyn_get K ''objectstores'' ([], objectStoreRef);
                return (admitted (case r of Inr _ \<Rightarrow> []
                  | Inl err \<Rightarrow> [''referenced ObjectStore '' @ quoted objectStoreRef @ '' not found ('' @ emsg err
                      @ ''); the claim will stay pending until it exists''])) }
      else return (admitted []))"

definition BucketAccessValidate :: "('w, 'x) kube_scheme \<Rightarrow> unstructured \<Rightarrow> ('w, validator_result) go" where
  "BucketAccessValidate K u =
     (let ns = m_namespace (un_meta u); claimName = spec_string u ''bucketClaimName'' in
      if claimName \<noteq> []
      then do { r \<leftarrow> dyn_get K ''bucketclaims'' (ns, claimName);
                return (admitted (case r of
                    Inl err \<Rightarrow> [''referenced BucketClaim '' @ quoted claimName @ '' not found in namespace '' @ quoted ns @ '' ('' @ emsg err
                      @ ''); the access will stay pending until it is Bound'']
                  | Inr claim \<Rightarrow>
                      (let ph = nested_string (un_status claim) [''phase''] in
                       if ph \<noteq> ''Ready''
                       then [''BucketClaim '' @ quoted claimName @ '' is not Ready yet (phase '' @ quoted ph
                              @ ''); the access will stay pending until it is Bound'']
                       else []))) }
      else return (admitted []))"

definition BucketClaimPolicyValidate :: "regexps \<Rightarrow> ('w, 'x) kube_scheme \<Rightarrow> unstructured \<Rightarrow> ('w, validator_result) go" where
  "BucketClaimPolicyValidate re K u =
     (let bucketRef = spec_string u ''bucketRef'' in
      case firstInvalidPattern re (nested_strings (un_spec u) [''allowedNamespaces'', ''patterns'']) of
        Some (pat, err) \<Rightarrow> return (reject (''invalid namespace pattern '' @ quoted pat @ '': '' @ emsg err))
      | None \<Rightarrow>
          if bucketRef \<noteq> []
          then do { r \<leftarrow> dyn_get K ''buckets'' ([], bucketRef);
                    return (admitted (case r of Inr _ \<Rightarrow> []
                      | Inl err \<Rightarrow> [''referenced Bucket '' @ quoted bucketRef @ '' not found ('' @ emsg err
                          @ ''); the policy takes effect once it exists''])) }
          else return (admitted []))"

section \<open>Lemmas\<close>

lemma conflicting_None:
  "conflicting u items = None \<longleftrightarrow> (\<forall>o' \<in> set items. un_name o' \<noteq> un_name u \<longrightarrow>
     spec_string o' ''objectStoreRef'' = spec_string u ''objectStoreRef'' \<longrightarrow> effectiveBucketName o' \<noteq> effectiveBucketName u)"
  by (auto simp: conflicting_def find_None_iff_all)

lemma vr_valid_simps [simp]: "\<not> vr_valid (reject m)" "vr_valid (admitted ws)"
  by (simp_all add: reject_def admitted_def)

lemma BucketValidate_valid:
  "wp (BucketValidate K ar u) (\<lambda>v s'. vr_valid v \<longleftrightarrow>
      \<not> (has_prefix (un_name u) ReservedBucketNamePrefix \<and> \<not> isModuleServiceAccount ar)
    \<and> (\<exists>items w'. r_list (k_unstructured K ''buckets'') Uncached list_all_opts w = (Inr items, w') \<and> conflicting u items = None)) (w, t)"
  unfolding BucketValidate_def dyn_list_def dyn_get_def klist_def kget_def Let_def
  by (intro wp_rules) auto

lemma BucketValidate_iff:
  "vr_valid (fst (run_state (BucketValidate K ar u) (w, t))) \<longleftrightarrow>
      \<not> (has_prefix (un_name u) ReservedBucketNamePrefix \<and> \<not> isModuleServiceAccount ar)
    \<and> (\<exists>items w'. r_list (k_unstructured K ''buckets'') Uncached list_all_opts w = (Inr items, w') \<and> conflicting u items = None)"
  using BucketValidate_valid [of K ar u w t] by (simp add: wp_def split: prod.splits)

lemma BucketClaimPolicyValidate_iff:
  "vr_valid (fst (run_state (BucketClaimPolicyValidate re K u) s)) \<longleftrightarrow>
     firstInvalidPattern re (nested_strings (un_spec u) [''allowedNamespaces'', ''patterns'']) = None"
proof -
  have "wp (BucketClaimPolicyValidate re K u) (\<lambda>v s'. vr_valid v \<longleftrightarrow>
     firstInvalidPattern re (nested_strings (un_spec u) [''allowedNamespaces'', ''patterns'']) = None) (fst s, snd s)"
    unfolding BucketClaimPolicyValidate_def dyn_get_def kget_def Let_def
    by (intro wp_rules) (auto split: sum.split)
  then show ?thesis by (simp add: wp_def split: prod.splits)
qed

lemma matches_any_iff:
  "matches_any re pats ns \<longleftrightarrow> (\<exists>pat \<in> set pats. \<exists>rx. re (anchor pat) = Inr rx \<and> rx ns)"
  by (induction pats) (auto split: sum.splits)

text \<open>The typed view of a policy: what the API machinery decodes.\<close>

definition policy_of :: "unstructured \<Rightarrow> bucket_claim_policy" where
  "policy_of u = \<lparr>bp_meta = un_meta u,
     bp_spec = \<lparr>bp_bucket_ref = spec_string u ''bucketRef'',
       bp_allowed_namespaces = \<lparr>nm_names = nested_strings (un_spec u) [''allowedNamespaces'', ''names''],
         nm_patterns = nested_strings (un_spec u) [''allowedNamespaces'', ''patterns'']\<rparr>\<rparr>, bp_status = None\<rparr>"

lemma policy_grants_selects:
  "policy_grants re b ns u \<longleftrightarrow> bp_bucket_ref (bp_spec (policy_of u)) = b \<and> selects re (bp_allowed_namespaces (bp_spec (policy_of u))) ns"
  by (auto simp: policy_grants_def policy_of_def selects_def matches_any_iff list_ex_iff)

section \<open>Buckets behind the webhook\<close>

text \<open>The buckets stored, each with the user who wrote it last. A write is stored only when the validator admits it while
  its listing answers the buckets stored; deletions are free.\<close>

type_synonym stored_buckets = "(string option \<times> unstructured) list"

definition put_bucket :: "string option \<Rightarrow> unstructured \<Rightarrow> stored_buckets \<Rightarrow> stored_buckets" where
  "put_bucket ar u bs = (ar, u) # filter (\<lambda>b. un_name (snd b) \<noteq> un_name u) bs"

inductive admission_step :: "('w, 'x) kube_scheme \<Rightarrow> stored_buckets \<Rightarrow> stored_buckets \<Rightarrow> bool" for K where
  stored: "r_list (k_unstructured K ''buckets'') Uncached list_all_opts w = (Inr (map snd bs), w') \<Longrightarrow>
     vr_valid (fst (run_state (BucketValidate K ar u) (w, t))) \<Longrightarrow> admission_step K bs (put_bucket ar u bs)"
| deleted: "admission_step K bs (filter (\<lambda>b. un_name (snd b) \<noteq> n) bs)"

inductive_cases admission_stepE: "admission_step K bs bs'"

inductive stored_reachable :: "('w, 'x) kube_scheme \<Rightarrow> stored_buckets \<Rightarrow> bool" for K where
  start: "stored_reachable K []"
| step: "stored_reachable K bs \<Longrightarrow> admission_step K bs bs' \<Longrightarrow> stored_reachable K bs'"

definition backend_bucket :: "unstructured \<Rightarrow> string \<times> string" where
  "backend_bucket u = (spec_string u ''objectStoreRef'', effectiveBucketName u)"

definition kept_apart :: "stored_buckets \<Rightarrow> bool" where
  "kept_apart bs \<longleftrightarrow> distinct (map (\<lambda>b. backend_bucket (snd b)) bs)
     \<and> (\<forall>(ar, u) \<in> set bs. has_prefix (un_name u) ReservedBucketNamePrefix \<longrightarrow> isModuleServiceAccount ar)"

lemma kept_apart_filter: "kept_apart bs \<Longrightarrow> kept_apart (filter P bs)"
  by (auto simp: kept_apart_def distinct_map_filter)

lemma admission_keeps_apart: "admission_step K bs bs' \<Longrightarrow> kept_apart bs \<Longrightarrow> kept_apart bs'"
proof (induction rule: admission_step.induct)
  case (stored w bs w' ar u t)
  then have "\<not> (has_prefix (un_name u) ReservedBucketNamePrefix \<and> \<not> isModuleServiceAccount ar)" "conflicting u (map snd bs) = None"
    by (auto simp: BucketValidate_iff)
  moreover have "kept_apart (filter (\<lambda>b. un_name (snd b) \<noteq> un_name u) bs)" using stored.prems by (rule kept_apart_filter)
  ultimately show ?case
    unfolding kept_apart_def put_bucket_def by (auto simp: conflicting_None backend_bucket_def)
qed (rule kept_apart_filter)

section \<open>Properties\<close>

text \<open>C16: Behind the webhook no two buckets share a backend bucket. In every state reachable by admitted writes and deletions,
  distinct Bucket objects have distinct pairs of object store and effective name, and every bucket with a reserved
  name was last written by a service account of the module.\<close>

theorem buckets_kept_apart: "stored_reachable K bs \<Longrightarrow> kept_apart bs"
proof (induction rule: stored_reachable.induct)
  case start
  show ?case by (simp add: kept_apart_def)
next
  case (step bs bs')
  then show ?case using admission_keeps_apart by blast
qed

definition bucket_object :: "string \<Rightarrow> string \<Rightarrow> string \<Rightarrow> unstructured" where
  "bucket_object name ref bucketName = \<lparr>un_meta = fresh_meta name [] Map.empty,
     un_spec = JObj [(''objectStoreRef'', JStr ref), (''bucketName'', JStr bucketName)], un_status = JNull\<rparr>"

lemma bucket_object_fields [simp]:
  "un_name (bucket_object n ref b) = n" "spec_string (bucket_object n ref b) ''objectStoreRef'' = ref"
  "effectiveBucketName (bucket_object n ref b) = (if b \<noteq> [] then b else n)"
  by (simp_all add: bucket_object_def un_name_def fresh_meta_def spec_string_def nested_string_def effectiveBucketName_def)

text \<open>An API server whose world is what its listings answer.\<close>

definition listing_kube :: "unstructured list kube" where
  "listing_kube = quiet_kube\<lparr>k_unstructured := (\<lambda>gvr. absent\<lparr>r_list := (\<lambda>rd opts w. (Inr w, w))\<rparr>)\<rparr>"

lemma listing_answers: "r_list (k_unstructured listing_kube gvr) rd opts w = (Inr w, w)"
  by (simp add: listing_kube_def)

lemma buckets_kept_apart_witness:
  "kept_apart [(Some ''alice'', bucket_object ''a'' ''main'' ''logs''), (Some ''bob'', bucket_object ''b'' ''main'' [])]"
proof -
  let ?b = "[(Some ''bob'', bucket_object ''b'' ''main'' [])]"
  have ok: "vr_valid (fst (run_state (BucketValidate listing_kube ar (bucket_object n ref b)) (map snd bs, [])))"
    if "\<not> has_prefix n ReservedBucketNamePrefix" "conflicting (bucket_object n ref b) (map snd bs) = None" for ar n ref b bs
    using that by (simp add: BucketValidate_iff listing_answers)
  have "admission_step listing_kube [] (put_bucket (Some ''bob'') (bucket_object ''b'' ''main'' []) [])"
    by (rule admission_step.stored [OF listing_answers ok]) (simp_all add: conflicting_def has_prefix_def ReservedBucketNamePrefix_def)
  then have "stored_reachable listing_kube ?b"
    using stored_reachable.intros by (fastforce simp: put_bucket_def)
  moreover have "admission_step listing_kube ?b (put_bucket (Some ''alice'') (bucket_object ''a'' ''main'' ''logs'') ?b)"
    by (rule admission_step.stored [OF listing_answers ok]) (simp_all add: conflicting_def has_prefix_def ReservedBucketNamePrefix_def)
  ultimately have "stored_reachable listing_kube (put_bucket (Some ''alice'') (bucket_object ''a'' ''main'' ''logs'') ?b)"
    by (rule stored_reachable.step)
  then have "kept_apart (put_bucket (Some ''alice'') (bucket_object ''a'' ''main'' ''logs'') ?b)"
    by (rule buckets_kept_apart)
  then show ?thesis by (simp add: put_bucket_def)
qed

text \<open>A finding. The guard on reserved names looks at the name of the Bucket only, not at the name of its backend
  bucket: any user may take the backend name of a claim's greenfield bucket with \<open>spec.bucketName\<close>, and the
  uniqueness check then rejects the bucket that the controller creates for the claim.\<close>

theorem reserved_name_squatting:
  "vr_valid (fst (run_state (BucketValidate listing_kube (Some ''alice'') (bucket_object ''mine'' store (greenfieldBucketName claim))) ([], [])))
   \<and> \<not> vr_valid (fst (run_state (BucketValidate listing_kube (Some (moduleServiceAccountPrefix @ ''controller''))
        (bucket_object (greenfieldBucketName claim) store [])) ([bucket_object ''mine'' store (greenfieldBucketName claim)], [])))"
proof -
  have "greenfieldBucketName claim \<noteq> []" "greenfieldBucketName claim \<noteq> ''mine''"
    using greenfield_shape [of claim] by (auto simp: ReservedBucketNamePrefix_def)
  then show ?thesis
    by (simp add: BucketValidate_iff listing_answers conflicting_def has_prefix_def ReservedBucketNamePrefix_def isModuleServiceAccount_def)
qed

text \<open>C33: The webhook and the controller agree. When every policy stored passed its own admission, the best-effort
  check behind the warning of a claim and the decision of the controller give the same answer, and the
  decision is never an error.\<close>

theorem admitted_policies_agree:
  assumes "\<And>u. u \<in> set us \<Longrightarrow> vr_valid (fst (run_state (BucketClaimPolicyValidate re K u) s))"
  shows "\<exists>msg. decide re b ns 0 (map policy_of us) = Inr (list_ex (policy_grants re b ns) us, msg)"
proof -
  have ok: "firstInvalidPattern re (nm_patterns (bp_allowed_namespaces (bp_spec p))) = None" if "p \<in> set (map policy_of us)" for p
    using that assms by (auto simp: BucketClaimPolicyValidate_iff policy_of_def)
  obtain v where v: "decide re b ns 0 (map policy_of us) = Inr v"
    using ok decide_Inl [of re b ns 0 "map policy_of us"] by (cases "decide re b ns 0 (map policy_of us)") fastforce+
  then have "fst v = list_ex (policy_grants re b ns) us"
    using decide_Inr [of re b ns 0 "map policy_of us" "fst v" "snd v"] by (auto simp: list_ex_iff policy_grants_selects)
  then show ?thesis using v by (intro exI [of _ "snd v"]) (simp add: prod_eq_iff)
qed

definition policy_object :: "string \<Rightarrow> string list \<Rightarrow> string list \<Rightarrow> unstructured" where
  "policy_object b names pats = \<lparr>un_meta = fresh_meta ''p'' [] Map.empty,
     un_spec = JObj [(''bucketRef'', JStr b), (''allowedNamespaces'', JObj [(''names'', JArr (map JStr names)), (''patterns'', JArr (map JStr pats))])],
     un_status = JNull\<rparr>"

lemma admitted_policies_agree_witness:
  "\<exists>msg. decide literal_regexps ''logs'' ''team-a'' 0 (map policy_of [policy_object ''logs'' [] [''team-b''], policy_object ''logs'' [''team-a''] []])
     = Inr (True, msg)"
proof -
  let ?us = "[policy_object ''logs'' [] [''team-b''], policy_object ''logs'' [''team-a''] []]"
  have "vr_valid (fst (run_state (BucketClaimPolicyValidate literal_regexps listing_kube u) ([], [])))" if "u \<in> set ?us" for u
    using that by (auto simp: BucketClaimPolicyValidate_iff policy_object_def nested_strings_def anchor_def literal_regexps_def)
  then have "\<exists>msg. decide literal_regexps ''logs'' ''team-a'' 0 (map policy_of ?us) = Inr (list_ex (policy_grants literal_regexps ''logs'' ''team-a'') ?us, msg)"
    by (rule admitted_policies_agree)
  moreover have "list_ex (policy_grants literal_regexps ''logs'' ''team-a'') ?us"
    by (simp add: policy_grants_def policy_object_def spec_string_def nested_string_def nested_strings_def)
  ultimately show ?thesis by simp
qed

end
