(* ===== verification/Seaweed_Resources.thy ===== *)
theory Seaweed_Resources
  imports Webhooks Driver
begin

text \<open>
  \<open>backend/seaweedfs/resources.go\<close>: names, addresses, services and stateful sets of the Full profile. A SeaweedFS
  cluster is three sets: masters, volume servers and filers, the filers with the S3 gateway. The replication code of
  the masters and the number of volume servers are chosen apart from each other; what makes them fit is the
  admission webhook (see the end of the theory).
\<close>

section \<open>Constants and names\<close>

definition sw_s3Port :: int where "sw_s3Port = 8333"
definition filerPort :: int where "filerPort = 8888"
definition filerGRPC :: int where "filerGRPC = 18888"
definition masterPort :: int where "masterPort = 9333"
definition masterGRPC :: int where "masterGRPC = 19333"
definition volumePort :: int where "volumePort = 8080"
definition volumeGRPC :: int where "volumeGRPC = 18080"
definition dataMount :: string where "dataMount = ''/data''"
definition sw_configMount :: string where "sw_configMount = ''/etc/seaweedfs''"
definition filerStoreDir :: string where "filerStoreDir = dataMount @ ''/filerldb2''"
definition sw_registryPullSecret :: string where "sw_registryPullSecret = ''deckhouse-registry''"
definition sw_s3Region :: string where "sw_s3Region = ''us-east-1''"
definition volumeSizeLimitMB :: int where "volumeSizeLimitMB = 1024"
definition compMaster :: string where "compMaster = ''master''"
definition compVolume :: string where "compVolume = ''volume''"
definition compFiler :: string where "compFiler = ''filer''"

definition sw_resourceName :: "object_store \<Rightarrow> string" where
  "sw_resourceName c = m_name (os_meta c) @ ''-seaweedfs''"

definition svcName :: "object_store \<Rightarrow> string" where "svcName c = sw_resourceName c"

definition componentName :: "object_store \<Rightarrow> string \<Rightarrow> string" where
  "componentName c part = sw_resourceName c @ ''-'' @ part"

definition sw_commonLabelList :: "object_store \<Rightarrow> (string \<times> string) list" where
  "sw_commonLabelList c = [(''app.kubernetes.io/managed-by'', ''sds-object''), (''app.kubernetes.io/name'', ''seaweedfs''),
     (''storage.deckhouse.io/object-store'', m_name (os_meta c))]"

definition sw_commonLabels :: "object_store \<Rightarrow> str_map" where
  "sw_commonLabels c = map_of (sw_commonLabelList c)"

definition componentLabels :: "object_store \<Rightarrow> string \<Rightarrow> str_map" where
  "componentLabels c part = (sw_commonLabels c)(''app.kubernetes.io/component'' \<mapsto> part)"

definition sw_hostPort :: "object_store \<Rightarrow> string \<Rightarrow> string \<Rightarrow> int \<Rightarrow> string" where
  "sw_hostPort c ns clusterDomain p = svcName c @ ''.'' @ ns @ ''.svc.'' @ clusterDomain @ '':'' @ itoa p"

definition sw_s3Endpoint :: "object_store \<Rightarrow> string \<Rightarrow> string \<Rightarrow> string" where
  "sw_s3Endpoint c ns clusterDomain = ''http://'' @ sw_hostPort c ns clusterDomain sw_s3Port"

definition s3HostPort :: "object_store \<Rightarrow> string \<Rightarrow> string \<Rightarrow> string" where
  "s3HostPort c ns clusterDomain = sw_hostPort c ns clusterDomain sw_s3Port"

definition filerEndpoint :: "object_store \<Rightarrow> string \<Rightarrow> string \<Rightarrow> string" where
  "filerEndpoint c ns clusterDomain = ''http://'' @ sw_hostPort c ns clusterDomain filerPort"

definition filerGRPCTarget :: "object_store \<Rightarrow> string \<Rightarrow> string \<Rightarrow> string" where
  "filerGRPCTarget c ns clusterDomain = sw_hostPort c ns clusterDomain filerGRPC"

definition adminSecretName :: "object_store \<Rightarrow> string" where
  "adminSecretName c = sw_resourceName c @ ''-admin''"

section \<open>Storage and topology\<close>

text \<open>\<open>resource.MustParse\<close> of the constants of the code, in bytes.\<close>

definition sw_storageSize :: "quantities \<Rightarrow> object_store \<Rightarrow> int" where
  "sw_storageSize pq c =
     (case os_storage (os_spec c) of
        None \<Rightarrow> 10737418240
      | Some st \<Rightarrow>
          if sto_size_per_node st \<noteq> [] then (case pq (sto_size_per_node st) of Inr q \<Rightarrow> q | Inl _ \<Rightarrow> 10737418240)
          else 10737418240)"

definition storageClass :: "object_store \<Rightarrow> string" where
  "storageClass c = (case os_storage (os_spec c) of None \<Rightarrow> [] | Some st \<Rightarrow> sto_class st)"

definition topology :: "object_store \<Rightarrow> int \<times> int \<times> string" where
  "topology c =
     (case os_redundancy (os_spec c) of
        RedundancyNone \<Rightarrow> (1, 1, ''000'')
      | RedundancyHigh \<Rightarrow> (3, 4, ''002'')
      | _ \<Rightarrow> (3, 3, ''001''))"

definition masterServers :: "object_store \<Rightarrow> string \<Rightarrow> string" where
  "masterServers c ns =
     (let name = componentName c compMaster in
      join_str '','' (map (\<lambda>i. name @ ''-'' @ itoa i @ ''.'' @ name @ ''.'' @ ns @ '':'' @ itoa masterPort)
        [0..fst (topology c) - 1]))"

definition podNameEnv :: "string \<times> env_source" where
  "podNameEnv = (''POD_NAME'', EnvField ''metadata.name'')"

definition podIPEnv :: "string \<times> env_source" where
  "podIPEnv = (''POD_IP'', EnvField ''status.podIP'')"

definition rootSecurityContext :: "int \<times> int \<times> int" where
  "rootSecurityContext = (0, 0, 0)"

definition filerStoreSize :: int where "filerStoreSize = 2147483648"

definition dataPVC :: "object_store \<Rightarrow> int \<Rightarrow> claim_template" where
  "dataPVC c sz =
     \<lparr>vct_name = ''data'', vct_labels = sw_commonLabels c, vct_access_modes = [''ReadWriteOnce''],
      vct_class = storageClass c, vct_size = sz\<rparr>"

section \<open>Services\<close>

definition buildMainService :: "object_store \<Rightarrow> string \<Rightarrow> service" where
  "buildMainService c ns =
     \<lparr>svc_meta = fresh_meta (svcName c) ns (sw_commonLabels c), svc_cluster_ip = [], svc_publish_not_ready = False,
      svc_selector = componentLabels c compFiler,
      svc_ports = [(''s3'', sw_s3Port, sw_s3Port), (''filer'', filerPort, filerPort), (''filer-grpc'', filerGRPC, filerGRPC)]\<rparr>"

definition buildHeadlessService :: "object_store \<Rightarrow> string \<Rightarrow> string \<Rightarrow> (string \<times> int \<times> int) list \<Rightarrow> service" where
  "buildHeadlessService c ns part ports =
     \<lparr>svc_meta = fresh_meta (componentName c part) ns (componentLabels c part), svc_cluster_ip = ''None'',
      svc_publish_not_ready = True, svc_selector = componentLabels c part, svc_ports = ports\<rparr>"

definition buildMasterService :: "object_store \<Rightarrow> string \<Rightarrow> service" where
  "buildMasterService c ns = buildHeadlessService c ns compMaster
     [(''http'', masterPort, masterPort), (''grpc'', masterGRPC, masterGRPC)]"

definition buildVolumeService :: "object_store \<Rightarrow> string \<Rightarrow> service" where
  "buildVolumeService c ns = buildHeadlessService c ns compVolume
     [(''http'', volumePort, volumePort), (''grpc'', volumeGRPC, volumeGRPC)]"

definition buildFilerService :: "object_store \<Rightarrow> string \<Rightarrow> service" where
  "buildFilerService c ns = buildHeadlessService c ns compFiler
     [(''http'', filerPort, filerPort), (''grpc'', filerGRPC, filerGRPC), (''s3'', sw_s3Port, sw_s3Port)]"

section \<open>Stateful sets\<close>

definition tcpProbe :: "int \<Rightarrow> int \<times> int \<times> int" where
  "tcpProbe p = (p, 10, 10)"

definition requests :: "string \<Rightarrow> string \<Rightarrow> (string \<times> string) list" where
  "requests cpu mem = [(''cpu'', cpu), (''memory'', mem)]"

definition statefulSet ::
  "object_store \<Rightarrow> string \<Rightarrow> string \<Rightarrow> int \<Rightarrow> container \<Rightarrow> claim_template list \<Rightarrow> (string \<times> volume_source) list \<Rightarrow> stateful_set" where
  "statefulSet c ns part replicas ct pvcs volumes =
     \<lparr>ss_meta = fresh_meta (componentName c part) ns (componentLabels c part),
      ss_service_name = componentName c part,
      ss_replicas = Some replicas,
      ss_parallel = False,
      ss_selector = componentLabels c part,
      ss_template_labels = componentLabels c part,
      ss_template_annotations = Map.empty,
      ss_pod = \<lparr>ps_service_account = [], ps_pull_secrets = [sw_registryPullSecret], ps_user = Some rootSecurityContext,
        ps_init = [], ps_containers = [ct], ps_volumes = volumes, ps_node_selector = Map.empty, ps_tolerations = [],
        ps_anti_affinity = None\<rparr>,
      ss_claims = pvcs,
      ss_ready_replicas = 0\<rparr>"

definition sw_container ::
  "string \<Rightarrow> string \<Rightarrow> string list \<Rightarrow> (string \<times> env_source) list \<Rightarrow> (string \<times> int) list \<Rightarrow> (string \<times> string \<times> bool) list \<Rightarrow> int \<Rightarrow> container" where
  "sw_container name img args env ports mounts probe =
     \<lparr>ct_name = name, ct_image = img, ct_command = [''/weed'', name], ct_args = args, ct_env = env, ct_ports = ports,
      ct_mounts = mounts, ct_probe = Some (tcpProbe probe), ct_requests = requests ''100m'' ''256Mi'', ct_user = None\<rparr>"

definition buildMasterStatefulSet :: "object_store \<Rightarrow> string \<Rightarrow> string \<Rightarrow> stateful_set" where
  "buildMasterStatefulSet c ns img =
     (case topology c of (masters, _, replication) \<Rightarrow>
        let name = componentName c compMaster;
            ct = sw_container ''master'' img
              [''-port='' @ itoa masterPort, ''-mdir='' @ dataMount, ''-ip.bind=0.0.0.0'',
               ''-ip=$(POD_NAME).'' @ name @ ''.'' @ ns, ''-peers='' @ masterServers c ns,
               ''-defaultReplication='' @ replication, ''-volumeSizeLimitMB='' @ itoa volumeSizeLimitMB]
              [podNameEnv] [(''http'', masterPort), (''grpc'', masterGRPC)] [(''data'', dataMount, False)] masterPort
        in statefulSet c ns compMaster masters ct [dataPVC c 1073741824] [])"

definition volumeServers :: "object_store \<Rightarrow> int" where
  "volumeServers c =
     (case topology c of (_, volumes, _) \<Rightarrow>
        case os_storage (os_spec c) of
          None \<Rightarrow> volumes
        | Some st \<Rightarrow> (case sto_nodes st of None \<Rightarrow> volumes | Some n \<Rightarrow> if n \<ge> 1 then n else volumes))"

definition buildVolumeStatefulSet :: "quantities \<Rightarrow> object_store \<Rightarrow> string \<Rightarrow> string \<Rightarrow> stateful_set" where
  "buildVolumeStatefulSet pq c ns img =
     (let name = componentName c compVolume;
          ct = sw_container ''volume'' img
            [''-port='' @ itoa volumePort, ''-dir='' @ dataMount, ''-max=0'', ''-ip.bind=0.0.0.0'',
             ''-ip=$(POD_NAME).'' @ name @ ''.'' @ ns, ''-mserver='' @ masterServers c ns]
            [podNameEnv] [(''http'', volumePort), (''grpc'', volumeGRPC)] [(''data'', dataMount, False)] volumePort
      in statefulSet c ns compVolume (volumeServers c) ct [dataPVC c (sw_storageSize pq c)] [])"

text \<open>\<open>usesPostgres\<close>, \<open>filerReplicas\<close> and \<open>filerConfigName\<close> are in \<open>postgres.go\<close>.\<close>

definition usesPostgres :: "object_store \<Rightarrow> bool" where
  "usesPostgres c \<longleftrightarrow> os_redundancy (os_spec c) = RedundancyHigh"

definition filerReplicas :: "object_store \<Rightarrow> int" where
  "filerReplicas c = (if usesPostgres c then 3 else 1)"

definition filerConfigName :: "object_store \<Rightarrow> string" where
  "filerConfigName c = componentName c compFiler @ ''-config''"

definition buildFilerStatefulSet :: "object_store \<Rightarrow> string \<Rightarrow> string \<Rightarrow> stateful_set" where
  "buildFilerStatefulSet c ns img =
     (let mounts = [(''config'', sw_configMount, False)] @ (if \<not> usesPostgres c then [(''data'', dataMount, False)] else []);
          pvcs = (if \<not> usesPostgres c then [dataPVC c filerStoreSize] else []);
          ct = sw_container ''filer'' img
            [''-port='' @ itoa filerPort, ''-ip.bind=0.0.0.0'', ''-ip=$(POD_IP)'', ''-master='' @ masterServers c ns,
             ''-s3'', ''-s3.port='' @ itoa sw_s3Port]
            [podIPEnv] [(''http'', filerPort), (''grpc'', filerGRPC), (''s3'', sw_s3Port)] mounts sw_s3Port
      in statefulSet c ns compFiler (filerReplicas c) ct pvcs [(''config'', VolSecret (filerConfigName c) False)])"

lemmas sw_set_defs = buildMasterStatefulSet_def buildVolumeStatefulSet_def buildFilerStatefulSet_def statefulSet_def sw_container_def

section \<open>Replication and admission\<close>

text \<open>What a replication code asks for: one copy, and as many more as its digits say, each on another server.\<close>

definition copies :: "string \<Rightarrow> nat" where
  "copies code = 1 + sum_list (map digit_val code)"

text \<open>The typed view of the fields the validator reads.\<close>

definition type_of :: "string \<Rightarrow> cluster_type" where
  "type_of s = (if s = ''System'' then ClusterTypeSystem else if s = ''Lightweight'' then ClusterTypeLightweight
     else if s = ''Full'' then ClusterTypeFull else if s = ''Heavy'' then ClusterTypeHeavy else ClusterTypeOther s)"

definition redundancy_of :: "string \<Rightarrow> redundancy_mode" where
  "redundancy_of s = (if s = ''None'' then RedundancyNone else if s = ''Standard'' then RedundancyStandard
     else if s = ''High'' then RedundancyHigh else RedundancyOther s)"

definition describes :: "unstructured \<Rightarrow> object_store \<Rightarrow> bool" where
  "describes u c \<longleftrightarrow> os_type (os_spec c) = type_of (spec_string u ''type'')
     \<and> os_redundancy (os_spec c) = redundancy_of (spec_string u ''redundancy'')
     \<and> nested_int64 (un_spec u) [''storage'', ''nodes''] = (case os_storage (os_spec c) of None \<Rightarrow> None | Some st \<Rightarrow> sto_nodes st)"

lemma topology_copies: "int (copies (snd (snd (topology c)))) \<le> fst (snd (topology c))"
  by (auto simp: topology_def copies_def digit_val_def split: redundancy_mode.split)

lemma admitted_nodes:
  assumes "vr_valid (fst (run_state (ObjectStoreValidate K u) s))" and "spec_string u ''type'' = ''Full''"
    and "nested_int64 (un_spec u) [''storage'', ''nodes''] = Some n" and "0 < n"
  shows "minVolumeNodes (spec_string u ''redundancy'') \<le> n"
  using assms by (auto simp: ObjectStoreValidate_def Let_def reject_def split: if_splits)

text \<open>A Full store that the webhook admits can be replicated as its masters are told to: there are at least as many
  volume servers as the replication code asks for copies on different servers, also when the number of servers is set by hand.\<close>

theorem replication_satisfiable:
  assumes "vr_valid (fst (run_state (ObjectStoreValidate K u) s))" and "describes u c"
    and "os_type (os_spec c) = ClusterTypeFull"
  shows "int (copies (snd (snd (topology c)))) \<le> volumeServers c"
proof -
  have "spec_string u ''type'' = ''Full''" using assms(2,3) by (auto simp: describes_def type_of_def split: if_splits)
  then have "minVolumeNodes (spec_string u ''redundancy'') \<le> n"
    if "nested_int64 (un_spec u) [''storage'', ''nodes''] = Some n" "1 \<le> n" for n
    using admitted_nodes [OF assms(1)] that by simp
  then show ?thesis
    using assms(2) topology_copies [of c]
    by (auto simp: describes_def volumeServers_def topology_def copies_def minVolumeNodes_def redundancy_of_def digit_val_def
        split: option.splits if_splits)
qed

definition full_object :: unstructured where
  "full_object = \<lparr>un_meta = fresh_meta ''full'' [] Map.empty,
     un_spec = JObj [(''type'', JStr ''Full''), (''redundancy'', JStr ''High''), (''storage'', JObj [(''nodes'', JNum 3)])], un_status = JNull\<rparr>"

definition full_store :: object_store where
  "full_store = \<lparr>os_meta = fresh_meta ''full'' [] Map.empty, os_spec = \<lparr>os_type = ClusterTypeFull,
     os_storage = Some \<lparr>sto_size_per_node = [], sto_nodes = Some 3, sto_class = []\<rparr>, os_placement = None,
     os_redundancy = RedundancyHigh, os_reclaim_policy = ClusterReclaimRetain, os_elastic_cluster_ref = []\<rparr>, os_status = None\<rparr>"

lemma replication_satisfiable_witness:
  "int (copies (snd (snd (topology full_store)))) \<le> volumeServers full_store"
  by (rule replication_satisfiable [of listing_kube full_object "([], [])"])
    (simp_all add: describes_def full_object_def full_store_def spec_string_def nested_string_def nested_int64_def type_of_def
      redundancy_of_def ObjectStoreValidate_def minVolumeNodes_def Let_def admitted_def)

end
