(* ===== verification/Seaweed_Wire.thy ===== *)
theory Seaweed_Wire
  imports Seaweed_Resources S3_Util
begin

text \<open>
  \<open>backend/seaweedfs/quota.go\<close>: the messages of the filer's gRPC API, put together by hand, and the bucket
  quota, a read-modify-write of the bucket's directory entry. The wire format itself is the package \<open>protowire\<close>,
  a parameter; \<open>wire_law\<close> is what its documentation says of it. A consuming function gives the number of bytes it
  read, \<open>None\<close> for an error.
\<close>

section \<open>The wire format\<close>

record protowire =
  pw_tag :: "nat \<Rightarrow> nat \<Rightarrow> string"
  pw_varint :: "nat \<Rightarrow> string"
  pw_bytes :: "string \<Rightarrow> string"
  pw_consume_tag :: "string \<Rightarrow> (nat \<times> nat \<times> nat) option"
  pw_consume_bytes :: "string \<Rightarrow> (string \<times> nat) option"
  pw_consume_value :: "nat \<Rightarrow> nat \<Rightarrow> string \<Rightarrow> nat option"

definition VarintType :: nat where "VarintType = 0"
definition BytesType :: nat where "BytesType = 2"

definition field_num :: "nat \<Rightarrow> bool" where
  "field_num n \<longleftrightarrow> 1 \<le> n \<and> n < 2 ^ 29"

definition prefix_free :: "(string \<Rightarrow> 'a option) \<Rightarrow> ('a \<Rightarrow> nat) \<Rightarrow> bool" where
  "prefix_free f len \<longleftrightarrow> (\<forall>b r. f b = Some r \<longrightarrow> 0 < len r \<and> len r \<le> length b \<and> (\<forall>rest. f (b @ rest) = Some r))"

definition wire_law :: "protowire \<Rightarrow> bool" where
  "wire_law W \<longleftrightarrow>
     (\<forall>n ty rest. field_num n \<longrightarrow> ty < 6 \<longrightarrow> pw_consume_tag W (pw_tag W n ty @ rest) = Some (n, ty, length (pw_tag W n ty)))
   \<and> (\<forall>v rest. pw_consume_bytes W (pw_bytes W v @ rest) = Some (v, length (pw_bytes W v)))
   \<and> (\<forall>n v rest. v < 2 ^ 64 \<longrightarrow> pw_consume_value W n VarintType (pw_varint W v @ rest) = Some (length (pw_varint W v)))
   \<and> prefix_free (pw_consume_tag W) (\<lambda>(n, ty, k). k)
   \<and> prefix_free (pw_consume_bytes W) snd
   \<and> (\<forall>n ty. prefix_free (pw_consume_value W n ty) id)"

section \<open>Fields\<close>

definition appendStringField :: "protowire \<Rightarrow> string \<Rightarrow> nat \<Rightarrow> string \<Rightarrow> string" where
  "appendStringField W b num s = b @ pw_tag W num BytesType @ pw_bytes W s"

definition appendBytesField :: "protowire \<Rightarrow> string \<Rightarrow> nat \<Rightarrow> string \<Rightarrow> string" where
  "appendBytesField W b num v = b @ pw_tag W num BytesType @ pw_bytes W v"

definition appendVarintField :: "protowire \<Rightarrow> string \<Rightarrow> nat \<Rightarrow> nat \<Rightarrow> string" where
  "appendVarintField W b num v = b @ pw_tag W num VarintType @ pw_varint W v"

text \<open>The loop of \<open>lastBytesField\<close>. Every round reads at least a byte, so the length of the message is enough fuel
  (\<open>last_field_fuel\<close>).\<close>

fun last_field :: "protowire \<Rightarrow> nat \<Rightarrow> nat \<Rightarrow> string \<Rightarrow> string option \<Rightarrow> string option" where
  "last_field W 0 want b acc = acc"
| "last_field W (Suc k) want b acc =
     (if b = [] then acc
      else (case pw_consume_tag W b of
          None \<Rightarrow> acc
        | Some (num, ty, n) \<Rightarrow>
            (let b = drop n b in
             if ty = BytesType
             then (case pw_consume_bytes W b of
                 None \<Rightarrow> acc
               | Some (v, vn) \<Rightarrow> last_field W k want (drop vn b) (if num = want then Some v else acc))
             else (case pw_consume_value W num ty b of
                 None \<Rightarrow> acc
               | Some vn \<Rightarrow> last_field W k want (drop vn b) acc))))"

definition lastBytesField :: "protowire \<Rightarrow> string \<Rightarrow> nat \<Rightarrow> string option" where
  "lastBytesField W b want = last_field W (length b) want b None"

text \<open>A Go slice that is nil or not, as text.\<close>

definition bytes_of :: "string option \<Rightarrow> string" where
  "bytes_of r = (case r of None \<Rightarrow> [] | Some v \<Rightarrow> v)"

section \<open>The environment of the driver\<close>

text \<open>\<open>sw_dial\<close> is \<open>grpc.NewClient\<close>, \<open>sw_invoke\<close> a call over it (target, method, request), \<open>sw_unix\<close> the clock in seconds, \<open>sw_rand\<close> is \<open>rand.Read\<close>.\<close>

record 'w sw_env =
  sw_kube :: "'w kube"
  sw_namespace :: string
  sw_image :: string
  sw_cluster_domain :: string
  sw_own :: "object_meta \<Rightarrow> object_meta \<Rightarrow> object_meta result"
  sw_pq :: quantities
  sw_rand :: "nat \<Rightarrow> 'w \<Rightarrow> string result \<times> 'w"
  sw_s3 :: "'w s3_api"
  sw_wire :: protowire
  sw_dial :: "string \<Rightarrow> go_error option"
  sw_invoke :: "string \<Rightarrow> string \<Rightarrow> string \<Rightarrow> 'w \<Rightarrow> string result \<times> 'w"
  sw_unix :: "'w \<Rightarrow> int \<times> 'w"

section \<open>Calls\<close>

definition filerSvcGetConfiguration :: string where "filerSvcGetConfiguration = ''/filer_pb.SeaweedFiler/GetFilerConfiguration''"
definition filerSvcLookupEntry :: string where "filerSvcLookupEntry = ''/filer_pb.SeaweedFiler/LookupDirectoryEntry''"
definition filerSvcUpdateEntry :: string where "filerSvcUpdateEntry = ''/filer_pb.SeaweedFiler/UpdateEntry''"
definition defaultBucketsDir :: string where "defaultBucketsDir = ''/buckets''"

definition fieldGetConfigDirBuckets :: nat where "fieldGetConfigDirBuckets = 5"
definition fieldLookupReqDirectory :: nat where "fieldLookupReqDirectory = 1"
definition fieldLookupReqName :: nat where "fieldLookupReqName = 2"
definition fieldLookupRespEntry :: nat where "fieldLookupRespEntry = 1"
definition fieldEntryQuota :: nat where "fieldEntryQuota = 11"
definition fieldUpdateReqDirectory :: nat where "fieldUpdateReqDirectory = 1"
definition fieldUpdateReqEntry :: nat where "fieldUpdateReqEntry = 2"

definition invoke :: "('w, 'x) sw_env_scheme \<Rightarrow> string \<Rightarrow> string \<Rightarrow> string \<Rightarrow> ('w, string result) go" where
  "invoke E target meth req = call (EvFiler target meth req) (sw_invoke E target meth req)"

definition lookup_request :: "protowire \<Rightarrow> string \<Rightarrow> string \<Rightarrow> string" where
  "lookup_request W dir name = appendStringField W (appendStringField W [] fieldLookupReqDirectory dir) fieldLookupReqName name"

definition update_request :: "protowire \<Rightarrow> string \<Rightarrow> string \<Rightarrow> string" where
  "update_request W dir entry = appendBytesField W (appendStringField W [] fieldUpdateReqDirectory dir) fieldUpdateReqEntry entry"

text \<open>\<open>uint64(quotaBytes)\<close> wraps a negative number around.\<close>

definition to_uint64 :: "int \<Rightarrow> nat" where
  "to_uint64 i = nat (i mod 2 ^ 64)"

definition with_quota :: "protowire \<Rightarrow> string \<Rightarrow> int \<Rightarrow> string" where
  "with_quota W entry quotaBytes = appendVarintField W entry fieldEntryQuota (to_uint64 quotaBytes)"

definition setBucketQuota ::
  "('w, 'x) sw_env_scheme \<Rightarrow> string \<Rightarrow> string \<Rightarrow> int \<Rightarrow> ('w, go_error option) go" where
  "setBucketQuota E target bucketName quotaBytes =
     (case sw_dial E target of
        Some err \<Rightarrow> return (Some (wrap_err (''dial filer gRPC '' @ target @ '': '') err))
      | None \<Rightarrow>
          do { cfg \<leftarrow> invoke E target filerSvcGetConfiguration [];
               case cfg of
                 Inl err \<Rightarrow> return (Some (wrap_err ''filer GetFilerConfiguration: '' err))
               | Inr cfg \<Rightarrow>
                   (let d = bytes_of (lastBytesField (sw_wire E) cfg fieldGetConfigDirBuckets);
                        dirBuckets = (if d = [] then defaultBucketsDir else d) in
                    do { lk \<leftarrow> invoke E target filerSvcLookupEntry (lookup_request (sw_wire E) dirBuckets bucketName);
                         case lk of
                           Inl err \<Rightarrow> return (Some (wrap_err (''filer LookupDirectoryEntry '' @ dirBuckets @ ''/'' @ bucketName @ '': '') err))
                         | Inr resp \<Rightarrow>
                             (case lastBytesField (sw_wire E) resp fieldLookupRespEntry of
                                None \<Rightarrow> return (Some (new_err (''bucket entry '' @ dirBuckets @ ''/'' @ bucketName @ '' not found on filer'')))
                              | Some entry \<Rightarrow>
                                  do { up \<leftarrow> invoke E target filerSvcUpdateEntry (update_request (sw_wire E) dirBuckets (with_quota (sw_wire E) entry quotaBytes));
                                       return (case up of
                                           Inl err \<Rightarrow> Some (wrap_err (''filer UpdateEntry '' @ dirBuckets @ ''/'' @ bucketName @ '': '') err)
                                         | Inr _ \<Rightarrow> None) }) }) })"

section \<open>What a message says\<close>

text \<open>The fields of a message in order, each with its number, its type and its bytes; \<open>None\<close> when it is malformed.
  This is the reader's view, against which the writers are judged.\<close>

function message :: "protowire \<Rightarrow> string \<Rightarrow> (nat \<times> nat \<times> string) list option" where
  "message W b =
     (if b = [] then Some []
      else (case pw_consume_tag W b of
          None \<Rightarrow> None
        | Some (num, ty, n) \<Rightarrow>
            (case (if ty = BytesType then pw_consume_bytes W (drop n b)
                   else map_option (\<lambda>k. (take k (drop n b), k)) (pw_consume_value W num ty (drop n b))) of
               None \<Rightarrow> None
             | Some (v, k) \<Rightarrow>
                 if n = 0 \<or> length b < n then None
                 else map_option (\<lambda>fs. (num, ty, v) # fs) (message W (drop k (drop n b))))))"
  by pat_completeness auto
termination
  by (relation "measure (length \<circ> snd)") auto

declare message.simps [simp del]

lemma prefix_freeD:
  assumes "prefix_free f len" and "f b = Some r"
  shows "0 < len r" and "len r \<le> length b" and "f (b @ rest) = Some r"
  using assms unfolding prefix_free_def by blast+

lemma wire_lawD:
  assumes "wire_law W"
  shows "field_num n \<Longrightarrow> ty < 6 \<Longrightarrow> pw_consume_tag W (pw_tag W n ty @ rest) = Some (n, ty, length (pw_tag W n ty))"
    and "pw_consume_bytes W (pw_bytes W v @ rest) = Some (v, length (pw_bytes W v))"
    and "i < 2 ^ 64 \<Longrightarrow> pw_consume_value W n VarintType (pw_varint W i @ rest) = Some (length (pw_varint W i))"
    and "prefix_free (pw_consume_tag W) (\<lambda>(n, ty, k). k)"
    and "prefix_free (pw_consume_bytes W) snd"
    and "prefix_free (pw_consume_value W n ty) id"
  using assms unfolding wire_law_def by simp_all

lemma message_Nil [simp]: "message W [] = Some []"
  by (simp add: message.simps)

text \<open>A field at the head of a message.\<close>

lemma message_tagged:
  assumes W: "wire_law W" and "pw_consume_tag W b = Some (num, ty, n)"
    and "(if ty = BytesType then pw_consume_bytes W (drop n b)
          else map_option (\<lambda>k. (take k (drop n b), k)) (pw_consume_value W num ty (drop n b))) = Some (v, k)"
  shows "message W b = map_option (\<lambda>fs. (num, ty, v) # fs) (message W (drop k (drop n b)))" and "0 < n" and "n \<le> length b"
    and "0 < k" and "n + k \<le> length b"
proof -
  show n: "0 < n" "n \<le> length b"
    using prefix_freeD(1,2) [OF wire_lawD(4) [OF W] assms(2)] by auto
  then show "message W b = map_option (\<lambda>fs. (num, ty, v) # fs) (message W (drop k (drop n b)))"
    using assms(2,3) by (subst message.simps) auto
  have "0 < k \<and> k \<le> length (drop n b)"
    using assms(3) prefix_freeD(1,2) [OF wire_lawD(5) [OF W], of "drop n b" "(v, k)"]
      prefix_freeD(1,2) [OF wire_lawD(6) [OF W], of num ty "drop n b" k]
    by (auto split: if_splits)
  with n show "0 < k" "n + k \<le> length b" by auto
qed

lemma message_append:
  assumes W: "wire_law W"
  shows "message W b = Some fs \<Longrightarrow> message W (b @ c) = map_option (\<lambda>gs. fs @ gs) (message W c)"
proof (induction "length b" arbitrary: b fs rule: less_induct)
  case less
  show ?case
  proof (cases "b = []")
    case True
    then show ?thesis using less(2) by (cases "message W c") simp_all
  next
    case False
    then obtain num ty n where t: "pw_consume_tag W b = Some (num, ty, n)"
      using less(2) by (subst (asm) message.simps) (auto split: option.splits)
    then obtain v k where v: "(if ty = BytesType then pw_consume_bytes W (drop n b)
          else map_option (\<lambda>k. (take k (drop n b), k)) (pw_consume_value W num ty (drop n b))) = Some (v, k)"
      using less(2) False by (subst (asm) message.simps) (auto split: option.splits)
    note m = message_tagged [OF W t v]
    obtain fs' where fs: "fs = (num, ty, v) # fs'" "message W (drop k (drop n b)) = Some fs'" using less(2) m(1) by auto
    have t': "pw_consume_tag W (b @ c) = Some (num, ty, n)" by (rule prefix_freeD(3) [OF wire_lawD(4) [OF W] t])
    have v': "(if ty = BytesType then pw_consume_bytes W (drop n (b @ c))
          else map_option (\<lambda>k. (take k (drop n (b @ c)), k)) (pw_consume_value W num ty (drop n (b @ c)))) = Some (v, k)"
      using v m(3,5) prefix_freeD(3) [OF wire_lawD(5) [OF W], of "drop n b" "(v, k)" c]
        prefix_freeD(3) [OF wire_lawD(6) [OF W], of num ty "drop n b" k c]
      by (auto split: if_splits)
    have "message W (drop k (drop n b) @ c) = map_option (\<lambda>gs. fs' @ gs) (message W c)"
      by (rule less(1) [OF _ fs(2)]) (use m(2,5) in auto)
    then show ?thesis
      using message_tagged(1) [OF W t' v'] m(3,5) fs(1) by (cases "message W c") simp_all
  qed
qed

lemma message_bytes: "wire_law W \<Longrightarrow> field_num n \<Longrightarrow> message W (pw_tag W n BytesType @ pw_bytes W v) = Some [(n, BytesType, v)]"
proof -
  assume W: "wire_law W" and n: "field_num n"
  have t: "pw_consume_tag W (pw_tag W n BytesType @ pw_bytes W v) = Some (n, BytesType, length (pw_tag W n BytesType))"
    by (rule wire_lawD(1) [OF W n]) (simp add: BytesType_def)
  show ?thesis
    using message_tagged(1) [OF W t, of v "length (pw_bytes W v)"] wire_lawD(2) [OF W, of v "[]"] by simp
qed

lemma message_varint: "wire_law W \<Longrightarrow> field_num n \<Longrightarrow> v < 2 ^ 64 \<Longrightarrow>
   message W (pw_tag W n VarintType @ pw_varint W v) = Some [(n, VarintType, pw_varint W v)]"
proof -
  assume W: "wire_law W" and n: "field_num n" and v: "v < 2 ^ 64"
  have t: "pw_consume_tag W (pw_tag W n VarintType @ pw_varint W v) = Some (n, VarintType, length (pw_tag W n VarintType))"
    by (rule wire_lawD(1) [OF W n]) (simp add: VarintType_def)
  show ?thesis
    using message_tagged(1) [OF W t, of "pw_varint W v" "length (pw_varint W v)"] wire_lawD(3) [OF W v, of n "[]"]
    by (simp add: VarintType_def BytesType_def)
qed

text \<open>Writing appends a field to the message, whatever the message is.\<close>

lemma message_fields:
  assumes "wire_law W" and "field_num n" and "message W b = Some fs"
  shows "message W (appendBytesField W b n v) = Some (fs @ [(n, BytesType, v)])"
    and "message W (appendStringField W b n v) = Some (fs @ [(n, BytesType, v)])"
    and "i < 2 ^ 64 \<Longrightarrow> message W (appendVarintField W b n i) = Some (fs @ [(n, VarintType, pw_varint W i)])"
  using assms by (simp_all add: appendBytesField_def appendStringField_def appendVarintField_def message_append message_bytes message_varint)

definition last_bytes :: "nat \<Rightarrow> string option \<Rightarrow> (nat \<times> nat \<times> string) list \<Rightarrow> string option" where
  "last_bytes want acc fs = foldl (\<lambda>acc (n, ty, v). if ty = BytesType \<and> n = want then Some v else acc) acc fs"

lemma last_field_message:
  assumes W: "wire_law W"
  shows "message W b = Some fs \<Longrightarrow> length b \<le> k \<Longrightarrow> last_field W k want b acc = last_bytes want acc fs"
proof (induction k arbitrary: b fs acc)
  case 0
  then show ?case by (simp add: last_bytes_def)
next
  case (Suc k)
  show ?case
  proof (cases "b = []")
    case True
    then show ?thesis using Suc(2) by (simp add: last_bytes_def)
  next
    case False
    then obtain num ty n where t: "pw_consume_tag W b = Some (num, ty, n)"
      using Suc(2) by (subst (asm) message.simps) (auto split: option.splits)
    then obtain v i where v: "(if ty = BytesType then pw_consume_bytes W (drop n b)
          else map_option (\<lambda>k. (take k (drop n b), k)) (pw_consume_value W num ty (drop n b))) = Some (v, i)"
      using Suc(2) False by (subst (asm) message.simps) (auto split: option.splits)
    note m = message_tagged [OF W t v]
    obtain fs' where fs: "fs = (num, ty, v) # fs'" "message W (drop i (drop n b)) = Some fs'" using Suc(2) m(1) by auto
    have "last_field W k want (drop i (drop n b)) acc' = last_bytes want acc' fs'" for acc'
      by (rule Suc(1) [OF fs(2)]) (use m Suc(3) in auto)
    then show ?thesis using False t v fs(1) by (auto simp: last_bytes_def split: if_splits)
  qed
qed

lemma lastBytesField_message: "wire_law W \<Longrightarrow> message W b = Some fs \<Longrightarrow> lastBytesField W b want = last_bytes want None fs"
  by (simp add: lastBytesField_def last_field_message)

text \<open>More fuel changes nothing, also for a malformed message.\<close>

lemma last_field_fuel:
  assumes W: "wire_law W"
  shows "length b \<le> k \<Longrightarrow> last_field W k want b acc = last_field W (length b) want b acc"
proof (induction "length b" arbitrary: b k acc rule: less_induct)
  case less
  show ?case
  proof (cases "b = []")
    case True
    then show ?thesis by (cases k) simp_all
  next
    case False
    then obtain k' m where k: "k = Suc k'" "length b = Suc m" using less(2) by (cases k; cases b) auto
    have step: "last_field W k' want (drop i (drop n b)) acc' = last_field W m want (drop i (drop n b)) acc'" if "0 < n" for i n acc'
      using less(1) [of "drop i (drop n b)" k' acc'] less(1) [of "drop i (drop n b)" m acc'] less(2) k that by simp
    have "0 < n" if "pw_consume_tag W b = Some (num, ty, n)" for num ty n
      using prefix_freeD(1) [OF wire_lawD(4) [OF W] that] by simp
    then show ?thesis using step by (auto simp: k Let_def split: option.split)
  qed
qed

section \<open>The quota\<close>

definition entry_seen :: "('w, 'x) sw_env_scheme \<Rightarrow> string \<Rightarrow> string \<Rightarrow> string \<Rightarrow> string \<Rightarrow> event list \<Rightarrow> bool" where
  "entry_seen E target dir name entry u \<longleftrightarrow> (\<exists>resp. EvFiler target filerSvcLookupEntry (lookup_request (sw_wire E) dir name) (Inr resp) \<in> set u
     \<and> lastBytesField (sw_wire E) resp fieldLookupRespEntry = Some entry)"

text \<open>The contract of the rewrite: when the entry is a well-formed message, what is written is the same message with the
  quota as one more field at its end, where it overrides an earlier one.\<close>

definition quota_rewrite :: "protowire \<Rightarrow> string \<Rightarrow> string \<Rightarrow> int \<Rightarrow> bool" where
  "quota_rewrite W entry entry' quota \<longleftrightarrow>
     (\<forall>fs. message W entry = Some fs \<longrightarrow>
        message W entry' = Some (fs @ [(fieldEntryQuota, VarintType, pw_varint W (to_uint64 quota))]))"

definition quota_event_ok :: "('w, 'x) sw_env_scheme \<Rightarrow> string \<Rightarrow> string \<Rightarrow> int \<Rightarrow> event list \<Rightarrow> event \<Rightarrow> bool" where
  "quota_event_ok E target name quota u e \<longleftrightarrow> (case e of
      EvFiler tg meth req r \<Rightarrow> tg = target
        \<and> (meth = filerSvcGetConfiguration
           \<or> (\<exists>dir. meth = filerSvcLookupEntry \<and> req = lookup_request (sw_wire E) dir name)
           \<or> (\<exists>dir entry entry'. meth = filerSvcUpdateEntry \<and> req = update_request (sw_wire E) dir entry'
                \<and> entry_seen E target dir name entry u \<and> quota_rewrite (sw_wire E) entry entry' quota))
    | _ \<Rightarrow> False)"

definition quota_written :: "string \<Rightarrow> event list \<Rightarrow> bool" where
  "quota_written target u \<longleftrightarrow> (\<exists>req resp. EvFiler target filerSvcUpdateEntry req (Inr resp) \<in> set u)"

lemma to_uint64_less: "to_uint64 i < 2 ^ 64"
  unfolding to_uint64_def by (subst nat_less_iff) auto

text \<open>Setting a quota keeps the bucket's entry intact. The only write of the call is the entry that the filer answered for this
  bucket with the quota appended, every other field untouched and in order, and no error means that the filer took it.\<close>

theorem quota_keeps_entry:
  assumes "wire_law (sw_wire E)"
  shows "wp (setBucketQuota E target name quota)
     (\<lambda>r s'. justified (quota_event_ok E target name quota) (snd s') \<and> (case r of None \<Rightarrow> quota_written target (snd s') | Some e \<Rightarrow> True)) (w, [])"
proof -
  have rw: "quota_rewrite (sw_wire E) entry (with_quota (sw_wire E) entry quota) quota" for entry
    using message_fields(3) [OF assms, of fieldEntryQuota entry _ "to_uint64 quota"] to_uint64_less [of quota]
    by (simp add: quota_rewrite_def with_quota_def field_num_def fieldEntryQuota_def)
  have update: "quota_event_ok E target name quota u (EvFiler target filerSvcUpdateEntry
      (update_request (sw_wire E) dir (with_quota (sw_wire E) entry quota)) r)" if "entry_seen E target dir name entry u" for dir entry u r
    using that rw unfolding quota_event_ok_def event.case by blast
  have reads: "quota_event_ok E target name quota u (EvFiler target filerSvcGetConfiguration req r)"
      "quota_event_ok E target name quota u (EvFiler target filerSvcLookupEntry (lookup_request (sw_wire E) dir name) r)" for u req r dir
    by (auto simp: quota_event_ok_def)
  show ?thesis
    unfolding setBucketQuota_def invoke_def Let_def
    by (intro wp_rules)
      (auto simp: reads quota_written_def split: option.splits sum.splits intro!: update, auto simp: entry_seen_def)
qed

section \<open>A wire format\<close>

text \<open>A concrete value of the parameter: numbers in base 128, least significant digit first.\<close>

fun to_base128 :: "nat \<Rightarrow> string" where
  "to_base128 n = (if n < 128 then [char_of n] else char_of (128 + n mod 128) # to_base128 (n div 128))"

declare to_base128.simps [simp del]

fun from_base128 :: "string \<Rightarrow> (nat \<times> nat) option" where
  "from_base128 [] = None"
| "from_base128 (c # s) =
     (if (of_char c :: nat) < 128 then Some (of_char c, 1)
      else (case from_base128 s of None \<Rightarrow> None | Some (v, k) \<Rightarrow> Some (of_char c - 128 + 128 * v, Suc k)))"

definition plain_wire :: protowire where
  "plain_wire = \<lparr>pw_tag = (\<lambda>n ty. to_base128 (n * 8 + ty)), pw_varint = to_base128,
     pw_bytes = (\<lambda>v. to_base128 (length v) @ v),
     pw_consume_tag = (\<lambda>b. map_option (\<lambda>(v, k). (v div 8, v mod 8, k)) (from_base128 b)),
     pw_consume_bytes = (\<lambda>b. case from_base128 b of None \<Rightarrow> None
        | Some (n, k) \<Rightarrow> if k + n \<le> length b then Some (take n (drop k b), k + n) else None),
     pw_consume_value = (\<lambda>n ty b. map_option snd (from_base128 b))\<rparr>"

lemma from_to_base128: "from_base128 (to_base128 n @ rest) = Some (n, length (to_base128 n))"
proof (induction n rule: to_base128.induct)
  case (1 n)
  show ?case
  proof (cases "n < 128")
    case True
    then show ?thesis by (simp add: to_base128.simps [of n] of_char_of)
  next
    case False
    have "128 + n mod 128 < 256" by simp
    with False 1 show ?thesis by (simp add: to_base128.simps [of n] of_char_of)
  qed
qed

lemma from_base128_prefix:
  "from_base128 b = Some (v, k) \<Longrightarrow> 0 < k \<and> k \<le> length b \<and> from_base128 (b @ rest) = Some (v, k)"
  by (induction b arbitrary: v k) (auto split: if_splits option.splits)

lemma plain_bytes_prefix: "prefix_free (pw_consume_bytes plain_wire) snd"
  unfolding prefix_free_def
proof (intro allI impI, goal_cases)
  case (1 b r)
  then obtain n k where n: "from_base128 b = Some (n, k)" "k + n \<le> length b" "r = (take n (drop k b), k + n)"
    by (auto simp: plain_wire_def split: option.splits if_splits)
  then show ?case using from_base128_prefix [OF n(1)] by (simp add: plain_wire_def)
qed

lemma plain_wire_law: "wire_law plain_wire"
  unfolding wire_law_def
proof (intro conjI plain_bytes_prefix)
  show "prefix_free (pw_consume_tag plain_wire) (\<lambda>(n, ty, k). k)"
    unfolding prefix_free_def plain_wire_def by (auto dest: from_base128_prefix)
  show "\<forall>n ty. prefix_free (pw_consume_value plain_wire n ty) id"
    unfolding prefix_free_def plain_wire_def by (auto dest: from_base128_prefix)
qed (simp_all add: plain_wire_def from_to_base128)

definition demo_sw_s3 :: "unit s3_api" where
  "demo_sw_s3 = \<lparr>s3_new = (\<lambda>_ _ _. None), s3_bucket_exists = (\<lambda>_ _ w. (Inr True, w)), s3_make_bucket = (\<lambda>_ _ _ w. (None, w)),
     s3_remove_objects = (\<lambda>_ _ w. ([], w)), s3_remove_bucket = (\<lambda>_ _ w. (None, w)), s3_get_policy = (\<lambda>_ _ w. (Inr [], w)),
     s3_set_policy = (\<lambda>_ _ _ w. (None, w))\<rparr>"

text \<open>A filer whose only entry is \<open>entry\<close>.\<close>

definition filer_env :: "string \<Rightarrow> unit sw_env" where
  "filer_env entry = \<lparr>sw_kube = quiet_kube, sw_namespace = ''d8'', sw_image = ''img'', sw_cluster_domain = ''cluster.local'',
     sw_own = (\<lambda>ow m. Inr (m\<lparr>m_owner := Some (m_name ow)\<rparr>)), sw_pq = (\<lambda>_. Inr 0), sw_rand = (\<lambda>n w. (Inr ''0'', w)), sw_s3 = demo_sw_s3,
     sw_wire = plain_wire, sw_dial = (\<lambda>_. None),
     sw_invoke = (\<lambda>_ meth _ w. (Inr (if meth = filerSvcLookupEntry then appendBytesField plain_wire [] fieldLookupRespEntry entry else []), w)),
     sw_unix = (\<lambda>w. (0, w))\<rparr>"

lemma quota_keeps_entry_witness:
  "wp (setBucketQuota (filer_env (appendStringField plain_wire [] 1 ''logs'')) ''filer:18888'' ''logs'' 1024)
     (\<lambda>r s'. justified (quota_event_ok (filer_env (appendStringField plain_wire [] 1 ''logs'')) ''filer:18888'' ''logs'' 1024) (snd s')
        \<and> (case r of None \<Rightarrow> quota_written ''filer:18888'' (snd s') | Some e \<Rightarrow> True)) ((), [])"
  by (rule quota_keeps_entry) (simp add: filer_env_def plain_wire_law)

end
