(* ===== verification/Seaweed_Postgres.thy ===== *)
theory Seaweed_Postgres
  imports Seaweed_Wire "HOL-Library.AList"
begin

text \<open>
  \<open>backend/seaweedfs/postgres.go\<close>: the metadata database of the filers and their configuration file. The
  \<open>Postgres\<close> resource belongs to the managed-postgres module, which writes fields of its own into its
  specification; the driver overlays what it manages. Specifications are JSON objects with the keys in alphabetical order.
\<close>

section \<open>Names\<close>

definition pgDatabase :: string where "pgDatabase = ''seaweedfs''"
definition pgUser :: string where "pgUser = ''seaweedfs''"
definition pgPort :: int where "pgPort = 5432"
definition postgresGVK :: string where "postgresGVK = ''managed-services.deckhouse.io/v1alpha1, Kind=Postgres''"

definition pgName :: "object_store \<Rightarrow> string" where
  "pgName c = componentName c ''pg''"

definition pgHost :: "object_store \<Rightarrow> string" where
  "pgHost c = ''d8ms-pg-'' @ pgName c @ ''-rw''"

definition pgCredsSecretName :: "object_store \<Rightarrow> string" where
  "pgCredsSecretName c = componentName c ''pg'' @ ''-creds''"

section \<open>The Postgres resource\<close>

definition pg_instance :: "object_store \<Rightarrow> json" where
  "pg_instance c = JObj
     [(''cpu'', JObj [(''coreFraction'', JNum 100), (''cores'', JNum 1)]),
      (''memory'', JObj [(''size'', JStr ''512Mi'')]),
      (''persistentVolumeClaim'', JObj [(''size'', JStr ''2Gi''), (''storageClassName'', JStr (storageClass c))])]"

definition pg_topology :: "object_store \<Rightarrow> (string \<times> json) list \<times> string" where
  "pg_topology c =
     (case os_redundancy (os_spec c) of
        RedundancyNone \<Rightarrow> ([], ''Standalone'')
      | RedundancyHigh \<Rightarrow> ([(''cluster'', JObj [(''replication'', JStr ''ConsistencyAndAvailability'')])], ''Cluster'')
      | _ \<Rightarrow> ([(''cluster'', JObj [(''replication'', JStr ''Availability'')])], ''Cluster''))"

definition pg_user_object :: "object_store \<Rightarrow> (string \<times> json) list" where
  "pg_user_object c = [(''name'', JStr pgUser), (''role'', JStr ''rw''), (''storeCredsToSecret'', JStr (pgCredsSecretName c))]"

definition buildPostgres :: "object_store \<Rightarrow> string \<Rightarrow> unstructured" where
  "buildPostgres c ns =
     (case pg_topology c of (clu, typ) \<Rightarrow>
       \<lparr>un_meta = fresh_meta (pgName c) ns (componentLabels c compFiler),
        un_spec = JObj (clu @
          [(''databases'', JArr [JObj [(''name'', JStr pgDatabase)]]),
           (''instance'', pg_instance c),
           (''postgresClassName'', JStr ''default''),
           (''type'', JStr typ),
           (''users'', JArr [JObj (pg_user_object c)])]),
        un_status = JNull\<rparr>)"

definition nested_slice :: "json \<Rightarrow> string list \<Rightarrow> json list" where
  "nested_slice j path = (case nested j path of Some (JArr js) \<Rightarrow> js | _ \<Rightarrow> [])"

definition members :: "json \<Rightarrow> (string \<times> json) list" where
  "members j = (case j of JObj ms \<Rightarrow> ms | _ \<Rightarrow> [])"

definition str_member :: "string \<Rightarrow> (string \<times> json) list \<Rightarrow> string" where
  "str_member k ms = (case map_of ms k of Some (JStr s) \<Rightarrow> s | _ \<Rightarrow> [])"

definition index_user :: "(string \<rightharpoonup> (string \<times> json) list) \<Rightarrow> json \<Rightarrow> (string \<rightharpoonup> (string \<times> json) list)" where
  "index_user m u = (case u of
      JObj ms \<Rightarrow> (let name = str_member ''name'' ms in if name \<noteq> [] then m(name \<mapsto> ms) else m)
    | _ \<Rightarrow> m)"

definition users_by_name :: "json list \<Rightarrow> (string \<rightharpoonup> (string \<times> json) list)" where
  "users_by_name us = foldl index_user Map.empty us"

definition carry_field :: "(string \<times> json) list \<Rightarrow> (string \<times> json) list \<Rightarrow> string \<Rightarrow> (string \<times> json) list" where
  "carry_field ex ms key = (case map_of ex key of None \<Rightarrow> ms | Some v \<Rightarrow> AList.update key v ms)"

definition carry_secrets :: "(string \<rightharpoonup> (string \<times> json) list) \<Rightarrow> json \<Rightarrow> json" where
  "carry_secrets byName u = (case u of
      JObj ms \<Rightarrow> (case byName (str_member ''name'' ms) of
          None \<Rightarrow> u
        | Some ex \<Rightarrow> JObj (foldl (carry_field ex) ms [''hashedPassword'', ''password'']))
    | _ \<Rightarrow> u)"

definition set_spec :: "unstructured \<Rightarrow> string \<Rightarrow> json \<Rightarrow> unstructured" where
  "set_spec u k v = u\<lparr>un_spec := JObj (AList.update k v (members (un_spec u)))\<rparr>"

definition preservePgUserSecrets :: "unstructured \<Rightarrow> unstructured \<Rightarrow> unstructured" where
  "preservePgUserSecrets desired existing =
     (let desiredUsers = nested_slice (un_spec desired) [''users''];
          existingUsers = nested_slice (un_spec existing) [''users'']
      in if desiredUsers = [] \<or> existingUsers = [] then desired
         else (let carried = map (carry_secrets (users_by_name existingUsers)) desiredUsers
               in if carried = desiredUsers then desired else set_spec desired ''users'' (JArr carried)))"

text \<open>The overlay of \<open>ensurePostgres\<close>: what it makes of the live object.\<close>

definition overlay_spec :: "(string \<times> json) list \<Rightarrow> (string \<times> json) list \<Rightarrow> (string \<times> json) list" where
  "overlay_spec live desired = foldl (\<lambda>ms (k, v). AList.update k v ms) live desired"

definition pg_overlay :: "unstructured \<Rightarrow> unstructured \<Rightarrow> unstructured" where
  "pg_overlay built existing =
     (let desired = preservePgUserSecrets built existing in
      existing\<lparr>un_spec := JObj (overlay_spec (members (un_spec existing)) (members (un_spec desired))),
        un_meta := (un_meta existing)\<lparr>m_labels := m_labels (un_meta existing) ++ m_labels (un_meta desired),
          m_owner := m_owner (un_meta desired)\<rparr>\<rparr>)"

definition pg_changed :: "unstructured \<Rightarrow> unstructured \<Rightarrow> bool" where
  "pg_changed before after \<longleftrightarrow> un_spec before \<noteq> un_spec after \<or> m_labels (un_meta before) \<noteq> m_labels (un_meta after)
     \<or> m_owner (un_meta before) \<noteq> m_owner (un_meta after)"

definition ensurePostgres :: "('w, 'x) sw_env_scheme \<Rightarrow> object_store \<Rightarrow> ('w, go_error option) go" where
  "ensurePostgres E c =
     (let built = buildPostgres c (sw_namespace E); res = k_unstructured (sw_kube E) postgresGVK in
      case sw_own E (os_meta c) (un_meta built) of
        Inl err \<Rightarrow> return (Some err)
      | Inr m \<Rightarrow>
          (let desired = built\<lparr>un_meta := m\<rparr> in
           do { r \<leftarrow> kget Uncached (KUnstructured postgresGVK) OUnstructured res (sw_namespace E, pgName c);
                case r of
                  Inl err \<Rightarrow>
                    (if is_not_found err then kcreate (KUnstructured postgresGVK) OUnstructured res desired else return (Some err))
                | Inr existing \<Rightarrow>
                    (let updated = pg_overlay desired existing in
                     if \<not> pg_changed existing updated then return None
                     else kupdate (KUnstructured postgresGVK) OUnstructured res updated) }))"

section \<open>The credentials\<close>

text \<open>\<open>None\<close> is the answer \<open>ok = false\<close>.\<close>

definition creds_of :: "object_store \<Rightarrow> secret \<Rightarrow> (string \<times> string \<times> string) option" where
  "creds_of c s =
     (let user = map_str (sec_data s) ''username''; password = map_str (sec_data s) ''password''; host = map_str (sec_data s) ''host'' in
      if user = [] \<or> password = [] then None
      else Some (if host = [] then pgHost c else host, user, password))"

definition pgCreds :: "('w, 'x) sw_env_scheme \<Rightarrow> object_store \<Rightarrow> ('w, (string \<times> string \<times> string) option result) go" where
  "pgCreds E c =
     do { r \<leftarrow> kget Uncached KSecret OSecret (k_secrets (sw_kube E)) (sw_namespace E, pgCredsSecretName c);
          return (case r of
              Inl err \<Rightarrow> if is_not_found err then Inr None else Inl err
            | Inr s \<Rightarrow> Inr (creds_of c s)) }"

section \<open>The configuration of the filers\<close>

definition hex_upper :: "nat \<Rightarrow> char" where
  "hex_upper n = (if n < 10 then char_of (48 + n) else char_of (55 + n))"

definition toml_char :: "char \<Rightarrow> string" where
  "toml_char c =
     (let n = (of_char c :: nat) in
      if n = 92 then [CHR 0x5C, CHR 0x5C]
      else if n = 34 then [CHR 0x5C, CHR 0x22]
      else if n = 8 then [CHR 0x5C, CHR ''b'']
      else if n = 9 then [CHR 0x5C, CHR ''t'']
      else if n = 10 then [CHR 0x5C, CHR ''n'']
      else if n = 12 then [CHR 0x5C, CHR ''f'']
      else if n = 13 then [CHR 0x5C, CHR ''r'']
      else if n < 32 \<or> n = 127
      then [CHR 0x5C, CHR ''u'', CHR ''0'', CHR ''0'', hex_upper (n div 16), hex_upper (n mod 16)]
      else [c])"

definition tomlBasicEscape :: "string \<Rightarrow> string" where
  "tomlBasicEscape s = concat (map toml_char s)"

definition renderFilerToml :: "string \<Rightarrow> int \<Rightarrow> string \<Rightarrow> string \<Rightarrow> string \<Rightarrow> string" where
  \<open>renderFilerToml host prt user password database =
     ''[postgres2]'' @ nl
     @ ''enabled = true'' @ nl
     @ ''hostname = "'' @ tomlBasicEscape host @ ''"'' @ nl
     @ ''port = '' @ itoa prt @ nl
     @ ''username = "'' @ tomlBasicEscape user @ ''"'' @ nl
     @ ''password = "'' @ tomlBasicEscape password @ ''"'' @ nl
     @ ''database = "'' @ tomlBasicEscape database @ ''"'' @ nl
     @ ''sslmode = "require"'' @ nl
     @ ''createTable = """'' @ nl
     @ ''CREATE TABLE IF NOT EXISTS "%s" ('' @ nl
     @ ''  dirhash   BIGINT,'' @ nl
     @ ''  name      VARCHAR(65535),'' @ nl
     @ ''  directory VARCHAR(65535),'' @ nl
     @ ''  meta      bytea,'' @ nl
     @ ''  PRIMARY KEY (dirhash, name)'' @ nl
     @ '');'' @ nl
     @ ''"""'' @ nl\<close>

definition renderFilerTomlLeveldb :: "string \<Rightarrow> string" where
  \<open>renderFilerTomlLeveldb dir = ''[leveldb2]'' @ nl @ ''enabled = true'' @ nl @ ''dir = "'' @ dir @ ''"'' @ nl\<close>

definition buildFilerConfigSecret :: "object_store \<Rightarrow> string \<Rightarrow> string \<Rightarrow> secret" where
  "buildFilerConfigSecret c ns filerToml =
     \<lparr>sec_meta = fresh_meta (filerConfigName c) ns (componentLabels c compFiler), sec_data = Map.empty,
      sec_string_data = [''filer.toml'' \<mapsto> filerToml]\<rparr>"

section \<open>Reading the configuration back\<close>

text \<open>A basic string of TOML 1.0 after its opening quote, as a reader of the file sees it.\<close>

definition upper_val :: "char \<Rightarrow> nat option" where
  "upper_val c = (let n = (of_char c :: nat) in
     if 48 \<le> n \<and> n \<le> 57 then Some (n - 48) else if 65 \<le> n \<and> n \<le> 70 then Some (n - 55) else None)"

definition toml_short :: "char \<Rightarrow> char option" where
  "toml_short e =
     (if e = CHR 0x22 \<or> e = CHR 0x5C then Some e
      else if e = CHR ''b'' then Some (CHR 0x08)
      else if e = CHR ''t'' then Some (CHR 0x09)
      else if e = CHR ''n'' then Some (CHR 0x0A)
      else if e = CHR ''f'' then Some (CHR 0x0C)
      else if e = CHR ''r'' then Some (CHR 0x0D) else None)"

fun toml_unicode :: "string \<Rightarrow> (char \<times> string) option" where
  "toml_unicode (a # b # x # y # s) =
     (if a = CHR ''0'' \<and> b = CHR ''0''
      then (case (upper_val x, upper_val y) of (Some i, Some j) \<Rightarrow> Some (char_of (i * 16 + j), s) | _ \<Rightarrow> None)
      else None)"
| "toml_unicode _ = None"

lemma toml_unicode_length: "toml_unicode s = Some (c, t) \<Longrightarrow> length t < length s"
  by (induction s rule: toml_unicode.induct) (auto split: if_splits option.splits)

function toml_basic :: "string \<Rightarrow> (string \<times> string) option" where
  "toml_basic [] = None"
| "toml_basic (c # s) =
     (if c = CHR 0x22 then Some ([], s)
      else if c = CHR 0x5C
      then (case s of
              [] \<Rightarrow> None
            | e # s' \<Rightarrow>
                if e = CHR ''u''
                then (case toml_unicode s' of None \<Rightarrow> None | Some (x, t) \<Rightarrow> prepend [x] (toml_basic t))
                else (case toml_short e of None \<Rightarrow> None | Some x \<Rightarrow> prepend [x] (toml_basic s')))
      else if ((of_char c :: nat) < 32 \<and> c \<noteq> CHR 0x09) \<or> (of_char c :: nat) = 127 then None
      else prepend [c] (toml_basic s))"
  by pat_completeness auto
termination
  by (relation "measure length") (auto dest: toml_unicode_length)

lemma upper_val_hex: "n < 16 \<Longrightarrow> upper_val (hex_upper n) = Some n"
  by (auto simp: upper_val_def hex_upper_def of_char_of)

lemma toml_basic_char: "toml_basic (toml_char c @ t) = prepend [c] (toml_basic t)"
proof -
  let ?n = "of_char c :: nat"
  consider "?n \<in> {92, 34, 8, 9, 10, 12, 13}" | "?n \<notin> {92, 34, 8, 9, 10, 12, 13}" "?n < 32 \<or> ?n = 127"
    | "?n \<notin> {92, 34, 8, 9, 10, 12, 13}" "\<not> ?n < 32" "?n \<noteq> 127" by blast
  then show ?thesis
  proof cases
    case 1
    then have "c \<in> {CHR 0x5C, CHR 0x22, CHR 0x08, CHR 0x09, CHR 0x0A, CHR 0x0C, CHR 0x0D}"
      by (auto simp flip: of_char_eq_iff [where 'a = nat])
    then show ?thesis by (auto simp: toml_char_def toml_short_def)
  next
    case 2
    then have "?n < 128" by auto
    then have "?n div 16 < 16" by simp
    then have "toml_unicode (CHR ''0'' # CHR ''0'' # hex_upper (?n div 16) # hex_upper (?n mod 16) # t) = Some (c, t)"
      by (simp add: upper_val_hex)
    with 2 show ?thesis by (simp add: toml_char_def Let_def)
  next
    case 3
    then show ?thesis by (simp add: toml_char_def char_code Let_def)
  qed
qed

text \<open>No value can break out of the configuration of the filers. A TOML reader that meets the escaped host, user or password
  after the opening quote reads exactly the value and goes on behind the closing quote, whatever characters it has.\<close>

theorem toml_values_contained:
  "toml_basic (tomlBasicEscape s @ CHR 0x22 # rest) = Some (s, rest)"
  unfolding tomlBasicEscape_def by (induction s) (simp_all add: toml_basic_char prepend_def)

section \<open>What the overlay keeps\<close>

definition spec_field :: "unstructured \<Rightarrow> string \<Rightarrow> json option" where
  "spec_field u k = map_of (members (un_spec u)) k"

definition user_field :: "unstructured \<Rightarrow> string \<Rightarrow> string \<Rightarrow> json option" where
  "user_field u name k =
     (case users_by_name (nested_slice (un_spec u) [''users'']) name of None \<Rightarrow> None | Some ms \<Rightarrow> map_of ms k)"

definition managed_fields :: "string list" where
  "managed_fields = [''cluster'', ''databases'', ''instance'', ''postgresClassName'', ''type'', ''users'']"

lemma map_of_overlay: "map_of (overlay_spec live desired) k = (case map_of (rev desired) k of Some v \<Rightarrow> Some v | None \<Rightarrow> map_of live k)"
  by (induction desired arbitrary: live)
    (auto simp: overlay_spec_def update_conv map_add_def split: option.splits)

lemma overlay_same: "(\<And>k v. (k, v) \<in> set desired \<Longrightarrow> map_of live k = Some v) \<Longrightarrow> overlay_spec live desired = live"
proof (induction desired)
  case (Cons kv ds)
  have same: "AList.update k v al = al" if "map_of al k = Some v" for k v and al :: "(string \<times> json) list"
    using that by (induction al) (auto split: if_splits)
  from Cons show ?case by (cases kv) (simp add: overlay_spec_def same)
qed (simp add: overlay_spec_def)

text \<open>The user the driver asks for, with the secrets the live object has for it.\<close>

definition live_user :: "object_store \<Rightarrow> unstructured \<Rightarrow> (string \<times> json) list" where
  "live_user c existing = (case users_by_name (nested_slice (un_spec existing) [''users'']) pgUser of
      None \<Rightarrow> pg_user_object c
    | Some ex \<Rightarrow> foldl (carry_field ex) (pg_user_object c) [''hashedPassword'', ''password''])"

definition pg_members :: "object_store \<Rightarrow> (string \<times> json) list \<Rightarrow> (string \<times> json) list" where
  "pg_members c user = (case pg_topology c of (clu, typ) \<Rightarrow> clu @
     [(''databases'', JArr [JObj [(''name'', JStr pgDatabase)]]), (''instance'', pg_instance c),
      (''postgresClassName'', JStr ''default''), (''type'', JStr typ), (''users'', JArr [JObj user])])"

lemma pg_topology_cases: "fst (pg_topology c) = [] \<or> (\<exists>v. fst (pg_topology c) = [(''cluster'', v)])"
  by (simp add: pg_topology_def split: redundancy_mode.split)

lemma pg_members_simps [simp]:
  "nested_slice (JObj (pg_members c user)) [''users''] = [JObj user]"
  "AList.update ''users'' (JArr [JObj user']) (pg_members c user) = pg_members c user'"
  using pg_topology_cases [of c] by (auto simp: pg_members_def nested_slice_def split: prod.splits)

lemma built_spec: "un_spec (buildPostgres c ns) = JObj (pg_members c (pg_user_object c))"
  by (simp add: buildPostgres_def pg_members_def split: prod.split)

lemma preserved_spec:
  "un_spec (preservePgUserSecrets (buildPostgres c ns\<lparr>un_meta := m\<rparr>) existing) = JObj (pg_members c (live_user c existing))"
proof -
  have "str_member ''name'' (pg_user_object c) = pgUser" by (simp add: str_member_def pg_user_object_def)
  then have "map (carry_secrets (users_by_name (nested_slice (un_spec existing) [''users'']))) [JObj (pg_user_object c)]
      = [JObj (live_user c existing)]"
    by (simp add: carry_secrets_def live_user_def split: option.split)
  moreover have "live_user c existing = pg_user_object c" if "nested_slice (un_spec existing) [''users''] = []"
    using that by (simp add: live_user_def users_by_name_def)
  ultimately show ?thesis
    by (auto simp: preservePgUserSecrets_def built_spec Let_def set_spec_def members_def)
qed

lemma preserved_meta: "un_meta (preservePgUserSecrets u existing) = un_meta u"
  by (simp add: preservePgUserSecrets_def set_spec_def Let_def)

lemma live_user_fields:
  "map_of (live_user c existing) k =
     (if k \<in> {''hashedPassword'', ''password''} then user_field existing pgUser k else map_of (pg_user_object c) k)"
  by (auto simp: live_user_def user_field_def carry_field_def update_conv pg_user_object_def split: option.splits)

abbreviation pg_desired :: "object_store \<Rightarrow> string \<Rightarrow> object_meta \<Rightarrow> unstructured" where
  "pg_desired c ns m \<equiv> buildPostgres c ns\<lparr>un_meta := m\<rparr>"

lemma overlaid_members:
  "un_spec (pg_overlay (pg_desired c ns m) existing) = JObj (overlay_spec (members (un_spec existing)) (pg_members c (live_user c existing)))"
  by (simp add: pg_overlay_def Let_def preserved_spec members_def)

lemma map_of_rev_distinct: "distinct (map fst xs) \<Longrightarrow> map_of (rev xs) = map_of xs"
proof (induction xs)
  case (Cons x xs)
  then have "map_of xs (fst x) = None" by (simp add: map_of_eq_None_iff)
  with Cons show ?case by (cases x) (auto simp: map_add_def fun_eq_iff split: option.split)
qed simp

lemma pg_members_distinct: "distinct (map fst (pg_members c user))"
  using pg_topology_cases [of c] by (auto simp: pg_members_def split: prod.splits)

lemma overlaid_field:
  "spec_field (pg_overlay (pg_desired c ns m) existing) k =
     (case map_of (pg_members c (live_user c existing)) k of Some v \<Rightarrow> Some v | None \<Rightarrow> spec_field existing k)"
proof -
  have "map_of (rev (pg_members c user)) k = map_of (pg_members c user) k" for user
    using pg_members_distinct [of c user] by (simp add: map_of_rev_distinct)
  then show ?thesis by (simp add: spec_field_def overlaid_members map_of_overlay members_def split: option.split)
qed

lemma unmanaged: "k \<notin> set managed_fields \<Longrightarrow> map_of (pg_members c user) k = None"
  using pg_topology_cases [of c] by (auto simp: pg_members_def managed_fields_def split: prod.splits)

lemma overlaid_users: "nested_slice (un_spec (pg_overlay (pg_desired c ns m) existing)) [''users''] = [JObj (live_user c existing)]"
proof -
  have "spec_field (pg_overlay (pg_desired c ns m) existing) ''users'' = Some (JArr [JObj (live_user c existing)])"
    using pg_topology_cases [of c] by (auto simp: overlaid_field pg_members_def split: prod.splits)
  then show ?thesis by (simp add: spec_field_def overlaid_members members_def nested_slice_def)
qed

lemma indexed_user: "users_by_name [JObj (live_user c existing)] pgUser = Some (live_user c existing)"
proof -
  have "map_of (live_user c existing) ''name'' = Some (JStr pgUser)"
    by (simp add: live_user_fields) (simp add: pg_user_object_def)
  then show ?thesis by (simp add: users_by_name_def index_user_def str_member_def pgUser_def)
qed

lemma overlaid_user_field: "user_field (pg_overlay (pg_desired c ns m) existing) pgUser k = map_of (live_user c existing) k"
  by (simp add: user_field_def overlaid_users indexed_user)

lemma live_user_again: "live_user c (pg_overlay (pg_desired c ns m) existing) = live_user c existing"
  unfolding live_user_def [of c "pg_overlay (pg_desired c ns m) existing"] overlaid_users indexed_user
  by (simp add: live_user_def carry_field_def pg_user_object_def split: option.split)

lemma overlay_settles:
  "\<not> pg_changed (pg_overlay (pg_desired c ns m) existing) (pg_overlay (pg_desired c ns m) (pg_overlay (pg_desired c ns m) existing))"
proof -
  let ?y = "pg_overlay (pg_desired c ns m) existing"
  have "map_of (members (un_spec ?y)) k = Some v" if "(k, v) \<in> set (pg_members c (live_user c existing))" for k v
  proof -
    have "map_of (pg_members c (live_user c existing)) k = Some v"
      using that pg_topology_cases [of c] by (auto simp: pg_members_def split: prod.splits)
    then show ?thesis using overlaid_field [where c = c and ns = ns and m = m and existing = existing and k = k] by (simp add: spec_field_def)
  qed
  then have "overlay_spec (members (un_spec ?y)) (pg_members c (live_user c ?y)) = members (un_spec ?y)"
    unfolding live_user_again by (rule overlay_same)
  then have "un_spec (pg_overlay (pg_desired c ns m) ?y) = un_spec ?y"
    using overlaid_members [where c = c and ns = ns and m = m and existing = existing] by (simp add: overlaid_members [where c = c and ns = ns and m = m and existing = ?y]) (simp add: members_def)
  moreover have twice: "l ++ l = l" for l :: str_map by (auto simp: map_add_def fun_eq_iff split: option.split)
  moreover have "m_labels (un_meta (pg_overlay (pg_desired c ns m) ?y)) = m_labels (un_meta ?y)"
      "m_owner (un_meta (pg_overlay (pg_desired c ns m) ?y)) = m_owner (un_meta ?y)"
    by (simp_all add: pg_overlay_def Let_def preserved_meta twice flip: map_add_assoc)
  ultimately show ?thesis by (simp add: pg_changed_def)
qed

definition pg_kept :: "object_store \<Rightarrow> string \<Rightarrow> unstructured \<Rightarrow> unstructured \<Rightarrow> bool" where
  "pg_kept c ns live written \<longleftrightarrow>
     (\<forall>k. k \<in> set managed_fields \<or> spec_field written k = spec_field live k)
   \<and> (\<forall>k \<in> {''hashedPassword'', ''password''}. user_field written pgUser k = user_field live pgUser k)
   \<and> (\<exists>m. written = pg_overlay (pg_desired c ns m) live \<and> \<not> pg_changed written (pg_overlay (pg_desired c ns m) written))"

definition pg_event_ok :: "('w, 'x) sw_env_scheme \<Rightarrow> object_store \<Rightarrow> event list \<Rightarrow> event \<Rightarrow> bool" where
  "pg_event_ok E c u e \<longleftrightarrow> (case e of
      EvGet rd k ky r \<Rightarrow> k = KUnstructured postgresGVK
    | EvCreate k x r \<Rightarrow> k = KUnstructured postgresGVK
        \<and> (\<exists>y. x = OUnstructured y \<and> un_spec y = un_spec (buildPostgres c (sw_namespace E)))
        \<and> (\<exists>err. EvGet Uncached (KUnstructured postgresGVK) (sw_namespace E, pgName c) (Inl err) \<in> set u \<and> is_not_found err)
    | EvUpdate k x r \<Rightarrow> k = KUnstructured postgresGVK
        \<and> (\<exists>live y. x = OUnstructured y \<and> pg_kept c (sw_namespace E) live y \<and> pg_changed live y
            \<and> EvGet Uncached (KUnstructured postgresGVK) (sw_namespace E, pgName c) (Inr (OUnstructured live)) \<in> set u)
    | _ \<Rightarrow> False)"

lemma pg_pass:
  "wp (ensurePostgres E c) (\<lambda>r s'. justified (pg_event_ok E c) (snd s')) (w, [])"
proof -
  have kept: "pg_kept c ns live (pg_overlay (pg_desired c ns m) live)" for ns live m
    unfolding pg_kept_def
    using overlay_settles [where c = c and ns = ns and m = m and existing = live] unmanaged [of _ c "live_user c live"]
    by (fastforce simp: overlaid_field overlaid_user_field live_user_fields)
  show ?thesis
    unfolding ensurePostgres_def Let_def kget_def kcreate_def kupdate_def
    by (intro wp_rules) (auto simp: pg_event_ok_def intro: kept)
qed

lemma framed_postgres: "framed (ensurePostgres E c)"
  unfolding ensurePostgres_def Let_def kget_def kcreate_def kupdate_def by (intro framed_rules)

text \<open>The database keeps its password and is not churned. The Postgres resource is created only when there is none; an update
  keeps every field of the live specification that the driver does not manage and the password fields that managed-postgres wrote for
  the user of the filers, is made only when it changes something, and leaves a resource on which the next pass changes nothing.\<close>

theorem pg_overlay_safe:
  "wp (ensurePostgres E c) (\<lambda>r s'. justified (pg_event_ok E c) (snd s')) (w, [])"
  by (rule pg_pass)

end
