(* ===== verification/Seaweed_Iam.thy ===== *)
theory Seaweed_Iam
  imports Seaweed_Wire
begin

text \<open>
  \<open>backend/seaweedfs/iam.go\<close>: the identities of the S3 gateway, one file each on the filer. The Go interface
  \<open>identityFiles\<close> is a record of operations, and the client of the filer is one; what accesses need of it is stated and
  shown in \<open>Seaweed_Access\<close>.
\<close>

section \<open>Identities\<close>

definition iamIdentitiesDir :: string where "iamIdentitiesDir = ''/etc/iam/identities''"
definition actionAdmin :: string where "actionAdmin = ''Admin''"
definition actionRead :: string where "actionRead = ''Read''"
definition actionWrite :: string where "actionWrite = ''Write''"
definition actionList :: string where "actionList = ''List''"
definition actionTagging :: string where "actionTagging = ''Tagging''"

record s3Credential =
  cr_access_key :: string
  cr_secret_key :: string

record s3Identity =
  id_name :: string
  id_credentials :: "s3Credential list"
  id_actions :: "string list"

definition identityEqual :: "s3Identity \<Rightarrow> s3Identity \<Rightarrow> bool" where
  "identityEqual a b \<longleftrightarrow> id_name a = id_name b \<and> id_credentials a = id_credentials b \<and> id_actions a = id_actions b"

definition bucketActions :: "string \<Rightarrow> access_permission \<Rightarrow> string list" where
  "bucketActions bkt perm =
     (if perm = AccessReadOnly then [actionRead @ '':'' @ bkt, actionList @ '':'' @ bkt]
      else [actionRead @ '':'' @ bkt, actionWrite @ '':'' @ bkt, actionList @ '':'' @ bkt, actionTagging @ '':'' @ bkt])"

subsection \<open>Their file\<close>

definition encode_credential :: "s3Credential \<Rightarrow> json" where
  "encode_credential c = JObj [(''access_key'', JStr (cr_access_key c)), (''secret_key'', JStr (cr_secret_key c))]"

definition encode_identity :: "s3Identity \<Rightarrow> json" where
  "encode_identity i = JObj ([(''name'', JStr (id_name i))]
     @ (if id_credentials i = [] then [] else [(''credentials'', JArr (map encode_credential (id_credentials i)))])
     @ [(''actions'', JArr (map JStr (id_actions i)))])"

definition known_keys :: "string list \<Rightarrow> (string \<times> json) list \<Rightarrow> bool" where
  "known_keys names ms \<longleftrightarrow> list_all (\<lambda>(k, j). to_lower k \<in> set names) ms"

fun decode_credential :: "json \<Rightarrow> s3Credential result" where
  "decode_credential JNull = Inr \<lparr>cr_access_key = [], cr_secret_key = []\<rparr>"
| "decode_credential (JObj ms) =
     (if \<not> known_keys [''access_key'', ''secret_key''] ms then Inl (new_err ''json: unknown field'')
      else (case decode_string (json_field ''access_key'' ms) of
          Inl e \<Rightarrow> Inl e
        | Inr ak \<Rightarrow> (case decode_string (json_field ''secret_key'' ms) of
            Inl e \<Rightarrow> Inl e
          | Inr sk \<Rightarrow> Inr \<lparr>cr_access_key = ak, cr_secret_key = sk\<rparr>)))"
| "decode_credential _ = Inl (type_error ''s3Credential'')"

fun decode_credentials :: "json list \<Rightarrow> s3Credential list result" where
  "decode_credentials [] = Inr []"
| "decode_credentials (j # js) =
     (case decode_credential j of
        Inl e \<Rightarrow> Inl e
      | Inr c \<Rightarrow> (case decode_credentials js of Inl e \<Rightarrow> Inl e | Inr cs \<Rightarrow> Inr (c # cs)))"

fun credentials_field :: "json option \<Rightarrow> s3Credential list result" where
  "credentials_field None = Inr []"
| "credentials_field (Some JNull) = Inr []"
| "credentials_field (Some (JArr js)) = decode_credentials js"
| "credentials_field (Some _) = Inl (type_error ''[]s3Credential'')"

fun strings_field :: "json option \<Rightarrow> string list result" where
  "strings_field None = Inr []"
| "strings_field (Some JNull) = Inr []"
| "strings_field (Some (JArr js)) = decode_strings js"
| "strings_field (Some _) = Inl (type_error ''[]string'')"

fun decode_identity :: "json \<Rightarrow> s3Identity result" where
  "decode_identity JNull = Inr \<lparr>id_name = [], id_credentials = [], id_actions = []\<rparr>"
| "decode_identity (JObj ms) =
     (if \<not> known_keys [''name'', ''credentials'', ''actions''] ms then Inl (new_err ''json: unknown field'')
      else (case decode_string (json_field ''name'' ms) of Inl e \<Rightarrow> Inl e | Inr name \<Rightarrow>
           (case credentials_field (json_field ''credentials'' ms) of Inl e \<Rightarrow> Inl e | Inr creds \<Rightarrow>
           (case strings_field (json_field ''actions'' ms) of Inl e \<Rightarrow> Inl e | Inr actions \<Rightarrow>
              Inr \<lparr>id_name = name, id_credentials = creds, id_actions = actions\<rparr>))))"
| "decode_identity _ = Inl (type_error ''s3Identity'')"

section \<open>The filer\<close>

definition filerSvcCreateEntry :: string where "filerSvcCreateEntry = ''/filer_pb.SeaweedFiler/CreateEntry''"
definition filerSvcDeleteEntry :: string where "filerSvcDeleteEntry = ''/filer_pb.SeaweedFiler/DeleteEntry''"
definition fieldEntryName :: nat where "fieldEntryName = 1"
definition fieldEntryAttributes :: nat where "fieldEntryAttributes = 4"
definition fieldEntryContent :: nat where "fieldEntryContent = 9"
definition fieldAttrFileSize :: nat where "fieldAttrFileSize = 1"
definition fieldAttrMtime :: nat where "fieldAttrMtime = 2"
definition fieldAttrFileMode :: nat where "fieldAttrFileMode = 3"
definition fieldAttrCrtime :: nat where "fieldAttrCrtime = 6"
definition fieldCreateReqDirectory :: nat where "fieldCreateReqDirectory = 1"
definition fieldCreateReqEntry :: nat where "fieldCreateReqEntry = 2"
definition fieldCreateRespError :: nat where "fieldCreateRespError = 1"
definition fieldDeleteReqDirectory :: nat where "fieldDeleteReqDirectory = 1"
definition fieldDeleteReqName :: nat where "fieldDeleteReqName = 2"
definition fieldDeleteRespError :: nat where "fieldDeleteRespError = 1"
definition filerNotFoundMessage :: string where "filerNotFoundMessage = ''no entry is found in filer store''"

definition file_path :: "string \<Rightarrow> string" where
  "file_path name = iamIdentitiesDir @ ''/'' @ name @ ''.json''"

definition filer_invoke :: "('w, 'x) sw_env_scheme \<Rightarrow> string \<Rightarrow> string \<Rightarrow> string \<Rightarrow> ('w, string result) go" where
  "filer_invoke E target meth req =
     (case sw_dial E target of
        Some err \<Rightarrow> return (Inl (wrap_err (''dial filer gRPC '' @ target @ '': '') err))
      | None \<Rightarrow> invoke E target meth req)"

definition identity_lookup :: "protowire \<Rightarrow> string \<Rightarrow> string" where
  "identity_lookup W name = lookup_request W iamIdentitiesDir (name @ ''.json'')"

definition lookupIdentityEntry :: "('w, 'x) sw_env_scheme \<Rightarrow> string \<Rightarrow> string \<Rightarrow> ('w, string option result) go" where
  "lookupIdentityEntry E target name =
     do { r \<leftarrow> filer_invoke E target filerSvcLookupEntry (identity_lookup (sw_wire E) name);
          return (case r of
              Inl err \<Rightarrow> if contains_str (emsg err) filerNotFoundMessage then Inr None
                else Inl (wrap_err (''filer LookupDirectoryEntry '' @ file_path name @ '': '') err)
            | Inr resp \<Rightarrow> Inr (lastBytesField (sw_wire E) resp fieldLookupRespEntry)) }"

text \<open>What \<open>readIdentity\<close> makes of the entry.\<close>

definition identity_of_entry :: "protowire \<Rightarrow> string \<Rightarrow> string \<Rightarrow> s3Identity option result" where
  "identity_of_entry W name entry =
     (let data = bytes_of (lastBytesField W entry fieldEntryContent) in
      if trim_space data = [] then Inr None
      else (case json_decode data of
          Inl err \<Rightarrow> Inl (wrap_err (''decode '' @ file_path name @ '' ('' @ nat_str (length data) @ '' bytes): '') err)
        | Inr j \<Rightarrow> (case decode_identity j of
            Inl err \<Rightarrow> Inl (wrap_err (''decode '' @ file_path name @ '' ('' @ nat_str (length data) @ '' bytes): '') err)
          | Inr i \<Rightarrow> Inr (Some i))))"

definition readIdentity :: "('w, 'x) sw_env_scheme \<Rightarrow> string \<Rightarrow> string \<Rightarrow> ('w, s3Identity option result) go" where
  "readIdentity E target name =
     do { r \<leftarrow> lookupIdentityEntry E target name;
          return (case r of
              Inl err \<Rightarrow> Inl err
            | Inr None \<Rightarrow> Inr None
            | Inr (Some entry) \<Rightarrow> identity_of_entry (sw_wire E) name entry) }"

definition identity_payload :: "s3Identity \<Rightarrow> string" where
  "identity_payload i = json_print_indent (encode_identity i)"

definition identity_attrs :: "protowire \<Rightarrow> nat \<Rightarrow> nat \<Rightarrow> string" where
  "identity_attrs W sz now =
     appendVarintField W (appendVarintField W (appendVarintField W (appendVarintField W [] fieldAttrFileSize sz)
       fieldAttrMtime now) fieldAttrFileMode 420) fieldAttrCrtime now"

definition identity_entry :: "protowire \<Rightarrow> s3Identity \<Rightarrow> nat \<Rightarrow> string" where
  "identity_entry W i now =
     (let payload = identity_payload i in
      appendBytesField W (appendBytesField W (appendStringField W [] fieldEntryName (id_name i @ ''.json''))
        fieldEntryAttributes (identity_attrs W (length payload) now)) fieldEntryContent payload)"

definition write_request :: "protowire \<Rightarrow> s3Identity \<Rightarrow> nat \<Rightarrow> string" where
  "write_request W i now =
     appendBytesField W (appendStringField W [] fieldCreateReqDirectory iamIdentitiesDir) fieldCreateReqEntry (identity_entry W i now)"

definition create_entry :: "('w, 'x) sw_env_scheme \<Rightarrow> string \<Rightarrow> string \<Rightarrow> string \<Rightarrow> ('w, go_error option) go" where
  "create_entry E target name req =
     do { r \<leftarrow> filer_invoke E target filerSvcCreateEntry req;
          return (case r of
              Inl err \<Rightarrow> Some (wrap_err (''filer CreateEntry '' @ file_path name @ '': '') err)
            | Inr resp \<Rightarrow>
                (let inband = bytes_of (lastBytesField (sw_wire E) resp fieldCreateRespError) in
                 if inband \<noteq> [] then Some (new_err (''filer CreateEntry '' @ file_path name @ '': '' @ inband)) else None)) }"

definition update_entry :: "('w, 'x) sw_env_scheme \<Rightarrow> string \<Rightarrow> string \<Rightarrow> string \<Rightarrow> ('w, go_error option) go" where
  "update_entry E target name req =
     do { r \<leftarrow> filer_invoke E target filerSvcUpdateEntry req;
          return (case r of
              Inl err \<Rightarrow> Some (wrap_err (''filer UpdateEntry '' @ file_path name @ '': '') err)
            | Inr _ \<Rightarrow> None) }"

definition verify_identity :: "('w, 'x) sw_env_scheme \<Rightarrow> string \<Rightarrow> s3Identity \<Rightarrow> ('w, go_error option) go" where
  "verify_identity E target i =
     do { r \<leftarrow> readIdentity E target (id_name i);
          return (case r of
              Inl err \<Rightarrow> Some (wrap_err (''verify '' @ file_path (id_name i) @ '' after write: '') err)
            | Inr None \<Rightarrow> Some (new_err (''identity '' @ id_name i @ '' did not persist as written (found=false)''))
            | Inr (Some written) \<Rightarrow>
                if \<not> identityEqual written i
                then Some (new_err (''identity '' @ id_name i @ '' did not persist as written (found=true)'')) else None) }"

definition writeIdentity :: "('w, 'x) sw_env_scheme \<Rightarrow> string \<Rightarrow> s3Identity \<Rightarrow> ('w, go_error option) go" where
  "writeIdentity E target i =
     do { now \<leftarrow> sample (sw_unix E);
          let req = write_request (sw_wire E) i (to_uint64 now);
          lk \<leftarrow> lookupIdentityEntry E target (id_name i);
          case lk of
            Inl err \<Rightarrow> return (Some err)
          | Inr found \<Rightarrow>
              do { e \<leftarrow> (if found = None then create_entry E target (id_name i) req else update_entry E target (id_name i) req);
                   case e of Some err \<Rightarrow> return (Some err) | None \<Rightarrow> verify_identity E target i } }"

definition identity_delete :: "protowire \<Rightarrow> string \<Rightarrow> string" where
  "identity_delete W name =
     appendStringField W (appendStringField W [] fieldDeleteReqDirectory iamIdentitiesDir) fieldDeleteReqName (name @ ''.json'')"

definition delete_result :: "protowire \<Rightarrow> string \<Rightarrow> string result \<Rightarrow> go_error option" where
  "delete_result W name r = (case r of
      Inl err \<Rightarrow> if contains_str (emsg err) filerNotFoundMessage then None
        else Some (wrap_err (''filer DeleteEntry '' @ file_path name @ '': '') err)
    | Inr resp \<Rightarrow>
        (let inband = bytes_of (lastBytesField W resp fieldDeleteRespError) in
         if inband = [] then None
         else if contains_str inband filerNotFoundMessage then None
         else Some (new_err (''filer DeleteEntry '' @ file_path name @ '': '' @ inband))))"

definition deleteIdentity :: "('w, 'x) sw_env_scheme \<Rightarrow> string \<Rightarrow> string \<Rightarrow> ('w, go_error option) go" where
  "deleteIdentity E target name =
     do { r \<leftarrow> filer_invoke E target filerSvcDeleteEntry (identity_delete (sw_wire E) name);
          return (delete_result (sw_wire E) name r) }"

section \<open>The store of identities\<close>

record 'w identityFiles =
  if_read :: "string \<Rightarrow> ('w, s3Identity option result) go"
  if_write :: "s3Identity \<Rightarrow> ('w, go_error option) go"
  if_delete :: "string \<Rightarrow> ('w, go_error option) go"

definition filerEtcClient :: "('w, 'x) sw_env_scheme \<Rightarrow> string \<Rightarrow> 'w identityFiles" where
  "filerEtcClient E target = \<lparr>if_read = readIdentity E target, if_write = writeIdentity E target, if_delete = deleteIdentity E target\<rparr>"

definition identityFilesFor :: "('w, 'x) sw_env_scheme \<Rightarrow> object_store \<Rightarrow> 'w identityFiles" where
  "identityFilesFor E c = filerEtcClient E (filerGRPCTarget c (sw_namespace E) (sw_cluster_domain E))"

end
