(* ===== verification/Seaweed_Access.thy ===== *)
theory Seaweed_Access
  imports Seaweed_Iam
begin

text \<open>
  \<open>backend/seaweedfs/access.go\<close>, with \<open>adminCreds\<close> and \<open>randomHex\<close> of \<open>seaweedfs.go\<close>: the credentials of
  an access are an identity of the S3 gateway, one file of the store of identities. The code asks the store for
  reading, writing and deleting one identity; the locale \<open>identity_store\<close> says what these operations promise, the
  access is verified in it, and the client of the filer is its interpretation.
\<close>

section \<open>The admin credentials\<close>

definition sw_secretKeyAccessKey :: string where "sw_secretKeyAccessKey = ''accessKey''"
definition sw_secretKeySecretKey :: string where "sw_secretKeySecretKey = ''secretKey''"

definition sw_randomHex :: "('w, 'x) sw_env_scheme \<Rightarrow> nat \<Rightarrow> ('w, string result) go" where
  "sw_randomHex E n =
     do { r \<leftarrow> sample (sw_rand E n); return (case r of Inl e \<Rightarrow> Inl e | Inr buf \<Rightarrow> Inr (hex_encode buf)) }"

definition admin_pair :: "secret \<Rightarrow> string \<times> string" where
  "admin_pair s = (map_str (sec_data s) sw_secretKeyAccessKey, map_str (sec_data s) sw_secretKeySecretKey)"

definition adminCreds :: "('w, 'x) sw_env_scheme \<Rightarrow> object_store \<Rightarrow> ('w, (string \<times> string) result) go" where
  "adminCreds E c =
     do { r \<leftarrow> kget Uncached KSecret OSecret (k_secrets (sw_kube E)) (sw_namespace E, adminSecretName c);
          return (case r of
              Inl err \<Rightarrow> if is_not_found err then Inr ([], []) else Inl err
            | Inr s \<Rightarrow> Inr (admin_pair s)) }"

section \<open>Accesses\<close>

definition sw_pair :: "('w, 'x) sw_env_scheme \<Rightarrow> ('w, (string \<times> string) result) go" where
  "sw_pair E =
     do { r1 \<leftarrow> sw_randomHex E 16;
          case r1 of
            Inl err \<Rightarrow> return (Inl err)
          | Inr ak \<Rightarrow>
              do { r2 \<leftarrow> sw_randomHex E 32;
                   return (case r2 of Inl err \<Rightarrow> Inl err | Inr sk \<Rightarrow> Inr (ak, sk)) } }"

definition first_pair :: "s3Identity option \<Rightarrow> string \<times> string" where
  "first_pair r = (case r of
      None \<Rightarrow> ([], [])
    | Some i \<Rightarrow> (case id_credentials i of [] \<Rightarrow> ([], []) | x # _ \<Rightarrow> (cr_access_key x, cr_secret_key x)))"

definition sw_existing :: "'w identityFiles \<Rightarrow> string \<Rightarrow> bool \<Rightarrow> ('w, (string \<times> string) result) go" where
  "sw_existing F name mintFresh =
     (if mintFresh then return (Inr ([], []))
      else do { r \<leftarrow> if_read F name; return (case r of Inl err \<Rightarrow> Inl err | Inr i \<Rightarrow> Inr (first_pair i)) })"

definition scoped_identity :: "string \<Rightarrow> string \<Rightarrow> string \<Rightarrow> string list \<Rightarrow> s3Identity" where
  "scoped_identity name ak sk actions =
     \<lparr>id_name = name, id_credentials = [\<lparr>cr_access_key = ak, cr_secret_key = sk\<rparr>], id_actions = actions\<rparr>"

definition sw_issue ::
  "('w, 'x) sw_env_scheme \<Rightarrow> 'w identityFiles \<Rightarrow> string \<Rightarrow> string list \<Rightarrow> bool \<Rightarrow> ('w, access_state \<times> go_error option) go" where
  "sw_issue E F name actions mintFresh =
     do { ex \<leftarrow> sw_existing F name mintFresh;
          case ex of
            Inl err \<Rightarrow> return (empty_access_state, Some err)
          | Inr (ak0, sk0) \<Rightarrow>
              do { pr \<leftarrow> (if ak0 = [] \<or> sk0 = [] then sw_pair E else return (Inr (ak0, sk0)));
                   case pr of
                     Inl err \<Rightarrow> return (empty_access_state, Some err)
                   | Inr (ak, sk) \<Rightarrow>
                       do { e \<leftarrow> if_write F (scoped_identity name ak sk actions);
                            return (case e of
                                Some err \<Rightarrow> (empty_access_state, Some err)
                              | None \<Rightarrow> (\<lparr>as_ready = True, as_message = ''access key provisioned'',
                                  as_access_key_id = ak, as_secret_access_key = sk\<rparr>, None)) } } }"

definition seaweedEnsureAccess ::
  "('w, 'x) sw_env_scheme \<Rightarrow> object_store \<Rightarrow> bucket \<Rightarrow> bucket_access \<Rightarrow> bool \<Rightarrow> ('w, access_state \<times> go_error option) go" where
  "seaweedEnsureAccess E c b a mintFresh =
     do { ad \<leftarrow> adminCreds E c;
          case ad of
            Inl err \<Rightarrow> return (empty_access_state, Some err)
          | Inr (adminAK, _) \<Rightarrow>
              if adminAK = [] then return (empty_access_state\<lparr>as_message := ''S3 admin identity is not provisioned yet''\<rparr>, None)
              else sw_issue E (identityFilesFor E c) (AccessResourceName a)
                (bucketActions (BucketDisplayName b) (ba_permission (ba_spec a))) mintFresh }"

definition seaweedDeleteAccess ::
  "('w, 'x) sw_env_scheme \<Rightarrow> object_store \<Rightarrow> bucket_access \<Rightarrow> ('w, go_error option) go" where
  "seaweedDeleteAccess E c a =
     do { ad \<leftarrow> adminCreds E c;
          case ad of
            Inl err \<Rightarrow> return (if is_not_found err then None else Some err)
          | Inr (adminAK, _) \<Rightarrow>
              if adminAK = [] then return None
              else if_delete (identityFilesFor E c) (AccessResourceName a) }"

section \<open>The contract of the store\<close>

text \<open>\<open>reads\<close> and \<open>writes\<close> are the events an operation may cause, \<open>stored\<close> and \<open>gone\<close> what its success means.\<close>

locale identity_store =
  fixes F :: "'w identityFiles"
    and reads :: "string \<Rightarrow> event \<Rightarrow> bool"
    and writes :: "s3Identity \<Rightarrow> event \<Rightarrow> bool"
    and removes :: "string \<Rightarrow> event \<Rightarrow> bool"
    and stored :: "s3Identity \<Rightarrow> event list \<Rightarrow> bool"
    and gone :: "string \<Rightarrow> event list \<Rightarrow> bool"
  assumes read_ok: "emits (reads n) (if_read F n)"
    and write_ok: "wp (if_write F i) (\<lambda>r s'. \<exists>d. snd s' = t @ d \<and> list_all (\<lambda>e. reads (id_name i) e \<or> writes i e) d
          \<and> (case r of None \<Rightarrow> stored i d | Some e \<Rightarrow> True)) (w, t)"
    and delete_ok: "wp (if_delete F n) (\<lambda>r s'. \<exists>d. snd s' = t @ d \<and> list_all (removes n) d
          \<and> (case r of None \<Rightarrow> gone n d | Some e \<Rightarrow> True)) (w, t)"
begin

text \<open>Everything that is written is the identity with one pair of keys and the actions asked for; what is handed out as
  ready is stored.\<close>

definition own_event :: "string \<Rightarrow> string list \<Rightarrow> event \<Rightarrow> bool" where
  "own_event n actions e \<longleftrightarrow> reads n e \<or> (\<exists>ak sk. writes (scoped_identity n ak sk actions) e)"

definition issued :: "string \<Rightarrow> string list \<Rightarrow> access_state \<times> go_error option \<Rightarrow> event list \<Rightarrow> bool" where
  "issued n actions out d \<longleftrightarrow> (if as_ready (fst out)
     then snd out = None \<and> (\<exists>u v. d = u @ v \<and> stored (scoped_identity n (as_access_key_id (fst out)) (as_secret_access_key (fst out)) actions) v)
     else True)"

lemma existing_ok: "emits (own_event n actions) (sw_existing F n fresh)"
  unfolding sw_existing_def own_event_def
  by (intro emits_rules emits_mono [OF read_ok]) simp

lemma write_step:
  assumes "i = scoped_identity n ak sk actions"
  shows "wp (if_write F i) (\<lambda>r s'. \<exists>d. snd s' = t @ d \<and> list_all (own_event n actions) d
      \<and> (case r of None \<Rightarrow> stored i d | Some e \<Rightarrow> True)) (w, t)"
  by (rule wp_mono [OF write_ok])
    (fastforce simp: assms own_event_def scoped_identity_def elim!: list.pred_mono_strong)

lemma issue_ok:
  "wp (sw_issue E F n actions fresh) (\<lambda>out s'. \<exists>d. snd s' = t @ d \<and> list_all (own_event n actions) d \<and> issued n actions out d) (w, t)"
  unfolding sw_issue_def
proof (rule wp_bind, rule emits_wp [OF existing_ok [of n actions]], intro wp_case_sum wp_case_prod, goal_cases)
  case (1 ex w' d err)
  then show ?case by (auto intro!: wp_return simp: issued_def empty_access_state_def)
next
  case (2 ex w' d x ak0 sk0)
  have mint: "emits (own_event n actions) (if ak0 = [] \<or> sk0 = [] then sw_pair E else return (Inr (ak0, sk0)))"
    unfolding sw_pair_def sw_randomHex_def by (intro emits_rules)
  show ?case
  proof (rule wp_bind, rule emits_wp [OF mint], intro wp_case_sum wp_case_prod, goal_cases)
    case (1 pr w'' d' err)
    with 2 show ?case by (auto intro!: wp_return simp: issued_def empty_access_state_def)
  next
    case (2 pr w'' d' x ak sk)
    show ?case
    proof (rule wp_bind, rule wp_mono [OF write_step [OF refl]], elim exE conjE, rule wp_return, goal_cases)
      case (1 e s' d'')
      with 2 \<open>list_all (own_event n actions) d\<close> show ?case
        by (intro exI [of _ "d @ d' @ d''"])
          (auto simp: issued_def empty_access_state_def split: option.splits intro: exI [of _ "d @ d'"])
    qed
  qed
qed

end

section \<open>The filer as a store\<close>

definition filer_reads :: "protowire \<Rightarrow> string \<Rightarrow> string \<Rightarrow> event \<Rightarrow> bool" where
  "filer_reads W target n e \<longleftrightarrow> (\<exists>r. e = EvFiler target filerSvcLookupEntry (identity_lookup W n) r)"

definition filer_writes :: "protowire \<Rightarrow> string \<Rightarrow> s3Identity \<Rightarrow> event \<Rightarrow> bool" where
  "filer_writes W target i e \<longleftrightarrow> (\<exists>m now r. e = EvFiler target m (write_request W i now) r \<and> m \<in> {filerSvcCreateEntry, filerSvcUpdateEntry})"

definition filer_removes :: "protowire \<Rightarrow> string \<Rightarrow> string \<Rightarrow> event \<Rightarrow> bool" where
  "filer_removes W target n e \<longleftrightarrow> (\<exists>r. e = EvFiler target filerSvcDeleteEntry (identity_delete W n) r)"

text \<open>The last thing that happened is that the filer answered the identity's file, and it decodes to the identity.\<close>

definition filer_stored :: "protowire \<Rightarrow> string \<Rightarrow> s3Identity \<Rightarrow> event list \<Rightarrow> bool" where
  "filer_stored W target i d \<longleftrightarrow> (\<exists>u resp entry. d = u @ [EvFiler target filerSvcLookupEntry (identity_lookup W (id_name i)) (Inr resp)]
     \<and> lastBytesField W resp fieldLookupRespEntry = Some entry \<and> identity_of_entry W (id_name i) entry = Inr (Some i))"

definition filer_gone :: "('w, 'x) sw_env_scheme \<Rightarrow> string \<Rightarrow> string \<Rightarrow> event list \<Rightarrow> bool" where
  "filer_gone E target n d \<longleftrightarrow> (\<exists>r. delete_result (sw_wire E) n r = None
     \<and> (case sw_dial E target of
          None \<Rightarrow> d = [EvFiler target filerSvcDeleteEntry (identity_delete (sw_wire E) n) r]
        | Some err \<Rightarrow> r = Inl (wrap_err (''dial filer gRPC '' @ target @ '': '') err)))"

lemma identityEqual_eq: "identityEqual a b \<longleftrightarrow> a = b"
  by (auto simp: identityEqual_def)

lemma lookup_emits: "emits (filer_reads (sw_wire E) target n) (lookupIdentityEntry E target n)"
  unfolding lookupIdentityEntry_def filer_invoke_def invoke_def
  by (intro emits_rules) (simp add: filer_reads_def)

lemma verify_step:
  assumes "sw_dial E target = None"
  shows "wp (verify_identity E target i) (\<lambda>r s'. \<exists>e. snd s' = t @ [e] \<and> filer_reads (sw_wire E) target (id_name i) e
      \<and> (case r of None \<Rightarrow> filer_stored (sw_wire E) target i [e] | Some e \<Rightarrow> True)) (w, t)"
  unfolding verify_identity_def readIdentity_def lookupIdentityEntry_def filer_invoke_def invoke_def
  using assms
  by (auto intro!: wp_rules simp: filer_reads_def filer_stored_def identityEqual_eq split: sum.splits option.splits if_splits)

lemma put_emits:
  "emits (filer_writes (sw_wire E) target i) (if b then create_entry E target (id_name i) (write_request (sw_wire E) i now)
     else update_entry E target (id_name i) (write_request (sw_wire E) i now))"
  unfolding create_entry_def update_entry_def filer_invoke_def invoke_def
  by (intro emits_rules) (auto simp: filer_writes_def)

lemma filer_write_ok:
  "wp (writeIdentity E target i) (\<lambda>r s'. \<exists>d. snd s' = t @ d
      \<and> list_all (\<lambda>e. filer_reads (sw_wire E) target (id_name i) e \<or> filer_writes (sw_wire E) target i e) d
      \<and> (case r of None \<Rightarrow> filer_stored (sw_wire E) target i d | Some e \<Rightarrow> True)) (w, t)"
proof (cases "sw_dial E target")
  case (Some err)
  then show ?thesis
    unfolding writeIdentity_def lookupIdentityEntry_def create_entry_def update_entry_def filer_invoke_def
    by (auto intro!: wp_rules)
next
  case None
  let ?ok = "\<lambda>e. filer_reads (sw_wire E) target (id_name i) e \<or> filer_writes (sw_wire E) target i e"
  have stored: "filer_stored (sw_wire E) target i (d @ [e])" if "filer_stored (sw_wire E) target i [e]" for e d
    using that by (auto simp: filer_stored_def)
  show ?thesis
    unfolding writeIdentity_def Let_def
  proof (intro wp_bind wp_sample, rule emits_wp [OF lookup_emits], rule wp_case_sum, goal_cases)
    case (1 now w' lk w'' d err)
    then show ?case by (auto intro!: wp_return elim: list.pred_mono_strong)
  next
    case (2 now w' lk w'' d found)
    show ?case
    proof (rule wp_bind, rule emits_wp [OF put_emits], rule wp_case_option, goal_cases)
      case (1 r v d')
      show ?case
      proof (rule wp_mono [OF verify_step [OF None]], elim exE conjE, goal_cases)
        case (1 r s' e)
        with 2(2) \<open>list_all (filer_writes _ _ _) d'\<close> show ?case
          by (intro exI [of _ "(d @ d') @ [e]"]) (auto simp: stored [of e "d @ d'", simplified] elim!: list.pred_mono_strong split: option.splits)
      qed
    next
      case (2 r v d' err)
      with \<open>list_all (filer_reads _ _ _) d\<close> show ?case
        by (auto intro!: wp_return exI [of _ "d @ d'"] elim!: list.pred_mono_strong)
    qed
  qed
qed

lemma filer_delete_ok:
  "wp (deleteIdentity E target n) (\<lambda>r s'. \<exists>d. snd s' = t @ d \<and> list_all (filer_removes (sw_wire E) target n) d
      \<and> (case r of None \<Rightarrow> filer_gone E target n d | Some e \<Rightarrow> True)) (w, t)"
  unfolding deleteIdentity_def filer_invoke_def invoke_def
  by (intro wp_rules) (auto simp: filer_removes_def filer_gone_def split: option.splits)

interpretation filer: identity_store "filerEtcClient E target"
    "filer_reads (sw_wire E) target" "filer_writes (sw_wire E) target" "filer_removes (sw_wire E) target"
    "filer_stored (sw_wire E) target" "filer_gone E target" for E target
proof (unfold_locales, goal_cases)
  case (1 n)
  show ?case
    unfolding filerEtcClient_def identityFiles.simps readIdentity_def by (intro emits_rules lookup_emits)
next
  case (2 i t w)
  show ?case using filer_write_ok by (simp add: filerEtcClient_def)
next
  case (3 n t w)
  show ?case using filer_delete_ok by (simp add: filerEtcClient_def)
qed

section \<open>An identity survives its file\<close>

lemma lower_names:
  "to_lower ''access_key'' = ''access_key''" "to_lower ''secret_key'' = ''secret_key''" "to_lower ''name'' = ''name''"
  "to_lower ''credentials'' = ''credentials''" "to_lower ''actions'' = ''actions''"
  by code_simp+

lemma decode_encode_credential: "decode_credential (encode_credential x) = Inr x"
  by (simp add: encode_credential_def known_keys_def lower_names json_field_Cons)

lemma decode_encode_credentials: "decode_credentials (map encode_credential xs) = Inr xs"
  by (induction xs) (simp_all add: decode_encode_credential)

lemma decode_encode_identity: "decode_identity (encode_identity i) = Inr i"
  by (simp add: encode_identity_def known_keys_def lower_names json_field_Cons decode_encode_credentials decode_strings_map)

lemma encode_identity_exact: "exact (encode_identity i)"
  by (auto simp: encode_identity_def encode_credential_def)

lemma payload_not_blank: "trim_space (identity_payload i) \<noteq> []"
proof -
  have "\<not> is_space CHR ''{''" by (simp add: is_space_def)
  then show ?thesis by (simp add: identity_payload_def encode_identity_def json_print_indent_def trim_space_def dropWhile_eq_Nil_conv)
qed

lemma json_decode_payload: "json_decode (identity_payload i) = Inr (encode_identity i)"
  by (simp add: identity_payload_def json_decode_print_indent encode_identity_exact)

lemma entry_message:
  assumes "wire_law W"
  shows "message W (identity_entry W i now) = Some [(fieldEntryName, BytesType, id_name i @ ''.json''),
     (fieldEntryAttributes, BytesType, identity_attrs W (length (identity_payload i)) now), (fieldEntryContent, BytesType, identity_payload i)]"
  using assms
  by (simp add: identity_entry_def Let_def message_fields field_num_def fieldEntryName_def fieldEntryAttributes_def fieldEntryContent_def)

lemma entry_roundtrip: "wire_law W \<Longrightarrow> identity_of_entry W n (identity_entry W i now) = Inr (Some i)"
  by (simp add: identity_of_entry_def lastBytesField_message [OF _ entry_message] last_bytes_def bytes_of_def payload_not_blank
      fieldEntryContent_def fieldEntryName_def fieldEntryAttributes_def
      json_decode_payload decode_encode_identity)

text \<open>An identity survives its file: what the driver reads from the entry it writes is the identity, key pair by key pair
  and action by action, whatever bytes are in its keys.\<close>

theorem identity_file_roundtrip:
  assumes "wire_law W"
  shows "identity_of_entry W n (identity_entry W i now) = Inr (Some i)"
  using assms by (rule entry_roundtrip)

lemma identity_file_roundtrip_witness:
  "identity_of_entry plain_wire ''team.app'' (identity_entry plain_wire (scoped_identity ''team.app'' ''AK'' ''S\"K'' [''Read:logs'']) 7)
     = Inr (Some (scoped_identity ''team.app'' ''AK'' ''S\"K'' [''Read:logs'']))"
  by (rule identity_file_roundtrip [OF plain_wire_law])

section \<open>Soundness\<close>

text \<open>The admin Secret was read and has an access key.\<close>

definition admin_seen :: "('w, 'x) sw_env_scheme \<Rightarrow> object_store \<Rightarrow> event \<Rightarrow> bool" where
  "admin_seen E c e \<longleftrightarrow> (\<exists>s. e = EvGet Uncached KSecret (sw_namespace E, adminSecretName c) (Inr (OSecret s)) \<and> fst (admin_pair s) \<noteq> [])"

definition admin_missing :: "('w, 'x) sw_env_scheme \<Rightarrow> object_store \<Rightarrow> event \<Rightarrow> bool" where
  "admin_missing E c e \<longleftrightarrow> (\<exists>r. e = EvGet Uncached KSecret (sw_namespace E, adminSecretName c) r
     \<and> (case r of Inl err \<Rightarrow> is_not_found err | Inr ob \<Rightarrow> (\<exists>s. ob = OSecret s \<and> fst (admin_pair s) = [])))"

definition grpc :: "('w, 'x) sw_env_scheme \<Rightarrow> object_store \<Rightarrow> string" where
  "grpc E c = filerGRPCTarget c (sw_namespace E) (sw_cluster_domain E)"

text \<open>What the access may do to the filer: look at its own file, and write there its own identity with one pair of keys and the
  actions of its permission on its bucket.\<close>

definition sw_access_event :: "('w, 'x) sw_env_scheme \<Rightarrow> object_store \<Rightarrow> bucket \<Rightarrow> bucket_access \<Rightarrow> event \<Rightarrow> bool" where
  "sw_access_event E c b a e \<longleftrightarrow> filer_reads (sw_wire E) (grpc E c) (AccessResourceName a) e
     \<or> (\<exists>ak sk. filer_writes (sw_wire E) (grpc E c)
          (scoped_identity (AccessResourceName a) ak sk (bucketActions (BucketDisplayName b) (ba_permission (ba_spec a)))) e)"

definition sw_access_post :: "('w, 'x) sw_env_scheme \<Rightarrow> object_store \<Rightarrow> bucket \<Rightarrow> bucket_access \<Rightarrow> access_state \<times> go_error option \<Rightarrow> event list \<Rightarrow> bool" where
  "sw_access_post E c b a out u \<longleftrightarrow> (case u of [] \<Rightarrow> False | g # d \<Rightarrow> list_all (sw_access_event E c b a) d
     \<and> (d = [] \<or> admin_seen E c g)
     \<and> (if as_ready (fst out) then snd out = None \<and> admin_seen E c g \<and> (\<exists>v w. d = v @ w
          \<and> filer_stored (sw_wire E) (grpc E c) (scoped_identity (AccessResourceName a) (as_access_key_id (fst out)) (as_secret_access_key (fst out))
              (bucketActions (BucketDisplayName b) (ba_permission (ba_spec a)))) w)
        else True))"

lemma own_events: "identity_store.own_event (filer_reads (sw_wire E) (grpc E c)) (filer_writes (sw_wire E) (grpc E c)) (AccessResourceName a) (bucketActions (BucketDisplayName b) (ba_permission (ba_spec a)))
    = sw_access_event E c b a"
  by (rule ext) (simp add: filer.own_event_def sw_access_event_def)

lemma files_for: "identityFilesFor E c = filerEtcClient E (grpc E c)"
  by (simp add: identityFilesFor_def grpc_def)

lemma seaweed_access_pass:
  "wp (seaweedEnsureAccess E c b a fresh) (\<lambda>out s'. sw_access_post E c b a out (snd s')) (w, [])"
  unfolding seaweedEnsureAccess_def adminCreds_def kget_def files_for
proof (intro wp_bind wp_call wp_return wp_case_sum wp_case_prod wp_if, goal_cases)
  case (3 r w' x adminAK sk)
  then obtain s where s: "r = Inr s" "fst (admin_pair s) \<noteq> []" by (auto split: sum.splits if_splits)
  show ?case
    by (rule wp_mono [OF filer.issue_ok])
      (use s in \<open>auto simp: sw_access_post_def own_events filer.issued_def admin_seen_def\<close>)
qed (auto simp: sw_access_post_def empty_access_state_def)

text \<open>C25: Credentials of a SeaweedFS access: nothing is touched on the filer but the file of the access, and only behind a provisioned
  admin identity; what is written there has one pair of keys and exactly the actions of the permission on the bucket. An access is
  ready only if the last answer of the filer is its file with exactly the pair handed out.\<close>

theorem seaweed_access_sound:
  "wp (seaweedEnsureAccess E c b a fresh) (\<lambda>out s'. sw_access_post E c b a out (snd s')) (w, [])"
  by (rule seaweed_access_pass)

definition sw_revoke_post :: "('w, 'x) sw_env_scheme \<Rightarrow> object_store \<Rightarrow> bucket_access \<Rightarrow> go_error option \<Rightarrow> event list \<Rightarrow> bool" where
  "sw_revoke_post E c a r u \<longleftrightarrow> (case u of [] \<Rightarrow> False | g # d \<Rightarrow> list_all (filer_removes (sw_wire E) (grpc E c) (AccessResourceName a)) d
     \<and> (case r of None \<Rightarrow> d = [] \<and> admin_missing E c g \<or> filer_gone E (grpc E c) (AccessResourceName a) d | Some err \<Rightarrow> True))"

text \<open>Deleting an access removes its own file and no other, and reports success only when the filer confirmed that the file is gone,
  or when the store has no admin Secret.\<close>

theorem seaweed_revoke_sound:
  "wp (seaweedDeleteAccess E c a) (\<lambda>r s'. sw_revoke_post E c a r (snd s')) (w, [])"
  unfolding seaweedDeleteAccess_def adminCreds_def kget_def files_for
proof (intro wp_bind wp_call wp_return wp_case_sum wp_case_prod wp_if, goal_cases)
  case (3 r w' x adminAK sk)
  show ?case
    by (rule wp_mono [OF filer.delete_ok]) (auto simp: sw_revoke_post_def split: option.splits)
qed (auto simp: sw_revoke_post_def admin_missing_def split: sum.splits if_splits)

end
