(* ===== verification/Seaweed_Driver.thy ===== *)
theory Seaweed_Driver
  imports Seaweed_Postgres Seaweed_Access
begin

text \<open>
  \<open>backend/seaweedfs/seaweedfs.go\<close>: the SeaweedFS driver of the Full profile as a whole. The order in which the
  parts of a cluster are applied, the admin identity, buckets, and when each of them is reported ready.
\<close>

definition seaweedfsVersion :: string where "seaweedfsVersion = ''4.39''"
definition adminIdentityName :: string where "adminIdentityName = ''sds-object-admin''"

section \<open>Applying objects\<close>

text \<open>\<open>mergeDesired\<close>, one function per type of its switch.\<close>

definition sw_merge_service :: "service \<Rightarrow> service \<Rightarrow> service" where
  "sw_merge_service live desired =
     live\<lparr>svc_meta := (svc_meta live)\<lparr>m_labels := m_labels (svc_meta desired)\<rparr>, svc_selector := svc_selector desired,
       svc_ports := svc_ports desired\<rparr>"

definition sw_merge_secret :: "secret \<Rightarrow> secret \<Rightarrow> secret" where
  "sw_merge_secret live desired =
     live\<lparr>sec_meta := (sec_meta live)\<lparr>m_labels := m_labels (sec_meta desired)\<rparr>, sec_string_data := sec_string_data desired\<rparr>"

definition sw_merge_stateful_set :: "stateful_set \<Rightarrow> stateful_set \<Rightarrow> stateful_set" where
  "sw_merge_stateful_set live desired =
     live\<lparr>ss_meta := (ss_meta live)\<lparr>m_labels := m_labels (ss_meta desired)\<rparr>, ss_replicas := ss_replicas desired,
       ss_template_labels := ss_template_labels desired, ss_template_annotations := ss_template_annotations desired,
       ss_pod := ss_pod desired\<rparr>"

definition sw_apply ::
  "('w, 'x) sw_env_scheme \<Rightarrow> object_store \<Rightarrow> kind \<Rightarrow> ('o \<Rightarrow> obj) \<Rightarrow> ('o, 'w) resource \<Rightarrow> ('o \<Rightarrow> object_meta) \<Rightarrow>
     (object_meta \<Rightarrow> 'o \<Rightarrow> 'o) \<Rightarrow> ('o \<Rightarrow> 'o \<Rightarrow> 'o) \<Rightarrow> 'o \<Rightarrow> ('w, 'o result) go" where
  "sw_apply E c k mk res meta set_meta merge desired =
     kcreate_or_update k mk res (m_namespace (meta desired), m_name (meta desired)) desired
       (\<lambda>live. let obj = merge live desired in
          case sw_own E (os_meta c) (meta obj) of Inl err \<Rightarrow> Inl err | Inr m \<Rightarrow> Inr (set_meta m obj))"

definition sw_apply_service :: "('w, 'x) sw_env_scheme \<Rightarrow> object_store \<Rightarrow> service \<Rightarrow> ('w, service result) go" where
  "sw_apply_service E c = sw_apply E c KService OService (k_services (sw_kube E)) svc_meta (\<lambda>m x. x\<lparr>svc_meta := m\<rparr>) sw_merge_service"

definition sw_apply_secret :: "('w, 'x) sw_env_scheme \<Rightarrow> object_store \<Rightarrow> secret \<Rightarrow> ('w, secret result) go" where
  "sw_apply_secret E c = sw_apply E c KSecret OSecret (k_secrets (sw_kube E)) sec_meta (\<lambda>m x. x\<lparr>sec_meta := m\<rparr>) sw_merge_secret"

definition sw_apply_stateful_set :: "('w, 'x) sw_env_scheme \<Rightarrow> object_store \<Rightarrow> stateful_set \<Rightarrow> ('w, stateful_set result) go" where
  "sw_apply_stateful_set E c =
     sw_apply E c KStatefulSet OStatefulSet (k_stateful_sets (sw_kube E)) ss_meta (\<lambda>m x. x\<lparr>ss_meta := m\<rparr>) sw_merge_stateful_set"

lemmas sw_apply_defs = sw_apply_service_def sw_apply_secret_def sw_apply_stateful_set_def sw_apply_def kcreate_or_update_def

section \<open>The admin identity\<close>

definition ensureAdminSecret :: "('w, 'x) sw_env_scheme \<Rightarrow> object_store \<Rightarrow> ('w, (string \<times> string) result) go" where
  "ensureAdminSecret E c =
     do { r \<leftarrow> kget Cached KSecret OSecret (k_secrets (sw_kube E)) (sw_namespace E, adminSecretName c);
          case r of
            Inr existing \<Rightarrow> return (Inr (admin_pair existing))
          | Inl err \<Rightarrow>
              if \<not> is_not_found err then return (Inl err)
              else do { pr \<leftarrow> sw_pair E;
                case pr of
                  Inl err \<Rightarrow> return (Inl err)
                | Inr (ak, sk) \<Rightarrow>
                    (case sw_own E (os_meta c) (fresh_meta (adminSecretName c) (sw_namespace E) (sw_commonLabels c)) of
                       Inl err \<Rightarrow> return (Inl err)
                     | Inr m \<Rightarrow>
                         do { e \<leftarrow> kcreate KSecret OSecret (k_secrets (sw_kube E))
                                \<lparr>sec_meta = m, sec_data = [sw_secretKeyAccessKey \<mapsto> ak, sw_secretKeySecretKey \<mapsto> sk], sec_string_data = Map.empty\<rparr>;
                              return (case e of Some err \<Rightarrow> Inl err | None \<Rightarrow> Inr (ak, sk)) }) } }"

definition ensureAdminIdentity :: "('w, 'x) sw_env_scheme \<Rightarrow> object_store \<Rightarrow> ('w, go_error option) go" where
  "ensureAdminIdentity E c =
     do { r \<leftarrow> ensureAdminSecret E c;
          case r of
            Inl err \<Rightarrow> return (Some err)
          | Inr (ak, sk) \<Rightarrow> if_write (identityFilesFor E c) (scoped_identity adminIdentityName ak sk [actionAdmin]) }"

section \<open>The cluster\<close>

definition sw_services :: "object_store \<Rightarrow> string \<Rightarrow> service list" where
  "sw_services c ns = [buildMainService c ns, buildMasterService c ns, buildVolumeService c ns, buildFilerService c ns]"

definition ensure_service :: "('w, 'x) sw_env_scheme \<Rightarrow> object_store \<Rightarrow> service \<Rightarrow> ('w, go_error option) go" where
  "ensure_service E c s =
     do { r \<leftarrow> sw_apply_service E c s;
          return (case r of Inl err \<Rightarrow> Some (wrap_err ''ensure *v1.Service: '' err) | Inr _ \<Rightarrow> None) }"

text \<open>The text of \<open>filer.toml\<close>, or with what message and error the pass ends before it is known.\<close>

definition filer_toml :: "('w, 'x) sw_env_scheme \<Rightarrow> object_store \<Rightarrow> ('w, (string \<times> go_error option) + string) go" where
  "filer_toml E c =
     (if \<not> usesPostgres c then return (Inr (renderFilerTomlLeveldb filerStoreDir))
      else do { e \<leftarrow> ensurePostgres E c;
        case e of
          Some err \<Rightarrow> return (Inl
            (if is_no_match err then (''Postgres CRD not found; is the managed-postgres module installed?'', None)
             else ([], Some (wrap_err ''ensure Postgres: '' err))))
        | None \<Rightarrow>
            do { r \<leftarrow> pgCreds E c;
                 return (case r of
                     Inl err \<Rightarrow> Inl ([], Some (wrap_err ''read Postgres credentials: '' err))
                   | Inr None \<Rightarrow> Inl (''waiting for managed-postgres to provision filer database credentials'', None)
                   | Inr (Some (host, user, pass)) \<Rightarrow> Inr (renderFilerToml host pgPort user pass pgDatabase)) } })"

definition sw_workloads :: "quantities \<Rightarrow> object_store \<Rightarrow> string \<Rightarrow> string \<Rightarrow> (string \<times> stateful_set) list" where
  "sw_workloads pq c ns img =
     [(compMaster, buildMasterStatefulSet c ns img), (compVolume, buildVolumeStatefulSet pq c ns img), (compFiler, buildFilerStatefulSet c ns img)]"

text \<open>\<open>apply\<close> leaves in each workload what the API server has for it.\<close>

primrec apply_workloads ::
  "('w, 'x) sw_env_scheme \<Rightarrow> object_store \<Rightarrow> (string \<times> stateful_set) list \<Rightarrow> ('w, (string \<times> stateful_set) list result) go" where
  "apply_workloads E c [] = return (Inr [])"
| "apply_workloads E c (w # ws) =
     do { r \<leftarrow> sw_apply_stateful_set E c (snd w);
          case r of
            Inl err \<Rightarrow> return (Inl (wrap_err (''ensure '' @ fst w @ '' statefulset: '') err))
          | Inr sts \<Rightarrow>
              do { rest \<leftarrow> apply_workloads E c ws;
                   return (case rest of Inl err \<Rightarrow> Inl err | Inr sets \<Rightarrow> Inr ((fst w, sts) # sets)) } }"

definition wanted :: "stateful_set \<Rightarrow> int" where
  "wanted sts = (case ss_replicas sts of None \<Rightarrow> 0 | Some n \<Rightarrow> n)"

definition rolling_message :: "string \<Rightarrow> stateful_set \<Rightarrow> string" where
  "rolling_message part sts = ''SeaweedFS '' @ part @ '' rolling out ('' @ itoa (ss_ready_replicas sts) @ ''/'' @ itoa (wanted sts) @ '' pods ready)''"

text \<open>The end of \<open>EnsureCluster\<close>, once the configuration of the filers is known.\<close>

definition seaweed_serve ::
  "('w, 'x) sw_env_scheme \<Rightarrow> object_store \<Rightarrow> cluster_state \<Rightarrow> string \<Rightarrow> ('w, cluster_state \<times> go_error option) go" where
  "seaweed_serve E c st toml =
     (let ns = sw_namespace E in
      do { a \<leftarrow> sw_apply_secret E c (buildFilerConfigSecret c ns toml);
        case a of
          Inl err \<Rightarrow> return (st, Some (wrap_err ''ensure filer config: '' err))
        | Inr _ \<Rightarrow>
          do { ws \<leftarrow> apply_workloads E c (sw_workloads (sw_pq E) c ns (sw_image E));
            case ws of
              Inl err \<Rightarrow> return (st, Some err)
            | Inr sets \<Rightarrow>
                (case find (\<lambda>(part, sts). ss_ready_replicas sts < wanted sts) sets of
                   Some (part, sts) \<Rightarrow> return (st\<lparr>cs_message := rolling_message part sts\<rparr>, None)
                 | None \<Rightarrow>
                     do { e \<leftarrow> ensureAdminIdentity E c;
                          return (case e of
                              Some err \<Rightarrow> (st\<lparr>cs_message := ''configuring S3 admin identity: '' @ emsg err\<rparr>, None)
                            | None \<Rightarrow> (st\<lparr>cs_admin_secret_name := adminSecretName c, cs_ready := True,
                                cs_message := ''SeaweedFS S3 gateway is ready'',
                                cs_endpoint := \<lparr>ep_internal = sw_s3Endpoint c ns (sw_cluster_domain E), ep_region = sw_s3Region\<rparr>\<rparr>, None)) }) } })"

definition seaweedEnsureCluster ::
  "('w, 'x) sw_env_scheme \<Rightarrow> object_store \<Rightarrow> ('w, cluster_state \<times> go_error option) go" where
  "seaweedEnsureCluster E c =
     (let st = empty_cluster_state\<lparr>cs_backend := \<lparr>be_type = BackendSeaweedFS, be_version = seaweedfsVersion\<rparr>\<rparr> in
      if sw_image E = [] then return (st\<lparr>cs_message := ''SEAWEEDFS_IMAGE is not configured on the controller''\<rparr>, None)
      else do { e \<leftarrow> for_each (ensure_service E c) (sw_services c (sw_namespace E));
        case e of
          Some err \<Rightarrow> return (st, Some err)
        | None \<Rightarrow>
          do { cfg \<leftarrow> filer_toml E c;
            case cfg of
              Inl (msg, err) \<Rightarrow> return (st\<lparr>cs_message := msg\<rparr>, err)
            | Inr toml \<Rightarrow> seaweed_serve E c st toml } })"

definition seaweedDeleteCluster :: "('w, 'x) sw_env_scheme \<Rightarrow> object_store \<Rightarrow> ('w, go_error option) go" where
  "seaweedDeleteCluster E c =
     (if os_reclaim_policy (os_spec c) \<noteq> ClusterReclaimDelete then return None
      else DeleteClusterPVCs (sw_kube E) Uncached (sw_namespace E) (sw_commonLabelList c))"

section \<open>Buckets\<close>

definition seaweedFSUnsupported :: "bucket \<Rightarrow> string list" where
  "seaweedFSUnsupported b =
     (if b_access_policy (b_spec b) = AccessPolicyPublicRead then [FeaturePublicRead] else [])
     @ (case b_quota (b_spec b) of None \<Rightarrow> [] | Some q \<Rightarrow> if q_max_objects q > 0 then [FeatureQuota] else [])"

definition apply_quota :: "('w, 'x) sw_env_scheme \<Rightarrow> object_store \<Rightarrow> bucket \<Rightarrow> ('w, go_error option) go" where
  "apply_quota E c b =
     (let name = BucketDisplayName b in
      case b_quota (b_spec b) of
        None \<Rightarrow> return None
      | Some q \<Rightarrow>
          if q_max_size q = [] then return None
          else (case sw_pq E (q_max_size q) of
              Inl perr \<Rightarrow> return (Some (wrap_err (''bucket '' @ quoted name @ '' quota maxSize '' @ quoted (q_max_size q) @ '': '') perr))
            | Inr sz \<Rightarrow>
                do { e \<leftarrow> setBucketQuota E (filerGRPCTarget c (sw_namespace E) (sw_cluster_domain E)) name sz;
                     return (case e of None \<Rightarrow> None | Some err \<Rightarrow> Some (wrap_err (''apply quota to bucket '' @ quoted name @ '': '') err)) }))"

definition seaweedEnsureBucket ::
  "('w, 'x) sw_env_scheme \<Rightarrow> object_store \<Rightarrow> bucket \<Rightarrow> ('w, bucket_state \<times> go_error option) go" where
  "seaweedEnsureBucket E c b =
     do { ad \<leftarrow> adminCreds E c;
          case ad of
            Inl err \<Rightarrow> return (empty_bucket_state, Some err)
          | Inr (adminAK, adminSK) \<Rightarrow>
              if adminAK = [] then return (empty_bucket_state\<lparr>bst_message := ''S3 admin identity is not provisioned yet''\<rparr>, None)
              else (let name = BucketDisplayName b in
                case S3_NewClient (sw_s3 E) (s3HostPort c (sw_namespace E) (sw_cluster_domain E)) adminAK adminSK of
                  Inl err \<Rightarrow> return (empty_bucket_state, Some (wrap_err ''build S3 client: '' err))
                | Inr mc \<Rightarrow>
                    do { e \<leftarrow> S3_EnsureBucket (sw_s3 E) mc name sw_s3Region;
                         case e of
                           Some err \<Rightarrow> return (empty_bucket_state, Some err)
                         | None \<Rightarrow>
                             do { q \<leftarrow> apply_quota E c b;
                                  return (case q of
                                      Some err \<Rightarrow> (empty_bucket_state, Some err)
                                    | None \<Rightarrow> (\<lparr>bst_ready = True, bst_message = ''bucket provisioned'', bst_bucket_name = name,
                                        bst_unsupported = seaweedFSUnsupported b\<rparr>, None)) } }) }"

definition seaweedDeleteBucket :: "('w, 'x) sw_env_scheme \<Rightarrow> object_store \<Rightarrow> bucket \<Rightarrow> ('w, go_error option) go" where
  "seaweedDeleteBucket E c b =
     (if b_reclaim_policy (b_spec b) \<noteq> BucketReclaimDelete then return None
      else do { ad \<leftarrow> adminCreds E c;
        case ad of
          Inl err \<Rightarrow> return (if is_not_found err then None else Some err)
        | Inr (adminAK, adminSK) \<Rightarrow>
            if adminAK = [] then return None
            else (case S3_NewClient (sw_s3 E) (s3HostPort c (sw_namespace E) (sw_cluster_domain E)) adminAK adminSK of
                Inl err \<Rightarrow> return (Some (wrap_err ''build S3 client: '' err))
              | Inr mc \<Rightarrow> S3_DeleteBucket (sw_s3 E) mc (BucketDisplayName b)) })"

text \<open>The driver as the reconcilers see it.\<close>

definition seaweedDriver :: "('w, 'x) sw_env_scheme \<Rightarrow> 'w driver" where
  "seaweedDriver E =
     \<lparr>d_type = BackendSeaweedFS,
      d_ensure_cluster = (\<lambda>c. opaque (seaweedEnsureCluster E c)),
      d_delete_cluster = (\<lambda>c. opaque (seaweedDeleteCluster E c)),
      d_ensure_bucket = (\<lambda>c b. opaque (seaweedEnsureBucket E c b)),
      d_delete_bucket = (\<lambda>c b. opaque (seaweedDeleteBucket E c b)),
      d_ensure_access = (\<lambda>c b a f. opaque (seaweedEnsureAccess E c b a f)),
      d_delete_access = (\<lambda>c b a. opaque (seaweedDeleteAccess E c a))\<rparr>"

text \<open>It keeps the contract of drivers.\<close>

lemma seaweed_answers:
  "yields (cluster_answer_ok BackendSeaweedFS) (seaweedEnsureCluster E c)"
  "yields (bucket_answer_ok b) (seaweedEnsureBucket E c b)"
  "yields access_answer_ok (seaweedEnsureAccess E c b a f)"
  unfolding seaweedEnsureCluster_def seaweed_serve_def seaweedEnsureBucket_def seaweedEnsureAccess_def sw_issue_def
  by (intro yields_rules; auto simp: answer_defs Let_def seaweedFSUnsupported_def RequestedFeatures_def sw_s3Endpoint_def split: option.splits sum.splits)+

interpretation seaweed: driver_contract "seaweedDriver E" for E
  by unfold_locales (simp_all add: seaweedDriver_def opaque_fst seaweed_answers seaweedDeleteBucket_def)

section \<open>What justifies a step of the cluster\<close>

definition config_source :: "('w, 'x) sw_env_scheme \<Rightarrow> object_store \<Rightarrow> event list \<Rightarrow> string \<Rightarrow> bool" where
  "config_source E c u toml \<longleftrightarrow>
     (if usesPostgres c
      then \<exists>s host user pass. EvGet Uncached KSecret (sw_namespace E, pgCredsSecretName c) (Inr (OSecret s)) \<in> set u
         \<and> creds_of c s = Some (host, user, pass) \<and> toml = renderFilerToml host pgPort user pass pgDatabase
      else toml = renderFilerTomlLeveldb filerStoreDir)"

definition config_applied :: "('w, 'x) sw_env_scheme \<Rightarrow> object_store \<Rightarrow> event list \<Rightarrow> bool" where
  "config_applied E c u \<longleftrightarrow> (\<exists>x y. EvCreateOrUpdate KSecret (sw_namespace E, filerConfigName c) x (Inr y) \<in> set u)"

definition part_rolled :: "('w, 'x) sw_env_scheme \<Rightarrow> object_store \<Rightarrow> string \<Rightarrow> event list \<Rightarrow> bool" where
  "part_rolled E c part u \<longleftrightarrow> (\<exists>x sts. EvCreateOrUpdate KStatefulSet (sw_namespace E, componentName c part) x (Inr (OStatefulSet sts)) \<in> set u
     \<and> wanted sts \<le> ss_ready_replicas sts)"

definition all_rolled :: "('w, 'x) sw_env_scheme \<Rightarrow> object_store \<Rightarrow> event list \<Rightarrow> bool" where
  "all_rolled E c u \<longleftrightarrow> part_rolled E c compMaster u \<and> part_rolled E c compVolume u \<and> part_rolled E c compFiler u"

text \<open>The admin pair is what the Secret has, or what was just put into a fresh Secret of the store.\<close>

definition admin_known :: "('w, 'x) sw_env_scheme \<Rightarrow> object_store \<Rightarrow> string \<Rightarrow> string \<Rightarrow> event list \<Rightarrow> bool" where
  "admin_known E c ak sk u \<longleftrightarrow> (\<exists>s. admin_pair s = (ak, sk)
     \<and> (EvGet Cached KSecret (sw_namespace E, adminSecretName c) (Inr (OSecret s)) \<in> set u
      \<or> EvCreate KSecret (OSecret s) None \<in> set u
          \<and> sw_own E (os_meta c) (fresh_meta (adminSecretName c) (sw_namespace E) (sw_commonLabels c)) = Inr (sec_meta s)))"

definition admin_absent :: "('w, 'x) sw_env_scheme \<Rightarrow> object_store \<Rightarrow> event list \<Rightarrow> bool" where
  "admin_absent E c u \<longleftrightarrow> (\<exists>err. EvGet Cached KSecret (sw_namespace E, adminSecretName c) (Inl err) \<in> set u \<and> is_not_found err)"

definition sw_cluster_event_ok :: "('w, 'x) sw_env_scheme \<Rightarrow> object_store \<Rightarrow> event list \<Rightarrow> event \<Rightarrow> bool" where
  "sw_cluster_event_ok E c u e \<longleftrightarrow> (case e of
      EvGet rd k ky r \<Rightarrow> k = KSecret \<or> usesPostgres c \<and> pg_event_ok E c u e
    | EvCreate k x r \<Rightarrow> k = KSecret \<and> admin_absent E c u \<or> usesPostgres c \<and> pg_event_ok E c u e
    | EvUpdate k x r \<Rightarrow> usesPostgres c \<and> pg_event_ok E c u e
    | EvCreateOrUpdate k ky x r \<Rightarrow>
        k = KService
      \<or> k = KSecret \<and> (\<exists>toml. x = OSecret (buildFilerConfigSecret c (sw_namespace E) toml) \<and> config_source E c u toml)
      \<or> k = KStatefulSet \<and> config_applied E c u
    | EvFiler tg meth req r \<Rightarrow> all_rolled E c u
        \<and> (filer_reads (sw_wire E) (grpc E c) adminIdentityName e
          \<or> (\<exists>ak sk. admin_known E c ak sk u \<and> filer_writes (sw_wire E) (grpc E c) (scoped_identity adminIdentityName ak sk [actionAdmin]) e))
    | _ \<Rightarrow> False)"

definition sw_ready_seen :: "('w, 'x) sw_env_scheme \<Rightarrow> object_store \<Rightarrow> cluster_state \<times> go_error option \<Rightarrow> event list \<Rightarrow> bool" where
  "sw_ready_seen E c out u \<longleftrightarrow> (if cs_ready (fst out)
     then snd out = None \<and> cs_admin_secret_name (fst out) = adminSecretName c \<and> ep_internal (cs_endpoint (fst out)) \<noteq> []
       \<and> all_rolled E c u
       \<and> (\<exists>ak sk v d. admin_known E c ak sk u \<and> u = v @ d
            \<and> filer_stored (sw_wire E) (grpc E c) (scoped_identity adminIdentityName ak sk [actionAdmin]) d)
     else True)"

lemma known_mono:
  assumes "set u \<subseteq> set v"
  shows "config_source E c u toml \<Longrightarrow> config_source E c v toml"
    and "config_applied E c u \<Longrightarrow> config_applied E c v"
    and "all_rolled E c u \<Longrightarrow> all_rolled E c v"
    and "admin_known E c ak sk u \<Longrightarrow> admin_known E c ak sk v"
    and "admin_absent E c u \<Longrightarrow> admin_absent E c v"
    and "pg_event_ok E c u e \<Longrightarrow> pg_event_ok E c v e"
proof -
  note sub = subsetD [OF assms]
  show "config_source E c u toml \<Longrightarrow> config_source E c v toml" by (auto simp: config_source_def dest: sub split: if_splits)
  show "config_applied E c u \<Longrightarrow> config_applied E c v" by (auto simp: config_applied_def dest: sub)
  show "all_rolled E c u \<Longrightarrow> all_rolled E c v" by (auto simp: all_rolled_def part_rolled_def dest: sub)
  show "admin_known E c ak sk u \<Longrightarrow> admin_known E c ak sk v" by (auto simp: admin_known_def dest: sub)
  show "admin_absent E c u \<Longrightarrow> admin_absent E c v" by (auto simp: admin_absent_def dest: sub)
  show "pg_event_ok E c u e \<Longrightarrow> pg_event_ok E c v e" by (auto simp: pg_event_ok_def dest: sub split: event.splits)
qed

section \<open>The stages\<close>

abbreviation cluster_steps :: "('w, 'x) sw_env_scheme \<Rightarrow> object_store \<Rightarrow> event list \<Rightarrow> event list \<Rightarrow> bool" where
  "cluster_steps E c t d \<equiv> justified (\<lambda>u. sw_cluster_event_ok E c (t @ u)) d"

lemma services_stage:
  "emits (\<lambda>e. \<forall>u. sw_cluster_event_ok E c u e) (for_each (ensure_service E c) ss)"
  unfolding ensure_service_def sw_apply_defs
  by (intro emits_rules) (simp add: sw_cluster_event_ok_def)

lemma pg_step:
  assumes "usesPostgres c" and "pg_event_ok E c u e"
  shows "sw_cluster_event_ok E c (t @ u) e"
proof -
  have "pg_event_ok E c (t @ u) e" by (rule known_mono(6) [OF _ assms(2)]) simp
  then show ?thesis
    using assms(1) by (cases e) (simp_all add: sw_cluster_event_ok_def, simp_all add: pg_event_ok_def)
qed

lemma toml_stage:
  assumes "\<And>r w' d. cluster_steps E c t d \<Longrightarrow> (\<And>toml. r = Inr toml \<Longrightarrow> config_source E c (t @ d) toml) \<Longrightarrow> Q r (w', t @ d)"
  shows "wp (filer_toml E c) Q (w, t)"
  unfolding filer_toml_def
proof (rule wp_if, goal_cases)
  case 1
  then show ?case using assms [of "[]"] by (auto intro!: wp_return simp: config_source_def)
next
  case 2
  then have pg: "usesPostgres c" by simp
  show ?case
  proof (rule wp_bind, rule framed_wp [OF framed_postgres pg_pass], goal_cases)
    case (1 r w' d)
    then have d: "cluster_steps E c t d"
      by (auto elim!: justified_mono intro: pg_step [OF pg])
    have step: "Q x (v, (t @ d) @ [EvGet Uncached KSecret ky res])"
      if "\<And>toml. x = Inr toml \<Longrightarrow> config_source E c (t @ d @ [EvGet Uncached KSecret ky res]) toml" for x v ky res
      using assms [of "d @ [EvGet Uncached KSecret ky res]" x v] d that by (simp add: sw_cluster_event_ok_def)
    show ?case
    proof (rule wp_case_option, goal_cases)
      case (2 err)
      then show ?case by (intro wp_return assms [OF d]) (simp split: if_splits)
    next
      case 1
      show ?case
        unfolding pgCreds_def kget_def
        by (intro wp_bind wp_call wp_return step)
          (use pg in \<open>fastforce simp: config_source_def split: sum.splits option.splits if_splits\<close>)
    qed
  qed
qed

text \<open>What the pass over the workloads leaves: every set was applied under its name, and the answers are what is looked at.\<close>

definition set_applied :: "('w, 'x) sw_env_scheme \<Rightarrow> event list \<Rightarrow> string \<times> stateful_set \<Rightarrow> string \<times> stateful_set \<Rightarrow> bool" where
  "set_applied E u w a \<longleftrightarrow> (\<exists>x. EvCreateOrUpdate KStatefulSet (m_namespace (ss_meta (snd w)), m_name (ss_meta (snd w))) x (Inr (OStatefulSet (snd a))) \<in> set u)"

lemma workloads_stage:
  "wp (apply_workloads E c ws) (\<lambda>r s'. \<exists>d. snd s' = t @ d \<and> list_all (\<lambda>e. \<exists>ky x y. e = EvCreateOrUpdate KStatefulSet ky x y) d
     \<and> (case r of Inl err \<Rightarrow> True | Inr sets \<Rightarrow> list_all2 (set_applied E d) ws sets)) (w, t)"
proof (induction ws arbitrary: w t)
  case Nil
  show ?case by (auto intro!: wp_return)
next
  case (Cons x ws)
  show ?case
    unfolding apply_workloads.simps sw_apply_defs
  proof (intro wp_bind wp_call wp_case_sum, goal_cases)
    case (1 r w' err)
    then show ?case by (auto intro!: wp_return)
  next
    case (2 r w' sts)
    show ?case
    proof (rule wp_mono [OF Cons], elim exE conjE, rule wp_return, goal_cases)
      case (1 rest s' d)
      let ?e = "EvCreateOrUpdate KStatefulSet (m_namespace (ss_meta (snd x)), m_name (ss_meta (snd x))) (OStatefulSet (snd x)) (map_sum id OStatefulSet r)"
      have "list_all2 (set_applied E (?e # d)) ws sets" if "rest = Inr sets" for sets
        using 1 that by (auto elim!: list_all2_mono simp: set_applied_def)
      with 1 2 show ?case
        by (intro exI [of _ "?e # d"]) (auto simp: set_applied_def split: sum.split)
    qed
  qed
qed

lemma set_applied_mono: "set_applied E u x y \<Longrightarrow> set u \<subseteq> set v \<Longrightarrow> set_applied E v x y"
  by (auto simp: set_applied_def)

lemma workload_keys:
  "m_namespace (ss_meta (buildMasterStatefulSet c ns img)) = ns" "m_name (ss_meta (buildMasterStatefulSet c ns img)) = componentName c compMaster"
  "m_namespace (ss_meta (buildVolumeStatefulSet pq c ns img)) = ns" "m_name (ss_meta (buildVolumeStatefulSet pq c ns img)) = componentName c compVolume"
  "m_namespace (ss_meta (buildFilerStatefulSet c ns img)) = ns" "m_name (ss_meta (buildFilerStatefulSet c ns img)) = componentName c compFiler"
  by (simp_all add: sw_set_defs Let_def fresh_meta_def split: prod.split)

lemma part_rolledI:
  "EvCreateOrUpdate KStatefulSet (sw_namespace E, componentName c part) x (Inr (OStatefulSet sts)) \<in> set u \<Longrightarrow>
     wanted sts \<le> ss_ready_replicas sts \<Longrightarrow> part_rolled E c part u"
  unfolding part_rolled_def by blast

lemma rolled_when_found:
  assumes "list_all2 (set_applied E u) (sw_workloads pq c (sw_namespace E) img) sets"
    and "find (\<lambda>(part, sts). ss_ready_replicas sts < wanted sts) sets = None"
  shows "all_rolled E c u"
  using assms
  by (auto simp: sw_workloads_def list_all2_Cons1 set_applied_def all_rolled_def workload_keys not_less intro: part_rolledI split: if_splits)

lemma admin_created:
  assumes "sw_own E (os_meta c) (fresh_meta (adminSecretName c) (sw_namespace E) (sw_commonLabels c)) = Inr m"
  shows "admin_known E c ak sk (u @ [EvCreate KSecret (OSecret \<lparr>sec_meta = m,
      sec_data = [sw_secretKeyAccessKey \<mapsto> ak, sw_secretKeySecretKey \<mapsto> sk], sec_string_data = Map.empty\<rparr>) None])"
  unfolding admin_known_def
  by (rule exI, rule conjI [OF _ disjI2])
    (use assms in \<open>auto simp: admin_pair_def map_str_def sw_secretKeyAccessKey_def sw_secretKeySecretKey_def\<close>)

text \<open>The admin Secret is created only when it was read as absent.\<close>

lemma admin_secret_stage:
  assumes "\<And>r w' d. cluster_steps E c t d \<Longrightarrow> (\<And>ak sk. r = Inr (ak, sk) \<Longrightarrow> admin_known E c ak sk (t @ d)) \<Longrightarrow> Q r (w', t @ d)"
  shows "wp (ensureAdminSecret E c) Q (w, t)"
proof -
  let ?get = "\<lambda>r. EvGet Cached KSecret (sw_namespace E, adminSecretName c) r"
  have one: "Q x (v, t @ [?get r])" if "\<And>ak sk. x = Inr (ak, sk) \<Longrightarrow> admin_known E c ak sk (t @ [?get r])" for x v r
    using assms [of "[?get r]" x v] that by (simp add: sw_cluster_event_ok_def)
  have two: "Q x (v, (t @ [?get (Inl err)]) @ [EvCreate KSecret y r])"
    if "is_not_found err" and "\<And>ak sk. x = Inr (ak, sk) \<Longrightarrow> admin_known E c ak sk (t @ [?get (Inl err), EvCreate KSecret y r])" for x v err y r
    using assms [of "[?get (Inl err), EvCreate KSecret y r]" x v] that by (auto simp: sw_cluster_event_ok_def admin_absent_def)
  have pair: "wp (sw_pair E) R (v, t')" if "\<And>x v'. R x (v', t')" for R v t'
    unfolding sw_pair_def sw_randomHex_def by (intro wp_rules) (simp_all add: that)
  show ?thesis
    unfolding ensureAdminSecret_def kget_def kcreate_def
  proof (intro wp_bind wp_call, rule wp_case_sum, goal_cases)
    case (2 r w' s)
    then show ?case by (auto intro!: wp_return one simp: admin_known_def)
  next
    case (1 r w' err)
    have early: "Q (Inl x) (v, t @ [?get (map_sum id OSecret r)])" for x v by (rule one) simp
    show ?case
    proof (intro wp_if wp_return early wp_bind, rule pair, intro wp_case_sum wp_case_prod wp_return early wp_bind wp_call, goal_cases)
      case (1 x v' a ak sk m e v2)
      have g: "map_sum id OSecret r = Inl err" using \<open>r = Inl err\<close> by simp
      show ?case
        unfolding g by (rule two)
          (use 1 admin_created [of E c m ak sk "t @ [?get (Inl err)]"] in \<open>auto split: option.splits\<close>)
    qed
  qed
qed

lemma justified_all: "list_all Q d \<Longrightarrow> (\<And>u e. Q e \<Longrightarrow> P u e) \<Longrightarrow> justified P d"
  using justified_append [of P "[]" Q d] by simp

lemma filer_step_ok:
  assumes "all_rolled E c t" and "admin_known E c ak sk t" and "set t \<subseteq> set u"
    and "filer_reads (sw_wire E) (grpc E c) adminIdentityName e \<or> filer_writes (sw_wire E) (grpc E c) (scoped_identity adminIdentityName ak sk [actionAdmin]) e"
  shows "sw_cluster_event_ok E c u e"
proof -
  have "all_rolled E c u" "admin_known E c ak sk u" using assms(1-3) by (auto intro: known_mono)
  moreover obtain tg m rq r where "e = EvFiler tg m rq r" using assms(4) by (auto simp: filer_reads_def filer_writes_def)
  ultimately show ?thesis using assms(4) by (auto simp: sw_cluster_event_ok_def)
qed

definition admin_stored :: "('w, 'x) sw_env_scheme \<Rightarrow> object_store \<Rightarrow> event list \<Rightarrow> bool" where
  "admin_stored E c u \<longleftrightarrow> (\<exists>ak sk v d. admin_known E c ak sk u \<and> u = v @ d
     \<and> filer_stored (sw_wire E) (grpc E c) (scoped_identity adminIdentityName ak sk [actionAdmin]) d)"

lemma admin_stage:
  assumes "all_rolled E c t"
  shows "wp (ensureAdminIdentity E c) (\<lambda>r s'. \<exists>d. snd s' = t @ d \<and> cluster_steps E c t d \<and> (case r of Some err \<Rightarrow> True | None \<Rightarrow> admin_stored E c (t @ d))) (w, t)"
  unfolding ensureAdminIdentity_def files_for
proof (rule wp_bind, rule admin_secret_stage, rule wp_case_sum, goal_cases)
  case (1 r w' d err)
  then show ?case by (auto intro!: wp_return)
next
  case (2 r w' d p)
  obtain ak sk where p: "p = (ak, sk)" by fastforce
  have known: "admin_known E c ak sk (t @ d)" using 2 p by simp
  have rolled: "all_rolled E c (t @ d)" by (rule known_mono(3) [OF _ assms]) simp
  have n: "id_name (scoped_identity adminIdentityName ak sk [actionAdmin]) = adminIdentityName" by (simp add: scoped_identity_def)
  show ?case
    unfolding p prod.case
  proof (rule wp_mono [OF filer.write_ok [where i = "scoped_identity adminIdentityName ak sk [actionAdmin]", unfolded n]],
      elim exE conjE, goal_cases)
    case (1 r s' d')
    have "justified (\<lambda>u. sw_cluster_event_ok E c ((t @ d) @ u)) d'"
      by (rule justified_all [OF 1(2)]) (rule filer_step_ok [OF rolled known], auto)
    moreover have known': "admin_known E c ak sk ((t @ d) @ d')" by (rule known_mono(4) [OF _ known]) auto
    then have "admin_stored E c ((t @ d) @ d')" if "r = None"
      unfolding admin_stored_def
      by (intro exI [of _ ak] exI [of _ sk] exI [of _ "t @ d"] exI [of _ d']) (use known' 1(3) that in auto)
    ultimately show ?case
      using 1(1) 2(1) by (intro exI [of _ "d @ d'"]) (auto split: option.split)
  qed
qed

abbreviation sw_pass :: "('w, 'x) sw_env_scheme \<Rightarrow> object_store \<Rightarrow> cluster_state \<times> go_error option \<Rightarrow> 'w run \<Rightarrow> bool" where
  "sw_pass E c out s' \<equiv> justified (sw_cluster_event_ok E c) (snd s') \<and> sw_ready_seen E c out (snd s')"

lemma unready [simp]: "\<not> cs_ready st \<Longrightarrow> sw_ready_seen E c (st, e) u"
  by (simp add: sw_ready_seen_def)

lemma endpoint_named: "sw_s3Endpoint c ns domain \<noteq> []"
  by (simp add: sw_s3Endpoint_def)

lemma workloads_justified:
  assumes "list_all (\<lambda>e. \<exists>ky x y. e = EvCreateOrUpdate KStatefulSet ky x y) d" and "config_applied E c t"
  shows "cluster_steps E c t d"
  by (rule justified_all [OF assms(1)]) (use known_mono(2) [OF _ assms(2)] in \<open>auto simp: sw_cluster_event_ok_def\<close>)

lemma serve_stage:
  assumes "justified (sw_cluster_event_ok E c) t" and "config_source E c t toml" and "\<not> cs_ready st"
  shows "wp (seaweed_serve E c st toml) (sw_pass E c) (w, t)"
  unfolding seaweed_serve_def Let_def sw_apply_secret_def sw_apply_def kcreate_or_update_def
proof (intro wp_bind wp_call wp_case_sum, goal_cases)
  case (1 r w' err)
  then show ?case using assms by (auto intro!: wp_return simp: sw_cluster_event_ok_def)
next
  case (2 r w' sec)
  let ?u = "t @ [EvCreateOrUpdate KSecret (m_namespace (sec_meta (buildFilerConfigSecret c (sw_namespace E) toml)),
      m_name (sec_meta (buildFilerConfigSecret c (sw_namespace E) toml))) (OSecret (buildFilerConfigSecret c (sw_namespace E) toml)) (map_sum id OSecret r)]"
  have u: "justified (sw_cluster_event_ok E c) ?u" using assms by (auto simp: sw_cluster_event_ok_def)
  have cfg: "config_applied E c ?u" using 2 by (auto simp: config_applied_def buildFilerConfigSecret_def fresh_meta_def)
  show ?case
  proof (rule wp_mono [OF workloads_stage], elim exE conjE, goal_cases)
    case (1 ws s' d)
    obtain v where s': "s' = (v, ?u @ d)" using 1(1) by (cases s') auto
    have ud: "justified (sw_cluster_event_ok E c) (?u @ d)"
      using u workloads_justified [OF 1(2) cfg] by (simp only: justified_app simp_thms)
    show ?case
      unfolding s'
    proof (intro wp_case_sum wp_case_option wp_case_prod wp_bind, goal_cases)
      case (1 err)
      then show ?case using ud assms(3) by (auto intro!: wp_return)
    next
      case (3 sets p part sts)
      then show ?case using ud assms(3) by (auto intro!: wp_return)
    next
      case (2 sets)
      have "list_all2 (set_applied E (?u @ d)) (sw_workloads (sw_pq E) c (sw_namespace E) (sw_image E)) sets"
        using 1(3) 2(1) by (auto elim!: list_all2_mono set_applied_mono)
      then have rolled: "all_rolled E c (?u @ d)" by (rule rolled_when_found) (rule 2(2))
      show ?case
      proof (rule wp_mono [OF admin_stage [OF rolled]], elim exE conjE, rule wp_return, goal_cases)
        case (1 e s'' d')
        have "justified (sw_cluster_event_ok E c) ((?u @ d) @ d')"
          using ud 1(2) by (simp only: justified_app simp_thms)
        moreover have "all_rolled E c ((?u @ d) @ d')" by (rule known_mono(3) [OF _ rolled]) auto
        ultimately show ?case
          using 1 assms(3) by (cases e) (auto simp: sw_ready_seen_def admin_stored_def endpoint_named simp del: append_assoc)
      qed
    qed
  qed
qed

lemma seaweed_cluster_pass:
  "wp (seaweedEnsureCluster E c) (\<lambda>out s'. justified (sw_cluster_event_ok E c) (snd s') \<and> sw_ready_seen E c out (snd s')) (w, [])"
  unfolding seaweedEnsureCluster_def Let_def
proof (intro wp_if wp_bind, goal_cases)
  case 1
  then show ?case by (auto intro!: wp_return simp: empty_cluster_state_def)
next
  case 2
  show ?case
  proof (rule emits_wp [OF services_stage], rule wp_case_option, goal_cases)
    case (2 r w' d err)
    have "justified (sw_cluster_event_ok E c) d" by (rule justified_all [OF 2(1)]) simp
    then show ?case by (auto intro!: wp_return simp: empty_cluster_state_def)
  next
    case (1 r w1 d1)
    have d1: "justified (sw_cluster_event_ok E c) d1" by (rule justified_all [OF 1(1)]) simp
    show ?case
    proof (intro wp_bind, rule toml_stage, intro wp_case_sum wp_case_prod, goal_cases)
      case (1 r w2 d2)
      with d1 show ?case by (auto intro!: wp_return simp: empty_cluster_state_def)
    next
      case (2 r w2 d2 toml)
      with d1 show ?case by (intro serve_stage) (auto simp: empty_cluster_state_def)
    qed
  qed
qed

text \<open>C24: The order of a SeaweedFS cluster, and its readiness. The filers are configured before any workload is applied, from the
  leveldb store or from credentials read in this pass; the Postgres resource is touched only under High redundancy; an admin Secret is
  created only where none was, and the admin identity is written only with the keys of that Secret and only after every set had its pods
  ready. A cluster is reported ready only then, with the identity confirmed by the last answer of the filer.\<close>

theorem seaweed_cluster_safe:
  "wp (seaweedEnsureCluster E c) (\<lambda>out s'. justified (sw_cluster_event_ok E c) (snd s') \<and> sw_ready_seen E c out (snd s')) (w, [])"
  by (rule seaweed_cluster_pass)

section \<open>Buckets\<close>

definition sw_admin_pair_seen :: "('w, 'x) sw_env_scheme \<Rightarrow> object_store \<Rightarrow> event list \<Rightarrow> bool" where
  "sw_admin_pair_seen E c u \<longleftrightarrow> (\<exists>e \<in> set u. admin_seen E c e)"

definition sw_quota_set :: "('w, 'x) sw_env_scheme \<Rightarrow> object_store \<Rightarrow> bucket \<Rightarrow> event list \<Rightarrow> bool" where
  "sw_quota_set E c b u \<longleftrightarrow> (case b_quota (b_spec b) of
      None \<Rightarrow> True
    | Some q \<Rightarrow> if q_max_size q = [] then True else quota_written (grpc E c) u)"

text \<open>What is not enforced is named: every requested feature is either applied or listed as unsupported.\<close>

definition sw_features_accounted :: "bucket \<Rightarrow> string list \<Rightarrow> bool" where
  "sw_features_accounted b out \<longleftrightarrow>
     (b_access_policy (b_spec b) = AccessPolicyPublicRead \<longleftrightarrow> FeaturePublicRead \<in> set out)
   \<and> ((\<exists>q. b_quota (b_spec b) = Some q \<and> q_max_objects q > 0) \<longleftrightarrow> FeatureQuota \<in> set out)"

definition sw_bucket_post :: "('w, 'x) sw_env_scheme \<Rightarrow> object_store \<Rightarrow> bucket \<Rightarrow> bucket_state \<times> go_error option \<Rightarrow> event list \<Rightarrow> bool" where
  "sw_bucket_post E c b out u \<longleftrightarrow> (if bst_ready (fst out)
     then snd out = None \<and> bst_bucket_name (fst out) = BucketDisplayName b
       \<and> sw_admin_pair_seen E c u
       \<and> s3_there (s3HostPort c (sw_namespace E) (sw_cluster_domain E)) (BucketDisplayName b) sw_s3Region u
       \<and> sw_quota_set E c b u \<and> sw_features_accounted b (bst_unsupported (fst out))
     else True)"

lemma features_accounted: "sw_features_accounted b (seaweedFSUnsupported b)"
  by (cases "b_quota (b_spec b)")
    (auto simp: sw_features_accounted_def seaweedFSUnsupported_def FeaturePublicRead_def FeatureQuota_def)

lemma wp_set_quota:
  assumes "\<And>r w' d. (r = None \<Longrightarrow> quota_written target (t @ d)) \<Longrightarrow> Q r (w', t @ d)"
  shows "wp (setBucketQuota E target name quota) Q (w, t)"
proof (rule wp_mono)
  show "wp (setBucketQuota E target name quota) (\<lambda>r s'. \<exists>d. snd s' = t @ d \<and> (r = None \<longrightarrow> quota_written target (t @ d))) (w, t)"
    unfolding setBucketQuota_def invoke_def Let_def
    by (intro wp_rules) (auto simp: quota_written_def split: sum.splits)
qed (elim exE conjE, metis assms prod.collapse)

lemma wp_apply_quota:
  assumes "\<And>r w' d. (r = None \<Longrightarrow> sw_quota_set E c b (t @ d)) \<Longrightarrow> Q r (w', t @ d)"
  shows "wp (apply_quota E c b) Q (w, t)"
proof -
  have none: "Q r (w', t)" if "r = None \<Longrightarrow> sw_quota_set E c b t" for r w' using assms [of r "[]"] that by simp
  show ?thesis
    unfolding apply_quota_def Let_def
    by (intro wp_case_option wp_if wp_case_sum wp_return none wp_bind wp_set_quota assms)
      (auto simp: sw_quota_set_def grpc_def split: option.splits)
qed

text \<open>A SeaweedFS bucket is ready only if the admin identity was there, the bucket was found or made in this pass, its size quota
  was written when one is asked for, and every other requested feature is reported as not supported.\<close>

theorem seaweed_bucket_sound:
  "wp (seaweedEnsureBucket E c b) (\<lambda>out s'. sw_bucket_post E c b out (snd s')) (w, [])"
  unfolding seaweedEnsureBucket_def adminCreds_def kget_def Let_def S3_NewClient_def
proof (intro wp_bind wp_call wp_return wp_case_sum wp_case_prod wp_if, goal_cases)
  case (4 r w' p adminAK adminSK mc)
  then have seen: "sw_admin_pair_seen E c ([EvGet Uncached KSecret (sw_namespace E, adminSecretName c) (map_sum id OSecret r)] @ d)" for d
    by (auto simp: sw_admin_pair_seen_def admin_seen_def split: sum.splits if_splits)
  have mc: "s3c_endpoint mc = s3HostPort c (sw_namespace E) (sw_cluster_domain E)" using 4 by (auto split: option.splits)
  show ?case
  proof (rule wp_s3_ensure, rule wp_case_option, goal_cases)
    case (2 r w' d err)
    then show ?case by (auto intro!: wp_return simp: sw_bucket_post_def empty_bucket_state_def)
  next
    case (1 e w' d)
    have there: "s3_there (s3HostPort c (sw_namespace E) (sw_cluster_domain E)) (BucketDisplayName b) sw_s3Region
        (([EvGet Uncached KSecret (sw_namespace E, adminSecretName c) (map_sum id OSecret r)] @ d) @ d')" for d'
      using 1 mc by (auto simp: s3_there_def)
    show ?case
      by (rule wp_bind, rule wp_apply_quota, rule wp_return)
        (use seen [of "d @ _"] there in \<open>auto simp: sw_bucket_post_def empty_bucket_state_def features_accounted split: option.splits\<close>)
  qed
qed (auto simp: sw_bucket_post_def empty_bucket_state_def)

definition sw_delete_post :: "('w, 'x) sw_env_scheme \<Rightarrow> object_store \<Rightarrow> bucket \<Rightarrow> go_error option \<Rightarrow> event list \<Rightarrow> bool" where
  "sw_delete_post E c b r u \<longleftrightarrow>
     (if b_reclaim_policy (b_spec b) = BucketReclaimDelete
      then (case u of [] \<Rightarrow> False | g # d \<Rightarrow> (d = [] \<or> admin_seen E c g) \<and> justified (s3_removal_ok (BucketDisplayName b)) d
        \<and> (case r of Some err \<Rightarrow> True
           | None \<Rightarrow> admin_missing E c g \<or> s3_gone (s3HostPort c (sw_namespace E) (sw_cluster_domain E)) (BucketDisplayName b) d))
      else u = [] \<and> r = None)"

text \<open>A SeaweedFS bucket is removed only under the Delete policy, only that bucket, and only after every object in it was; success
  means that it is gone, or that the store has no admin Secret.\<close>

theorem seaweed_delete_bucket_sound:
  "wp (seaweedDeleteBucket E c b) (\<lambda>r s'. sw_delete_post E c b r (snd s')) (w, [])"
  unfolding seaweedDeleteBucket_def adminCreds_def kget_def S3_NewClient_def
proof (intro wp_bind wp_call wp_return wp_case_sum wp_case_prod wp_if, goal_cases)
  case (5 r w' p adminAK adminSK mc)
  then have seen: "admin_seen E c (EvGet Uncached KSecret (sw_namespace E, adminSecretName c) (map_sum id OSecret r))"
    by (auto simp: admin_seen_def split: sum.splits if_splits)
  have mc: "s3c_endpoint mc = s3HostPort c (sw_namespace E) (sw_cluster_domain E)" using 5 by (auto split: option.splits)
  show ?case
    by (rule framed_wp [OF framed_s3(1) s3_delete_bucket_sound])
      (use seen mc 5(1) in \<open>auto simp: sw_delete_post_def s3_gone_def split: option.splits\<close>)
qed (auto simp: sw_delete_post_def admin_missing_def split: sum.splits if_splits)

definition filer_call :: "event \<Rightarrow> bool" where
  "filer_call e \<longleftrightarrow> (case e of EvFiler tg meth req r \<Rightarrow> True | _ \<Rightarrow> False)"

text \<open>A quota is never taken back: when the size is removed from the bucket, the driver does not speak to the filer at all, so the
  quota written before stays in force behind a bucket that is reported ready.\<close>

theorem seaweed_quota_not_cleared:
  assumes "case b_quota (b_spec b) of None \<Rightarrow> True | Some q \<Rightarrow> q_max_size q = []"
  shows "emits (Not \<circ> filer_call) (seaweedEnsureBucket E c b)"
proof -
  have "apply_quota E c b = return None"
    using assms by (simp add: apply_quota_def Let_def split: option.splits)
  then show ?thesis
    unfolding seaweedEnsureBucket_def adminCreds_def kget_def S3_EnsureBucket_def mc_exists_def
    by (simp, intro emits_rules) (simp_all add: filer_call_def emits_return)
qed

definition admin_secret :: secret where
  "admin_secret = \<lparr>sec_meta = fresh_meta ''full-seaweedfs-admin'' ''d8'' Map.empty,
     sec_data = [sw_secretKeyAccessKey \<mapsto> ''AK'', sw_secretKeySecretKey \<mapsto> ''SK''], sec_string_data = Map.empty\<rparr>"

definition ready_env :: "unit sw_env" where
  "ready_env = (filer_env [])\<lparr>sw_kube := quiet_kube\<lparr>k_secrets := answering (Inr admin_secret) []\<rparr>\<rparr>"

definition unlimited_bucket :: bucket where
  "unlimited_bucket = \<lparr>b_meta = fresh_meta ''logs'' [] Map.empty, b_spec = \<lparr>b_object_store_ref = ''full'', b_bucket_name = [],
     b_access_policy = AccessPolicyPrivate, b_reclaim_policy = BucketReclaimRetain, b_quota = None\<rparr>, b_status = None\<rparr>"

lemma seaweed_quota_not_cleared_witness:
  "bst_ready (fst (fst (run_state (seaweedEnsureBucket ready_env full_store unlimited_bucket) ((), []))))
   \<and> list_all (Not \<circ> filer_call) (snd (snd (run_state (seaweedEnsureBucket ready_env full_store unlimited_bucket) ((), []))))"
proof
  show "bst_ready (fst (fst (run_state (seaweedEnsureBucket ready_env full_store unlimited_bucket) ((), []))))"
    by (simp add: seaweedEnsureBucket_def adminCreds_def kget_def call_def ready_env_def answering_def filer_env_def admin_pair_def
        admin_secret_def map_str_def sw_secretKeyAccessKey_def sw_secretKeySecretKey_def S3_NewClient_def demo_sw_s3_def S3_EnsureBucket_def
        mc_exists_def apply_quota_def unlimited_bucket_def Let_def)
  show "list_all (Not \<circ> filer_call) (snd (snd (run_state (seaweedEnsureBucket ready_env full_store unlimited_bucket) ((), []))))"
    by (rule emits_run [OF seaweed_quota_not_cleared]) (simp add: unlimited_bucket_def)
qed

end
