(* ===== verification/Controller_Main.thy ===== *)
theory Controller_Main
  imports Store_Controller Access_Controller Garage_Driver Ceph_Rgw Seaweed_Driver
begin

text \<open>
  \<open>cmd/main.go\<close>: the program as a whole. The three drivers are made from the same client and the same options, put
  into one registry, and the five reconcilers run against it, for ever and in any order. A \<open>running\<close> state is
  what any sequence of their passes can reach, with anything else happening to the world in between; its trace has
  every call of every pass. What passes do concurrently to each other is, for each of them, in the answers it gets.
\<close>

section \<open>The wiring\<close>

record 'w system =
  sy_cfg :: options
  sy_kube :: "'w kube"
  sy_regexps :: regexps
  sy_own :: own_ref
  sy_garage :: "'w garage_env"
  sy_seaweed :: "'w sw_env"
  sy_ceph :: "'w ceph_env"

text \<open>\<open>garage.New\<close>, \<open>seaweedfs.New\<close> and \<open>cephrgw.New\<close> with the arguments of \<open>main\<close>.\<close>

definition new_garage :: "'w system \<Rightarrow> 'w garage_env" where
  "new_garage S = (sy_garage S)\<lparr>ga_kube := sy_kube S, ga_namespace := ControllerNamespace (sy_cfg S),
     ga_image := GarageImage (sy_cfg S), ga_cluster_domain := ClusterDomain (sy_cfg S)\<rparr>"

definition new_seaweedfs :: "'w system \<Rightarrow> 'w sw_env" where
  "new_seaweedfs S = (sy_seaweed S)\<lparr>sw_kube := sy_kube S, sw_namespace := ControllerNamespace (sy_cfg S),
     sw_image := SeaweedFSImage (sy_cfg S), sw_cluster_domain := ClusterDomain (sy_cfg S)\<rparr>"

definition new_cephrgw :: "'w system \<Rightarrow> 'w ceph_env" where
  "new_cephrgw S = (sy_ceph S)\<lparr>ce_kube := sy_kube S, ce_cluster_domain := ClusterDomain (sy_cfg S)\<rparr>"

definition main_registry :: "'w system \<Rightarrow> 'w registry" where
  "main_registry S = NewRegistry [garageDriver (new_garage S), seaweedDriver (new_seaweedfs S), cephDriver (new_cephrgw S)]"

text \<open>The reconcilers that are registered with the manager, and what they are asked.\<close>

datatype request = ReqStore string | ReqBucket string | ReqClaim key | ReqAccess key | ReqPolicy string

definition reconcile :: "'w system \<Rightarrow> request \<Rightarrow> ('w, outcome) go" where
  "reconcile S q = (case q of
      ReqStore n \<Rightarrow> store_Reconcile (main_registry S) (sy_cfg S) (sy_kube S) n
    | ReqBucket n \<Rightarrow> bucket_Reconcile (main_registry S) (sy_cfg S) (sy_kube S) n
    | ReqClaim ky \<Rightarrow> claim_Reconcile (sy_regexps S) (sy_cfg S) (sy_kube S) ky
    | ReqAccess ky \<Rightarrow> access_Reconcile (sy_own S) (sy_regexps S) (main_registry S) (sy_cfg S) (sy_kube S) ky
    | ReqPolicy n \<Rightarrow> reconcilePolicy (sy_regexps S) (sy_kube S) n)"

inductive running :: "'w system \<Rightarrow> 'w run \<Rightarrow> bool" for S where
  started: "running S (w, [])"
| pass: "running S s \<Longrightarrow> run_state (reconcile S q) s = (out, s') \<Longrightarrow> running S s'"
| elsewhere: "running S (w, t) \<Longrightarrow> running S (w', t)"

inductive_cases running_cases: "running S (w, t)"

section \<open>The registry\<close>

interpretation main_registry: contract_registry "main_registry S" for S
  unfolding main_registry_def
  by (rule registry_contracts) (auto intro: garage.driver_contract_axioms seaweed.driver_contract_axioms ceph.driver_contract_axioms)

lemma driver_types [simp]:
  "d_type (garageDriver G) = BackendGarage" "d_type (seaweedDriver W) = BackendSeaweedFS" "d_type (cephDriver C) = BackendCephRGW"
  by (simp_all add: garageDriver_def seaweedDriver_def cephDriver_def)

lemma main_registry_simps [simp]:
  "main_registry S BackendGarage = Some (garageDriver (new_garage S))"
  "main_registry S BackendSeaweedFS = Some (seaweedDriver (new_seaweedfs S))"
  "main_registry S BackendCephRGW = Some (cephDriver (new_cephrgw S))"
  "main_registry S (BackendOther s) = None"
  by (simp_all add: main_registry_def NewRegistry_def)

lemma main_driver:
  "Registry_For (main_registry S) c = (case os_type (os_spec c) of
      ClusterTypeSystem \<Rightarrow> Inr (garageDriver (new_garage S))
    | ClusterTypeLightweight \<Rightarrow> Inr (garageDriver (new_garage S))
    | ClusterTypeFull \<Rightarrow> Inr (seaweedDriver (new_seaweedfs S))
    | ClusterTypeHeavy \<Rightarrow> Inr (cephDriver (new_cephrgw S))
    | ClusterTypeOther s \<Rightarrow> Inl (new_err (''unknown cluster type '' @ quoted s)))"
  by (simp add: Registry_For_def ResolveBackendType_def split: cluster_type.split)

section \<open>Passes do not look at the trace\<close>

lemma framed_driver_ops [framed_rules]:
  "framed (EnsureCluster d c)" "framed (DeleteCluster d c)" "framed (EnsureBucket d c b)" "framed (DeleteBucket d c b)"
  "framed (EnsureAccess d c b a f)" "framed (DeleteAccess d c b a)"
  unfolding driver_op_defs by (intro framed_call)+

lemma framed_kube_ops [framed_rules]:
  "framed (kget rd k mk res ky)" "framed (klist rd k mk2 res2 lo)" "framed (kcreate k mk3 res3 x)" "framed (kupdate k mk4 res4 y)"
  "framed (kupdate_status k mk5 res5 z)" "framed (kdelete k res6 ky)" "framed (kcreate_or_update k mk7 res7 ky v f)"
  unfolding kube_op_defs by (intro framed_call)+

lemma framed_write_status: "retry_law K \<Longrightarrow> framed (write_status K k mk res ky fld put zero f)"
  unfolding write_status_def by (intro framed_retry framed_rules)

lemma framed_finish [framed_rules]: "framed m \<Longrightarrow> framed (finish_with m err rq)"
  unfolding finish_with_def by (intro framed_rules)

lemma framed_store: "retry_law K \<Longrightarrow> framed (store_Reconcile reg cfg K n)"
  unfolding store_Reconcile_def store_reconcileNormal_def store_reconcileDelete_def store_finish_def store_updateStatus_def
  by (intro framed_rules framed_write_status)

lemma framed_bucket: "retry_law K \<Longrightarrow> framed (bucket_Reconcile reg cfg K n)"
  unfolding bucket_Reconcile_def bucket_reconcileNormal_def bucket_reconcileDelete_def bucket_finish_def bucket_updateStatus_def getCluster_def
  by (intro framed_rules framed_write_status)

lemma framed_claim: "retry_law K \<Longrightarrow> framed (claim_Reconcile re cfg K ky)"
  unfolding claim_Reconcile_def claim_reconcileNormal_def claim_reconcileDelete_def referencingAccesses_def ensureBound_def
    ensureGreenfield_def ensureBrownfield_def namespaceAllowedForBucket_def claim_finish_def claim_updateStatus_def
  by (intro framed_rules framed_write_status)

lemmas access_end_defs = access_finish_def access_updateStatus_def

lemma framed_access_revoke: "retry_law K \<Longrightarrow> framed (access_revoke reg cfg K a sb ob bound authz bkt cluster)"
  unfolding access_revoke_def Let_def revokeIfIssued_def deleteCredentialsSecret_def resolveBound_def access_end_defs
  by (intro framed_rules framed_retry)

lemma framed_access: "retry_law K \<Longrightarrow> framed (access_Reconcile own re reg cfg K ky)"
  unfolding access_Reconcile_def access_reconcileNormal_def access_reconcileDelete_def access_gate_def access_issue_def access_store_def
    ensureCredentialsSecret_def accessAuthorized_def revokeIfIssued_def getSecret_def deleteCredentialsSecret_def
    resolveBound_def access_end_defs namespaceAllowedForBucket_def
  by (intro framed_rules framed_retry framed_access_revoke)

lemma framed_policy_reconcile: "retry_law K \<Longrightarrow> framed (reconcilePolicy re K n)"
  unfolding reconcilePolicy_def bucketExists_def updatePolicyStatus_def
  by (intro framed_rules framed_retry)

lemma framed_reconcile: "retry_law (sy_kube S) \<Longrightarrow> framed (reconcile S q)"
  unfolding reconcile_def
  by (cases q) (simp_all add: framed_store framed_bucket framed_claim framed_access framed_policy_reconcile)

section \<open>Every pass is justified\<close>

definition pass_ok :: "'w system \<Rightarrow> request \<Rightarrow> event list \<Rightarrow> event \<Rightarrow> bool" where
  "pass_ok S q u e \<longleftrightarrow> (case q of
      ReqStore n \<Rightarrow> store_event_ok (main_registry S) (sy_kube S) n u e
    | ReqBucket n \<Rightarrow> bucket_event_ok (sy_kube S) n u e
    | ReqClaim ky \<Rightarrow> claim_event_ok (sy_regexps S) (sy_kube S) ky u e
    | ReqAccess ky \<Rightarrow> access_event_ok (sy_regexps S) (main_registry S) (sy_kube S) ky u e
    | ReqPolicy n \<Rightarrow> policy_event_ok (sy_regexps S) (sy_kube S) n u e)"

lemma reconcile_pass:
  assumes "retry_law (sy_kube S)" and "cond_law (sy_kube S)"
  shows "wp (reconcile S q) (\<lambda>out s'. justified (pass_ok S q) (snd s')) (w, [])"
  unfolding reconcile_def pass_ok_def
  using store_pass [OF assms] bucket_pass [OF assms] claim_pass [OF assms] access_pass [OF assms] policy_status_pass [OF assms]
  by (cases q) simp_all

text \<open>What a driver is recorded to have answered is what it answered: an answer of an operation of the driver of that store,
  in some world.\<close>

definition answer_of :: "('w \<Rightarrow> 'a \<times> 'w) \<Rightarrow> 'a \<Rightarrow> bool" where
  "answer_of f r \<longleftrightarrow> (\<exists>w. r = fst (f w))"

definition genuine :: "'w registry \<Rightarrow> event \<Rightarrow> bool" where
  "genuine reg e \<longleftrightarrow> (case e of
      EvDriver (DrvEnsureCluster c r) \<Rightarrow> (\<exists>d. Registry_For reg c = Inr d \<and> answer_of (d_ensure_cluster d c) r)
    | EvDriver (DrvEnsureBucket c b r) \<Rightarrow> (\<exists>d. Registry_For reg c = Inr d \<and> answer_of (d_ensure_bucket d c b) r)
    | EvDriver (DrvEnsureAccess c b a f r) \<Rightarrow> (\<exists>d. Registry_For reg c = Inr d \<and> answer_of (d_ensure_access d c b a f) r)
    | _ \<Rightarrow> True)"

lemma genuine_driver_ops:
  "Registry_For reg c = Inr d \<Longrightarrow> emits (genuine reg) (EnsureCluster d c)"
  "Registry_For reg c = Inr d \<Longrightarrow> emits (genuine reg) (EnsureBucket d c b)"
  "Registry_For reg c = Inr d \<Longrightarrow> emits (genuine reg) (EnsureAccess d c b a f)"
  unfolding driver_op_defs by (rule emits_answered; auto simp: genuine_def answer_of_def)+

lemma genuine_kube_ops:
  "emits (genuine reg) (kget rd k mk res ky)" "emits (genuine reg) (klist rd k mk2 res2 lo)" "emits (genuine reg) (kcreate k mk3 res3 x)"
  "emits (genuine reg) (kupdate k mk4 res4 y)" "emits (genuine reg) (kupdate_status k mk5 res5 z)" "emits (genuine reg) (kdelete k res6 ky)"
  "emits (genuine reg) (kcreate_or_update k mk7 res7 ky v f)" "emits (genuine reg) (DeleteCluster d c)"
  "emits (genuine reg) (DeleteBucket d c b)" "emits (genuine reg) (DeleteAccess d c b a)"
  unfolding kube_op_defs driver_op_defs by (rule emits_call; simp add: genuine_def)+

lemma genuine_write_status: "retry_law K \<Longrightarrow> emits (genuine reg) (write_status K k mk res ky fld put zero f)"
  unfolding write_status_def by (intro emits_retry emits_rules genuine_kube_ops)

lemma genuine_finish: "emits P m \<Longrightarrow> emits P (finish_with m err rq)"
  unfolding finish_with_def by (intro emits_rules)

lemmas genuine_rules = emits_rules genuine_driver_ops genuine_kube_ops genuine_write_status genuine_finish emits_retry

lemma genuine_store: "retry_law K \<Longrightarrow> emits (genuine reg) (store_Reconcile reg cfg K n)"
  unfolding store_Reconcile_def store_reconcileNormal_def store_reconcileDelete_def store_finish_def store_updateStatus_def
  by (intro genuine_rules)

lemma genuine_bucket: "retry_law K \<Longrightarrow> emits (genuine reg) (bucket_Reconcile reg cfg K n)"
  unfolding bucket_Reconcile_def bucket_reconcileNormal_def bucket_reconcileDelete_def bucket_finish_def bucket_updateStatus_def getCluster_def
  by (intro genuine_rules)

lemma genuine_claim: "retry_law K \<Longrightarrow> emits (genuine reg) (claim_Reconcile re cfg K ky)"
  unfolding claim_Reconcile_def claim_reconcileNormal_def claim_reconcileDelete_def referencingAccesses_def ensureBound_def
    ensureGreenfield_def ensureBrownfield_def namespaceAllowedForBucket_def claim_finish_def claim_updateStatus_def
  by (intro genuine_rules)

lemma genuine_access_revoke: "retry_law K \<Longrightarrow> emits (genuine reg) (access_revoke reg cfg K a sb ob bound authz bkt cluster)"
  unfolding access_revoke_def Let_def revokeIfIssued_def deleteCredentialsSecret_def resolveBound_def access_end_defs
  by (intro genuine_rules)

lemma genuine_access: "retry_law K \<Longrightarrow> emits (genuine reg) (access_Reconcile own re reg cfg K ky)"
  unfolding access_Reconcile_def access_reconcileNormal_def access_reconcileDelete_def access_gate_def access_issue_def access_store_def
    ensureCredentialsSecret_def accessAuthorized_def revokeIfIssued_def getSecret_def deleteCredentialsSecret_def
    resolveBound_def access_end_defs namespaceAllowedForBucket_def
  by (intro genuine_rules genuine_access_revoke)

lemma genuine_policy: "retry_law K \<Longrightarrow> emits (genuine reg) (reconcilePolicy re K n)"
  unfolding reconcilePolicy_def bucketExists_def updatePolicyStatus_def
  by (intro genuine_rules)

lemma genuine_reconcile: "retry_law (sy_kube S) \<Longrightarrow> emits (genuine (main_registry S)) (reconcile S q)"
  unfolding reconcile_def
  by (cases q) (simp_all add: genuine_store genuine_bucket genuine_claim genuine_access genuine_policy)

section \<open>Histories\<close>

text \<open>An event of a history belongs to a pass, and is justified by what that pass did before it.\<close>

definition history_ok :: "'w system \<Rightarrow> event list \<Rightarrow> event \<Rightarrow> bool" where
  "history_ok S u e \<longleftrightarrow> (\<exists>q a b. u = a @ b \<and> pass_ok S q b e \<and> genuine (main_registry S) e \<and> list_all (genuine (main_registry S)) b)"

lemma pass_history:
  assumes "retry_law (sy_kube S)" and "cond_law (sy_kube S)" and run: "run_state (reconcile S q) (w, t) = (out, s')"
  shows "\<exists>w' d. s' = (w', t @ d) \<and> justified (\<lambda>u. history_ok S (t @ u)) d"
proof -
  obtain r w' d where 0: "run_state (reconcile S q) (w, []) = (r, (w', d))" by (metis prod.collapse)
  have s': "s' = (w', t @ d)" using framedD [OF framed_reconcile [OF assms(1)] 0, of t] run by simp
  have ok: "justified (pass_ok S q) d" using wpD [OF reconcile_pass [OF assms(1,2)] 0] by simp
  have gen: "list_all (genuine (main_registry S)) d"
    using emits_run [OF genuine_reconcile [OF assms(1)], of q w] by (simp add: 0)
  have "history_ok S (t @ take i d) (d ! i)" if "i < length d" for i
    unfolding history_ok_def
    by (intro exI [of _ q] exI [of _ t] exI [of _ "take i d"])
      (use that ok gen in \<open>auto simp: justified_def list_all_length\<close>)
  then show ?thesis using s' by (simp add: justified_def)
qed

lemma history_pass:
  assumes "retry_law (sy_kube S)" and "cond_law (sy_kube S)"
  shows "running S s \<Longrightarrow> justified (history_ok S) (snd s)"
proof (induction rule: running.induct)
  case (pass s q out s')
  then obtain w' d where "s' = (w', snd s @ d)" "justified (\<lambda>u. history_ok S (snd s @ u)) d"
    using pass_history [OF assms, of q "fst s" "snd s" out s'] by auto
  then show ?case using pass.IH by simp
qed simp_all

section \<open>From the objects down to the backends\<close>

text \<open>A run of a handler, from some world, that ended with an answer, and the calls it made.\<close>

definition ran :: "('w, 'a) go \<Rightarrow> 'a \<Rightarrow> event list \<Rightarrow> bool" where
  "ran m r u \<longleftrightarrow> (\<exists>w w'. run_state m (w, []) = (r, (w', u)))"

text \<open>A run of the operation that a recorded driver call names, on the driver \<open>main\<close> made for the type of the store, that gave
  the answer recorded in the call.\<close>

definition driver_ran :: "'w system \<Rightarrow> driver_call \<Rightarrow> event list \<Rightarrow> bool" where
  "driver_ran S dc u \<longleftrightarrow> (case dc of
      DrvEnsureCluster c r \<Rightarrow> (case os_type (os_spec c) of
          ClusterTypeHeavy \<Rightarrow> ran (cephEnsureCluster (new_cephrgw S) c) r u
        | ClusterTypeFull \<Rightarrow> ran (seaweedEnsureCluster (new_seaweedfs S) c) r u
        | ClusterTypeOther s \<Rightarrow> False
        | _ \<Rightarrow> ran (garageEnsureCluster (new_garage S) c) r u)
    | DrvEnsureBucket c b r \<Rightarrow> (case os_type (os_spec c) of
          ClusterTypeHeavy \<Rightarrow> ran (cephEnsureBucket (new_cephrgw S) c b) r u
        | ClusterTypeFull \<Rightarrow> ran (seaweedEnsureBucket (new_seaweedfs S) c b) r u
        | ClusterTypeOther s \<Rightarrow> False
        | _ \<Rightarrow> ran (garageEnsureBucket (new_garage S) c b) r u)
    | DrvEnsureAccess c b a mf r \<Rightarrow> (case os_type (os_spec c) of
          ClusterTypeHeavy \<Rightarrow> ran (cephEnsureAccess (new_cephrgw S) c b a mf) r u
        | ClusterTypeFull \<Rightarrow> ran (seaweedEnsureAccess (new_seaweedfs S) c b a mf) r u
        | ClusterTypeOther s \<Rightarrow> False
        | _ \<Rightarrow> ran (garageEnsureAccess (new_garage S) c b a mf) r u)
    | _ \<Rightarrow> False)"

text \<open>What the backend did for a recorded call: its driver can give that answer, and whenever it gives it, it made the
  calls \<open>P\<close> describes. The run the pass itself saw is one of them.\<close>

definition backend_did :: "'w system \<Rightarrow> driver_call \<Rightarrow> (event list \<Rightarrow> bool) \<Rightarrow> bool" where
  "backend_did S dc P \<longleftrightarrow> (\<exists>u. driver_ran S dc u) \<and> (\<forall>u. driver_ran S dc u \<longrightarrow> P u)"

text \<open>The cluster of a store serves, as seen by its driver.\<close>

definition cluster_serving :: "'w system \<Rightarrow> object_store \<Rightarrow> cluster_state \<Rightarrow> event list \<Rightarrow> bool" where
  "cluster_serving S c cs u \<longleftrightarrow> (case os_type (os_spec c) of
      ClusterTypeHeavy \<Rightarrow> elastic_ready c u \<and> store_ready c u \<and> ep_internal (cs_endpoint cs) = rgwEndpoint c (ClusterDomain (sy_cfg S))
    | ClusterTypeFull \<Rightarrow> all_rolled (new_seaweedfs S) c u \<and> admin_stored (new_seaweedfs S) c u
    | ClusterTypeOther s \<Rightarrow> False
    | _ \<Rightarrow> rolled_out (new_garage S) c u \<and> ends_healthy (new_garage S) c u)"

definition backend_serves :: "'w system \<Rightarrow> object_store \<Rightarrow> cluster_state \<Rightarrow> bool" where
  "backend_serves S c cs \<longleftrightarrow> backend_did S (DrvEnsureCluster c (cs, None)) (cluster_serving S c cs)"

text \<open>A bucket is there: found or made by its driver, with the quota it asks for.\<close>

definition bucket_there :: "'w system \<Rightarrow> object_store \<Rightarrow> bucket \<Rightarrow> bucket_state \<Rightarrow> event list \<Rightarrow> bool" where
  "bucket_there S c b s u \<longleftrightarrow> (case os_type (os_spec c) of
      ClusterTypeHeavy \<Rightarrow> ceph_bucket_post (new_cephrgw S) c b (s, None) u
    | ClusterTypeFull \<Rightarrow> sw_bucket_post (new_seaweedfs S) c b (s, None) u
    | ClusterTypeOther t \<Rightarrow> False
    | _ \<Rightarrow> garage_bucket_post (new_garage S) b (s, None) u)"

definition backend_made :: "'w system \<Rightarrow> object_store \<Rightarrow> bucket \<Rightarrow> bucket_state \<Rightarrow> bool" where
  "backend_made S c b s \<longleftrightarrow> bst_ready s \<and> backend_did S (DrvEnsureBucket c b (s, None)) (bucket_there S c b s)"

text \<open>The credentials of an access are granted: what its driver did to hand them out.\<close>

definition access_granted :: "'w system \<Rightarrow> object_store \<Rightarrow> bucket \<Rightarrow> bucket_access \<Rightarrow> bool \<Rightarrow> access_state \<Rightarrow> event list \<Rightarrow> bool" where
  "access_granted S c b a mf s u \<longleftrightarrow> (case os_type (os_spec c) of
      ClusterTypeHeavy \<Rightarrow> (\<exists>w :: 'w. ceph_access_post (new_cephrgw S) c b a mf (s, None) (w, u))
    | ClusterTypeFull \<Rightarrow> sw_access_post (new_seaweedfs S) c b a (s, None) u
    | ClusterTypeOther t \<Rightarrow> False
    | _ \<Rightarrow> garage_access_post (new_garage S) b a mf (s, None) u)"

definition backend_granted :: "'w system \<Rightarrow> object_store \<Rightarrow> bucket \<Rightarrow> bucket_access \<Rightarrow> bool \<Rightarrow> access_state \<Rightarrow> bool" where
  "backend_granted S c b a mf s \<longleftrightarrow> as_ready s \<and> backend_did S (DrvEnsureAccess c b a mf (s, None)) (access_granted S c b a mf s)"

lemma answer_opaque: "answer_of (opaque m) r \<Longrightarrow> (\<And>w w' d. run_state m (w, []) = (r, (w', d)) \<Longrightarrow> R) \<Longrightarrow> R"
  unfolding answer_of_def opaque_def by (metis (no_types, lifting) case_prod_conv fst_conv prod.collapse)

lemma answer_ran: "answer_of (opaque m) r \<Longrightarrow> \<exists>u. ran m r u"
  by (rule answer_opaque) (auto simp: ran_def)

text \<open>Every genuine answer of a driver comes from such a run.\<close>

lemma genuine_ran:
  assumes "genuine (main_registry S) (EvDriver dc)"
    and "case dc of DrvEnsureCluster c r \<Rightarrow> True | DrvEnsureBucket c b r \<Rightarrow> True | DrvEnsureAccess c b a mf r \<Rightarrow> True | _ \<Rightarrow> False"
  shows "\<exists>u. driver_ran S dc u"
  using assms
  by (auto simp: genuine_def driver_ran_def main_driver cephDriver_def seaweedDriver_def garageDriver_def
      split: driver_call.splits cluster_type.splits dest!: answer_ran)

lemma serving_runs:
  assumes "driver_ran S (DrvEnsureCluster c (cs, None)) u" and "cs_ready cs"
  shows "cluster_serving S c cs u"
proof (cases "os_type (os_spec c)")
  case ClusterTypeHeavy
  then obtain w w' where "run_state (cephEnsureCluster (new_cephrgw S) c) (w, []) = ((cs, None), (w', u))"
    using assms(1) by (auto simp: driver_ran_def ran_def)
  from wpD [OF ceph_cluster_pass this] show ?thesis
    using assms(2) ClusterTypeHeavy by (simp add: cluster_serving_def new_cephrgw_def)
next
  case ClusterTypeFull
  then obtain w w' where "run_state (seaweedEnsureCluster (new_seaweedfs S) c) (w, []) = ((cs, None), (w', u))"
    using assms(1) by (auto simp: driver_ran_def ran_def)
  from wpD [OF seaweed_cluster_pass this] show ?thesis
    using assms(2) ClusterTypeFull by (simp add: cluster_serving_def sw_ready_seen_def admin_stored_def)
qed (use assms in \<open>auto simp: driver_ran_def ran_def cluster_serving_def ready_seen_def dest!: wpD [OF garage_ready_pass]\<close>)

lemma there_runs:
  assumes "driver_ran S (DrvEnsureBucket c b (s, None)) u" and "bst_ready s"
  shows "bucket_there S c b s u"
  using assms
  by (auto simp: driver_ran_def ran_def bucket_there_def split: cluster_type.splits
      dest!: wpD [OF garage_bucket_pass] wpD [OF ceph_bucket_pass] wpD [OF seaweed_bucket_sound])

lemma granted_runs:
  assumes "driver_ran S (DrvEnsureAccess c b a mf (s, None)) u"
  shows "access_granted S c b a mf s u"
  using assms
  by (auto simp: driver_ran_def ran_def access_granted_def split: cluster_type.splits
      dest!: wpD [OF garage_access_pass] wpD [OF ceph_access_pass] wpD [OF seaweed_access_pass])

lemma ready_serves:
  assumes "genuine (main_registry S) (EvDriver (DrvEnsureCluster c (cs, None)))" and "cs_ready cs"
  shows "backend_serves S c cs"
  using genuine_ran [OF assms(1)] by (simp add: backend_serves_def backend_did_def serving_runs assms(2))

lemma ready_made:
  assumes "genuine (main_registry S) (EvDriver (DrvEnsureBucket c b (s, None)))" and "bst_ready s"
  shows "backend_made S c b s"
  using genuine_ran [OF assms(1)] by (simp add: backend_made_def backend_did_def there_runs assms(2))

lemma ready_granted:
  assumes "genuine (main_registry S) (EvDriver (DrvEnsureAccess c b a mf (s, None)))" and "as_ready s"
  shows "backend_granted S c b a mf s"
  using genuine_ran [OF assms(1)] by (simp add: backend_granted_def backend_did_def granted_runs assms(2))

text \<open>An event of a history with the pass it belongs to.\<close>

lemma running_event:
  assumes "retry_law (sy_kube S)" and "cond_law (sy_kube S)" and "running S (w, u @ e # v)"
  obtains q b where "pass_ok S q b e" "set b \<subseteq> set u" "list_all (genuine (main_registry S)) b"
proof -
  have "history_ok S u e" using history_pass [OF assms] by (simp add: justified_app)
  then obtain q a b where b: "u = a @ b" "pass_ok S q b e" "list_all (genuine (main_registry S)) b"
    unfolding history_ok_def by blast
  show thesis by (rule that [OF b(2) _ b(3)]) (simp add: b(1))
qed

lemma pass_store_status:
  "pass_ok S q b (EvUpdateStatus k (OStore x) r) \<Longrightarrow>
     \<exists>n. q = ReqStore n \<and> store_event_ok (main_registry S) (sy_kube S) n b (EvUpdateStatus k (OStore x) r)"
  by (cases q) (simp_all add: pass_ok_def bucket_event_ok_def claim_event_ok_def access_event_ok_def policy_event_ok_def)

lemma pass_bucket_status:
  "pass_ok S q b (EvUpdateStatus k (OBucket x) r) \<Longrightarrow> \<exists>n. q = ReqBucket n \<and> bucket_event_ok (sy_kube S) n b (EvUpdateStatus k (OBucket x) r)"
  by (cases q) (simp_all add: pass_ok_def store_event_ok_def claim_event_ok_def access_event_ok_def policy_event_ok_def)

lemma read_ready_store_mono: "read_ready_store K t b c \<Longrightarrow> set t \<subseteq> set u \<Longrightarrow> read_ready_store K u b c"
  unfolding read_ready_store_def by blast

lemma bucket_answer_named:
  assumes "genuine (main_registry S) (EvDriver (DrvEnsureBucket c b (s, e)))" and "bst_ready s"
  shows "bst_bucket_name s = BucketDisplayName b \<and> set (bst_unsupported s) \<subseteq> set (RequestedFeatures b)"
proof -
  obtain d w where d: "Registry_For (main_registry S) c = Inr d" "(s, e) = fst (d_ensure_bucket d c b w)"
    using assms(1) by (auto simp: genuine_def answer_of_def)
  show ?thesis
    by (rule driver_contract.named_bucket_made [OF main_registry.for_contract [OF d(1)] d(2) [symmetric] assms(2)])
qed

lemma pass_credentials:
  "pass_ok S q b (EvCreateOrUpdate KSecret ky y r) \<Longrightarrow>
     \<exists>rq a s. q = ReqAccess rq \<and> key_issued (sy_regexps S) (sy_kube S) rq b a s \<and> ky = (access_ns a, credentialsSecretName a)"
  by (cases q) (auto simp: pass_ok_def store_event_ok_def bucket_event_ok_def claim_event_ok_def access_event_ok_def policy_event_ok_def)

lemma entitled_mono: "entitled re K rq t a b c \<Longrightarrow> set t \<subseteq> set u \<Longrightarrow> entitled re K rq u a b c"
  by (rule access_evidence_mono(5))

section \<open>A running system\<close>

definition demo_system :: "unit kube \<Rightarrow> unit system" where
  "demo_system K = \<lparr>sy_cfg = demo_options, sy_kube = K, sy_regexps = literal_regexps, sy_own = (\<lambda>x m. Inr m),
     sy_garage = demo_garage, sy_seaweed = ready_env, sy_ceph = demo_ceph\<rparr>"

text \<open>A pass over a Heavy store whose elastic cluster and Rook store are Ready.\<close>

definition ready_object :: unstructured where
  "ready_object = \<lparr>un_meta = fresh_meta ''main'' [] Map.empty, un_spec = JNull, un_status = JObj [(''phase'', JStr ''Ready'')]\<rparr>"

definition heavy_main :: object_store where
  "heavy_main = heavy\<lparr>os_meta := (fresh_meta ''main'' [] Map.empty)\<lparr>m_finalizers := [Finalizer]\<rparr>\<rparr>"

definition heavy_kube :: "unit kube" where
  "heavy_kube = quiet_kube\<lparr>k_stores := answering (Inr heavy_main) [], k_unstructured := (\<lambda>_. answering (Inr ready_object) [])\<rparr>"

lemma heavy_laws: "retry_law (sy_kube (demo_system heavy_kube))" "cond_law (sy_kube (demo_system heavy_kube))"
  by (simp_all add: demo_system_def heavy_kube_def quiet_kube_def quiet_retry_law quiet_cond_law)

lemma heavy_answers:
  "r_get (k_stores heavy_kube) rd ky w = (Inr heavy_main, w)"
  "r_get (k_unstructured heavy_kube g) rd ky w = (Inr ready_object, w)"
  "r_update (k_unstructured heavy_kube g) x w = (None, w)"
  "r_update_status (k_stores heavy_kube) y w = (None, w)"
  "k_now heavy_kube w = (0, w)" "k_retry heavy_kube m = m"
  "k_set_condition heavy_kube = set_cond" "k_find_condition heavy_kube = find_cond"
  by (simp_all add: heavy_kube_def quiet_kube_def answering_def)

lemma heavy_fields:
  "contains_finalizer (os_meta heavy_main)" "\<not> m_deleting (os_meta heavy_main)" "os_type (os_spec heavy_main) = ClusterTypeHeavy"
  "os_elastic_cluster_ref (os_spec heavy_main) = ''ec''" "m_generation (os_meta heavy_main) = 0" "os_status heavy_main = None"
  by (simp_all add: heavy_main_def heavy_def contains_finalizer_def fresh_meta_def)

lemma ready_phase: "nested_string (un_status ready_object) [''phase''] = ''Ready''"
  "nested_string (un_status ready_object) [''cephVersion'', ''running''] = []"
  by code_simp+

abbreviation heavy_driver :: "unit ceph_env" where
  "heavy_driver \<equiv> new_cephrgw (demo_system heavy_kube)"

lemma heavy_env: "ce_kube heavy_driver = heavy_kube" "ce_own heavy_driver = (\<lambda>ow m. Inr (m\<lparr>m_owner := Some (m_name ow)\<rparr>))"
  "ce_cluster_domain heavy_driver = ''cluster.local''"
  by (simp_all add: new_cephrgw_def demo_system_def demo_ceph_def demo_options_def)

definition heavy_state :: cluster_state where
  "heavy_state = empty_cluster_state\<lparr>cs_backend := \<lparr>be_type = BackendCephRGW, be_version = []\<rparr>, cs_ready := True,
     cs_message := ''Ceph RGW is ready'', cs_endpoint := \<lparr>ep_internal = rgwEndpoint heavy_main ''cluster.local'', ep_region = s3Region\<rparr>\<rparr>"

lemma heavy_cluster: "\<exists>d. run_state (cephEnsureCluster heavy_driver heavy_main) (w, t) = ((heavy_state, None), w, d)"
  by (simp add: cephEnsureCluster_def heavy_fields heavy_env heavy_answers ready_phase ensureObjectStore_def ensure_managed_def kube_op_defs call_def
    ceph_store_ready_def heavy_state_def Let_def split: if_split)

lemma heavy_answer:
  "Registry_For (main_registry (demo_system heavy_kube)) heavy_main = Inr (cephDriver heavy_driver)"
  "d_ensure_cluster (cephDriver heavy_driver) heavy_main w = ((heavy_state, None), w)"
  using heavy_cluster [of w "[]"] by (auto simp: main_driver heavy_fields cephDriver_def opaque_def)

lemma heavy_state_fields: "cs_ready heavy_state" "ep_internal (cs_endpoint heavy_state) \<noteq> []"
  by (simp_all add: heavy_state_def rgwEndpoint_def)

definition heavy_trace :: "event list" where
  "heavy_trace = snd (snd (run_state (reconcile (demo_system heavy_kube) (ReqStore ''main'')) ((), [])))"

lemma heavy_running: "running (demo_system heavy_kube) ((), heavy_trace)"
  using running.pass [OF running.started, of "demo_system heavy_kube" "ReqStore ''main''" "()"]
  by (simp add: heavy_trace_def prod_eq_iff)

lemma heavy_status:
  "\<exists>st. EvUpdateStatus KStore (OStore (heavy_main\<lparr>os_status := Some st\<rparr>)) None \<in> set heavy_trace \<and> oss_phase st = PhaseReady"
proof -
  let ?sb = "setCondition (setCondition (setCondition (newStatusBuilder 0 0) ObjectStoreConditionBackendReady ConditionTrue reasonReady (cs_message heavy_state))
      ObjectStoreConditionEndpointReady ConditionTrue reasonReady ''S3 endpoint is available'')
      ObjectStoreConditionReady ConditionTrue reasonReady ''All stages reconciled''"
  have "settled oscStageOrder ?sb" and "aggregateReady ?sb"
    by (simp_all add: settled_def oscStageOrder_def condition_type_defs conditionReady_def aggregateReady_stat)
  then have phase: "oss_phase (store_status_of heavy_kube heavy_main ?sb s st) = PhaseReady" for s st
    using osc.settled_ready_iff [of heavy_kube ?sb] heavy_laws(2) by (simp add: store_status_fields demo_system_def)
  have differs: "empty_store_status \<noteq> x" if "oss_phase x = PhaseReady" for x
    using that by (auto simp: empty_store_status_def)
  show ?thesis
    using phase [of "Some heavy_state" empty_store_status] differs [OF phase [of "Some heavy_state" empty_store_status]] heavy_state_fields
    unfolding heavy_trace_def reconcile_def store_Reconcile_def store_reconcileNormal_def
    by (simp add: Let_def kube_op_defs call_def sample_def demo_system_def heavy_answers heavy_fields heavy_answer [unfolded demo_system_def] EnsureCluster_def advance_def store_finish_def finish_with_def
     store_updateStatus_def write_status_def) blast
qed

text \<open>A pass over a bucket of it.\<close>

definition held_bucket :: bucket where
  "held_bucket = plain_bucket\<lparr>b_meta := (fresh_meta ''logs'' [] Map.empty)\<lparr>m_finalizers := [Finalizer]\<rparr>\<rparr>"

definition heavy_served :: object_store where
  "heavy_served = heavy_main\<lparr>os_status := Some (empty_store_status\<lparr>oss_conditions := [true_cond ObjectStoreConditionReady]\<rparr>)\<rparr>"

definition bucket_kube :: "unit kube" where
  "bucket_kube = heavy_kube\<lparr>k_stores := answering (Inr heavy_served) [], k_buckets := answering (Inr held_bucket) [],
     k_secrets := answering (Inr user_secret) []\<rparr>"

lemma bucket_laws: "retry_law (sy_kube (demo_system bucket_kube))" "cond_law (sy_kube (demo_system bucket_kube))"
  by (simp_all add: demo_system_def bucket_kube_def heavy_kube_def quiet_kube_def quiet_retry_law quiet_cond_law)

lemma bucket_answers:
  "r_get (k_stores bucket_kube) rd ky w = (Inr heavy_served, w)" "r_get (k_buckets bucket_kube) rd ky w = (Inr held_bucket, w)"
  "r_get (k_secrets bucket_kube) rd ky w = (Inr user_secret, w)" "r_get (k_unstructured bucket_kube g) rd ky w = (Inr ready_object, w)"
  "r_update (k_unstructured bucket_kube g) x w = (None, w)" "r_update_status (k_buckets bucket_kube) y w = (None, w)"
  "k_now bucket_kube w = (0, w)" "k_retry bucket_kube m = m" "k_find_condition bucket_kube = find_cond"
  by (simp_all add: bucket_kube_def heavy_answers) (simp_all add: answering_def)

lemma bucket_fields:
  "contains_finalizer (b_meta held_bucket)" "\<not> m_deleting (b_meta held_bucket)" "m_generation (b_meta held_bucket) = 0"
  "b_status held_bucket = None" "b_quota (b_spec held_bucket) = None" "b_object_store_ref (b_spec held_bucket) = ''main''"
  "BucketDisplayName held_bucket = ''logs''" "RequestedFeatures held_bucket = []"
  by (simp_all add: held_bucket_def plain_bucket_def contains_finalizer_def fresh_meta_def BucketDisplayName_def RequestedFeatures_def)

abbreviation bucket_driver :: "unit ceph_env" where
  "bucket_driver \<equiv> new_cephrgw (demo_system bucket_kube)"

lemma bucket_driver_env: "ce_kube bucket_driver = bucket_kube" "ce_own bucket_driver = (\<lambda>ow m. Inr (m\<lparr>m_owner := Some (m_name ow)\<rparr>))"
  "ce_s3 bucket_driver = demo_rgw"
  by (simp_all add: new_cephrgw_def demo_system_def demo_ceph_def)

definition held_state :: bucket_state where
  "held_state = \<lparr>bst_ready = True, bst_message = ''bucket provisioned'', bst_bucket_name = ''logs'', bst_unsupported = []\<rparr>"

lemma bucket_made_run: "\<exists>d. run_state (cephEnsureBucket bucket_driver heavy_served held_bucket) (w, t) = ((held_state, None), w, d)"
  by (simp add: cephEnsureBucket_def bucket_driver_env bucket_answers bucket_fields ensureUser_def ensure_managed_def userKeys_def
      user_keys_of_def user_secret_def map_str_def ceph_client_def S3_NewClient_def demo_rgw_def S3_EnsureBucket_def mc_exists_def
      kube_op_defs call_def held_state_def cephRGWUnsupported_def Let_def split: if_split)

lemma bucket_answer:
  "Registry_For (main_registry (demo_system bucket_kube)) heavy_served = Inr (cephDriver bucket_driver)"
  "d_ensure_bucket (cephDriver bucket_driver) heavy_served held_bucket w = ((held_state, None), w)"
  using bucket_made_run [of w "[]"] by (auto simp: main_driver heavy_fields heavy_served_def cephDriver_def opaque_def)

definition bucket_trace :: "event list" where
  "bucket_trace = snd (snd (run_state (reconcile (demo_system bucket_kube) (ReqBucket ''logs'')) ((), [])))"

lemma bucket_running: "running (demo_system bucket_kube) ((), bucket_trace)"
  using running.pass [OF running.started, of "demo_system bucket_kube" "ReqBucket ''logs''" "()"]
  by (simp add: bucket_trace_def prod_eq_iff)

lemma bucket_status_written:
  "\<exists>st. EvUpdateStatus KBucket (OBucket (held_bucket\<lparr>b_status := Some st\<rparr>)) None \<in> set bucket_trace \<and> bs_phase st = PhaseReady"
proof -
  let ?sb = "setCondition (features_condition (setCondition (newStatusBuilder 0 0) BucketConditionBucketReady ConditionTrue reasonReady ''bucket provisioned'') heavy_served [])
      BucketConditionReady ConditionTrue reasonReady ''All stages reconciled''"
  let ?ob = "no_bucket_observed\<lparr>bo_bucket_name := ''logs''\<rparr>"
  have "settled osbStageOrder ?sb" and "aggregateReady ?sb"
    by (simp_all add: settled_def osbStageOrder_def condition_type_defs conditionReady_def aggregateReady_stat features_condition_def)
  then have phase: "bs_phase (bucket_status_of bucket_kube held_bucket ?sb ob st) = PhaseReady" for ob st
    using osb.settled_ready_iff [of bucket_kube ?sb] bucket_laws(2) by (simp add: bucket_status_fields demo_system_def)
  have differs: "empty_bucket_status \<noteq> x" if "bs_phase x = PhaseReady" for x
    using that by (auto simp: empty_bucket_status_def)
  have ready: "clusterReadyState bucket_kube heavy_served = Some ConditionTrue" and ep: "os_status heavy_served = Some (empty_store_status\<lparr>oss_conditions := [true_cond ObjectStoreConditionReady]\<rparr>)"
    by (simp_all add: clusterReadyState_def bucket_answers heavy_served_def find_cond_def true_cond_def)
  show ?thesis
    using phase [of ?ob empty_bucket_status] differs [OF phase [of ?ob empty_bucket_status]]
    unfolding bucket_trace_def reconcile_def bucket_Reconcile_def bucket_reconcileNormal_def
    by (simp add: Let_def kube_op_defs call_def sample_def demo_system_def bucket_answers bucket_fields ready ep empty_store_status_def
      bucket_answer [unfolded demo_system_def] EnsureBucket_def advance_def bucket_finish_def finish_with_def
      bucket_updateStatus_def write_status_def getCluster_def held_state_def) blast
qed

text \<open>A pass over an access of a claim that owns its bucket, on a Lightweight store.\<close>

definition team_kube :: "unit kube" where
  "team_kube = (access_env (team_access None False) False)\<lparr>k_secrets := (answering (Inr demo_secret) [])\<lparr>r_create_or_update := (\<lambda>y f w. (Inr demo_secret, w))\<rparr>\<rparr>"

abbreviation team :: bucket_access where "team \<equiv> team_access None False"

lemma team_laws: "retry_law (sy_kube (demo_system team_kube))" "cond_law (sy_kube (demo_system team_kube))"
  by (simp_all add: demo_system_def team_kube_def access_env_def quiet_kube_def quiet_retry_law quiet_cond_law)

lemma team_answers:
  "r_get (k_accesses team_kube) rd ky w = (Inr team, w)" "r_get (k_claims team_kube) rd ky w = (Inr bound_claim, w)"
  "r_get (k_buckets team_kube) rd ky w = (Inr owned_bucket, w)" "r_get (k_stores team_kube) rd ky w = (Inr Store_Controller.demo_store, w)"
  "r_get (k_secrets team_kube) rd ky w = (Inr demo_secret, w)" "r_create_or_update (k_secrets team_kube) y g w = (Inr demo_secret, w)"
  "r_update_status (k_accesses team_kube) x w = (None, w)" "k_now team_kube w = (0, w)" "k_retry team_kube m = m"
  "k_find_condition team_kube = find_cond"
  by (simp_all add: team_kube_def access_env_answers) (simp_all add: answering_def)

lemma team_facts:
  "claimBound team_kube bound_claim" "bucketReadyState team_kube owned_bucket = Some ConditionTrue"
  "run_state (accessAuthorized re team_kube owned_bucket ''team-a'') s = (Inr (True, []), s)"
  by (simp_all add: bound_claim_def claimBound_def team_answers find_cond_def true_cond_def bucketReadyState_def
      owned_bucket_def accessAuthorized_def map_str_def fresh_meta_def condition_type_defs LabelBucketOrigin_def
      LabelOwnedByClaimNamespace_def BucketOriginBucketClaim_def Let_def)

abbreviation team_garage :: "unit garage_env" where "team_garage \<equiv> new_garage (demo_system team_kube)"

lemma team_env: "ga_kube team_garage = team_kube" "ga_namespace team_garage = ''d8-sds-object''" "ga_http team_garage = demo_http"
  "ga_dec_key team_garage s = Inr \<lparr>ki_access_key_id = s, ki_secret_access_key = ''secret'', ki_name = []\<rparr>"
  "ga_dec_bucket team_garage s = Inr \<lparr>bi_id = s, bi_global_aliases = []\<rparr>"
  by (simp_all add: new_garage_def demo_system_def demo_garage_def demo_options_def)

definition team_state :: access_state where
  "team_state = \<lparr>as_ready = True, as_message = ''access key provisioned'', as_access_key_id = ''new'', as_secret_access_key = ''secret''\<rparr>"

lemma team_key: "\<exists>d. run_state (garageEnsureAccess team_garage Store_Controller.demo_store owned_bucket team True) (w, t) = ((team_state, None), w, d)"
  by (simp add: garageEnsureAccess_def grantAndRevoke_def adminClientFor_def adminToken_def admin_op_defs admin_do_def call_def kget_def
    team_env team_answers demo_http_def no_body_def err_of_def demo_secret_def map_answer_def map_str_def newAdminClient_def secretKeyAdmin_def
    accessKeyID_def team_access_fields Let_def team_state_def)

lemma team_answer:
  "Registry_For (main_registry (demo_system team_kube)) Store_Controller.demo_store = Inr (garageDriver team_garage)"
  "d_ensure_access (garageDriver team_garage) Store_Controller.demo_store owned_bucket team True w = ((team_state, None), w)"
  using team_key [of w "[]"] by (auto simp: main_driver Store_Controller.demo_store_def garageDriver_def opaque_def)

definition team_trace :: "event list" where
  "team_trace = snd (snd (run_state (reconcile (demo_system team_kube) (ReqAccess (''team-a'', ''app''))) ((), [])))"

lemma team_running: "running (demo_system team_kube) ((), team_trace)"
  using running.pass [OF running.started, of "demo_system team_kube" "ReqAccess (''team-a'', ''app'')" "()"]
  by (simp add: team_trace_def prod_eq_iff)

lemma team_credentials: "\<exists>y r. EvCreateOrUpdate KSecret (''team-a'', ''app-s3-credentials'') y r \<in> set team_trace"
proof -
  have "(case bc_status bound_claim of None \<Rightarrow> no_access_observed | Some st \<Rightarrow> no_access_observed\<lparr>ao_endpoint := bcs_endpoint st\<rparr>)
      = no_access_observed\<lparr>ao_endpoint := ''http://s3''\<rparr>" by (simp add: bound_claim_def)
  then show ?thesis
    unfolding team_trace_def reconcile_def
    by (simp add: Let_def access_Reconcile_def access_reconcileNormal_def kube_op_defs call_def sample_def demo_system_def team_answers
      team_access_fields resolveBound_def access_demo_facts team_facts access_gate_def access_issue_def getSecret_def recorded_demo EnsureAccess_def
      team_answer [unfolded demo_system_def] team_state_def advance_def access_store_def ensureCredentialsSecret_def
  access_finish_def finish_with_def access_updateStatus_def)
qed

section \<open>Properties\<close>


text \<open>Whatever the controller does, for as long as it runs and whatever happens around it, each call it makes is
  justified by the earlier calls of its pass, in the way the reconciler of that pass promises it, and each
  answer of a driver it rests on is one that driver gave.\<close>

theorem history_justified:
  assumes "retry_law (sy_kube S)" and "cond_law (sy_kube S)" and "running S s"
  shows "justified (history_ok S) (snd s)"
  by (rule history_pass [OF assms])

lemma history_justified_witness:
  "justified (history_ok (demo_system team_kube)) team_trace
   \<and> (\<exists>y r. EvCreateOrUpdate KSecret (''team-a'', ''app-s3-credentials'') y r \<in> set team_trace)"
  using history_justified [OF team_laws team_running] team_credentials by simp

text \<open>C6: From the status of a store down to its backend: a store is ever reported Ready only as the object just read
  under the name of a store that was persisted and reconciled, with the non-empty endpoint its driver answered, ready, in
  that pass before the report; and whenever the driver of its profile gives this answer it saw the backend serve: for Garage
  the workload rolled out and the mesh healthy last, for SeaweedFS every part rolled out and the admin identity stored, for
  Ceph the elastic cluster and then the Rook store Ready, with the endpoint of that store.\<close>

theorem ready_store_serves:
  assumes "retry_law (sy_kube S)" and "cond_law (sy_kube S)" and "running S (w, u @ EvUpdateStatus k (OStore x) r # v)"
    and "os_status x = Some st" and "oss_phase st = PhaseReady"
  shows "\<exists>n c y cs. persisted KStore OStore ([], n) u c \<and> EvGet Cached KStore ([], m_name (os_meta c)) (Inr (OStore y)) \<in> set u
     \<and> x = y\<lparr>os_status := Some st\<rparr>
     \<and> EvDriver (DrvEnsureCluster c (cs, None)) \<in> set u \<and> cs_ready cs \<and> backend_serves S c cs
     \<and> oss_endpoint st = Some (cs_endpoint cs) \<and> ep_internal (cs_endpoint cs) \<noteq> []"
proof -
  obtain q b where b: "pass_ok S q b (EvUpdateStatus k (OStore x) r)" "set b \<subseteq> set u" "list_all (genuine (main_registry S)) b"
    by (rule running_event [OF assms(1-3)])
  obtain n where "store_event_ok (main_registry S) (sy_kube S) n b (EvUpdateStatus k (OStore x) r)"
    using pass_store_status [OF b(1)] by blast
  then obtain c y cs where c: "persisted KStore OStore ([], n) b c" "EvGet Cached KStore ([], m_name (os_meta c)) (Inr (OStore y)) \<in> set b"
    "x = y\<lparr>os_status := Some st\<rparr>" "EvDriver (DrvEnsureCluster c (cs, None)) \<in> set b" "cs_ready cs"
    "ep_internal (cs_endpoint cs) \<noteq> []" "oss_endpoint st = Some (cs_endpoint cs)"
    using assms(4,5) by (auto simp: store_event_ok_def store_ready_evidence_def driver_done_def)
  have "genuine (main_registry S) (EvDriver (DrvEnsureCluster c (cs, None)))" using b(3) c(4) by (simp add: list_all_iff)
  then have "backend_serves S c cs" using c(5) by (rule ready_serves)
  moreover have "persisted KStore OStore ([], n) u c" using c(1) b(2) by (rule persisted_mono)
  ultimately show ?thesis using c b(2) by (intro exI [of _ n] exI [of _ c] exI [of _ y] exI [of _ cs]) auto
qed

lemma ready_store_serves_witness:
  "\<exists>st u r v n c y cs. heavy_trace = u @ EvUpdateStatus KStore (OStore (heavy_main\<lparr>os_status := Some st\<rparr>)) r # v
     \<and> oss_phase st = PhaseReady
     \<and> persisted KStore OStore ([], n) u c \<and> EvGet Cached KStore ([], m_name (os_meta c)) (Inr (OStore y)) \<in> set u
     \<and> heavy_main\<lparr>os_status := Some st\<rparr> = y\<lparr>os_status := Some st\<rparr>
     \<and> EvDriver (DrvEnsureCluster c (cs, None)) \<in> set u \<and> cs_ready cs \<and> backend_serves (demo_system heavy_kube) c cs
     \<and> oss_endpoint st = Some (cs_endpoint cs) \<and> ep_internal (cs_endpoint cs) \<noteq> []"
proof -
  obtain st where st: "EvUpdateStatus KStore (OStore (heavy_main\<lparr>os_status := Some st\<rparr>)) None \<in> set heavy_trace" "oss_phase st = PhaseReady"
    using heavy_status by blast
  obtain u v where uv: "heavy_trace = u @ EvUpdateStatus KStore (OStore (heavy_main\<lparr>os_status := Some st\<rparr>)) None # v"
    using split_list [OF st(1)] by blast
  have "os_status (heavy_main\<lparr>os_status := Some st\<rparr>) = Some st" by simp
  from ready_store_serves [OF heavy_laws heavy_running [unfolded uv] this st(2)] uv st show ?thesis by blast
qed

text \<open>C7: From the status of a bucket down to its backend: a bucket is ever reported Ready only as the object just read under
  the name of a bucket that was persisted and reconciled, whose store was read with a True Ready condition, after the
  driver of that store answered in that pass that the bucket is ready. Whenever the driver gives this answer it made the
  bucket: Garage answered with it, found or made, and applied its quotas; in SeaweedFS and Ceph it was found or made over
  S3 with the keys of the admin or of its owner, and the quota was written or is in force. The status has the name the
  backend answered, which is the one the object asks for, and \<open>FeaturesApplied\<close> is True exactly when the backend left
  none of the requested features out.\<close>

theorem ready_bucket_named:
  assumes "retry_law (sy_kube S)" and "cond_law (sy_kube S)" and "running S (w, u @ EvUpdateStatus k (OBucket x) r # v)"
    and "b_status x = Some st" and "bs_phase st = PhaseReady"
  shows "\<exists>n b y c s. persisted KBucket OBucket ([], n) u b \<and> EvGet Cached KBucket ([], m_name (b_meta b)) (Inr (OBucket y)) \<in> set u
     \<and> x = y\<lparr>b_status := Some st\<rparr> \<and> read_ready_store (sy_kube S) u b c
     \<and> EvDriver (DrvEnsureBucket c b (s, None)) \<in> set u \<and> backend_made S c b s
     \<and> bst_bucket_name s = BucketDisplayName b \<and> (BucketDisplayName b = [] \<or> bs_bucket_name st = BucketDisplayName b)
     \<and> set (bst_unsupported s) \<subseteq> set (RequestedFeatures b)
     \<and> (\<exists>d. k_find_condition (sy_kube S) (bs_conditions st) BucketConditionFeaturesApplied = Some d
          \<and> c_status d = (if bst_unsupported s = [] then ConditionTrue else ConditionFalse))"
proof -
  obtain q t where t: "pass_ok S q t (EvUpdateStatus k (OBucket x) r)" "set t \<subseteq> set u" "list_all (genuine (main_registry S)) t"
    by (rule running_event [OF assms(1-3)])
  obtain n where "bucket_event_ok (sy_kube S) n t (EvUpdateStatus k (OBucket x) r)"
    using pass_bucket_status [OF t(1)] by blast
  then obtain b y where b: "persisted KBucket OBucket ([], n) t b" "EvGet Cached KBucket ([], m_name (b_meta b)) (Inr (OBucket y)) \<in> set t"
    "x = y\<lparr>b_status := Some st\<rparr>" "bucket_ready_evidence (sy_kube S) t b st"
    using assms(4,5) by (auto simp: bucket_event_ok_def)
  then obtain s c where m: "read_ready_store (sy_kube S) t b c" "EvDriver (DrvEnsureBucket c b (s, None)) \<in> set t" "bst_ready s"
    "bst_bucket_name s \<noteq> [] \<longrightarrow> bs_bucket_name st = bst_bucket_name s"
    "\<exists>d. k_find_condition (sy_kube S) (bs_conditions st) BucketConditionFeaturesApplied = Some d
       \<and> c_status d = (if bst_unsupported s = [] then ConditionTrue else ConditionFalse)"
    unfolding bucket_ready_evidence_def bucket_made_def driver_done_def by blast
  have gen: "genuine (main_registry S) (EvDriver (DrvEnsureBucket c b (s, None)))" using t(3) m(2) by (simp add: list_all_iff)
  have named: "bst_bucket_name s = BucketDisplayName b" "set (bst_unsupported s) \<subseteq> set (RequestedFeatures b)"
    using bucket_answer_named [OF gen m(3)] by simp_all
  have "persisted KBucket OBucket ([], n) u b" by (rule persisted_mono [OF b(1) t(2)])
  moreover have "read_ready_store (sy_kube S) u b c" by (rule read_ready_store_mono [OF m(1) t(2)])
  moreover have "backend_made S c b s" by (rule ready_made [OF gen m(3)])
  ultimately show ?thesis
    using b(2,3) m(2,4,5) t(2) named by (intro exI [of _ n] exI [of _ b] exI [of _ y] exI [of _ c] exI [of _ s]) auto
qed

lemma ready_bucket_named_witness:
  "\<exists>st u r v n b y c s. bucket_trace = u @ EvUpdateStatus KBucket (OBucket (held_bucket\<lparr>b_status := Some st\<rparr>)) r # v \<and> bs_phase st = PhaseReady
     \<and> persisted KBucket OBucket ([], n) u b \<and> EvGet Cached KBucket ([], m_name (b_meta b)) (Inr (OBucket y)) \<in> set u
     \<and> held_bucket\<lparr>b_status := Some st\<rparr> = y\<lparr>b_status := Some st\<rparr> \<and> read_ready_store (sy_kube (demo_system bucket_kube)) u b c
     \<and> EvDriver (DrvEnsureBucket c b (s, None)) \<in> set u \<and> backend_made (demo_system bucket_kube) c b s
     \<and> bst_bucket_name s = BucketDisplayName b \<and> (BucketDisplayName b = [] \<or> bs_bucket_name st = BucketDisplayName b)
     \<and> set (bst_unsupported s) \<subseteq> set (RequestedFeatures b)
     \<and> (\<exists>d. k_find_condition (sy_kube (demo_system bucket_kube)) (bs_conditions st) BucketConditionFeaturesApplied = Some d
          \<and> c_status d = (if bst_unsupported s = [] then ConditionTrue else ConditionFalse))"
proof -
  obtain st where st: "EvUpdateStatus KBucket (OBucket (held_bucket\<lparr>b_status := Some st\<rparr>)) None \<in> set bucket_trace" "bs_phase st = PhaseReady"
    using bucket_status_written by blast
  obtain u v where uv: "bucket_trace = u @ EvUpdateStatus KBucket (OBucket (held_bucket\<lparr>b_status := Some st\<rparr>)) None # v"
    using split_list [OF st(1)] by blast
  have "b_status (held_bucket\<lparr>b_status := Some st\<rparr>) = Some st" by simp
  from ready_bucket_named [OF bucket_laws bucket_running [unfolded uv] this st(2)] uv st show ?thesis by blast
qed

text \<open>C5: From a credentials Secret down to the key: a Secret of the module is ever written only for an access that was
  persisted and is entitled (its claim bound, the bucket Ready and a policy or the ownership allowing its
  namespace), and only after the driver of the store of that very bucket answered in that pass that the key is ready.
  Whenever the driver gives this answer it granted the key: in Garage the bucket was looked up and the key allowed on it
  with the permissions asked for, made in that run if a fresh one was due, and the key it replaces deleted; in SeaweedFS
  it is the stored identity of the access, scoped to the bucket; in Ceph it is the key read of the user of the access,
  with a statement for that user in the policy in force.\<close>

theorem credentials_granted:
  assumes "retry_law (sy_kube S)" and "cond_law (sy_kube S)" and "running S (w, u @ EvCreateOrUpdate KSecret ky y r # v)"
  shows "\<exists>rq a b c mf s. ky = (access_ns a, credentialsSecretName a)
     \<and> entitled (sy_regexps S) (sy_kube S) rq u a b c
     \<and> EvDriver (DrvEnsureAccess c b a mf (s, None)) \<in> set u \<and> backend_granted S c b a mf s"
proof -
  obtain q b where b: "pass_ok S q b (EvCreateOrUpdate KSecret ky y r)" "set b \<subseteq> set u" "list_all (genuine (main_registry S)) b"
    by (rule running_event [OF assms])
  obtain rq a s where k: "key_issued (sy_regexps S) (sy_kube S) rq b a s" "ky = (access_ns a, credentialsSecretName a)"
    using pass_credentials [OF b(1)] by blast
  then obtain bk c mf where i: "entitled (sy_regexps S) (sy_kube S) rq b a bk c"
    "EvDriver (DrvEnsureAccess c bk a mf (s, None)) \<in> set b" "as_ready s"
    by (auto simp: key_issued_def driver_done_def)
  have "genuine (main_registry S) (EvDriver (DrvEnsureAccess c bk a mf (s, None)))" using b(3) i(2) by (simp add: list_all_iff)
  then have "backend_granted S c bk a mf s" using i(3) by (rule ready_granted)
  then show ?thesis using k(2) i(2) b(2) entitled_mono [OF i(1) b(2)] by blast
qed

lemma credentials_granted_witness:
  "\<exists>u y r v rq a b c mf s. team_trace = u @ EvCreateOrUpdate KSecret (''team-a'', ''app-s3-credentials'') y r # v
     \<and> (''team-a'', ''app-s3-credentials'') = (access_ns a, credentialsSecretName a)
     \<and> entitled (sy_regexps (demo_system team_kube)) (sy_kube (demo_system team_kube)) rq u a b c
     \<and> EvDriver (DrvEnsureAccess c b a mf (s, None)) \<in> set u \<and> backend_granted (demo_system team_kube) c b a mf s"
proof -
  obtain y r where e: "EvCreateOrUpdate KSecret (''team-a'', ''app-s3-credentials'') y r \<in> set team_trace"
    using team_credentials by blast
  obtain u v where uv: "team_trace = u @ EvCreateOrUpdate KSecret (''team-a'', ''app-s3-credentials'') y r # v"
    using split_list [OF e] by blast
  from credentials_granted [OF team_laws team_running [unfolded uv]] uv show ?thesis by blast
qed

end
