(* ===== verification/Watches.thy ===== *)
theory Watches
  imports Controller_Main
begin

text \<open>
  The wiring of the reconcilers: \<open>Add...ReconcilerToManager\<close> of every controller. What the manager sees of the API
  server are changes of objects; a controller filters the changes of its own kind, maps those of other kinds to the
  objects they concern, and puts requests into its queue. The theory says which change wakes whom: that a change of a policy
  reaches every access whose key rests on it, and that status writes cannot wake each other in a circle.
\<close>

section \<open>Changes, predicates and handlers of controller-runtime\<close>

datatype 'o watch_event = Created 'o | Updated 'o 'o | Deleted 'o | Generic 'o

primrec subject :: "'o watch_event \<Rightarrow> 'o" where
  "subject (Created x) = x"
| "subject (Updated x y) = y"
| "subject (Deleted x) = x"
| "subject (Generic x) = x"

text \<open>\<open>predicate.GenerationChangedPredicate\<close> and \<open>AnnotationChangedPredicate\<close> look at updates only; \<open>predicate.Or\<close> and
  \<open>predicate.NewPredicateFuncs\<close>.\<close>

definition GenerationChanged :: "('o \<Rightarrow> object_meta) \<Rightarrow> 'o watch_event \<Rightarrow> bool" where
  "GenerationChanged meta e = (case e of Updated x y \<Rightarrow> m_generation (meta y) \<noteq> m_generation (meta x) | _ \<Rightarrow> True)"

definition AnnotationChanged :: "('o \<Rightarrow> object_meta) \<Rightarrow> 'o watch_event \<Rightarrow> bool" where
  "AnnotationChanged meta e = (case e of Updated x y \<Rightarrow> m_annotations (meta y) \<noteq> m_annotations (meta x) | _ \<Rightarrow> True)"

definition subject_passes :: "('o \<Rightarrow> bool) \<Rightarrow> 'o watch_event \<Rightarrow> bool" where
  "subject_passes p e = p (subject e)"

text \<open>\<open>For\<close>: the object itself is enqueued. \<open>handler.EnqueueRequestsFromMapFunc\<close>: the requests that the object is mapped to,
  for an update those of both versions, each once.\<close>

definition enqueue_self :: "('o watch_event \<Rightarrow> bool) \<Rightarrow> ('o \<Rightarrow> 'r) \<Rightarrow> 'o watch_event \<Rightarrow> ('w, 'r list) go" where
  "enqueue_self p key e = return (if p e then [key (subject e)] else [])"

definition enqueue_mapped :: "('o \<Rightarrow> ('w, 'r list) go) \<Rightarrow> 'o watch_event \<Rightarrow> ('w, 'r list) go" where
  "enqueue_mapped f e = (case e of
      Updated x y \<Rightarrow> do { a \<leftarrow> f x; b \<leftarrow> f y; return (rev (remdups (rev (a @ b)))) }
    | Created x \<Rightarrow> do { a \<leftarrow> f x; return (rev (remdups (rev a))) }
    | Deleted x \<Rightarrow> do { a \<leftarrow> f x; return (rev (remdups (rev a))) }
    | Generic x \<Rightarrow> do { a \<leftarrow> f x; return (rev (remdups (rev a))) })"

definition requests :: "('k \<Rightarrow> request) \<Rightarrow> ('w, 'k list) go \<Rightarrow> ('w, request list) go" where
  "requests mk m = do { ks \<leftarrow> m; return (map mk ks) }"

section \<open>The controllers\<close>

datatype change =
    OnStore "object_store watch_event"
  | OnBucket "bucket watch_event"
  | OnClaim "bucket_claim watch_event"
  | OnAccess "bucket_access watch_event"
  | OnPolicy "bucket_claim_policy watch_event"
  | OnNode "node watch_event"

record 'w controller =
  ct_name :: string
  ct_workers :: int
  ct_watch :: "change \<Rightarrow> ('w, request list) go"

definition AddObjectStoreReconcilerToManager :: "options \<Rightarrow> 'w kube \<Rightarrow> 'w controller" where
  "AddObjectStoreReconcilerToManager cfg K =
     \<lparr>ct_name = ''object-store'', ct_workers = MaxConcurrentReconciles cfg,
      ct_watch = (\<lambda>ch. case ch of
          OnStore e \<Rightarrow> enqueue_self (GenerationChanged os_meta) (\<lambda>c. ReqStore (m_name (os_meta c))) e
        | OnNode e \<Rightarrow> (if subject_passes controlPlaneNode e
                      then enqueue_mapped (\<lambda>n. requests ReqStore (enqueueSystemObjectStores K)) e else return [])
        | _ \<Rightarrow> return [])\<rparr>"

definition bucketStorePredicate :: "'w kube \<Rightarrow> object_store watch_event \<Rightarrow> bool" where
  "bucketStorePredicate K e = (case e of Updated x y \<Rightarrow> clusterReadyPredicate K x y | _ \<Rightarrow> True)"

definition AddBucketReconcilerToManager :: "options \<Rightarrow> 'w kube \<Rightarrow> 'w controller" where
  "AddBucketReconcilerToManager cfg K =
     \<lparr>ct_name = ''bucket'', ct_workers = MaxConcurrentReconciles cfg,
      ct_watch = (\<lambda>ch. case ch of
          OnBucket e \<Rightarrow> enqueue_self (GenerationChanged b_meta) (\<lambda>b. ReqBucket (m_name (b_meta b))) e
        | OnStore e \<Rightarrow> (if bucketStorePredicate K e
                      then enqueue_mapped (\<lambda>c. requests ReqBucket (enqueueBucketsByCluster K (m_name (os_meta c)))) e else return [])
        | _ \<Rightarrow> return [])\<rparr>"

definition AddBucketClaimReconcilerToManager :: "options \<Rightarrow> 'w kube \<Rightarrow> 'w controller" where
  "AddBucketClaimReconcilerToManager cfg K =
     \<lparr>ct_name = ''bucket-claim'', ct_workers = MaxConcurrentReconciles cfg,
      ct_watch = (\<lambda>ch. case ch of
          OnClaim e \<Rightarrow> enqueue_self (GenerationChanged bc_meta) (\<lambda>c. ReqClaim (claim_key c)) e
        | OnBucket e \<Rightarrow> enqueue_mapped (\<lambda>b. requests ReqClaim (claims_of_bucket K b)) e
        | OnPolicy e \<Rightarrow> enqueue_mapped (\<lambda>p. requests ReqClaim (enqueueByPolicy K p)) e
        | _ \<Rightarrow> return [])\<rparr>"

definition accessPredicate :: "bucket_access watch_event \<Rightarrow> bool" where
  "accessPredicate e \<longleftrightarrow> GenerationChanged ba_meta e \<or> AnnotationChanged ba_meta e"

definition AddBucketAccessReconcilerToManager :: "options \<Rightarrow> 'w kube \<Rightarrow> 'w controller" where
  "AddBucketAccessReconcilerToManager cfg K =
     \<lparr>ct_name = ''bucket-access'', ct_workers = MaxConcurrentReconciles cfg,
      ct_watch = (\<lambda>ch. case ch of
          OnAccess e \<Rightarrow> enqueue_self accessPredicate (\<lambda>a. ReqAccess (access_key a)) e
        | OnClaim e \<Rightarrow> enqueue_mapped (\<lambda>c. requests ReqAccess (enqueueByClaim K c)) e
        | OnPolicy e \<Rightarrow> enqueue_mapped (\<lambda>p. requests ReqAccess (accesses_of_policy K p)) e
        | _ \<Rightarrow> return [])\<rparr>"

definition AddBucketClaimPolicyReconcilerToManager :: "options \<Rightarrow> 'w kube \<Rightarrow> 'w controller" where
  "AddBucketClaimPolicyReconcilerToManager cfg K =
     \<lparr>ct_name = ''bucket-policy'', ct_workers = MaxConcurrentReconciles cfg,
      ct_watch = (\<lambda>ch. case ch of
          OnPolicy e \<Rightarrow> enqueue_self (GenerationChanged bp_meta) (\<lambda>p. ReqPolicy (m_name (bp_meta p))) e
        | OnBucket e \<Rightarrow> enqueue_mapped (\<lambda>b. requests ReqPolicy (enqueueByBucket K (m_name (b_meta b)))) e
        | _ \<Rightarrow> return [])\<rparr>"

text \<open>The controllers in the order of \<open>main\<close>, and the requests a change puts into their queues.\<close>

definition main_controllers :: "'w system \<Rightarrow> 'w controller list" where
  "main_controllers S = map (\<lambda>add. add (sy_cfg S) (sy_kube S))
     [AddObjectStoreReconcilerToManager, AddBucketReconcilerToManager, AddBucketClaimReconcilerToManager,
      AddBucketAccessReconcilerToManager, AddBucketClaimPolicyReconcilerToManager]"

primrec deliver :: "'w controller list \<Rightarrow> change \<Rightarrow> ('w, request list) go" where
  "deliver [] ch = return []"
| "deliver (ct # cts) ch = do { a \<leftarrow> ct_watch ct ch; b \<leftarrow> deliver cts ch; return (a @ b) }"

definition woken :: "'w system \<Rightarrow> change \<Rightarrow> 'w run \<Rightarrow> request set" where
  "woken S ch s = set (fst (run_state (deliver (main_controllers S) ch) s))"

lemmas add_defs = AddObjectStoreReconcilerToManager_def AddBucketReconcilerToManager_def AddBucketClaimReconcilerToManager_def
  AddBucketAccessReconcilerToManager_def AddBucketClaimPolicyReconcilerToManager_def

section \<open>What a change wakes\<close>

text \<open>\<open>wakes A m\<close>: whatever the world, the requests that \<open>m\<close> answers are those in \<open>A\<close>. \<open>cached res xs\<close>: the cache lists \<open>xs\<close>.\<close>

abbreviation wakes :: "'r set \<Rightarrow> ('w, 'r list) go \<Rightarrow> bool" where
  "wakes A m \<equiv> yields (\<lambda>r. set r = A) m"

definition cached :: "('o, 'w) resource \<Rightarrow> 'o list \<Rightarrow> bool" where
  "cached res xs \<longleftrightarrow> (\<forall>w. fst (r_list res Cached list_all_opts w) = Inr xs)"

definition versions :: "'o watch_event \<Rightarrow> 'o set" where
  "versions e = (case e of Updated x y \<Rightarrow> {x, y} | _ \<Rightarrow> {subject e})"

lemma versions_simps [simp]:
  "versions (Created x) = {x}" "versions (Updated x y) = {x, y}" "versions (Deleted x) = {x}" "versions (Generic x) = {x}"
  by (simp_all add: versions_def)

lemma yields_step: "yields P m \<Longrightarrow> (\<And>a. P a \<Longrightarrow> yields R (f a)) \<Longrightarrow> yields R (State_Monad.bind m f)"
  by (simp add: yields_def split: prod.splits) (metis fst_conv prod.collapse)

lemma yields_list: "cached res xs \<Longrightarrow> yields (\<lambda>r. r = Inr xs) (klist Cached k mk res list_all_opts)"
  by (auto simp: yields_def cached_def klist_def call_def split: prod.split) (metis fst_conv)

lemma wakes_mapped:
  assumes "\<And>x. x \<in> versions e \<Longrightarrow> wakes (g x) (f x)"
  shows "wakes (\<Union>x \<in> versions e. g x) (enqueue_mapped f e)"
proof (cases e)
  case (Updated x y)
  then have w: "wakes (g x) (f x)" "wakes (g y) (f y)" using assms by simp_all
  have "wakes (g x \<union> g y) (do { a \<leftarrow> f x; b \<leftarrow> f y; return (rev (remdups (rev (a @ b)))) })"
    by (rule yields_step [OF w(1)], rule yields_step [OF w(2)], rule yields_return) auto
  then show ?thesis by (simp add: Updated enqueue_mapped_def)
qed (use assms in \<open>simp_all add: enqueue_mapped_def yields_step yields_return\<close>)

lemma wakes_requests:
  assumes "wakes A m" shows "wakes (mk ` A) (requests mk m)"
  unfolding requests_def by (rule yields_step [OF assms], rule yields_return) auto

lemma wakes_self: "wakes (if p e then {key (subject e)} else {}) (enqueue_self p key e)"
  by (simp add: enqueue_self_def yields_def)

lemma wakes_none: "wakes {} (return [])"
  by (simp add: yields_def)

lemma wakes_deliver:
  assumes "wakes A (ct_watch ct ch)" and "wakes B (deliver cts ch)"
  shows "wakes (A \<union> B) (deliver (ct # cts) ch)"
  unfolding deliver.simps by (rule yields_step [OF assms(1)], rule yields_step [OF assms(2)]) (auto intro: yields_return)

lemma woken_eq: "wakes A (deliver (main_controllers S) ch) \<Longrightarrow> woken S ch s = A"
  by (cases s) (simp add: yields_def woken_def)

text \<open>The claims and the accesses that depend on a policy, in terms of the objects.\<close>

definition claims_under :: "bucket_claim list \<Rightarrow> bucket_claim_policy \<Rightarrow> bucket_claim set" where
  "claims_under cls p = {c \<in> set cls. bc_existing_bucket_name (bc_spec c) = bp_bucket_ref (bp_spec p)}"

definition accesses_under :: "bucket_claim list \<Rightarrow> bucket_access list \<Rightarrow> bucket_claim_policy \<Rightarrow> bucket_access set" where
  "accesses_under cls as p = {a \<in> set as. \<exists>c \<in> set cls. claim_key c = (access_ns a, ba_bucket_claim_name (ba_spec a))
     \<and> (bc_existing_bucket_name (bc_spec c) = bp_bucket_ref (bp_spec p) \<or> boundName c = bp_bucket_ref (bp_spec p))}"

lemma wakes_claims_of_policy: "cached (k_claims K) cls \<Longrightarrow> wakes (claim_key ` claims_under cls p) (enqueueByPolicy K p)"
  unfolding enqueueByPolicy_def by (rule yields_step [OF yields_list]) (auto simp: claims_under_def intro!: yields_return)

lemma accesses_under_keys: "accesses_under cls as p = {a \<in> set as. (access_ns a, ba_bucket_claim_name (ba_spec a))
    \<in> claim_key ` {c \<in> set cls. bc_existing_bucket_name (bc_spec c) = bp_bucket_ref (bp_spec p) \<or> boundName c = bp_bucket_ref (bp_spec p)}}"
  by (force simp: accesses_under_def image_iff)

lemma wakes_accesses_of_policy:
  assumes "cached (k_claims K) cls" and "cached (k_accesses K) as"
  shows "wakes (access_key ` accesses_under cls as p) (accesses_of_policy K p)"
  unfolding accesses_of_policy_def Let_def
proof (rule yields_step [OF yields_list [OF assms(1)]], simp only: sum.case, rule yields_if, goal_cases)
  case 1
  then show ?case by (auto simp: accesses_under_keys filter_empty_conv intro!: yields_return)
next
  case 2
  show ?case
    by (rule yields_step [OF yields_list [OF assms(2)]]) (auto simp: accesses_under_keys intro!: yields_return)
qed

section \<open>Status writes\<close>

text \<open>The change that a status write makes: the same object with another status. The generation stays as it is.\<close>

definition status_change :: "change \<Rightarrow> bool" where
  "status_change ch \<longleftrightarrow> (case ch of
      OnStore e \<Rightarrow> (\<exists>c st. e = Updated c (c\<lparr>os_status := st\<rparr>))
    | OnBucket e \<Rightarrow> (\<exists>b st. e = Updated b (b\<lparr>b_status := st\<rparr>))
    | OnClaim e \<Rightarrow> (\<exists>c st. e = Updated c (c\<lparr>bc_status := st\<rparr>))
    | OnAccess e \<Rightarrow> (\<exists>a st. e = Updated a (a\<lparr>ba_status := st\<rparr>))
    | OnPolicy e \<Rightarrow> (\<exists>p st. e = Updated p (p\<lparr>bp_status := st\<rparr>))
    | OnNode e \<Rightarrow> False)"

text \<open>What the change is about, as the request of the controller that writes the status.\<close>

definition written_by :: "change \<Rightarrow> request" where
  "written_by ch = (case ch of
      OnStore e \<Rightarrow> ReqStore (m_name (os_meta (subject e)))
    | OnBucket e \<Rightarrow> ReqBucket (m_name (b_meta (subject e)))
    | OnClaim e \<Rightarrow> ReqClaim (claim_key (subject e))
    | OnAccess e \<Rightarrow> ReqAccess (access_key (subject e))
    | OnPolicy e \<Rightarrow> ReqPolicy (m_name (bp_meta (subject e)))
    | OnNode e \<Rightarrow> ReqStore [])"

definition stage :: "request \<Rightarrow> nat" where
  "stage q = (case q of ReqStore n \<Rightarrow> 0 | ReqBucket n \<Rightarrow> 1 | ReqPolicy n \<Rightarrow> 2 | ReqClaim k \<Rightarrow> 3 | ReqAccess k \<Rightarrow> 4)"

lemma stage_simps [simp]:
  "stage (ReqStore n) = 0" "stage (ReqBucket n) = 1" "stage (ReqPolicy n) = 2" "stage (ReqClaim k) = 3" "stage (ReqAccess k) = 4"
  by (simp_all add: stage_def)

abbreviation above :: "nat \<Rightarrow> ('w, request list) go \<Rightarrow> bool" where
  "above n m \<equiv> yields (\<lambda>r. \<forall>q \<in> set r. n < stage q) m"

lemma yields_any: "(\<And>r. R r) \<Longrightarrow> yields R m"
  by (simp add: yields_def)

lemma above_requests: "(\<And>k. n < stage (mk k)) \<Longrightarrow> above n (requests mk m)"
  unfolding requests_def by (rule yields_bind, rule yields_return) auto

lemma above_mapped: "(\<And>x. above n (f x)) \<Longrightarrow> above n (enqueue_mapped f e)"
  by (cases e) (simp_all add: enqueue_mapped_def, (rule yields_step [of "\<lambda>r. \<forall>q \<in> set r. n < stage q"],
    assumption?, auto intro!: yields_return yields_step [of "\<lambda>r. \<forall>q \<in> set r. n < stage q"])+)

lemma above_deliver: "(\<And>ct. ct \<in> set cts \<Longrightarrow> above n (ct_watch ct ch)) \<Longrightarrow> above n (deliver cts ch)"
proof (induction cts)
  case (Cons ct cts)
  have c: "above n (ct_watch ct ch)" "above n (deliver cts ch)" using Cons by simp_all
  show ?case
    unfolding deliver.simps by (rule yields_step [OF c(1)], rule yields_step [OF c(2)], rule yields_return) auto
qed (simp add: yields_return)

lemma unchanged_meta [simp]:
  "meta y = meta x \<Longrightarrow> \<not> GenerationChanged meta (Updated x y)"
  "ba_meta b = ba_meta a \<Longrightarrow> \<not> accessPredicate (Updated a b)"
  by (simp_all add: GenerationChanged_def AnnotationChanged_def accessPredicate_def)

lemma above_none: "above n (return [])"
  by (simp add: yields_return)

lemma status_above:
  assumes "status_change ch" and "ct \<in> set (main_controllers S)"
  shows "above (stage (written_by ch)) (ct_watch ct ch)"
  using assms
  by (cases ch; clarsimp simp: status_change_def written_by_def main_controllers_def; elim disjE)
    (simp_all add: add_defs enqueue_self_def above_none above_mapped above_requests yields_if)

inductive status_chain :: "'w system \<Rightarrow> change list \<Rightarrow> bool" for S where
  last: "status_change ch \<Longrightarrow> status_chain S [ch]"
| hop: "status_change ch \<Longrightarrow> written_by ch' \<in> woken S ch s \<Longrightarrow> status_chain S (ch' # chs) \<Longrightarrow> status_chain S (ch # ch' # chs)"

inductive_cases status_chainE: "status_chain S (ch # chs)"

lemma status_wakes_later: "status_change ch \<Longrightarrow> q \<in> woken S ch s \<Longrightarrow> stage (written_by ch) < stage q"
  using above_deliver [OF status_above [of ch _ S], of "main_controllers S"] unfolding yields_def woken_def by blast

lemma status_chain_stage: "status_chain S chs \<Longrightarrow> length chs + stage (written_by (hd chs)) \<le> 5"
proof (induction rule: status_chain.induct)
  case (last ch)
  show ?case by (simp add: stage_def split: request.split)
next
  case (hop ch ch' s chs)
  then show ?case using status_wakes_later [OF hop(1,2)] by simp
qed

section \<open>A namespace with one claim and one access\<close>

definition watch_kube :: "unit kube" where
  "watch_kube = quiet_kube\<lparr>k_claims := answering (Inr bound_claim) [bound_claim], k_accesses := answering (Inr (team_access None False)) [team_access None False]\<rparr>"

definition labelled_bucket :: bucket where
  "labelled_bucket = owned_bucket\<lparr>b_meta := fresh_meta ''claim-1'' []
     [LabelOwnedByClaimNamespace \<mapsto> ''team-a'', LabelOwnedByClaimName \<mapsto> ''data'']\<rparr>"

definition team_policy :: bucket_claim_policy where
  "team_policy = \<lparr>bp_meta = fresh_meta ''teams'' [] Map.empty,
     bp_spec = \<lparr>bp_bucket_ref = ''claim-1'', bp_allowed_namespaces = \<lparr>nm_names = [''team-a''], nm_patterns = []\<rparr>\<rparr>, bp_status = None\<rparr>"

lemma watch_lists:
  "r_list (k_claims watch_kube) rd lo w = (Inr [bound_claim], w)" "r_list (k_accesses watch_kube) rd lo w = (Inr [team_access None False], w)"
  "r_list (k_policies watch_kube) rd lo w = (Inr [], w)"
  by (simp_all add: watch_kube_def quiet_kube_def absent_def answering_def)

lemma watch_fields:
  "claim_key bound_claim = (''team-a'', ''data'')" "boundName bound_claim = ''claim-1''" "bc_existing_bucket_name (bc_spec bound_claim) = ''logs''"
  "access_key (team_access st d) = (''team-a'', ''app'')" "access_ns (team_access st d) = ''team-a''"
  "ba_bucket_claim_name (ba_spec (team_access st d)) = ''data''" "m_name (bc_meta bound_claim) = ''data''"
  "m_namespace (bc_meta bound_claim) = ''team-a''"
  by (simp_all add: claim_key_def boundName_def bound_claim_def demo_claim_def access_key_def access_ns_def team_access_def fresh_meta_def)

lemma watch_run: "run_state (klist rd k mk (k_claims watch_kube) lo) s = (Inr [bound_claim], fst s, snd s @ [EvList rd k lo (Inr [mk bound_claim])])"
  "run_state (klist rd k mk2 (k_accesses watch_kube) lo) s = (Inr [team_access None False], fst s, snd s @ [EvList rd k lo (Inr [mk2 (team_access None False)])])"
  "run_state (klist rd k mk3 (k_policies watch_kube) lo) s = (Inr [], fst s, snd s @ [EvList rd k lo (Inr [])])"
  by (cases s; simp add: klist_def call_def watch_lists)+

lemmas watch_eval = woken_def main_controllers_def add_defs enqueue_mapped_def enqueue_self_def requests_def demo_system_def watch_run

lemma bucket_wakes_claim:
  "ReqClaim (''team-a'', ''data'') \<in> woken (demo_system watch_kube) (OnBucket (Updated labelled_bucket (labelled_bucket\<lparr>b_status := None\<rparr>))) s"
  by (simp add: watch_eval claims_of_bucket_def enqueueByBucket_def watch_fields labelled_bucket_def map_str_def fresh_meta_def
      LabelOwnedByClaimNamespace_def LabelOwnedByClaimName_def split: prod.split)

lemma claim_wakes_access:
  "ReqAccess (''team-a'', ''app'') \<in> woken (demo_system watch_kube) (OnClaim (Updated bound_claim (bound_claim\<lparr>bc_status := None\<rparr>))) s"
  by (simp add: watch_eval enqueueByClaim_def watch_fields GenerationChanged_def split: prod.split)

lemma demo_chain:
  "status_chain (demo_system watch_kube)
    [OnBucket (Updated labelled_bucket (labelled_bucket\<lparr>b_status := None\<rparr>)), OnClaim (Updated bound_claim (bound_claim\<lparr>bc_status := None\<rparr>)),
     OnAccess (Updated (team_access None False) ((team_access None False)\<lparr>ba_status := None\<rparr>))]"
proof -
  have changes: "status_change (OnBucket (Updated b (b\<lparr>b_status := st\<rparr>)))" "status_change (OnClaim (Updated c (c\<lparr>bc_status := st'\<rparr>)))"
    "status_change (OnAccess (Updated a (a\<lparr>ba_status := st''\<rparr>)))" for b c a st st' st''
    by (auto simp: status_change_def)
  have writes: "written_by (OnClaim (Updated bound_claim (bound_claim\<lparr>bc_status := st\<rparr>))) = ReqClaim (''team-a'', ''data'')"
    "written_by (OnAccess (Updated a ((team_access None False)\<lparr>ba_status := st'\<rparr>))) = ReqAccess (''team-a'', ''app'')" for a st st'
    using watch_fields by (simp_all add: written_by_def claim_key_def access_key_def access_ns_def team_access_def)
  show ?thesis
    by (intro hop [where s = "((), [])"] last changes; simp only: writes bucket_wakes_claim claim_wakes_access)
qed

section \<open>Properties\<close>

text \<open>C11: Whom a change of a policy wakes: in both its versions, exactly the brownfield claims for its bucket, the
  accesses of every claim for or bound to its bucket, and, unless only its status changed, the policy itself.\<close>

theorem policy_change_wakes:
  assumes "cached (k_claims (sy_kube S)) cls" and "cached (k_accesses (sy_kube S)) as"
  shows "woken S (OnPolicy e) s =
      (\<Union>p \<in> versions e. (\<lambda>c. ReqClaim (claim_key c)) ` claims_under cls p \<union> (\<lambda>a. ReqAccess (access_key a)) ` accesses_under cls as p)
    \<union> (if GenerationChanged bp_meta e then {ReqPolicy (m_name (bp_meta (subject e)))} else {})"
proof (rule woken_eq)
  let ?K = "sy_kube S"
  note w = wakes_mapped [OF wakes_requests [OF wakes_claims_of_policy [OF assms(1)]]]
    wakes_mapped [OF wakes_requests [OF wakes_accesses_of_policy [OF assms]]]
  have "wakes ({} \<union> ({} \<union> ((\<Union>p \<in> versions e. ReqClaim ` claim_key ` claims_under cls p)
      \<union> ((\<Union>p \<in> versions e. ReqAccess ` access_key ` accesses_under cls as p)
      \<union> ((if GenerationChanged bp_meta e then {ReqPolicy (m_name (bp_meta (subject e)))} else {}) \<union> {})))))
      (deliver (main_controllers S) (OnPolicy e))"
    unfolding main_controllers_def list.map
    by (intro wakes_deliver; simp only: add_defs controller.simps change.case deliver.simps; rule wakes_none w wakes_self)
  then show "wakes ((\<Union>p \<in> versions e. (\<lambda>c. ReqClaim (claim_key c)) ` claims_under cls p \<union> (\<lambda>a. ReqAccess (access_key a)) ` accesses_under cls as p)
    \<union> (if GenerationChanged bp_meta e then {ReqPolicy (m_name (bp_meta (subject e)))} else {})) (deliver (main_controllers S) (OnPolicy e))"
    by (simp add: image_image UN_Un_distrib Un_assoc)
qed

lemma policy_change_wakes_witness:
  "ReqAccess (''team-a'', ''app'') \<in> woken (demo_system watch_kube) (OnPolicy (Deleted team_policy)) ((), [])
   \<and> ReqClaim (''team-a'', ''data'') \<notin> woken (demo_system watch_kube) (OnPolicy (Deleted team_policy)) ((), [])"
proof -
  have c: "cached (k_claims (sy_kube (demo_system watch_kube))) [bound_claim]" "cached (k_accesses (sy_kube (demo_system watch_kube))) [team_access None False]"
    by (simp_all add: cached_def demo_system_def watch_lists)
  have "claims_under [bound_claim] team_policy = {}" "accesses_under [bound_claim] [team_access None False] team_policy = {team_access None False}"
    by (auto simp: claims_under_def accesses_under_def watch_fields team_policy_def)
  then show ?thesis unfolding policy_change_wakes [OF c] by (auto simp: watch_fields)
qed

text \<open>C12: Status writes do not wake each other for ever: a chain of status writes, each by a pass that the one before woke, has at
  most five members, whatever the caches list.\<close>

theorem status_chain_bounded: "status_chain S chs \<Longrightarrow> length chs \<le> 5"
  using status_chain_stage [of S chs] by simp

lemma status_chain_bounded_witness:
  "\<exists>chs. status_chain (demo_system watch_kube) chs \<and> length chs = 3 \<and> length chs \<le> 5"
  using demo_chain status_chain_bounded [OF demo_chain] by (intro exI conjI) auto

end
