(* ===== verification/Progress.thy ===== *)
theory Progress
  imports Watches
begin

text \<open>
  What a pass must do, beside what it may do. A pass over an access that reads all it needs reaches the driver: it takes a
  key back when the namespace is denied or the claim is no longer bound, and asks for one when the access is entitled. And
  a pass over a claim or an access never leaves it alone: it ends in an error, which is retried, or with a requeue.
\<close>

section \<open>When the next pass is due\<close>

definition checked_again :: "options \<Rightarrow> outcome \<Rightarrow> bool" where
  "checked_again cfg out \<longleftrightarrow> snd out \<noteq> None \<or> fst out = Some (RequeueInterval cfg) \<or> fst out = Some (SecurityResyncInterval cfg)"

lemma yields_finish: "yields (\<lambda>out. snd out \<noteq> None \<or> fst out = rq) (finish_with m err rq)"
  unfolding finish_with_def by (intro yields_rules) (auto split: option.splits)

lemma yields_mono: "yields P m \<Longrightarrow> (\<And>r. P r \<Longrightarrow> Q r) \<Longrightarrow> yields Q m"
  by (simp add: yields_def)

lemma finish_checked:
  "yields (checked_again cfg) (access_finish cfg K a sb ob err)" "yields (checked_again cfg) (claim_finish cfg K c sb2 ob2 err)"
  unfolding access_finish_def claim_finish_def by (rule yields_mono [OF yields_finish]; auto simp: checked_again_def split: if_splits)+

lemma access_normal_checked: "yields (checked_again cfg) (access_reconcileNormal own re reg cfg K a)"
  unfolding access_reconcileNormal_def access_gate_def access_revoke_def access_issue_def access_store_def Let_def
  by (intro yields_rules finish_checked)

lemma claim_normal_checked: "yields (checked_again cfg) (claim_reconcileNormal re cfg K c)"
  unfolding claim_reconcileNormal_def Let_def by (intro yields_rules finish_checked)

lemma wp_yields: "yields R m \<Longrightarrow> wp m (\<lambda>a s'. R a) s"
  by (cases s) (simp add: yields_def wp_def split: prod.splits, metis fst_conv)

text \<open>The object of a request is gone, or on its way out.\<close>

definition leaving :: "kind \<Rightarrow> ('o \<Rightarrow> obj) \<Rightarrow> ('o \<Rightarrow> object_meta) \<Rightarrow> key \<Rightarrow> event list \<Rightarrow> bool" where
  "leaving k mk meta ky u \<longleftrightarrow> (\<exists>e. EvGet Cached k ky (Inl e) \<in> set u \<and> is_not_found e)
     \<or> (\<exists>x. EvGet Cached k ky (Inr (mk x)) \<in> set u \<and> m_deleting (meta x))"

lemma leaving_mono: "leaving k mk meta ky t \<Longrightarrow> leaving k mk meta ky (t @ d)"
  unfolding leaving_def by auto

lemma wp_checked:
  assumes "yields (checked_again cfg) m" shows "wp m (\<lambda>out s'. checked_again cfg out \<or> P s') s"
  by (rule wp_mono [OF wp_yields [OF assms]]) simp

lemma access_checked:
  "wp (access_Reconcile own re reg cfg K ky) (\<lambda>out s'. checked_again cfg out \<or> leaving KAccess OAccess ba_meta ky (snd s')) (w, t)"
proof -
  have gone: "wp (access_reconcileDelete reg K a) (\<lambda>r s'. leaving KAccess OAccess ba_meta ky (snd s')) (v, u)"
    if "leaving KAccess OAccess ba_meta ky u" for a v u
    unfolding access_reconcileDelete_def resolveBound_def DeleteAccess_def kget_def kupdate_def
    using that by (intro wp_rules) (auto intro: leaving_mono leaving_mono [where d = "[_, _]", simplified])
  show ?thesis
    unfolding access_Reconcile_def kget_def kupdate_def Let_def
    by (intro wp_rules wp_checked access_normal_checked wp_mono [OF gone]) (auto simp: checked_again_def leaving_def)
qed

lemma claim_checked:
  "wp (claim_Reconcile re cfg K ky) (\<lambda>out s'. checked_again cfg out \<or> leaving KClaim OClaim bc_meta ky (snd s')) (w, t)"
proof -
  have gone: "wp (claim_reconcileDelete cfg K c) (\<lambda>r s'. leaving KClaim OClaim bc_meta ky (snd s')) (v, u)"
    if "leaving KClaim OClaim bc_meta ky u" for c v u
    unfolding claim_reconcileDelete_def referencingAccesses_def klist_def kdelete_def kupdate_def
    using that by (intro wp_rules) (auto intro: leaving_mono leaving_mono [where d = "[_, _]", simplified] leaving_mono [where d = "[_, _, _]", simplified])
  show ?thesis
    unfolding claim_Reconcile_def kget_def kupdate_def Let_def
    by (intro wp_rules wp_checked claim_normal_checked wp_mono [OF gone]) (auto simp: checked_again_def leaving_def)
qed

section \<open>What a pass over an access owes\<close>

text \<open>The verdict on a namespace that the events of a pass determine: for a bucket of a claim by its labels, for a shared
  one by the decision on the policies that were listed past the cache.\<close>

definition policy_lists :: "event list \<Rightarrow> bucket_claim_policy list set" where
  "policy_lists u = {ps. EvList Uncached KPolicy list_all_opts (Inr (map OPolicy ps)) \<in> set u}"

definition verdict :: "regexps \<Rightarrow> event list \<Rightarrow> bucket \<Rightarrow> string \<Rightarrow> bool \<Rightarrow> bool" where
  "verdict re u b ns v \<longleftrightarrow> (if claim_owned b then v = (owner_ns b = ns)
     else (\<exists>ps \<in> policy_lists u. \<exists>m. decide re (m_name (b_meta b)) ns 0 ps = Inr (v, m)))"

text \<open>An access that holds a key it must not have is revoked: the driver is asked, and when it is done the Secret is deleted.\<close>

definition key_taken_back :: "event list \<Rightarrow> bucket_access \<Rightarrow> bucket \<Rightarrow> object_store \<Rightarrow> bool" where
  "key_taken_back u a b c \<longleftrightarrow> (\<exists>r. EvDriver (DrvDeleteAccess c b a r) \<in> set u
     \<and> (r = None \<longrightarrow> (\<exists>e. EvDelete KSecret (access_ns a, credentialsSecretName a) e \<in> set u)))"

text \<open>An access that is entitled gets its key: the driver is asked, unless the Secret cannot be read, and when the driver
  grants it the Secret is written.\<close>

definition key_asked_for :: "event list \<Rightarrow> bucket_access \<Rightarrow> bucket \<Rightarrow> object_store \<Rightarrow> bool" where
  "key_asked_for u a b c \<longleftrightarrow>
     (\<exists>e. EvGet Uncached KSecret (access_ns a, credentialsSecretName a) (Inl e) \<in> set u \<and> \<not> is_not_found e)
   \<or> (\<exists>mf s e. EvDriver (DrvEnsureAccess c b a mf (s, e)) \<in> set u
        \<and> (as_ready s \<and> e = None \<longrightarrow> (\<exists>x r. EvCreateOrUpdate KSecret (access_ns a, credentialsSecretName a) x r \<in> set u)))"

definition access_duty ::
  "regexps \<Rightarrow> ('w, 'x) kube_scheme \<Rightarrow> event list \<Rightarrow> bucket_access \<Rightarrow> bucket_claim \<Rightarrow> bucket \<Rightarrow> object_store \<Rightarrow> bool" where
  "access_duty re K u a cl b c \<longleftrightarrow> (\<forall>v. verdict re u b (access_ns a) v \<longrightarrow>
     (if claimBound K cl \<and> v then bucketReadyState K b = Some ConditionTrue \<longrightarrow> key_asked_for u a b c
      else recorded_key a \<noteq> [] \<longrightarrow> key_taken_back u a b c))"

lemma owed_mono:
  assumes "set t \<subseteq> set u"
  shows "key_taken_back t a b c \<Longrightarrow> key_taken_back u a b c" and "key_asked_for t a b c \<Longrightarrow> key_asked_for u a b c"
  using assms unfolding key_taken_back_def key_asked_for_def by (meson subsetD)+

text \<open>The end of a pass adds nothing that matters here.\<close>

definition status_event :: "event \<Rightarrow> bool" where
  "status_event e \<longleftrightarrow> (\<exists>ky r. e = EvGet Cached KAccess ky r) \<or> (\<exists>x r. e = EvUpdateStatus KAccess x r)"

lemma access_finish_events:
  assumes "retry_law K"
  shows "emits status_event (access_finish cfg K a sb ob err)"
  unfolding access_finish_def access_updateStatus_def kget_def kupdate_status_def
  by (intro genuine_finish emits_retry [OF assms] emits_rules emits_call) (auto simp: status_event_def)

lemma wp_access_fin:
  assumes "retry_law K" and "\<And>out w' d. list_all status_event d \<Longrightarrow> Q out (w', t @ d)"
  shows "wp (access_finish cfg K a sb ob err) Q (w, t)"
  by (rule emits_wp [OF access_finish_events [OF assms(1)]], erule assms(2))

text \<open>The part of a pass behind the reads that resolve the access: it lists nothing, and reads no claim, bucket or store.\<close>

definition settled_event :: "event \<Rightarrow> bool" where
  "settled_event e \<longleftrightarrow> (case e of EvGet rd k ky r \<Rightarrow> k = KAccess \<or> k = KSecret | EvList rd k lo r \<Rightarrow> False | _ \<Rightarrow> True)"

lemma settled_event_simps [simp]:
  "settled_event (EvGet rd k ky r) \<longleftrightarrow> k = KAccess \<or> k = KSecret" "settled_event (EvDriver c)" "settled_event (EvDelete k ky2 x)"
  "settled_event (EvCreateOrUpdate k ky3 y z)"
  by (simp_all add: settled_event_def)

lemma status_settled: "list_all status_event d \<Longrightarrow> list_all settled_event d"
  by (erule list.pred_mono_strong) (auto simp: status_event_def settled_event_def)

lemma settled_lists: "list_all settled_event e \<Longrightarrow> policy_lists e = {}"
  by (auto simp: policy_lists_def list_all_iff settled_event_def)

lemma policy_lists_app [simp]: "policy_lists (d @ e) = policy_lists d \<union> policy_lists e"
  by (auto simp: policy_lists_def)

lemma revoke_duty:
  assumes "retry_law K" and "Registry_For reg c = Inr d"
  shows "wp (access_revoke reg cfg K a sb ob bound authz (Some b) (Some c))
    (\<lambda>out s'. \<exists>e. snd s' = t @ e \<and> list_all settled_event e \<and> (recorded_key a \<noteq> [] \<longrightarrow> key_taken_back e a b c)) (w, t)"
  unfolding access_revoke_def Let_def DeleteAccess_def deleteCredentialsSecret_def kdelete_def option.case assms(2) sum.case
  by (intro wp_rules wp_access_fin [OF assms(1)])
    (auto simp: recorded_key_def status_settled key_taken_back_def split: option.splits)

lemma store_duty:
  assumes "retry_law K" and "\<And>out w' x r e. list_all settled_event e \<Longrightarrow>
      Q out (w', t @ EvCreateOrUpdate KSecret (access_ns a, credentialsSecretName a) x r # e)"
  shows "wp (access_store own cfg K a sb ob b c s existing) Q (w, t)"
  unfolding access_store_def ensureCredentialsSecret_def kcreate_or_update_def Let_def
  by (intro wp_rules wp_access_fin [OF assms(1)]) (simp_all add: status_settled assms(2))

lemma key_asked_forI:
  "EvGet Uncached KSecret (access_ns a, credentialsSecretName a) (Inl f) \<in> set u \<Longrightarrow> \<not> is_not_found f \<Longrightarrow> key_asked_for u a b c"
  "EvDriver (DrvEnsureAccess c b a mf (s, e)) \<in> set u \<Longrightarrow> \<not> (as_ready s \<and> e = None) \<Longrightarrow> key_asked_for u a b c"
  "EvDriver (DrvEnsureAccess c b a mf se) \<in> set u \<Longrightarrow> EvCreateOrUpdate KSecret (access_ns a, credentialsSecretName a) x r \<in> set u \<Longrightarrow> key_asked_for u a b c"
  unfolding key_asked_for_def by (blast | cases se)+

lemma issue_duty:
  assumes "retry_law K" and "Registry_For reg c = Inr d"
  shows "wp (access_issue own reg cfg K a sb ob b c)
    (\<lambda>out s'. \<exists>e. snd s' = t @ e \<and> list_all settled_event e \<and> key_asked_for e a b c) (w, t)"
proof -
  let ?get = "EvGet Uncached KSecret (access_ns a, credentialsSecretName a)"
  have failed: "key_asked_for (?get (Inl x) # e) a b c" if "\<not> is_not_found x" for x e
    using that by (intro key_asked_forI(1)) simp_all
  have refused: "key_asked_for (?get g # EvDriver (DrvEnsureAccess c b a mf (s, x)) # e) a b c"
    if "advance sb ord t (as_ready s) m x = (sb', False)" for g mf s x e sb ord t m sb'
    by (rule key_asked_forI(2) [of c b a mf s x]) (use that in \<open>auto simp: advance_def split: if_splits option.splits\<close>)
  have granted: "key_asked_for (?get g # EvDriver (DrvEnsureAccess c b a mf se) # EvCreateOrUpdate KSecret (access_ns a, credentialsSecretName a) x r # e) a b c"
    for g mf se x r e
    by (rule key_asked_forI(3) [of c b a mf se _ x r]) simp_all
  show ?thesis
    unfolding access_issue_def getSecret_def EnsureAccess_def kget_def Let_def assms(2) sum.case
    by (intro wp_rules wp_access_fin [OF assms(1)] store_duty [OF assms(1)])
      (auto simp: status_settled failed refused granted split: sum.splits if_splits)
qed

lemma wp_authorized:
  assumes "policy_lists t = {}"
    and "\<And>w' d err. (\<And>v. \<not> verdict re (t @ d) b ns v) \<Longrightarrow> list_all (\<lambda>e. \<forall>rd k ky r. e \<noteq> EvGet rd k ky r) d \<Longrightarrow> Q (Inl err) (w', t @ d)"
    and "\<And>w' d v m. (\<And>v'. verdict re (t @ d) b ns v' \<Longrightarrow> v' = v) \<Longrightarrow> list_all (\<lambda>e. \<forall>rd k ky r. e \<noteq> EvGet rd k ky r) d \<Longrightarrow> Q (Inr (v, m)) (w', t @ d)"
  shows "wp (accessAuthorized re K b ns) Q (w, t)"
proof (cases "claim_owned b")
  case True
  then show ?thesis
    using assms(3) [of "[]"] unfolding accessAuthorized_def claim_owned_def Let_def
    by (intro wp_rules) (auto simp: verdict_def claim_owned_def owner_ns_def)
next
  case False
  have lists: "policy_lists [EvList Uncached KPolicy list_all_opts (Inr (map OPolicy ps))] = {ps}" for ps
    using inj_map_eq_map [of OPolicy] by (auto simp: policy_lists_def inj_def)
  have none: "policy_lists [EvList Uncached KPolicy list_all_opts (Inl x)] = {}" for x
    by (auto simp: policy_lists_def)
  show ?thesis
    unfolding accessAuthorized_def namespaceAllowedForBucket_def klist_def Let_def
  proof (rule wp_if, goal_cases)
    case 1
    then show ?case using False by (simp add: claim_owned_def)
  next
    case 2
    show ?case
    proof (rule wp_bind, rule wp_call, rule wp_case_sum, goal_cases)
      case (1 r w' err)
      then show ?case by (intro wp_return) (auto intro!: assms(2) simp: verdict_def assms(1) none False)
    next
      case (2 r w' ps)
      let ?e = "[EvList Uncached KPolicy list_all_opts (Inr (map OPolicy ps))]"
      show ?case
        unfolding 2(2) map_sum.simps
        by (rule wp_return, cases "decide re (m_name (b_meta b)) ns 0 ps")
          (use assms(2) [of ?e] assms(3) [of ?e] in \<open>auto simp: verdict_def assms(1) lists False\<close>)
    qed
  qed
qed

definition later_event :: "event \<Rightarrow> bool" where
  "later_event e \<longleftrightarrow> (\<forall>rd k ky r. e = EvGet rd k ky r \<longrightarrow> k = KAccess \<or> k = KSecret)"

lemma later_events:
  "list_all settled_event d \<Longrightarrow> list_all later_event d" "list_all (\<lambda>e. \<forall>rd k ky r. e \<noteq> EvGet rd k ky r) d \<Longrightarrow> list_all later_event d"
  "list_all status_event d \<Longrightarrow> list_all later_event d"
  by (erule list.pred_mono_strong; auto simp: settled_event_def later_event_def status_event_def)+

lemma verdict_app: "list_all settled_event e \<Longrightarrow> verdict re (u @ e) b ns v \<longleftrightarrow> verdict re u b ns v"
  by (simp add: verdict_def settled_lists)

lemma gate_duty:
  assumes "retry_law K" and "Registry_For reg c = Inr d" and t: "policy_lists t = {}"
  shows "wp (access_gate own re reg cfg K a sb ob cl (Some b) (Some c))
    (\<lambda>out s'. \<exists>e. snd s' = t @ e \<and> list_all later_event e \<and> access_duty re K (t @ e) a cl b c) (w, t)"
proof -
  have duty: "access_duty re K (u @ e) a cl b c"
    if "\<And>v'. verdict re u b (access_ns a) v' \<Longrightarrow> v' = v" "list_all settled_event e"
      "if claimBound K cl \<and> v then bucketReadyState K b = Some ConditionTrue \<longrightarrow> key_asked_for e a b c else recorded_key a \<noteq> [] \<longrightarrow> key_taken_back e a b c"
    for u e v
    using that(3) that(1) owed_mono [of e "u @ e"] unfolding access_duty_def verdict_app [OF that(2)] by (auto split: if_splits)
  show ?thesis
    unfolding access_gate_def option.case
  proof (rule wp_bind, rule wp_authorized [OF t], goal_cases)
    case (1 w' d err)
    then show ?case
      unfolding sum.case
      by (intro wp_access_fin [OF assms(1)])
        (auto simp: later_events access_duty_def verdict_app [OF status_settled, of _ _ "t @ d", simplified])
  next
    case (2 w' d v m)
    let ?Q = "\<lambda>out s'. \<exists>e. snd s' = t @ e \<and> list_all later_event e \<and> access_duty re K (t @ e) a cl b c"
    have fin: "?Q out s'"
      if "snd s' = (t @ d) @ e" "list_all settled_event e"
        "if claimBound K cl \<and> v then bucketReadyState K b = Some ConditionTrue \<longrightarrow> key_asked_for e a b c else recorded_key a \<noteq> [] \<longrightarrow> key_taken_back e a b c"
      for out s' e
      using duty [of "t @ d" v, OF 2(1) that(2,3)] later_events(2) [OF 2(2)] later_events(1) [OF that(2)] that(1)
      by (intro exI [of _ "d @ e"]) simp
    show ?case
      unfolding sum.case fst_conv
    proof (rule wp_if, rule wp_if, goal_cases)
      case 1
      then show ?case by (intro wp_access_fin [OF assms(1)] fin) (auto simp: status_settled)
    next
      case 2
      show ?case by (rule wp_mono [OF issue_duty [OF assms(1,2), where t = "t @ d"]], elim exE conjE, rule fin) (use 2 in auto)
    next
      case 3
      show ?case by (rule wp_mono [OF revoke_duty [OF assms(1,2), where t = "t @ d"]], elim exE conjE, rule fin) (use 3 in auto)
    qed
  qed
qed

lemma later_calls:
  "emits later_event (klist rd k mk res lo)" "emits later_event (kdelete k2 res2 ky)" "emits later_event (kcreate_or_update k3 mk3 res3 ky3 x f)"
  "k4 \<in> {KAccess, KSecret} \<Longrightarrow> emits later_event (kget rd4 k4 mk4 res4 ky4)" "emits later_event (EnsureAccess d c b a fr)"
  "emits later_event (DeleteAccess d c b a)"
  unfolding kube_op_defs driver_op_defs by (rule emits_call; simp add: later_event_def)+

lemma later_finish: "retry_law K \<Longrightarrow> emits later_event (access_finish cfg K a sb ob err)"
  by (rule emits_mono [OF access_finish_events]) (auto simp: status_event_def later_event_def)

lemma later_gate: "retry_law K \<Longrightarrow> emits later_event (access_gate own re reg cfg K a sb ob cl bkt cluster)"
  unfolding access_gate_def accessAuthorized_def namespaceAllowedForBucket_def access_revoke_def access_issue_def access_store_def
    ensureCredentialsSecret_def getSecret_def deleteCredentialsSecret_def Let_def
  by (intro emits_rules later_calls later_finish) simp_all

lemma later_forget: "retry_law K \<Longrightarrow> emits later_event (revokeIfIssued K a ob)"
  unfolding revokeIfIssued_def deleteCredentialsSecret_def by (intro emits_rules later_calls)

text \<open>What the reads of a pass found: the access, its claim, the bucket the claim is bound to and the store of the bucket.\<close>

definition found :: "event list \<Rightarrow> bucket_access \<Rightarrow> bucket_claim \<Rightarrow> bucket \<Rightarrow> object_store \<Rightarrow> bool" where
  "found u a cl b c \<longleftrightarrow> access_claim u a cl \<and> read_bound u cl b \<and> EvGet Cached KStore ([], b_object_store_ref (b_spec b)) (Inr (OStore c)) \<in> set u"

lemma later_reads:
  assumes "list_all later_event e"
  shows "\<not> access_claim e a cl" and "\<not> read_bound e cl b" and "EvGet Cached KStore ky r \<notin> set e"
  using assms by (auto simp: access_claim_def read_bound_def list_all_iff later_event_def)

lemma found_app:
  "access_claim (t @ e) a cl \<longleftrightarrow> access_claim t a cl \<or> access_claim e a cl"
  "read_bound (t @ e) cl b \<longleftrightarrow> read_bound t cl b \<or> read_bound e cl b"
  "access_claim (x # e) a cl \<longleftrightarrow> x = EvGet Cached KClaim (access_ns a, ba_bucket_claim_name (ba_spec a)) (Inr (OClaim cl)) \<or> access_claim e a cl"
  "read_bound (x # e) cl b \<longleftrightarrow> boundName cl \<noteq> [] \<and> x = EvGet Cached KBucket ([], boundName cl) (Inr (OBucket b)) \<or> read_bound e cl b"
  "\<not> access_claim [] a cl" "\<not> read_bound [] cl b"
  by (auto simp: access_claim_def read_bound_def)

lemma normal_duty:
  assumes "retry_law K" and t: "policy_lists t = {}" "list_all later_event t"
  shows "wp (access_reconcileNormal own re reg cfg K a) (\<lambda>out s'. \<forall>cl b c d. found (snd s') a cl b c \<longrightarrow>
      Registry_For reg c = Inr d \<longrightarrow> access_duty re K (snd s') a cl b c) (w, t)"
proof -
  let ?Q = "\<lambda>out s'. \<forall>cl b c d. found (snd s') a cl b c \<longrightarrow> Registry_For reg c = Inr d \<longrightarrow> access_duty re K (snd s') a cl b c"
  let ?get = "EvGet Cached KClaim (access_ns a, ba_bucket_claim_name (ba_spec a))"
  let ?bkt = "\<lambda>cl. EvGet Cached KBucket ([], boundName cl)"
  let ?st = "\<lambda>b. EvGet Cached KStore ([], b_object_store_ref (b_spec b))"
  note none = later_reads [OF t(2)]
  have vac: "wp m ?Q (w', t @ f)" if "emits later_event m" "\<And>cl b c. \<not> found f a cl b c" for m w' f
    by (rule emits_wp [OF that(1)])
      (use that(2) in \<open>auto simp: found_def found_app none later_reads\<close>)
  have full: "wp (access_gate own re reg cfg K a sb ob cl (Some b) (Some c)) ?Q (w', t @ [?get (Inr (OClaim cl)), ?bkt cl (Inr (OBucket b)), ?st b (Inr (OStore c))])"
    (is "wp _ _ (w', t @ ?f)") for sb ob cl b c w'
  proof -
    have unique: "cl' = cl \<and> b' = b \<and> c' = c" if f: "found ((t @ ?f) @ e) a cl' b' c'" and e: "list_all later_event e" for e cl' b' c'
    proof -
      have cl: "cl' = cl" using f none later_reads [OF e] by (simp add: found_def found_app)
      then have b: "b' = b" using f none later_reads [OF e] by (simp add: found_def found_app)
      then show ?thesis using f none later_reads [OF e] cl by (simp add: found_def)
    qed
    have step: "?Q out s'" if s': "snd s' = (t @ ?f) @ e" and e: "list_all later_event e"
      and d: "\<And>d. Registry_For reg c = Inr d \<Longrightarrow> access_duty re K ((t @ ?f) @ e) a cl b c" for out s' e
    proof (intro allI impI)
      fix cl' b' c' d assume f: "found (snd s') a cl' b' c'" and r: "Registry_For reg c' = Inr d"
      from unique [OF f [unfolded s'] e] d [of d] r show "access_duty re K (snd s') a cl' b' c'" unfolding s' by blast
    qed
    show ?thesis
    proof (cases "Registry_For reg c")
      case (Inl x)
      show ?thesis by (rule emits_wp [OF later_gate [OF assms(1)]], rule step) (simp_all add: Inl)
    next
      case (Inr d)
      have "policy_lists (t @ ?f) = {}" using t(1) by (simp add: policy_lists_def)
      from gate_duty [OF assms(1) Inr this] show ?thesis
        by (rule wp_mono) (elim exE conjE, rule step)
    qed
  qed
  show ?thesis
    unfolding access_reconcileNormal_def resolveBound_def kget_def Let_def
  proof (rule wp_bind, rule wp_sample, rule wp_bind, rule wp_call, rule wp_case_sum, goal_cases)
    case (1 now v r w' err)
    then show ?case
      by (intro wp_if vac later_finish emits_bind later_forget assms(1)) (auto simp: found_def found_app)
  next
    case (2 now v r w' cl)
    show ?case
      unfolding 2 map_sum.simps
    proof (rule wp_bind, rule wp_if, rule wp_bind, rule wp_call, goal_cases)
      case (1 r w'')
      show ?case
      proof (cases r)
        case (Inl x)
        show ?thesis
          unfolding Inl map_sum.simps sum.case append_assoc append.simps
          by (rule wp_return, simp only: prod.case, rule vac [OF later_gate [OF assms(1)]]) (simp add: found_def found_app)
      next
        case (Inr b)
        show ?thesis
          unfolding Inr map_sum.simps sum.case append_assoc append.simps
        proof (rule wp_bind, rule wp_call, rule wp_return, goal_cases)
          case (1 y w3)
          show ?case
          proof (cases y)
            case (Inl x)
            show ?thesis
              unfolding Inl map_sum.simps sum.case prod.case append_assoc append.simps
              by (rule vac [OF later_gate [OF assms(1)]]) (simp add: found_def found_app)
          next
            case (Inr c)
            show ?thesis
              unfolding Inr map_sum.simps sum.case prod.case append_assoc append.simps by (rule full)
          qed
        qed
      qed
    next
      case 2
      then show ?case
        by (intro wp_return, simp only: prod.case, intro vac [OF later_gate [OF assms(1)]]) (simp add: found_def found_app)
    qed
  qed
qed

lemma genuine_normal: "retry_law K \<Longrightarrow> emits (genuine reg) (access_reconcileNormal own re reg cfg K a)"
  unfolding access_reconcileNormal_def access_gate_def access_issue_def access_store_def
    ensureCredentialsSecret_def accessAuthorized_def revokeIfIssued_def getSecret_def deleteCredentialsSecret_def
    resolveBound_def access_end_defs namespaceAllowedForBucket_def
  by (intro genuine_rules genuine_access_revoke)

lemma genuine_delete: "emits (genuine reg) (access_reconcileDelete reg K a)"
  unfolding access_reconcileDelete_def resolveBound_def by (intro genuine_rules)

section \<open>Properties\<close>

text \<open>C8: Authorization is carried out, not only checked: whatever is answered, a pass over an active access that reads its claim, the bucket
  and its store, and whose store has a driver, obeys the verdict. When it is favourable, the claim bound and the bucket
  Ready, the driver is asked for the key, and the Secret is written once it grants it; when it is not, or the claim is not
  bound, a key that was handed out is taken back, first at the driver, then with the Secret.\<close>

theorem access_verdict_enforced:
  assumes "retry_law K" and "run_state (access_Reconcile own re reg cfg K rq) (w, []) = (out, (w', u))"
    and "u \<noteq> []" and "hd u = EvGet Cached KAccess rq (Inr (OAccess a))" and "contains_finalizer (ba_meta a)" and "\<not> m_deleting (ba_meta a)"
    and "found u a cl b c" and "Registry_For reg c = Inr d" and "verdict re u b (access_ns a) v"
  shows "if claimBound K cl \<and> v then bucketReadyState K b = Some ConditionTrue \<longrightarrow> key_asked_for u a b c
    else recorded_key a \<noteq> [] \<longrightarrow> key_taken_back u a b c"
proof -
  have "wp (access_Reconcile own re reg cfg K rq) (\<lambda>out s'. \<exists>x e. snd s' = EvGet Cached KAccess rq x # e
     \<and> (x = Inr (OAccess a) \<longrightarrow> found (snd s') a cl b c \<longrightarrow> access_duty re K (snd s') a cl b c)) (w, [])"
    unfolding access_Reconcile_def kget_def
  proof (rule wp_bind, rule wp_call, rule wp_case_sum, goal_cases)
    case (1 r w' e)
    then show ?case by (intro wp_rules) simp_all
  next
    case (2 r w' a0)
    note go = genuine_normal [OF assms(1), of reg] genuine_delete [of reg]
    have other: "wp m (\<lambda>out s'. \<exists>x e. snd s' = EvGet Cached KAccess rq x # e
        \<and> (x = Inr (OAccess a) \<longrightarrow> found (snd s') a cl b c \<longrightarrow> access_duty re K (snd s') a cl b c)) (w'', EvGet Cached KAccess rq (Inr (OAccess a0)) # f)"
      if "emits (genuine reg) m" "a0 \<noteq> a" for m w'' f
      by (rule emits_wp [OF that(1)]) (use that(2) in simp)
    show ?case
      unfolding 2(2) map_sum.simps append.simps Let_def
    proof (cases "a0 = a")
      case True
      have "policy_lists [EvGet Cached KAccess rq (Inr (OAccess a))] = {}" "list_all later_event [EvGet Cached KAccess rq (Inr (OAccess a))]"
        by (simp_all add: policy_lists_def later_event_def)
      from normal_duty [OF assms(1) this, of own re reg cfg a w'] emits_wp [OF go(1) [of own re cfg a], of "\<lambda>out s'. \<exists>e. snd s' = EvGet Cached KAccess rq (Inr (OAccess a)) # e" "[EvGet Cached KAccess rq (Inr (OAccess a))]" w']
      show "wp (if m_deleting (ba_meta a0) then do { e \<leftarrow> access_reconcileDelete reg K a0; return (None, e) }
          else if \<not> contains_finalizer (ba_meta a0)
          then do { e \<leftarrow> kupdate KAccess OAccess (k_accesses K) (a0\<lparr>ba_meta := add_finalizer (ba_meta a0)\<rparr>);
                    case e of None \<Rightarrow> access_reconcileNormal own re reg cfg K (a0\<lparr>ba_meta := add_finalizer (ba_meta a0)\<rparr>)
                    | Some err \<Rightarrow> return (None, Some err) }
          else access_reconcileNormal own re reg cfg K a0)
        (\<lambda>out s'. \<exists>x e. snd s' = EvGet Cached KAccess rq x # e
          \<and> (x = Inr (OAccess a) \<longrightarrow> found (snd s') a cl b c \<longrightarrow> access_duty re K (snd s') a cl b c))
        (w', [EvGet Cached KAccess rq (Inr (OAccess a0))])"
        unfolding True using assms(5,6,8) by (auto simp: wp_def split: prod.splits)
    qed (intro wp_if other go emits_bind emits_return emits_case_option genuine_kube_ops; simp)
  qed
  from wpD [OF this assms(2)] show ?thesis
    using assms(3-9) unfolding access_duty_def by auto
qed

lemma access_verdict_enforced_witness:
  "\<exists>u. u = access_trace (team_access None False) False \<and> key_asked_for u (team_access None False) owned_bucket Store_Controller.demo_store"
proof -
  let ?a = "team_access None False" and ?K = "access_env (team_access None False) False" and ?R = "NewRegistry [minting_driver]"
  let ?pre = "[EvGet Cached KAccess (''team-a'', ''app'') (Inr (OAccess ?a)), EvGet Cached KClaim (''team-a'', ''data'') (Inr (OClaim bound_claim)),
      EvGet Cached KBucket ([], ''claim-1'') (Inr (OBucket owned_bucket)), EvGet Cached KStore ([], ''main'') (Inr (OStore Store_Controller.demo_store))]"
  obtain out w' u where run: "run_state (access_Reconcile (\<lambda>x m. Inr m) literal_regexps ?R demo_options ?K (''team-a'', ''app'')) ((), []) = (out, (w', u))"
    by (metis prod.collapse)
  from wpD [OF issue_duty [OF access_env_laws(1) access_demo_facts(5), where t = ?pre], OF run [unfolded access_demo_issue, simplified]]
  obtain e where u: "u = ?pre @ e" by auto
  have "found u ?a bound_claim owned_bucket Store_Controller.demo_store"
    by (simp add: u found_def found_app team_access_fields access_demo_facts)
  moreover have "verdict literal_regexps u owned_bucket (access_ns ?a) True"
    by (simp add: verdict_def claim_owned_def owner_ns_def team_access_fields owned_bucket_def map_str_def fresh_meta_def LabelBucketOrigin_def
        LabelOwnedByClaimNamespace_def BucketOriginBucketClaim_def)
  moreover have "u \<noteq> []" "hd u = EvGet Cached KAccess (''team-a'', ''app'') (Inr (OAccess ?a))" by (simp_all add: u)
  ultimately have "key_asked_for u ?a owned_bucket Store_Controller.demo_store"
    using access_verdict_enforced [OF access_env_laws(1) run, of ?a bound_claim owned_bucket Store_Controller.demo_store minting_driver True]
    by (simp add: team_access_fields access_demo_facts)
  then show ?thesis using run by (simp add: access_trace_def)
qed

text \<open>C10: Authorization is checked again and again: a pass over a claim or an access, whatever is answered to it, ends with an error, for
  which it is repeated, or asks to be repeated after a positive delay, unless the object is gone or being deleted; with any
  configuration whose numbers of seconds fit into a duration.\<close>

theorem authorization_rechecked:
  assumes "sy_cfg S = NewConfig getenv nsfile" and "\<And>name n. positive_env getenv name = Some n \<Longrightarrow> n \<le> 9223372036"
  shows "wp (reconcile S (ReqAccess ky)) (\<lambda>(rq, err) s'. err \<noteq> None \<or> (\<exists>d > 0. rq = Some d) \<or> leaving KAccess OAccess ba_meta ky (snd s')) (w, t)
    \<and> wp (reconcile S (ReqClaim ky)) (\<lambda>(rq, err) s'. err \<noteq> None \<or> (\<exists>d > 0. rq = Some d) \<or> leaving KClaim OClaim bc_meta ky (snd s')) (w, t)"
proof -
  have "0 < RequeueInterval (sy_cfg S)" "0 < SecurityResyncInterval (sy_cfg S)"
    using duration_env_pos [OF assms(2)]
    by (simp_all add: assms(1) NewConfig_def DefaultRequeueIntervalSeconds_def DefaultSecurityResyncIntervalSeconds_def)
  then have "checked_again (sy_cfg S) (rq, err) \<Longrightarrow> err \<noteq> None \<or> (\<exists>d > 0. rq = Some d)" for rq err
    by (auto simp: checked_again_def)
  then show ?thesis
    unfolding reconcile_def request.case
    by (intro conjI; intro wp_mono [OF access_checked] wp_mono [OF claim_checked]) auto
qed

lemma authorization_rechecked_witness:
  "let S = (demo_system watch_kube)\<lparr>sy_cfg := NewConfig (\<lambda>_. []) (Inr ''d8-sds-object'')\<rparr> in
   wp (reconcile S (ReqAccess (''team-a'', ''app''))) (\<lambda>(rq, err) s'. err \<noteq> None \<or> (\<exists>d > 0. rq = Some d)
     \<or> leaving KAccess OAccess ba_meta (''team-a'', ''app'') (snd s')) ((), [])"
  using authorization_rechecked [of "(demo_system watch_kube)\<lparr>sy_cfg := NewConfig (\<lambda>_. []) (Inr ''d8-sds-object'')\<rparr>" "\<lambda>_. []"]
  by (simp add: positive_env_def Let_def)

end
