(* ===== verification/Served.thy ===== *)
theory Served
  imports Progress "HOL-Library.AList"
begin

text \<open>
  The reconcilers together reach their goal. The API server is now an honest one: a world of tables, where a read answers what
  was written last. On it, a namespace that asks for a bucket of its own with a claim and an access, at a store that is
  Ready, is served after three passes: the claim makes the bucket and becomes Bound, the bucket is made at the backend,
  and the access gets its key, in its Secret. It shows that the preconditions of the reconcilers fit together, each
  leaving what the next one waits for. And a claim that a server which checks labels never lets through is never bound.
\<close>

section \<open>An honest API server\<close>

type_synonym 'o tbl = "(key \<times> 'o) list"

record 'b world =
  wo_stores :: "object_store tbl"
  wo_buckets :: "bucket tbl"
  wo_claims :: "bucket_claim tbl"
  wo_accesses :: "bucket_access tbl"
  wo_policies :: "bucket_claim_policy tbl"
  wo_secrets :: "secret tbl"
  wo_backend :: 'b

definition not_found :: go_error where
  "not_found = GoErr NotFound ''not found''"

text \<open>A table as a resource: \<open>sel\<close> and \<open>upd\<close> are the field of the world, \<open>meta\<close> gives the key of an object, and \<open>sts x y\<close> is
  \<open>y\<close> with the status of \<open>x\<close>: a write keeps the status, a status write keeps the rest.\<close>

definition served ::
  "('w \<Rightarrow> 'o tbl) \<Rightarrow> ('o tbl \<Rightarrow> 'w \<Rightarrow> 'w) \<Rightarrow> ('o \<Rightarrow> object_meta) \<Rightarrow> ('o \<Rightarrow> 'o \<Rightarrow> 'o) \<Rightarrow> ('o, 'w) resource" where
  "served sel upd meta sts =
     (let key_of = (\<lambda>x. (m_namespace (meta x), m_name (meta x)));
          put = (\<lambda>x w. upd (AList.update (key_of x) x (sel w)) w) in
      \<lparr>r_get = (\<lambda>rd ky w. (case map_of (sel w) ky of None \<Rightarrow> Inl not_found | Some x \<Rightarrow> Inr x, w)),
       r_list = (\<lambda>rd lo w. (Inr (map snd (filter (\<lambda>(ky, x). case lo_namespace lo of None \<Rightarrow> True | Some ns \<Rightarrow> fst ky = ns) (sel w))), w)),
       r_create = (\<lambda>x w. case map_of (sel w) (key_of x) of None \<Rightarrow> (None, put x w) | Some y \<Rightarrow> (Some (GoErr AlreadyExists ''exists''), w)),
       r_update = (\<lambda>x w. case map_of (sel w) (key_of x) of None \<Rightarrow> (Some not_found, w) | Some y \<Rightarrow> (None, put (sts y x) w)),
       r_update_status = (\<lambda>x w. case map_of (sel w) (key_of x) of None \<Rightarrow> (Some not_found, w) | Some y \<Rightarrow> (None, put (sts x y) w)),
       r_delete = (\<lambda>ky w. case map_of (sel w) ky of None \<Rightarrow> (Some not_found, w) | Some y \<Rightarrow> (None, upd (AList.delete ky (sel w)) w)),
       r_create_or_update = (\<lambda>x f w. case f (case map_of (sel w) (key_of x) of None \<Rightarrow> x | Some y \<Rightarrow> y) of
            Inl e \<Rightarrow> (Inl e, w) | Inr z \<Rightarrow> (Inr z, put z w))\<rparr>)"

definition server :: "'b world kube" where
  "server = quiet_kube\<lparr>
     k_stores := served wo_stores (\<lambda>t w. w\<lparr>wo_stores := t\<rparr>) os_meta (\<lambda>x y. y\<lparr>os_status := os_status x\<rparr>),
     k_buckets := served wo_buckets (\<lambda>t w. w\<lparr>wo_buckets := t\<rparr>) b_meta (\<lambda>x y. y\<lparr>b_status := b_status x\<rparr>),
     k_claims := served wo_claims (\<lambda>t w. w\<lparr>wo_claims := t\<rparr>) bc_meta (\<lambda>x y. y\<lparr>bc_status := bc_status x\<rparr>),
     k_accesses := served wo_accesses (\<lambda>t w. w\<lparr>wo_accesses := t\<rparr>) ba_meta (\<lambda>x y. y\<lparr>ba_status := ba_status x\<rparr>),
     k_policies := served wo_policies (\<lambda>t w. w\<lparr>wo_policies := t\<rparr>) bp_meta (\<lambda>x y. y\<lparr>bp_status := bp_status x\<rparr>),
     k_secrets := served wo_secrets (\<lambda>t w. w\<lparr>wo_secrets := t\<rparr>) sec_meta (\<lambda>x y. y)\<rparr>"

lemma server_laws: "retry_law server" "cond_law server"
  by (simp_all add: server_def quiet_kube_def quiet_retry_law quiet_cond_law)

lemma server_simps [simp]:
  "k_retry server = (\<lambda>m. m)" "k_now server w = (0, w)" "k_find_condition server = find_cond"
  by (simp_all add: server_def quiet_kube_def)

lemma server_tables:
  "k_stores server = served wo_stores (\<lambda>t w. w\<lparr>wo_stores := t\<rparr>) os_meta (\<lambda>x y. y\<lparr>os_status := os_status x\<rparr>)"
  "k_buckets server = served wo_buckets (\<lambda>t w. w\<lparr>wo_buckets := t\<rparr>) b_meta (\<lambda>x y. y\<lparr>b_status := b_status x\<rparr>)"
  "k_claims server = served wo_claims (\<lambda>t w. w\<lparr>wo_claims := t\<rparr>) bc_meta (\<lambda>x y. y\<lparr>bc_status := bc_status x\<rparr>)"
  "k_accesses server = served wo_accesses (\<lambda>t w. w\<lparr>wo_accesses := t\<rparr>) ba_meta (\<lambda>x y. y\<lparr>ba_status := ba_status x\<rparr>)"
  "k_secrets server = served wo_secrets (\<lambda>t w. w\<lparr>wo_secrets := t\<rparr>) sec_meta (\<lambda>x y. y)"
  by (simp_all add: server_def)

text \<open>Reads and writes of an object that is there.\<close>

lemma served_get: "map_of (sel w) ky = Some x \<Longrightarrow> r_get (served sel upd meta sts) rd ky w = (Inr x, w)"
  "map_of (sel w) ky = None \<Longrightarrow> r_get (served sel upd meta sts) rd ky w = (Inl not_found, w)"
  by (simp_all add: served_def)

lemma served_write:
  assumes "map_of (sel w) (m_namespace (meta x), m_name (meta x)) = Some y"
  shows "r_update (served sel upd meta sts) x w
      = (None, upd (AList.update (m_namespace (meta (sts y x)), m_name (meta (sts y x))) (sts y x) (sel w)) w)"
    and "r_update_status (served sel upd meta sts) x w
      = (None, upd (AList.update (m_namespace (meta (sts x y)), m_name (meta (sts x y))) (sts x y) (sel w)) w)"
  using assms by (simp_all add: served_def Let_def)

lemma served_upsert:
  assumes "f (case map_of (sel w) (m_namespace (meta x), m_name (meta x)) of None \<Rightarrow> x | Some y \<Rightarrow> y) = Inr z"
  shows "r_create_or_update (served sel upd meta sts) x f w
      = (Inr z, upd (AList.update (m_namespace (meta z), m_name (meta z)) z (sel w)) w)"
  using assms by (simp add: served_def Let_def)

section \<open>A status write\<close>

lemma wp_write_served:
  fixes sel :: "'b world \<Rightarrow> 'o tbl"
  assumes x: "map_of (sel w) ky = Some x" "(m_namespace (meta x), m_name (meta x)) = ky"
    and f: "f (case fld x of None \<Rightarrow> zero | Some st \<Rightarrow> st) = after" "after \<noteq> zero"
    and put: "\<And>st. meta (put st x) = meta x" "sts (put after x) x = put after x" "fld x = Some after \<Longrightarrow> put after x = x"
    and upd: "upd (sel w) w = w"
    and Q: "\<And>tb u. map_of tb = (map_of (sel w))(ky \<mapsto> put after x) \<Longrightarrow> Q None (upd tb w, u)"
  shows "wp (write_status server k mk (served sel upd meta sts) ky fld put zero f) Q (w, t)"
proof -
  have same: "fld x = Some after" if "(case fld x of None \<Rightarrow> zero | Some st \<Rightarrow> st) = after"
    using that f(2) by (cases "fld x") auto
  have keep: "Q None (w, u)" if "(case fld x of None \<Rightarrow> zero | Some st \<Rightarrow> st) = after" for u
    using Q [of "sel w" u] put(3) [OF same [OF that]] x(1) upd by (simp add: fun_upd_idem)
  have key: "map_of (sel w) (m_namespace (meta (put after x)), m_name (meta (put after x))) = Some x"
    using x by (simp add: put(1))
  have wr: "r_update_status (served sel upd meta sts) (put after x) w = (None, upd (AList.update ky (put after x) (sel w)) w)"
    using served_write(2) [of sel w meta, OF key, of upd sts] x(2) by (simp add: put)
  show ?thesis
    unfolding write_status_def server_simps kget_def kupdate_status_def
  proof (rule wp_bind, rule wp_call, goal_cases)
    case (1 r w')
    then have r: "r = Inr x" "w' = w" using served_get(1) [of sel, OF x(1)] by auto
    show ?case
      unfolding r map_sum.simps sum.case Let_def
    proof (rule wp_if, goal_cases)
      case 1
      then show ?case using keep f(1) by (intro wp_return) simp
    next
      case 2
      show ?case
        unfolding f(1) by (rule wp_call) (auto simp: wr update_conv' intro!: Q)
    qed
  qed
qed

text \<open>The claim after the end of a pass that bound it.\<close>

definition bound_as :: "bucket_claim \<Rightarrow> string \<Rightarrow> bool" where
  "bound_as cl n \<longleftrightarrow> boundName cl = n \<and> (\<exists>st d. bc_status cl = Some st
     \<and> find_cond (bcs_conditions st) BucketClaimConditionBound = Some d \<and> c_status d = ConditionTrue)"

lemma bound_as_bound: "bound_as cl n \<Longrightarrow> boundName cl = n \<and> claimBound server cl"
  by (auto simp: bound_as_def claimBound_def)

lemma wp_claim_finish_served:
  fixes w :: "'b world"
  assumes c: "map_of (wo_claims w) (claim_key c) = Some x" "claim_key x = claim_key c"
    and sb: "stat sb BucketClaimConditionBound = Some ConditionTrue" and ob: "co_bound_bucket_name ob = n" "n \<noteq> []"
    and Q: "\<And>out tb st u. map_of tb = (map_of (wo_claims w))(claim_key c \<mapsto> x\<lparr>bc_status := Some st\<rparr>) \<Longrightarrow>
      bound_as (x\<lparr>bc_status := Some st\<rparr>) n \<Longrightarrow> Q out (w\<lparr>wo_claims := tb\<rparr>, u)"
  shows "wp (claim_finish cfg server c sb ob None) Q (w, t)"
proof -
  let ?old = "case bc_status x of None \<Rightarrow> empty_claim_status | Some st \<Rightarrow> st"
  let ?st = "claim_status_of (server :: 'b world kube) c sb ob ?old"
  have conds: "bcs_conditions ?st = flush (server :: 'b world kube) (bcs_conditions ?old) sb" and name: "bcs_bound_bucket_name ?st = n"
    using claim_status_fields ob by auto
  obtain d where d: "find_cond (bcs_conditions ?st) BucketClaimConditionBound = Some d" "c_status d = ConditionTrue"
    using flush_stat [OF server_laws(2) sb, of "bcs_conditions ?old"] unfolding conds by auto
  have b: "bound_as (x\<lparr>bc_status := Some ?st\<rparr>) n"
    using d name by (simp add: bound_as_def boundName_def)
  have "?st \<noteq> empty_claim_status" using name ob(2) by (auto simp: empty_claim_status_def)
  then show ?thesis
    unfolding claim_finish_def claim_updateStatus_def server_tables finish_with_def
    by (intro wp_bind wp_write_served [where x = x]) (use c b Q in \<open>auto simp: claim_key_def intro!: wp_let wp_return\<close>)
qed

section \<open>The pass over a claim\<close>

text \<open>The bucket that a greenfield claim keeps, from what is stored under its name.\<close>

definition kept_bucket :: "bucket_claim \<Rightarrow> bucket option \<Rightarrow> bucket" where
  "kept_bucket c ob = (let b = (case ob of None \<Rightarrow> bare_bucket (greenfieldBucketName c) | Some b \<Rightarrow> b) in
     b\<lparr>b_meta := (b_meta b)\<lparr>m_labels := (m_labels (b_meta b))(LabelBucketOrigin \<mapsto> BucketOriginBucketClaim,
         LabelOwnedByClaimNamespace \<mapsto> m_namespace (bc_meta c), LabelOwnedByClaimName \<mapsto> m_name (bc_meta c))\<rparr>,
       b_spec := (b_spec b)\<lparr>b_object_store_ref := bc_object_store_ref (bc_spec c), b_access_policy := bc_access_policy (bc_spec c),
         b_reclaim_policy := bc_reclaim_policy (bc_spec c), b_quota := bc_quota (bc_spec c)\<rparr>\<rparr>)"

lemma kept_bucket_mutate:
  "greenfield_mutate c (case ob of None \<Rightarrow> bare_bucket (greenfieldBucketName c) | Some b \<Rightarrow> b) = Inr (kept_bucket c ob)"
  by (simp add: greenfield_mutate_def kept_bucket_def Let_def)

definition own_name :: "string \<Rightarrow> bucket option \<Rightarrow> bool" where
  "own_name n ob \<longleftrightarrow> (case ob of None \<Rightarrow> True | Some b \<Rightarrow> m_name (b_meta b) = n \<and> m_namespace (b_meta b) = [])"

lemma kept_bucket_key:
  "own_name (greenfieldBucketName c) ob \<Longrightarrow> m_name (b_meta (kept_bucket c ob)) = greenfieldBucketName c"
  "own_name (greenfieldBucketName c) ob \<Longrightarrow> m_namespace (b_meta (kept_bucket c ob)) = []"
  by (auto simp: kept_bucket_def own_name_def bare_bucket_def fresh_meta_def Let_def split: option.splits)

lemma greenfield_nonempty: "greenfieldBucketName c \<noteq> []"
  using greenfield_shape [of c] by (auto simp: ReservedBucketNamePrefix_def)

lemma wp_claim_normal_served:
  fixes w :: "'b world"
  assumes c: "map_of (wo_claims w) (claim_key c) = Some x" "claim_key x = claim_key c"
    and green: "bc_existing_bucket_name (bc_spec c) = []" "bc_object_store_ref (bc_spec c) \<noteq> []"
    and ob: "map_of (wo_buckets w) ([], greenfieldBucketName c) = ob" "own_name (greenfieldBucketName c) ob"
    and Q: "\<And>out tb btb st u. map_of tb = (map_of (wo_claims w))(claim_key c \<mapsto> x\<lparr>bc_status := Some st\<rparr>) \<Longrightarrow>
      bound_as (x\<lparr>bc_status := Some st\<rparr>) (greenfieldBucketName c) \<Longrightarrow>
      map_of btb = (map_of (wo_buckets w))(([], greenfieldBucketName c) \<mapsto> kept_bucket c ob) \<Longrightarrow>
      Q out (w\<lparr>wo_buckets := btb, wo_claims := tb\<rparr>, u)"
  shows "wp (claim_reconcileNormal re cfg server c) Q (w, t)"
proof -
  let ?g = "greenfieldBucketName c"
  let ?btb = "AList.update ([], ?g) (kept_bucket c ob) (wo_buckets w)"
  let ?w = "w\<lparr>wo_buckets := ?btb\<rparr>"
  have upsert: "r_create_or_update (k_buckets server) (bare_bucket ?g) (greenfield_mutate c) w = (Inr (kept_bucket c ob), ?w)"
    using served_upsert [where f = "greenfield_mutate c" and sel = wo_buckets and w = w and meta = b_meta and x = "bare_bucket ?g" and z = "kept_bucket c ob"] kept_bucket_mutate [of c ob] ob
    by (simp add: server_tables kept_bucket_key bare_bucket_def fresh_meta_def)
  have get: "r_get (k_buckets server) Cached ([], ?g) ?w = (Inr (kept_bucket c ob), ?w)"
    unfolding server_tables by (rule served_get(1)) (simp add: update_conv')
  have fin: "wp (claim_finish cfg server c sb obs None) Q (?w, u)"
    if "stat sb BucketClaimConditionBound = Some ConditionTrue" "co_bound_bucket_name obs = ?g" for sb obs u
    by (rule wp_claim_finish_served [where x = x, OF _ c(2) that greenfield_nonempty])
      (use c(1) Q [of _ _ ?btb] in \<open>auto simp: update_conv'\<close>)
  show ?thesis
    unfolding claim_reconcileNormal_def ensureBound_def ensureGreenfield_def Let_def      kcreate_or_update_def kget_def
    by (intro wp_rules) (use upsert get in \<open>auto simp: green advance_def bucketClaimStageOrder_def condition_type_defs stat_gateAfter conditionReady_def
      intro!: fin split: if_splits option.splits\<close>)
qed

text \<open>What a claim asks for stays the same while it is reconciled.\<close>

definition same_claim :: "bucket_claim \<Rightarrow> bucket_claim \<Rightarrow> bool" where
  "same_claim c d \<longleftrightarrow> bc_spec d = bc_spec c \<and> claim_key d = claim_key c \<and> m_deleting (bc_meta d) = m_deleting (bc_meta c)"

lemma same_claim_facts:
  assumes "same_claim c d"
  shows "greenfieldBucketName d = greenfieldBucketName c" and "kept_bucket d ob = kept_bucket c ob" and "claim_key d = claim_key c"
  using assms by (auto simp: same_claim_def claim_key_def greenfieldBucketName_def kept_bucket_def Let_def split: option.split)

lemma same_claim_simps [simp]:
  "same_claim c c" "same_claim c (c\<lparr>bc_status := st\<rparr>)" "same_claim c (c\<lparr>bc_meta := add_finalizer (bc_meta c)\<rparr>)"
  "same_claim c (c\<lparr>bc_meta := add_finalizer (bc_meta c), bc_status := st\<rparr>)"
  by (simp_all add: same_claim_def claim_key_def add_finalizer_def)

lemma claim_pass_served:
  fixes w :: "'b world"
  assumes c: "map_of (wo_claims w) ky = Some c" "claim_key c = ky" "\<not> m_deleting (bc_meta c)"
    and green: "bc_existing_bucket_name (bc_spec c) = []" "bc_object_store_ref (bc_spec c) \<noteq> []"
    and ob: "map_of (wo_buckets w) ([], greenfieldBucketName c) = ob" "own_name (greenfieldBucketName c) ob"
    and Q: "\<And>out tb btb d u. map_of tb = (map_of (wo_claims w))(ky \<mapsto> d) \<Longrightarrow> same_claim c d \<Longrightarrow>
      bound_as d (greenfieldBucketName c) \<Longrightarrow> map_of btb = (map_of (wo_buckets w))(([], greenfieldBucketName c) \<mapsto> kept_bucket c ob) \<Longrightarrow>
      Q out (w\<lparr>wo_buckets := btb, wo_claims := tb\<rparr>, u)"
  shows "wp (claim_Reconcile re cfg server ky) Q (w, t)"
proof -
  let ?c1 = "c\<lparr>bc_meta := add_finalizer (bc_meta c)\<rparr>"
  let ?w1 = "w\<lparr>wo_claims := AList.update ky ?c1 (wo_claims w)\<rparr>"
  have get: "r_get (k_claims server) Cached ky w = (Inr c, w)"
    unfolding server_tables by (rule served_get(1)) (rule c(1))
  have upd: "r_update (k_claims server) ?c1 w = (None, ?w1)"
    using served_write(1) [where sel = wo_claims and w = w and meta = bc_meta and x = ?c1 and y = c] c(1,2)
    by (simp add: server_tables claim_key_def add_finalizer_def)
  have plain: "wp (claim_reconcileNormal re cfg server c) Q (w, u)" for u
    by (rule wp_claim_normal_served [where x = c and ob = ob]) (use c green ob in \<open>auto intro: Q\<close>)
  have first: "wp (claim_reconcileNormal re cfg server ?c1) Q (?w1, u)" for u
    by (rule wp_claim_normal_served [where x = ?c1 and ob = ob])
      (use c green ob Q same_claim_facts [of c ?c1] in \<open>auto simp: update_conv'\<close>)
  show ?thesis
    unfolding claim_Reconcile_def kget_def kupdate_def Let_def
    by (intro wp_rules) (use get upd c plain first in auto)
qed

section \<open>The pass over the bucket\<close>

text \<open>A driver that does what it is asked, on its own part of the world.\<close>

definition willing :: "'b world driver \<Rightarrow> object_store \<Rightarrow> bool" where
  "willing d c \<longleftrightarrow> (\<forall>b w. \<exists>s x. d_ensure_bucket d c b w = ((s, None), w\<lparr>wo_backend := x\<rparr>) \<and> bst_ready s)
     \<and> (\<forall>b a f w. \<exists>s x. d_ensure_access d c b a f w = ((s, None), w\<lparr>wo_backend := x\<rparr>) \<and> as_ready s
          \<and> (f \<longrightarrow> as_access_key_id s \<noteq> [] \<and> as_secret_access_key s \<noteq> []))"

lemma willing_ensures:
  assumes "willing d c"
  shows "\<exists>s x. d_ensure_access d c b a f w = ((s, None), w\<lparr>wo_backend := x\<rparr>) \<and> as_ready s
    \<and> (f \<longrightarrow> as_access_key_id s \<noteq> [] \<and> as_secret_access_key s \<noteq> [])"
  using assms [unfolded willing_def, THEN conjunct2, rule_format] .

definition ready_in :: "condition list \<Rightarrow> bool" where
  "ready_in conds \<longleftrightarrow> (\<exists>d. find_cond conds conditionReady = Some d \<and> c_status d = ConditionTrue)"

definition store_is_ready :: "object_store \<Rightarrow> bool" where
  "store_is_ready c \<longleftrightarrow> (\<exists>st. os_status c = Some st \<and> ready_in (oss_conditions st))"

definition bucket_is_ready :: "bucket \<Rightarrow> bool" where
  "bucket_is_ready b \<longleftrightarrow> (\<exists>st. b_status b = Some st \<and> ready_in (bs_conditions st))"

lemma ready_states:
  "store_is_ready c \<Longrightarrow> clusterReadyState server c = Some ConditionTrue" "bucket_is_ready b \<Longrightarrow> bucketReadyState server b = Some ConditionTrue"
  by (auto simp: store_is_ready_def bucket_is_ready_def ready_in_def clusterReadyState_def bucketReadyState_def condition_type_defs conditionReady_def)

definition same_bucket :: "bucket \<Rightarrow> bucket \<Rightarrow> bool" where
  "same_bucket b d \<longleftrightarrow> b_spec d = b_spec b \<and> m_name (b_meta d) = m_name (b_meta b) \<and> m_namespace (b_meta d) = m_namespace (b_meta b)
     \<and> m_labels (b_meta d) = m_labels (b_meta b) \<and> m_deleting (b_meta d) = m_deleting (b_meta b)"

lemma same_bucket_simps [simp]:
  "same_bucket b b" "same_bucket b (b\<lparr>b_status := st\<rparr>)" "same_bucket b (b\<lparr>b_meta := add_finalizer (b_meta b)\<rparr>)"
  "same_bucket b (b\<lparr>b_meta := add_finalizer (b_meta b), b_status := st\<rparr>)"
  by (simp_all add: same_bucket_def add_finalizer_def)

lemma wp_bucket_finish_served:
  fixes w :: "'b world"
  assumes b: "map_of (wo_buckets w) ([], m_name (b_meta b)) = Some x" "m_name (b_meta x) = m_name (b_meta b)" "m_namespace (b_meta x) = []"
    and sb: "stat sb conditionReady = Some ConditionTrue"
    and Q: "\<And>out tb st u. map_of tb = (map_of (wo_buckets w))(([], m_name (b_meta b)) \<mapsto> x\<lparr>b_status := Some st\<rparr>) \<Longrightarrow>
      bucket_is_ready (x\<lparr>b_status := Some st\<rparr>) \<Longrightarrow> Q out (w\<lparr>wo_buckets := tb\<rparr>, u)"
  shows "wp (bucket_finish cfg server b sb ob None) Q (w, t)"
proof -
  let ?old = "case b_status x of None \<Rightarrow> empty_bucket_status | Some st \<Rightarrow> st"
  let ?st = "bucket_status_of (server :: 'b world kube) b sb ob ?old"
  have conds: "bs_conditions ?st = flush (server :: 'b world kube) (bs_conditions ?old) sb"
    by (simp add: bucket_status_of_def Let_def)
  obtain d where "find_cond (bs_conditions ?st) conditionReady = Some d" "c_status d = ConditionTrue"
    using flush_stat [OF server_laws(2) sb, of "bs_conditions ?old"] unfolding conds by auto
  then have r: "bucket_is_ready (x\<lparr>b_status := Some ?st\<rparr>)"
    by (auto simp: bucket_is_ready_def ready_in_def)
  have "?st \<noteq> empty_bucket_status"
    using flush_not_empty [where K = "server :: 'b world kube", OF server_laws(2), of sb conditionReady "bs_conditions ?old"] sb conds by (auto simp: empty_bucket_status_def)
  then show ?thesis
    unfolding bucket_finish_def bucket_updateStatus_def server_tables finish_with_def
    by (intro wp_bind wp_write_served [where x = x]) (use b r Q in \<open>auto intro!: wp_let wp_return\<close>)
qed

lemma wp_bucket_normal_served:
  fixes w :: "'b world"
  assumes b: "map_of (wo_buckets w) ([], m_name (b_meta b)) = Some x" "m_name (b_meta x) = m_name (b_meta b)" "m_namespace (b_meta x) = []"
    and store: "b_object_store_ref (b_spec b) \<noteq> []" "map_of (wo_stores w) ([], b_object_store_ref (b_spec b)) = Some c" "store_is_ready c"
    and driver: "Registry_For reg c = Inr d" "willing d c"
    and Q: "\<And>out tb st v u. map_of tb = (map_of (wo_buckets w))(([], m_name (b_meta b)) \<mapsto> x\<lparr>b_status := Some st\<rparr>) \<Longrightarrow>
      bucket_is_ready (x\<lparr>b_status := Some st\<rparr>) \<Longrightarrow> Q out (w\<lparr>wo_backend := v, wo_buckets := tb\<rparr>, u)"
  shows "wp (bucket_reconcileNormal reg cfg server b) Q (w, t)"
proof -
  have get: "r_get (k_stores server) Cached ([], b_object_store_ref (b_spec b)) w = (Inr c, w)"
    unfolding server_tables by (rule served_get(1)) (rule store(2))
  obtain s v where ens: "d_ensure_bucket d c b w = ((s, None), w\<lparr>wo_backend := v\<rparr>)" "bst_ready s"
    using driver(2) unfolding willing_def by blast
  have fin: "wp (bucket_finish cfg server b sb obs None) Q (w\<lparr>wo_backend := v\<rparr>, u)" if "stat sb conditionReady = Some ConditionTrue" for sb obs u
    by (rule wp_bucket_finish_served [where x = x]) (use b that Q in auto)
  show ?thesis
    unfolding bucket_reconcileNormal_def getCluster_def kget_def EnsureBucket_def Let_def
    by (intro wp_rules)
      (use get ens driver(1) store ready_states(1) [OF store(3), where ?'a = 'b] in
        \<open>auto simp: advance_def BucketConditionReady_def conditionReady_def intro!: fin split: if_splits option.splits\<close>)
qed

lemma bucket_pass_served:
  fixes w :: "'b world"
  assumes b: "map_of (wo_buckets w) ([], n) = Some b" "m_name (b_meta b) = n" "m_namespace (b_meta b) = []" "\<not> m_deleting (b_meta b)"
    and store: "b_object_store_ref (b_spec b) \<noteq> []" "map_of (wo_stores w) ([], b_object_store_ref (b_spec b)) = Some c" "store_is_ready c"
    and driver: "Registry_For reg c = Inr d" "willing d c"
    and Q: "\<And>out tb y v u. map_of tb = (map_of (wo_buckets w))(([], n) \<mapsto> y) \<Longrightarrow> same_bucket b y \<Longrightarrow>
      bucket_is_ready y \<Longrightarrow> Q out (w\<lparr>wo_backend := v, wo_buckets := tb\<rparr>, u)"
  shows "wp (bucket_Reconcile reg cfg server n) Q (w, t)"
proof -
  let ?b1 = "b\<lparr>b_meta := add_finalizer (b_meta b)\<rparr>"
  let ?w1 = "w\<lparr>wo_buckets := AList.update ([], n) ?b1 (wo_buckets w)\<rparr>"
  have get: "r_get (k_buckets server) Cached ([], n) w = (Inr b, w)"
    unfolding server_tables by (rule served_get(1)) (rule b(1))
  have upd: "r_update (k_buckets server) ?b1 w = (None, ?w1)"
    using served_write(1) [where sel = wo_buckets and w = w and meta = b_meta and x = ?b1 and y = b] b(1-3)
    by (simp add: server_tables add_finalizer_def)
  have plain: "wp (bucket_reconcileNormal reg cfg server b) Q (w, u)" for u
    by (rule wp_bucket_normal_served [where x = b, OF _ _ _ store driver]) (use b in \<open>auto intro: Q\<close>)
  have first: "wp (bucket_reconcileNormal reg cfg server ?b1) Q (?w1, u)" for u
    by (rule wp_bucket_normal_served [where x = ?b1 and c = c, OF _ _ _ _ _ _ driver])
      (use b store Q in \<open>auto simp: update_conv' add_finalizer_def [of "b_meta b"] same_bucket_def\<close>)
  show ?thesis
    unfolding bucket_Reconcile_def kget_def kupdate_def Let_def
    by (intro wp_rules) (use get upd b plain first in auto)
qed

section \<open>The pass over the access\<close>

text \<open>The access and its Secret after the pass: Ready, and the Secret has the recorded key, its secret part and the bucket.\<close>

definition credentials_held :: "bucket_access \<Rightarrow> secret \<Rightarrow> bool" where
  "credentials_held a sec \<longleftrightarrow> (\<exists>st key. ba_status a = Some st \<and> bas_phase st = PhaseReady \<and> bas_secret_ref st = Some (credentialsSecretName a)
     \<and> bas_access_key_id st \<noteq> [] \<and> sec_data sec SecretKeyAccessKeyID = Some (bas_access_key_id st)
     \<and> key \<noteq> [] \<and> sec_data sec SecretKeySecretAccessID = Some key)"

lemma wp_access_finish_served:
  fixes w :: "'b world"
  assumes a: "map_of (wo_accesses w) (access_key a) = Some x" "access_key x = access_key a"
    and sb: "\<And>s. s \<in> set bucketAccessStageOrder \<union> {conditionReady} \<Longrightarrow> stat sb s = Some ConditionTrue"
    and ob: "\<not> ao_revoked ob" "ao_access_key_id ob \<noteq> []" "ao_secret_name ob \<noteq> []"
    and Q: "\<And>out tb st u. map_of tb = (map_of (wo_accesses w))(access_key a \<mapsto> x\<lparr>ba_status := Some st\<rparr>) \<Longrightarrow> bas_phase st = PhaseReady \<Longrightarrow>
      bas_secret_ref st = Some (ao_secret_name ob) \<Longrightarrow> bas_access_key_id st = ao_access_key_id ob \<Longrightarrow> Q out (w\<lparr>wo_accesses := tb\<rparr>, u)"
  shows "wp (access_finish cfg server a sb ob None) Q (w, t)"
proof -
  let ?old = "case ba_status x of None \<Rightarrow> empty_access_status | Some st \<Rightarrow> st"
  let ?new = "\<lambda>now. record_credentials ob now (access_status_of (server :: 'b world kube) a sb ob ?old)"
  have get: "r_get (k_accesses server) Cached (access_key a) w = (Inr x, w)"
    unfolding server_tables by (rule served_get(1)) (rule a(1))
  have put: "r_update_status (k_accesses server) (x\<lparr>ba_status := st\<rparr>) w
      = (None, w\<lparr>wo_accesses := AList.update (access_key a) (x\<lparr>ba_status := st\<rparr>) (wo_accesses w)\<rparr>)" for st
    using served_write(2) [where sel = wo_accesses and w = w and meta = ba_meta and x = "x\<lparr>ba_status := st\<rparr>" and y = x] a
    by (simp add: server_tables access_key_def access_ns_def)
  have "settled bucketAccessStageOrder sb" "aggregateReady sb"
    using sb by (auto simp: settled_def aggregateReady_stat)
  then have phase: "bas_phase (?new now) = PhaseReady" for now
    using access_stages.settled_ready_iff [where K = "server :: 'b world kube", OF server_laws(2)] by (simp add: access_status_fields)
  have new: "bas_phase (?new now) = PhaseReady" "bas_secret_ref (?new now) = Some (ao_secret_name ob)"
    "bas_access_key_id (?new now) = ao_access_key_id ob" for now
    by (rule phase, rule record_credentials_fields(1) [OF ob(3)], rule record_credentials_fields(2) [OF ob(2)])
  have same: "ba_status x = Some (?new now)" if "?old = ?new now" for now
    using that new(3) [of now] ob(2) by (cases "ba_status x") auto
  have keep: "Q out (w, u)" if "?old = ?new now" for out now u
    using Q [of "wo_accesses w", OF _ new, of now out u] same [OF that] a(1) by (simp add: fun_upd_idem)
  have wrote: "Q out (w\<lparr>wo_accesses := AList.update (access_key a) (x\<lparr>ba_status := Some (?new now)\<rparr>) (wo_accesses w)\<rparr>, u)" for out now u
    by (rule Q [OF _ new]) (simp add: update_conv')
  show ?thesis
    unfolding access_finish_def access_updateStatus_def finish_with_def server_simps kget_def kupdate_status_def Let_def
    by (intro wp_rules) (use get put ob(1) keep wrote in auto)
qed

text \<open>The owner reference is set and the object keeps its name.\<close>

definition owning :: "own_ref \<Rightarrow> bool" where
  "owning own \<longleftrightarrow> (\<forall>a m. \<exists>m'. own a m = Inr m' \<and> m_name m' = m_name m \<and> m_namespace m' = m_namespace m)"

definition own_secret :: "key \<Rightarrow> secret option \<Rightarrow> bool" where
  "own_secret ky o' \<longleftrightarrow> (case o' of None \<Rightarrow> True | Some y \<Rightarrow> (m_namespace (sec_meta y), m_name (sec_meta y)) = ky)"

definition secret_key :: "bucket_access \<Rightarrow> key" where
  "secret_key a = (access_ns a, credentialsSecretName a)"

definition pair_written :: "access_state \<Rightarrow> secret \<Rightarrow> bool" where
  "pair_written s z \<longleftrightarrow> sec_data z SecretKeyAccessKeyID = Some (as_access_key_id s) \<and> sec_data z SecretKeySecretAccessID = Some (as_secret_access_key s)"

lemma ensure_secret_served:
  fixes w :: "'b world"
  assumes own: "owning own" and o: "own_secret (secret_key a) (map_of (wo_secrets w) (secret_key a))" and s: "as_secret_access_key s \<noteq> []"
  obtains z tb where "pair_written s z" and "map_of tb = (map_of (wo_secrets w))(secret_key a \<mapsto> z)"
    and "r_create_or_update (k_secrets server) \<lparr>sec_meta = fresh_meta (credentialsSecretName a) (access_ns a) Map.empty, sec_data = Map.empty, sec_string_data = Map.empty\<rparr>
      (credentials_mutate own a (credentials_data c b s existing)) w = (Inr z, w\<lparr>wo_secrets := tb\<rparr>)"
proof -
  let ?x = "\<lparr>sec_meta = fresh_meta (credentialsSecretName a) (access_ns a) Map.empty, sec_data = Map.empty, sec_string_data = Map.empty\<rparr>"
  let ?y = "case map_of (wo_secrets w) (secret_key a) of None \<Rightarrow> ?x | Some y \<Rightarrow> y"
  have key: "(m_namespace (sec_meta ?y), m_name (sec_meta ?y)) = secret_key a"
    using o by (auto simp: own_secret_def secret_key_def fresh_meta_def split: option.split)
  let ?m = "(sec_meta ?y)\<lparr>m_labels := (m_labels (sec_meta ?y))(''storage.deckhouse.io/bucket-access'' \<mapsto> m_name (ba_meta a))\<rparr>"
  obtain m where "own a ?m = Inr m" "m_name m = m_name ?m" "m_namespace m = m_namespace ?m"
    using own unfolding owning_def by meson
  then have m: "own a ?m = Inr m" "m_name m = m_name (sec_meta ?y)" "m_namespace m = m_namespace (sec_meta ?y)" by simp_all
  let ?z = "?y\<lparr>sec_meta := m, sec_data := sec_data ?y ++ credentials_data c b s existing\<rparr>"
  have pair: "pair_written s ?z"
    using s by (auto simp: pair_written_def credentials_data_def SecretKeyAccessKeyID_def SecretKeySecretAccessID_def Let_def split: option.split prod.split)
  have "r_create_or_update (k_secrets server) ?x (credentials_mutate own a (credentials_data c b s existing)) w
      = (Inr ?z, w\<lparr>wo_secrets := AList.update (secret_key a) ?z (wo_secrets w)\<rparr>)"
    using served_upsert [where f = "credentials_mutate own a (credentials_data c b s existing)" and sel = wo_secrets and w = w and meta = sec_meta and x = ?x and z = ?z] m key
    by (simp add: server_tables credentials_mutate_def secret_key_def fresh_meta_def)
  then show ?thesis
    by (rule that [OF pair, rotated]) (simp add: update_conv')
qed

lemma wp_access_store_served:
  fixes w :: "'b world"
  assumes own: "owning own" and o: "own_secret (secret_key a) (map_of (wo_secrets w) (secret_key a))"
    and s: "as_access_key_id s \<noteq> []" "as_secret_access_key s \<noteq> []"
    and a: "map_of (wo_accesses w) (access_key a) = Some x" "access_key x = access_key a"
    and sb: "stat sb BucketAccessConditionAccessGranted = Some ConditionTrue"
    and ob: "\<not> ao_revoked ob" "ao_access_key_id ob = as_access_key_id s"
    and Q: "\<And>out tb stb st z u. map_of tb = (map_of (wo_accesses w))(access_key a \<mapsto> x\<lparr>ba_status := Some st\<rparr>) \<Longrightarrow>
      map_of stb = (map_of (wo_secrets w))(secret_key a \<mapsto> z) \<Longrightarrow> bas_phase st = PhaseReady \<Longrightarrow>
      bas_secret_ref st = Some (credentialsSecretName a) \<Longrightarrow> bas_access_key_id st = as_access_key_id s \<Longrightarrow> pair_written s z \<Longrightarrow>
      Q out (w\<lparr>wo_secrets := stb, wo_accesses := tb\<rparr>, u)"
  shows "wp (access_store own cfg server a sb ob b c s existing) Q (w, t)"
proof -
  obtain z stb where z: "pair_written s z" "map_of stb = (map_of (wo_secrets w))(secret_key a \<mapsto> z)"
      "r_create_or_update (k_secrets server) \<lparr>sec_meta = fresh_meta (credentialsSecretName a) (access_ns a) Map.empty, sec_data = Map.empty, sec_string_data = Map.empty\<rparr>
        (credentials_mutate own a (credentials_data c b s existing)) w = (Inr z, w\<lparr>wo_secrets := stb\<rparr>)"
    by (rule ensure_secret_served [OF own o s(2)])
  have fin: "wp (access_finish cfg server a sb' ob' None) Q (w\<lparr>wo_secrets := stb\<rparr>, u)"
    if "\<And>k. k \<in> set bucketAccessStageOrder \<union> {conditionReady} \<Longrightarrow> stat sb' k = Some ConditionTrue"
      "\<not> ao_revoked ob'" "ao_access_key_id ob' = as_access_key_id s" "ao_secret_name ob' = credentialsSecretName a" for sb' ob' u
    by (rule wp_access_finish_served [where x = x, OF _ a(2) that(1,2)])
      (use a(1) that s(1) z Q [where stb = stb and z = z] credentialsSecretName_nonempty in auto)
  show ?thesis
    unfolding access_store_def ensureCredentialsSecret_def kcreate_or_update_def Let_def
    by (intro wp_rules) (use z(3) sb ob in \<open>auto simp: advance_def bucketAccessStageOrder_def condition_type_defs conditionReady_def
      intro!: fin split: if_splits option.splits\<close>)
qed

text \<open>The rest of the pass, over an access that has no key yet. Its bucket \<open>b\<close> is private to the namespace of the access.\<close>

definition entry_open :: "bucket_access \<Rightarrow> bucket_claim \<Rightarrow> bucket \<Rightarrow> bool" where
  "entry_open a cl b \<longleftrightarrow> bound_as cl (m_name (b_meta b)) \<and> m_name (b_meta b) \<noteq> [] \<and> claim_owned b \<and> owner_ns b = access_ns a \<and> bucket_is_ready b"

lemma wp_access_issue_served:
  fixes w :: "'b world"
  assumes own: "owning own" and o: "own_secret (secret_key a) (map_of (wo_secrets w) (secret_key a))"
    and driver: "Registry_For reg c = Inr d" "willing d c" and none: "recorded_key a = []"
    and a: "map_of (wo_accesses w) (access_key a) = Some x" "access_key x = access_key a"
    and sb: "\<not> ao_revoked ob"
    and Q: "\<And>out tb stb st s z v u. map_of tb = (map_of (wo_accesses w))(access_key a \<mapsto> x\<lparr>ba_status := Some st\<rparr>) \<Longrightarrow>
      map_of stb = (map_of (wo_secrets w))(secret_key a \<mapsto> z) \<Longrightarrow> bas_phase st = PhaseReady \<Longrightarrow>
      bas_secret_ref st = Some (credentialsSecretName a) \<Longrightarrow> bas_access_key_id st = as_access_key_id s \<Longrightarrow> pair_written s z \<Longrightarrow>
      as_access_key_id s \<noteq> [] \<Longrightarrow> as_secret_access_key s \<noteq> [] \<Longrightarrow>
      Q out (w\<lparr>wo_backend := v, wo_secrets := stb, wo_accesses := tb\<rparr>, u)"
  shows "wp (access_issue own reg cfg server a sb ob b c) Q (w, t)"
proof -
  have get: "\<exists>r. r_get (k_secrets server) Uncached (secret_key a) w = (r, w) \<and> (case r of Inl e \<Rightarrow> is_not_found e | Inr x \<Rightarrow> True)"
    unfolding server_tables served_def by (auto simp: not_found_def split: option.split)
  have "\<exists>s v. d_ensure_access d c b a True w = ((s, None), w\<lparr>wo_backend := v\<rparr>) \<and> as_ready s
      \<and> (True \<longrightarrow> as_access_key_id s \<noteq> [] \<and> as_secret_access_key s \<noteq> [])"
    by (rule willing_ensures [OF driver(2)])
  then obtain s v where ens: "d_ensure_access d c b a True w = ((s, None), w\<lparr>wo_backend := v\<rparr>)" "as_ready s"
      "as_access_key_id s \<noteq> []" "as_secret_access_key s \<noteq> []"
    by auto
  have store: "wp (access_store own cfg server a sb' ob' b c s existing) Q (w\<lparr>wo_backend := v\<rparr>, u)"
    if "stat sb' BucketAccessConditionAccessGranted = Some ConditionTrue" "\<not> ao_revoked ob'" "ao_access_key_id ob' = as_access_key_id s" for sb' ob' existing u
    by (rule wp_access_store_served [where x = x, OF own _ ens(3,4) _ a(2) that]) (use o a(1) Q [OF _ _ _ _ _ _ ens(3,4)] in auto)
  show ?thesis
    unfolding access_issue_def getSecret_def kget_def EnsureAccess_def Let_def
    by (intro wp_rules) (use get ens driver(1) none sb in \<open>auto simp: advance_def secret_key_def
      intro!: store split: if_splits option.splits sum.splits\<close>)
qed

definition same_access :: "bucket_access \<Rightarrow> bucket_access \<Rightarrow> bool" where
  "same_access a d \<longleftrightarrow> ba_spec d = ba_spec a \<and> access_key d = access_key a"

lemma same_access_facts:
  assumes "same_access a d"
  shows "access_key d = access_key a" "access_ns d = access_ns a" "credentialsSecretName d = credentialsSecretName a" "secret_key d = secret_key a"
  using assms by (auto simp: same_access_def access_key_def secret_key_def credentialsSecretName_def)

lemma same_access_simps [simp]:
  "same_access a a" "same_access a (a\<lparr>ba_status := st\<rparr>)" "same_access a (a\<lparr>ba_meta := add_finalizer (ba_meta a)\<rparr>)"
  "same_access a (a\<lparr>ba_meta := add_finalizer (ba_meta a), ba_status := st\<rparr>)"
  by (simp_all add: same_access_def access_key_def access_ns_def add_finalizer_def)

definition access_served :: "bucket_access \<Rightarrow> 'b world \<Rightarrow> bool" where
  "access_served a w \<longleftrightarrow> (\<exists>x z. map_of (wo_accesses w) (access_key a) = Some x \<and> same_access a x
     \<and> map_of (wo_secrets w) (secret_key a) = Some z \<and> credentials_held x z)"

lemma access_served_after:
  assumes "map_of tb = (map_of (wo_accesses w))(access_key a \<mapsto> x\<lparr>ba_status := Some st\<rparr>)" "map_of stb = (map_of (wo_secrets w))(secret_key a \<mapsto> z)"
    and "bas_phase st = PhaseReady" "bas_secret_ref st = Some (credentialsSecretName a)" "bas_access_key_id st = as_access_key_id s"
    and "pair_written s z" "as_access_key_id s \<noteq> []" "as_secret_access_key s \<noteq> []" and x: "same_access a (x\<lparr>ba_status := Some st\<rparr>)"
  shows "access_served a (w\<lparr>wo_backend := v, wo_secrets := stb, wo_accesses := tb\<rparr>)"
  using assms same_access_facts(3) [OF x] by (auto simp: access_served_def credentials_held_def pair_written_def)

lemma wp_access_normal_served:
  fixes w :: "'b world"
  assumes own: "owning own" and o: "own_secret (secret_key a) (map_of (wo_secrets w) (secret_key a))"
    and driver: "Registry_For reg c = Inr d" "willing d c" and none: "recorded_key a = []"
    and a: "map_of (wo_accesses w) (access_key a) = Some x" "same_access a x"
    and claim: "map_of (wo_claims w) (access_ns a, ba_bucket_claim_name (ba_spec a)) = Some cl"
    and bucket: "map_of (wo_buckets w) ([], m_name (b_meta b)) = Some b" "entry_open a cl b"
    and store: "map_of (wo_stores w) ([], b_object_store_ref (b_spec b)) = Some c"
  shows "wp (access_reconcileNormal own re reg cfg server a) (\<lambda>out s'. access_served a (fst s')) (w, t)"
proof -
  let ?n = "m_name (b_meta b)"
  have gets: "r_get (k_claims server) Cached (access_ns a, ba_bucket_claim_name (ba_spec a)) w = (Inr cl, w)"
      "r_get (k_buckets server) Cached ([], ?n) w = (Inr b, w)"
      "r_get (k_stores server) Cached ([], b_object_store_ref (b_spec b)) w = (Inr c, w)"
    unfolding server_tables by (rule served_get(1), rule claim bucket(1) store)+
  have open_facts: "boundName cl = ?n" "claimBound server cl" "?n \<noteq> []" "claim_owned b" "owner_ns b = access_ns a"
      "bucketReadyState server b = Some ConditionTrue"
    using bucket(2) bound_as_bound ready_states(2) by (auto simp: entry_open_def)
  have issue: "wp (access_issue own reg cfg server a sb ob b c) (\<lambda>out s'. access_served a (fst s')) (w, u)"
    if "\<not> ao_revoked ob" for sb ob u
    by (rule wp_access_issue_served [where x = x, OF own o driver none a(1) same_access_facts(1) [OF a(2)] that])
      (use a(2) in \<open>auto intro!: access_served_after simp: same_access_def access_key_def access_ns_def\<close>)
  have gate: "wp (access_gate own re reg cfg server a sb ob cl (Some b) (Some c)) (\<lambda>out s'. access_served a (fst s')) (w, u)"
    if "\<not> ao_revoked ob" for sb ob u
    unfolding access_gate_def accessAuthorized_def
    using issue [OF that] open_facts by (auto simp: claim_owned_def owner_ns_def Let_def intro!: wp_bind wp_return)
  show ?thesis
    unfolding access_reconcileNormal_def resolveBound_def kget_def Let_def
    by (intro wp_rules) (use gets open_facts(1,3) gate in \<open>auto simp: no_access_observed_def split: option.split\<close>)
qed

lemma access_pass_served:
  fixes w :: "'b world"
  assumes own: "owning own" and o: "own_secret (secret_key a) (map_of (wo_secrets w) (secret_key a))"
    and driver: "Registry_For reg c = Inr d" "willing d c" and none: "recorded_key a = []"
    and a: "map_of (wo_accesses w) ky = Some a" "access_key a = ky" "\<not> m_deleting (ba_meta a)"
    and claim: "map_of (wo_claims w) (access_ns a, ba_bucket_claim_name (ba_spec a)) = Some cl"
    and bucket: "map_of (wo_buckets w) ([], m_name (b_meta b)) = Some b" "entry_open a cl b"
    and store: "map_of (wo_stores w) ([], b_object_store_ref (b_spec b)) = Some c"
  shows "wp (access_Reconcile own re reg cfg server ky) (\<lambda>out s'. access_served a (fst s')) (w, t)"
proof -
  let ?a1 = "a\<lparr>ba_meta := add_finalizer (ba_meta a)\<rparr>"
  let ?w1 = "w\<lparr>wo_accesses := AList.update ky ?a1 (wo_accesses w)\<rparr>"
  have a1: "same_access a ?a1" by simp
  have same: "access_served ?a1 v \<Longrightarrow> access_served a v" for v :: "'b world"
    using same_access_facts [OF a1] by (auto simp: access_served_def same_access_def)
  have get: "r_get (k_accesses server) Cached ky w = (Inr a, w)"
    unfolding server_tables by (rule served_get(1)) (rule a(1))
  have upd: "r_update (k_accesses server) ?a1 w = (None, ?w1)"
    using served_write(1) [where sel = wo_accesses and w = w and meta = ba_meta and x = ?a1 and y = a] a(1,2)
    by (simp add: server_tables access_key_def access_ns_def add_finalizer_def)
  have plain: "wp (access_reconcileNormal own re reg cfg server a) (\<lambda>out s'. access_served a (fst s')) (w, u)" for u
    by (rule wp_access_normal_served [OF own o driver none, where x = a, OF _ _ claim bucket store]) (use a in auto)
  have entry: "entry_open ?a1 cl b" using bucket(2) same_access_facts(2) [OF a1] by (simp add: entry_open_def)
  have first: "wp (access_reconcileNormal own re reg cfg server ?a1) (\<lambda>out s'. access_served a (fst s')) (?w1, u)" for u
    by (rule wp_mono [OF wp_access_normal_served [OF own _ driver, where x = ?a1 and a = ?a1 and cl = cl and b = b, OF _ _ _ _ _ _ entry], of _ _ _ _ _])
      (use a o none claim bucket store same same_access_facts [OF a1] in \<open>auto simp: update_conv' recorded_key_def\<close>)
  show ?thesis
    unfolding access_Reconcile_def kget_def kupdate_def Let_def
    by (intro wp_rules) (use get upd a plain first in auto)
qed

section \<open>A namespace is served\<close>

text \<open>The pass over the claim, over the bucket it makes, and over the access.\<close>

definition tenant_passes ::
  "own_ref \<Rightarrow> regexps \<Rightarrow> 'b world registry \<Rightarrow> options \<Rightarrow> bucket_claim \<Rightarrow> bucket_access \<Rightarrow> ('b world, outcome) go" where
  "tenant_passes own re reg cfg c a =
     do { _ \<leftarrow> claim_Reconcile re cfg server (claim_key c);
          _ \<leftarrow> bucket_Reconcile reg cfg server (greenfieldBucketName c);
          access_Reconcile own re reg cfg server (access_key a) }"

text \<open>The claim asks for a new bucket at a Ready store, and the access asks for a key to it. Neither was reconciled before.\<close>

definition asks_for_bucket :: "'b world \<Rightarrow> bucket_claim \<Rightarrow> object_store \<Rightarrow> bool" where
  "asks_for_bucket w c s \<longleftrightarrow> map_of (wo_claims w) (claim_key c) = Some c \<and> \<not> m_deleting (bc_meta c)
     \<and> bc_existing_bucket_name (bc_spec c) = [] \<and> bc_object_store_ref (bc_spec c) \<noteq> []
     \<and> map_of (wo_stores w) ([], bc_object_store_ref (bc_spec c)) = Some s \<and> store_is_ready s
     \<and> map_of (wo_buckets w) ([], greenfieldBucketName c) = None"

definition asks_for_key :: "'b world \<Rightarrow> bucket_claim \<Rightarrow> bucket_access \<Rightarrow> bool" where
  "asks_for_key w c a \<longleftrightarrow> map_of (wo_accesses w) (access_key a) = Some a \<and> \<not> m_deleting (ba_meta a)
     \<and> (access_ns a, ba_bucket_claim_name (ba_spec a)) = claim_key c \<and> recorded_key a = []
     \<and> own_secret (secret_key a) (map_of (wo_secrets w) (secret_key a))"

lemma new_bucket:
  "m_name (b_meta (kept_bucket c None)) = greenfieldBucketName c" "m_namespace (b_meta (kept_bucket c None)) = []"
  "\<not> m_deleting (b_meta (kept_bucket c None))" "b_object_store_ref (b_spec (kept_bucket c None)) = bc_object_store_ref (bc_spec c)"
  "claim_owned (kept_bucket c None)" "owner_ns (kept_bucket c None) = m_namespace (bc_meta c)"
  by (simp_all add: kept_bucket_def bare_bucket_def fresh_meta_def claim_owned_def owner_ns_def LabelBucketOrigin_def LabelOwnedByClaimNamespace_def LabelOwnedByClaimName_def map_str_def Let_def)

text \<open>C9: On an honest API server, with a driver that does what it is asked, a claim for a new bucket and an access to it are served
  by one pass each, with the pass over the bucket between them: the access is then Ready, and its Secret holds the key
  its status records, with the secret part.\<close>

theorem tenant_served:
  fixes w :: "'b world"
  assumes "owning own" and "Registry_For reg s = Inr d" and "willing d s" and "asks_for_bucket w c s" and "asks_for_key w c a"
  shows "wp (tenant_passes own re reg cfg c a) (\<lambda>out s'. access_served a (fst s')) (w, t)"
proof -
  let ?g = "greenfieldBucketName c" and ?b = "kept_bucket c None"
  note claim = assms(4) [unfolded asks_for_bucket_def] and access = assms(5) [unfolded asks_for_key_def]
  have third: "wp (access_Reconcile own re reg cfg server (access_key a)) (\<lambda>out s'. access_served a (fst s')) (v, u)"
    if "wo_accesses v = wo_accesses w" "wo_secrets v = wo_secrets w" "wo_stores v = wo_stores w"
      "map_of (wo_claims v) (claim_key c) = Some cl" "bound_as cl ?g" "map_of (wo_buckets v) ([], ?g) = Some y" "same_bucket ?b y" "bucket_is_ready y"
    for v u cl y
    by (rule access_pass_served [OF assms(1) _ assms(2,3), where b = y and cl = cl])
      (use that access claim new_bucket greenfield_nonempty in \<open>auto simp: entry_open_def same_bucket_def claim_owned_def owner_ns_def claim_key_def\<close>)
  have second: "wp (bucket_Reconcile reg cfg server ?g \<bind> (\<lambda>_. access_Reconcile own re reg cfg server (access_key a))) (\<lambda>out s'. access_served a (fst s')) (v, u)"
    if "wo_accesses v = wo_accesses w" "wo_secrets v = wo_secrets w" "wo_stores v = wo_stores w"
      "map_of (wo_claims v) (claim_key c) = Some cl" "bound_as cl ?g" "map_of (wo_buckets v) ([], ?g) = Some ?b" for v u cl
    by (rule wp_bind, rule bucket_pass_served [OF that(6) new_bucket(1-3), where c = s, OF _ _ _ assms(2,3)])
      (use that claim new_bucket in \<open>auto intro!: third\<close>)
  show ?thesis
    unfolding tenant_passes_def
    by (rule wp_bind, rule claim_pass_served [where c = c and ob = None]) (use claim in \<open>auto simp: own_name_def intro!: second\<close>)
qed

text \<open>A namespace, a Ready store and a driver that gives the key K2.\<close>

definition giving_driver :: "unit world driver" where
  "giving_driver = (NotImplementedDriver BackendGarage)\<lparr>
     d_ensure_bucket := (\<lambda>c b w. ((\<lparr>bst_ready = True, bst_message = [], bst_bucket_name = m_name (b_meta b), bst_unsupported = []\<rparr>, None), w)),
     d_ensure_access := (\<lambda>c b a fresh w.
       ((\<lparr>as_ready = True, as_message = [], as_access_key_id = ''K2'', as_secret_access_key = ''S2''\<rparr>, None), w))\<rparr>"

definition ready_store :: object_store where
  "ready_store = Store_Controller.demo_store\<lparr>os_status := Some (empty_store_status\<lparr>oss_conditions := [true_cond conditionReady]\<rparr>)\<rparr>"

definition new_claim :: bucket_claim where
  "new_claim = demo_claim\<lparr>bc_spec := (bc_spec demo_claim)\<lparr>bc_object_store_ref := ''main'', bc_existing_bucket_name := []\<rparr>\<rparr>"

definition team_world :: "unit world" where
  "team_world = \<lparr>wo_stores = [(([], ''main''), ready_store)], wo_buckets = [], wo_claims = [((''team-a'', ''data''), new_claim)],
     wo_accesses = [((''team-a'', ''app''), team_access None False)], wo_policies = [], wo_secrets = [], wo_backend = ()\<rparr>"

lemma tenant_served_witness:
  "wp (tenant_passes (\<lambda>x m. Inr m) literal_regexps (NewRegistry [giving_driver]) demo_options new_claim (team_access None False))
     (\<lambda>out s'. access_served (team_access None False) (fst s')) (team_world, [])"
proof (rule tenant_served [where s = ready_store and d = giving_driver])
  show "owning (\<lambda>x m. Inr m)" by (simp add: owning_def)
  show "Registry_For (NewRegistry [giving_driver]) ready_store = Inr giving_driver"
    by (simp add: Registry_For_def ResolveBackendType_def Let_def NewRegistry_def giving_driver_def NotImplementedDriver_def ready_store_def Store_Controller.demo_store_def)
  show "willing giving_driver ready_store"
    unfolding willing_def giving_driver_def by (auto intro!: exI [of _ "()"])
  show "asks_for_bucket team_world new_claim ready_store"
    by (simp add: asks_for_bucket_def team_world_def new_claim_def demo_claim_def claim_key_def fresh_meta_def store_is_ready_def ready_in_def
        ready_store_def find_cond_def true_cond_def)
  show "asks_for_key team_world new_claim (team_access None False)"
    by (simp add: asks_for_key_def team_world_def new_claim_def demo_claim_def claim_key_def team_access_def access_key_def access_ns_def
        fresh_meta_def recorded_key_def own_secret_def)
qed

section \<open>A claim that is never served\<close>

text \<open>The value of a label has at most 63 characters, and the API server refuses an object that breaks it. The name of a
  claim may have 253, and becomes the value of a label of its bucket.\<close>

definition labels_fit :: "bucket \<Rightarrow> bool" where
  "labels_fit b \<longleftrightarrow> list_all (\<lambda>l. length (map_str (m_labels (b_meta b)) l) \<le> 63) [LabelBucketOrigin, LabelOwnedByClaimNamespace, LabelOwnedByClaimName]"

definition labels_checked :: "('w, 'x) kube_scheme \<Rightarrow> bool" where
  "labels_checked K \<longleftrightarrow> (\<forall>x f w z. fst (r_create_or_update (k_buckets K) x f w) = Inr z \<longrightarrow> labels_fit z \<and> (\<exists>y. f y = Inr z))"

lemma greenfield_label:
  assumes "greenfield_mutate c y = Inr z"
  shows "map_str (m_labels (b_meta z)) LabelOwnedByClaimName = m_name (bc_meta c)"
  using assms by (auto simp: greenfield_mutate_def map_str_def Let_def)

lemma wp_claim_finish_error: "wp (claim_finish cfg K c sb ob (Some e)) (\<lambda>out s'. snd out \<noteq> None) s"
  by (rule wp_yields, unfold claim_finish_def finish_with_def, intro yields_rules) (auto split: option.splits)

text \<open>C37: So a claim for a new bucket with a longer name is never bound: each of its passes ends in an error, for ever.\<close>

theorem long_claim_never_bound:
  assumes "labels_checked K" and "63 < length (m_name (bc_meta c))" and "bc_existing_bucket_name (bc_spec c) = []" and "bc_object_store_ref (bc_spec c) \<noteq> []"
  shows "wp (claim_reconcileNormal re cfg K c) (\<lambda>out s'. snd out \<noteq> None) (w, t)"
proof -
  have refused: "\<exists>e. fst (r_create_or_update (k_buckets K) x (greenfield_mutate c) w) = Inl e" for x w
  proof (cases "fst (r_create_or_update (k_buckets K) x (greenfield_mutate c) w)")
    case (Inr z)
    then have "labels_fit z" and "\<exists>y. greenfield_mutate c y = Inr z" using assms(1) unfolding labels_checked_def by blast+
    then show ?thesis using greenfield_label [of c _ z] assms(2) by (auto simp: labels_fit_def)
  qed blast
  have ens: "wp (ensureBound re K c sb) (\<lambda>r s'. \<exists>e. snd r = Inl e) (v, u)" for sb v u
    unfolding ensureBound_def ensureGreenfield_def kcreate_or_update_def Let_def if_not_P [OF not_not [THEN iffD2, OF assms(3)]] if_not_P [OF assms(4)]
  proof (intro wp_bind, rule wp_call, goal_cases)
    case (1 r w')
    obtain e where "r = Inl e" using refused [of "bare_bucket (greenfieldBucketName c)" v] 1 by auto
    then show ?case by (auto intro: wp_return)
  qed
  show ?thesis
    unfolding claim_reconcileNormal_def Let_def
    by (intro wp_bind wp_sample, rule wp_mono [OF ens]) (auto simp del: not_None_eq intro!: wp_claim_finish_error split: prod.splits)
qed

text \<open>A server that checks the labels of what is written.\<close>

definition checking_server :: "'b world kube" where
  "checking_server = server\<lparr>k_buckets := (k_buckets server)\<lparr>r_create_or_update := (\<lambda>x f w.
     case r_create_or_update (k_buckets server) x f w of
       (Inl e, w') \<Rightarrow> (Inl e, w)
     | (Inr z, w') \<Rightarrow> if labels_fit z then (Inr z, w') else (Inl (new_err ''must be no more than 63 characters''), w))\<rparr>\<rparr>"

lemma checking_server_law: "labels_checked checking_server"
  by (auto simp: labels_checked_def checking_server_def server_tables served_def Let_def split: sum.splits prod.splits if_splits)

lemma long_claim_never_bound_witness:
  "wp (claim_reconcileNormal literal_regexps demo_options (checking_server :: unit world kube)
     (new_claim\<lparr>bc_meta := fresh_meta (replicate 64 CHR ''a'') ''team-a'' Map.empty\<rparr>)) (\<lambda>out s'. snd out \<noteq> None) (team_world, [])"
  by (rule long_claim_never_bound [OF checking_server_law]) (simp_all add: new_claim_def demo_claim_def fresh_meta_def)

end
