(* ===== verification/Uninstall_Hook.thy ===== *)
theory Uninstall_Hook
  imports Effects Go_Json
begin

text \<open>
  \<open>hooks/go\<close>: the hook that runs after the module was deleted. The controller is gone by then, so nothing would
  ever give up the finalizers it set: the hook takes them off the module's objects, and removes the webhook
  configurations. The Kubernetes client of the hook is a parameter, like the ones of the controller;
  \<open>errors.Join\<close> is a list of the errors joined, none of them being no error.
\<close>

section \<open>consts.go\<close>

definition ModuleNamespace :: string where "ModuleNamespace = ''d8-sds-object''"

definition AllowedProvisioners :: "string list" where "AllowedProvisioners = []"

definition WebhookConfigurationsToDelete :: "string list" where
  "WebhookConfigurationsToDelete =
     [''d8-sds-object-objectstore-validation'', ''d8-sds-object-bucket-validation'', ''d8-sds-object-bucketclaim-validation'',
      ''d8-sds-object-bucketaccess-validation'', ''d8-sds-object-bucketclaimpolicy-validation'']"

record crgvk =
  cr_group :: string
  cr_version :: string
  cr_kind :: string
  cr_namespaced :: bool

definition CRGVKsForFinalizerRemoval :: "crgvk list" where
  "CRGVKsForFinalizerRemoval =
     [\<lparr>cr_group = ''storage.deckhouse.io'', cr_version = ''v1alpha1'', cr_kind = ''ObjectStore'', cr_namespaced = False\<rparr>,
      \<lparr>cr_group = ''storage.deckhouse.io'', cr_version = ''v1alpha1'', cr_kind = ''Bucket'', cr_namespaced = False\<rparr>,
      \<lparr>cr_group = ''storage.deckhouse.io'', cr_version = ''v1alpha1'', cr_kind = ''BucketClaim'', cr_namespaced = True\<rparr>,
      \<lparr>cr_group = ''storage.deckhouse.io'', cr_version = ''v1alpha1'', cr_kind = ''BucketAccess'', cr_namespaced = True\<rparr>,
      \<lparr>cr_group = ''storage.deckhouse.io'', cr_version = ''v1alpha1'', cr_kind = ''BucketClaimPolicy'', cr_namespaced = False\<rparr>]"

section \<open>The client\<close>

record storage_class =
  sc_meta :: object_meta
  sc_provisioner :: string

text \<open>\<open>hk_new\<close> is the error of \<open>kubeclient.New\<close>; \<open>hk_patch\<close> is the merge patch with the new list of finalizers.\<close>

record 'w hook_env =
  hk_new :: "go_error option"
  hk_kube :: "'w kube"
  hk_storage_classes :: "(storage_class, 'w) resource"
  hk_patch :: "kind \<Rightarrow> key \<Rightarrow> string list \<Rightarrow> 'w \<Rightarrow> go_error option \<times> 'w"

definition gvk_str :: "string \<Rightarrow> string \<Rightarrow> string \<Rightarrow> string" where
  "gvk_str g v k = g @ ''/'' @ v @ '', Kind='' @ k"

definition webhookGVK :: string where
  "webhookGVK = gvk_str ''admissionregistration.k8s.io'' ''v1'' ''ValidatingWebhookConfiguration''"

definition storageClassGVK :: string where
  "storageClassGVK = gvk_str ''storage.k8s.io'' ''v1'' ''StorageClass''"

definition cr_str :: "crgvk \<Rightarrow> string" where
  "cr_str g = gvk_str (cr_group g) (cr_version g) (cr_kind g)"

definition cr_list_str :: "crgvk \<Rightarrow> string" where
  "cr_list_str g = gvk_str (cr_group g) (cr_version g) (cr_kind g @ ''List'')"

definition meta_key :: "object_meta \<Rightarrow> key" where
  "meta_key m = (m_namespace m, m_name m)"

definition storage_class_obj :: "storage_class \<Rightarrow> obj" where
  "storage_class_obj sc = OUnstructured \<lparr>un_meta = sc_meta sc, un_spec = JObj [(''provisioner'', JStr (sc_provisioner sc))], un_status = JNull\<rparr>"

section \<open>remove-finalizers-on-module-delete.go\<close>

definition hookName :: string where "hookName = ''remove-finalizers-on-module-delete''"

text \<open>The kind in the message is the one in the object: the items of a typed list have none.\<close>

definition removeFinalizersFromObject ::
  "('w, 'x) hook_env_scheme \<Rightarrow> kind \<Rightarrow> string \<Rightarrow> object_meta \<Rightarrow> ('w, go_error option) go" where
  "removeFinalizersFromObject H k n m =
     do { e \<leftarrow> call (EvPatch k (meta_key m) []) (hk_patch H k (meta_key m) []);
          return (map_option (wrap_err (''failed to patch '' @ n @ '' '' @ m_name m @ '': '')) e) }"

text \<open>The loop over the items of a list: items without finalizers are skipped, the others have theirs removed,
  and no error stops it.\<close>

fun strip_each ::
  "('w, 'x) hook_env_scheme \<Rightarrow> kind \<Rightarrow> string \<Rightarrow> ('o \<Rightarrow> object_meta) \<Rightarrow> 'o list \<Rightarrow> ('w, go_error list) go" where
  "strip_each H k n meta [] = return []"
| "strip_each H k n meta (x # xs) =
     (if m_finalizers (meta x) = [] then strip_each H k n meta xs
      else do { e \<leftarrow> removeFinalizersFromObject H k n (meta x);
                es \<leftarrow> strip_each H k n meta xs;
                return (case e of None \<Rightarrow> es | Some err \<Rightarrow> err # es) })"

definition hook_secrets :: "('w, 'x) hook_env_scheme \<Rightarrow> ('w, go_error list) go" where
  "hook_secrets H =
     do { r \<leftarrow> klist Uncached KSecret OSecret (k_secrets (hk_kube H)) (in_namespace ModuleNamespace);
          case r of
            Inl err \<Rightarrow> return [wrap_err (''['' @ hookName @ '']: failed to list secrets: '') err]
          | Inr items \<Rightarrow> strip_each H KSecret [] sec_meta items }"

definition hook_config_maps :: "('w, 'x) hook_env_scheme \<Rightarrow> ('w, go_error list) go" where
  "hook_config_maps H =
     do { r \<leftarrow> klist Uncached KConfigMap OConfigMap (k_config_maps (hk_kube H)) (in_namespace ModuleNamespace);
          case r of
            Inl err \<Rightarrow> return [wrap_err (''['' @ hookName @ '']: failed to list configmaps: '') err]
          | Inr items \<Rightarrow> strip_each H KConfigMap [] cm_meta items }"

fun hook_webhooks :: "('w, 'x) hook_env_scheme \<Rightarrow> string list \<Rightarrow> ('w, go_error list) go" where
  "hook_webhooks H [] = return []"
| "hook_webhooks H (name # names) =
     do { r \<leftarrow> kget Uncached (KUnstructured webhookGVK) OUnstructured (k_unstructured (hk_kube H) webhookGVK) ([], name);
          e \<leftarrow> (case r of
                 Inl err \<Rightarrow> return None
               | Inr vwc \<Rightarrow> kdelete (KUnstructured webhookGVK) (k_unstructured (hk_kube H) webhookGVK) (meta_key (un_meta vwc)));
          es \<leftarrow> hook_webhooks H names;
          return (case e of
              None \<Rightarrow> es
            | Some err \<Rightarrow> wrap_err (''['' @ hookName @ '']: failed to delete ValidatingWebhookConfiguration '' @ name @ '': '') err # es) }"

fun hook_storage_classes :: "('w, 'x) hook_env_scheme \<Rightarrow> string list \<Rightarrow> ('w, go_error list) go" where
  "hook_storage_classes H [] = return []"
| "hook_storage_classes H (provisioner # ps) =
     do { r \<leftarrow> klist Uncached (KUnstructured storageClassGVK) storage_class_obj (hk_storage_classes H) list_all_opts;
          case r of
            Inl err \<Rightarrow> return [wrap_err (''['' @ hookName @ '']: failed to list storage classes: '') err]
          | Inr items \<Rightarrow>
              do { es \<leftarrow> strip_each H (KUnstructured storageClassGVK) [] sc_meta (filter (\<lambda>sc. sc_provisioner sc = provisioner) items);
                   es' \<leftarrow> hook_storage_classes H ps;
                   return (es @ es') } }"

fun hook_crs :: "('w, 'x) hook_env_scheme \<Rightarrow> crgvk list \<Rightarrow> ('w, go_error list) go" where
  "hook_crs H [] = return []"
| "hook_crs H (g # gs) =
     do { r \<leftarrow> klist Uncached (KUnstructured (cr_list_str g)) OUnstructured (k_unstructured (hk_kube H) (cr_list_str g)) list_all_opts;
          case r of
            Inl err \<Rightarrow> hook_crs H gs
          | Inr items \<Rightarrow>
              do { es \<leftarrow> strip_each H (KUnstructured (cr_str g)) (cr_kind g) un_meta items;
                   es' \<leftarrow> hook_crs H gs;
                   return (es @ es') } }"

definition handlerRemoveFinalizersOnModuleDelete :: "('w, 'x) hook_env_scheme \<Rightarrow> ('w, go_error list) go" where
  "handlerRemoveFinalizersOnModuleDelete H =
     (case hk_new H of
        Some err \<Rightarrow> return [wrap_err ''failed to initialize kube client: '' err]
      | None \<Rightarrow>
          do { e1 \<leftarrow> hook_secrets H;
               e2 \<leftarrow> hook_config_maps H;
               e3 \<leftarrow> hook_webhooks H WebhookConfigurationsToDelete;
               e4 \<leftarrow> hook_storage_classes H AllowedProvisioners;
               e5 \<leftarrow> hook_crs H CRGVKsForFinalizerRemoval;
               return (e1 @ e2 @ e3 @ e4 @ e5) })"

section \<open>What the hook may do\<close>

definition obj_meta :: "obj \<Rightarrow> object_meta" where
  "obj_meta x = (case x of
      OSecret s \<Rightarrow> sec_meta s | OConfigMap c \<Rightarrow> cm_meta c | OUnstructured y \<Rightarrow> un_meta y
    | OStore c \<Rightarrow> os_meta c | OBucket b \<Rightarrow> b_meta b | OClaim c \<Rightarrow> bc_meta c | OAccess a \<Rightarrow> ba_meta a | OPolicy p \<Rightarrow> bp_meta p
    | _ \<Rightarrow> fresh_meta [] [] Map.empty)"

text \<open>The objects the hook is for: the secrets and config maps of the module's namespace, the custom resources of every
  namespace. \<open>(l, opts, k)\<close>: objects of kind \<open>k\<close> are listed as \<open>l\<close> with \<open>opts\<close>.\<close>

definition module_lists :: "(kind \<times> list_opts \<times> kind) list" where
  "module_lists = [(KSecret, in_namespace ModuleNamespace, KSecret), (KConfigMap, in_namespace ModuleNamespace, KConfigMap)]
     @ map (\<lambda>g. (KUnstructured (cr_list_str g), list_all_opts, KUnstructured (cr_str g))) CRGVKsForFinalizerRemoval"

definition found_held :: "kind \<Rightarrow> key \<Rightarrow> event list \<Rightarrow> bool" where
  "found_held k ky u \<longleftrightarrow> (\<exists>l opts xs x. (l, opts, k) \<in> set module_lists \<and> EvList Uncached l opts (Inr xs) \<in> set u \<and> x \<in> set xs
     \<and> ky = meta_key (obj_meta x) \<and> m_finalizers (obj_meta x) \<noteq> [])"

definition uninstall_event_ok :: "event list \<Rightarrow> event \<Rightarrow> bool" where
  "uninstall_event_ok u e = (case e of
      EvList rd l opts r \<Rightarrow> (\<exists>k. (l, opts, k) \<in> set module_lists)
    | EvGet rd k ky r \<Rightarrow> k = KUnstructured webhookGVK \<and> fst ky = [] \<and> snd ky \<in> set WebhookConfigurationsToDelete
    | EvDelete k ky r \<Rightarrow> k = KUnstructured webhookGVK
        \<and> (\<exists>n x. n \<in> set WebhookConfigurationsToDelete \<and> EvGet Uncached k ([], n) (Inr x) \<in> set u \<and> ky = meta_key (obj_meta x))
    | EvPatch k ky fs r \<Rightarrow> fs = [] \<and> found_held k ky u
    | _ \<Rightarrow> False)"

definition released :: "kind \<Rightarrow> event list \<Rightarrow> obj \<Rightarrow> bool" where
  "released k u x \<longleftrightarrow> m_finalizers (obj_meta x) = [] \<or> EvPatch k (meta_key (obj_meta x)) [] None \<in> set u"

text \<open>What a part of the hook that reports no error has done.\<close>

definition list_done :: "kind \<Rightarrow> list_opts \<Rightarrow> kind \<Rightarrow> event list \<Rightarrow> bool" where
  "list_done l opts k u \<longleftrightarrow> (\<exists>xs. EvList Uncached l opts (Inr xs) \<in> set u \<and> list_all (released k u) xs)"

definition cr_done :: "event list \<Rightarrow> crgvk \<Rightarrow> bool" where
  "cr_done u g \<longleftrightarrow> list_done (KUnstructured (cr_list_str g)) list_all_opts (KUnstructured (cr_str g)) u
     \<or> (\<exists>e. EvList Uncached (KUnstructured (cr_list_str g)) list_all_opts (Inl e) \<in> set u)"

definition webhook_done :: "event list \<Rightarrow> string \<Rightarrow> bool" where
  "webhook_done u n \<longleftrightarrow> (\<exists>e. EvGet Uncached (KUnstructured webhookGVK) ([], n) (Inl e) \<in> set u)
     \<or> (\<exists>x. EvGet Uncached (KUnstructured webhookGVK) ([], n) (Inr x) \<in> set u
          \<and> EvDelete (KUnstructured webhookGVK) (meta_key (obj_meta x)) None \<in> set u)"

definition uninstall_done :: "event list \<Rightarrow> bool" where
  "uninstall_done u \<longleftrightarrow> list_done KSecret (in_namespace ModuleNamespace) KSecret u
     \<and> list_done KConfigMap (in_namespace ModuleNamespace) KConfigMap u
     \<and> list_all (webhook_done u) WebhookConfigurationsToDelete \<and> list_all (cr_done u) CRGVKsForFinalizerRemoval"

lemma released_mono: "released k t x \<Longrightarrow> set t \<subseteq> set u \<Longrightarrow> released k u x"
  unfolding released_def by blast

lemma done_mono:
  assumes "set t \<subseteq> set u"
  shows "list_done l opts k t \<Longrightarrow> list_done l opts k u" and "cr_done t g \<Longrightarrow> cr_done u g" and "webhook_done t n \<Longrightarrow> webhook_done u n"
proof -
  show ld: "list_done l opts k t \<Longrightarrow> list_done l opts k u" for l opts k
    unfolding list_done_def list_all_iff using assms released_mono by (metis subsetD)
  show "cr_done t g \<Longrightarrow> cr_done u g" using ld assms unfolding cr_done_def by blast
  show "webhook_done t n \<Longrightarrow> webhook_done u n" using assms unfolding webhook_done_def by blast
qed

text \<open>A part of the hook: from any justified trace it makes justified calls only, and if it reports no error then \<open>R\<close>
  holds of the trace it leaves.\<close>

definition hook_part :: "(event list \<Rightarrow> bool) \<Rightarrow> ('w, go_error list) go \<Rightarrow> bool" where
  "hook_part R m \<longleftrightarrow> (\<forall>w t. justified uninstall_event_ok t \<longrightarrow>
     wp m (\<lambda>es s'. grown uninstall_event_ok t s' \<and> (es = [] \<longrightarrow> R (snd s'))) (w, t))"

lemma hook_partI:
  "(\<And>w t. justified uninstall_event_ok t \<Longrightarrow> wp m (\<lambda>es s'. grown uninstall_event_ok t s' \<and> (es = [] \<longrightarrow> R (snd s'))) (w, t)) \<Longrightarrow> hook_part R m"
  by (simp add: hook_part_def)

lemma hook_part_wp:
  assumes "hook_part R m" and "justified uninstall_event_ok t"
    and "\<And>es w' d. justified uninstall_event_ok (t @ d) \<Longrightarrow> es = [] \<longrightarrow> R (t @ d) \<Longrightarrow> Q es (w', t @ d)"
  shows "wp m Q (w, t)"
  using assms(1) [unfolded hook_part_def, rule_format, OF assms(2), of w]
  by (rule wp_mono) (auto simp: grown_def intro: assms(3))

lemma wp_strip_each:
  assumes "justified uninstall_event_ok t" and "EvList Uncached l opts (Inr (map mk items)) \<in> set t" and "(l, opts, k) \<in> set module_lists"
    and "\<And>x. obj_meta (mk x) = meta x"
  shows "set xs \<subseteq> set items \<Longrightarrow> wp (strip_each H k n meta xs) (\<lambda>es s'. grown uninstall_event_ok t s'
     \<and> (es = [] \<longrightarrow> list_all (released k (snd s')) (map mk xs))) (w, t)"
  using assms(1,2)
proof (induction xs arbitrary: w t)
  case Nil
  then show ?case by (simp add: wp_return grown_start)
next
  case (Cons x xs)
  show ?case
  proof (cases "m_finalizers (meta x) = []")
    case True
    then have "released k u (mk x)" for u by (simp add: released_def assms(4))
    then show ?thesis using Cons True by simp
  next
    case False
    let ?e = "\<lambda>r. EvPatch k (meta_key (meta x)) [] r"
    have held: "found_held k (meta_key (meta x)) t"
      unfolding found_held_def
      by (rule exI [of _ l], rule exI [of _ opts], rule exI [of _ "map mk items"], rule exI [of _ "mk x"])
        (use Cons.prems False assms(3,4) in auto)
    have ok: "justified uninstall_event_ok (t @ [?e r])" for r
    proof -
      have "uninstall_event_ok t (?e r)" using held by (simp add: uninstall_event_ok_def)
      then show ?thesis using Cons.prems(2) by simp
    qed
    have IH: "wp (strip_each H k n meta xs) (\<lambda>es s'. grown uninstall_event_ok (t @ [?e r]) s'
        \<and> (es = [] \<longrightarrow> list_all (released k (snd s')) (map mk xs))) (w', t @ [?e r])" for r w'
      using Cons.IH [OF _ ok] Cons.prems by simp
    have rel: "released k (t @ ?e None # d) (mk x)" for d by (simp add: released_def assms(4))
    show ?thesis
      using False
      by (simp add: removeFinalizersFromObject_def, intro wp_bind wp_call wp_return wp_mono [OF IH])
        (auto intro!: wp_return simp: grown_def rel split: option.split)
  qed
qed

lemma listing_ok: "(l, opts, k) \<in> set module_lists \<Longrightarrow> uninstall_event_ok u (EvList rd l opts r)"
  by (auto simp: uninstall_event_ok_def)

text \<open>The loop over the items of a list just read.\<close>

lemma wp_listed:
  assumes t: "justified uninstall_event_ok t" and l: "(l, opts, k) \<in> set module_lists" and meta: "\<And>x. obj_meta (mk x) = meta x"
    and fin: "\<And>es w' d. justified uninstall_event_ok (t @ d) \<Longrightarrow> es = [] \<longrightarrow> list_done l opts k (t @ d) \<Longrightarrow> Q es (w', t @ d)"
  shows "wp (strip_each H k n meta items) Q (w, t @ [EvList Uncached l opts (Inr (map mk items))])"
proof -
  let ?e = "EvList Uncached l opts (Inr (map mk items))"
  have ok: "justified uninstall_event_ok (t @ [?e])" using t listing_ok [OF l] by simp
  have "wp (strip_each H k n meta items) (\<lambda>es s'. grown uninstall_event_ok (t @ [?e]) s'
     \<and> (es = [] \<longrightarrow> list_all (released k (snd s')) (map mk items))) (w, t @ [?e])"
    by (rule wp_strip_each [OF ok _ l meta subset_refl]) simp
  then show ?thesis
  proof (rule wp_mono, goal_cases)
    case (1 es s')
    then obtain v d where s': "s' = (v, t @ ?e # d)" "justified uninstall_event_ok (t @ ?e # d)"
      by (auto simp: grown_def)
    have "es = [] \<longrightarrow> list_done l opts k (t @ ?e # d)"
      using 1 s'(1) unfolding list_done_def by (intro impI exI [of _ "map mk items"]) simp
    then show ?case unfolding s'(1) using s'(2) by (intro fin)
  qed
qed

lemma hook_secrets_part: "hook_part (list_done KSecret (in_namespace ModuleNamespace) KSecret) (hook_secrets H)"
  unfolding hook_secrets_def klist_def
  by (rule hook_partI, intro wp_bind wp_call wp_case_sum)
    (auto intro!: wp_return wp_listed listing_ok simp: grown_def module_lists_def obj_meta_def)

lemma hook_config_maps_part: "hook_part (list_done KConfigMap (in_namespace ModuleNamespace) KConfigMap) (hook_config_maps H)"
  unfolding hook_config_maps_def klist_def
  by (rule hook_partI, intro wp_bind wp_call wp_case_sum)
    (auto intro!: wp_return wp_listed listing_ok simp: grown_def module_lists_def obj_meta_def)

lemma webhook_doneI:
  "EvGet Uncached (KUnstructured webhookGVK) ([], n) (Inl e) \<in> set u \<Longrightarrow> webhook_done u n"
  "EvGet Uncached (KUnstructured webhookGVK) ([], n) (Inr (OUnstructured v)) \<in> set u \<Longrightarrow>
     EvDelete (KUnstructured webhookGVK) (meta_key (un_meta v)) None \<in> set u \<Longrightarrow> webhook_done u n"
  unfolding webhook_done_def by (blast, rule disjI2, rule exI [of _ "OUnstructured v"], simp add: obj_meta_def)

lemma hook_webhooks_part:
  "set names \<subseteq> set WebhookConfigurationsToDelete \<Longrightarrow> hook_part (\<lambda>u. list_all (webhook_done u) names) (hook_webhooks H names)"
proof (induction names)
  case Nil
  then show ?case by (auto intro!: hook_partI wp_return simp: grown_start)
next
  case (Cons n names)
  note IH = hook_part_wp [OF Cons.IH]
  let ?k = "KUnstructured webhookGVK"
  have get: "uninstall_event_ok u (EvGet Uncached ?k ([], n) r)" for u r
    using Cons.prems by (simp add: uninstall_event_ok_def)
  have del: "uninstall_event_ok (u @ [EvGet Uncached ?k ([], n) (Inr x)]) (EvDelete ?k (meta_key (obj_meta x)) r)" for u x r
    using Cons.prems unfolding uninstall_event_ok_def event.case by (intro conjI refl exI [of _ n] exI [of _ x]) simp_all
  show ?case
    unfolding hook_webhooks.simps kget_def kdelete_def
    by (rule hook_partI, intro wp_bind wp_call wp_case_sum wp_return)
      (use Cons.prems in \<open>auto intro!: wp_bind wp_call IH wp_return get del [where x = "OUnstructured _", simplified obj_meta_def obj.case]
        simp: grown_def split: option.splits intro: webhook_doneI\<close>)
qed

lemma cr_doneI:
  "EvList Uncached (KUnstructured (cr_list_str g)) list_all_opts (Inl e) \<in> set u \<Longrightarrow> cr_done u g"
  "list_done (KUnstructured (cr_list_str g)) list_all_opts (KUnstructured (cr_str g)) t \<Longrightarrow> cr_done (t @ d) g"
  "list_done (KUnstructured (cr_list_str g)) list_all_opts (KUnstructured (cr_str g)) (t @ d) \<Longrightarrow> cr_done (t @ d @ da) g"
  by (auto simp: cr_done_def intro: done_mono(1) [of t] done_mono(1) [of "t @ d"])

lemma hook_crs_part:
  "set gs \<subseteq> set CRGVKsForFinalizerRemoval \<Longrightarrow> hook_part (\<lambda>u. list_all (cr_done u) gs) (hook_crs H gs)"
proof (induction gs)
  case Nil
  then show ?case by (auto intro!: hook_partI wp_return simp: grown_start)
next
  case (Cons g gs)
  note IH = hook_part_wp [OF Cons.IH]
  have l: "(KUnstructured (cr_list_str g), list_all_opts, KUnstructured (cr_str g)) \<in> set module_lists"
    using Cons.prems by (simp add: module_lists_def)
  show ?case
    unfolding hook_crs.simps klist_def
    by (rule hook_partI, intro wp_bind wp_call wp_case_sum)
      (use Cons.prems in \<open>auto intro!: wp_bind IH wp_listed [OF _ l] wp_return listing_ok [OF l] simp: grown_def obj_meta_def
        intro: cr_doneI\<close>)
qed
section \<open>Properties\<close>

lemma hook_pass:
  "wp (handlerRemoveFinalizersOnModuleDelete H)
     (\<lambda>es s'. grown uninstall_event_ok [] s' \<and> (hk_new H = None \<and> es = [] \<longrightarrow> uninstall_done (snd s'))) (w, [])"
  unfolding handlerRemoveFinalizersOnModuleDelete_def AllowedProvisioners_def hook_storage_classes.simps
  by (intro wp_case_option wp_bind wp_return hook_part_wp [OF hook_secrets_part] hook_part_wp [OF hook_config_maps_part]
      hook_part_wp [OF hook_webhooks_part [OF subset_refl]] hook_part_wp [OF hook_crs_part [OF subset_refl]])
    (auto simp: grown_def uninstall_done_def list_all_iff intro: done_mono(1) [where t = a and u = "a @ b" for a b]
      done_mono(1) [where t = "a @ b" and u = "a @ b @ c @ d" for a b c d] done_mono(3) [where t = "a @ b @ c" and u = "a @ b @ c @ d" for a b c d])

text \<open>The hook touches nothing but what the module left behind: it patches only objects that it listed in this
  run among the secrets and config maps of the module's namespace and the module's custom resources of any namespace,
  only those that carry finalizers, and only to take the finalizers off; it deletes only the five webhook configurations of
  the module, each after it found it.\<close>

theorem uninstall_safe:
  "wp (handlerRemoveFinalizersOnModuleDelete H) (\<lambda>es s'. justified uninstall_event_ok (snd s')) (w, [])"
  by (rule wp_mono [OF hook_pass]) (auto simp: grown_def)

text \<open>C39: A hook that has a client and reports no error has released everything it could see: it listed the secrets and
  the config maps of the namespace, took the finalizers off every one of them that had any, deleted every webhook
  configuration it found, and, for every kind of custom resource whose list it got, took the finalizers off all of its
  objects in all namespaces.\<close>

theorem uninstall_complete:
  "wp (handlerRemoveFinalizersOnModuleDelete H)
     (\<lambda>es s'. case (hk_new H, es) of (None, []) \<Rightarrow> uninstall_done (snd s') | _ \<Rightarrow> True) (w, [])"
  by (rule wp_mono [OF hook_pass]) (auto split: option.split list.split)

text \<open>An API server that fails exactly the reads whose errors the hook passes over.\<close>

definition always_fails :: "('w \<Rightarrow> 'r result \<times> 'w) \<Rightarrow> bool" where
  "always_fails f \<longleftrightarrow> (\<forall>w. \<exists>e w'. f w = (Inl e, w'))"

definition always_empty :: "('w \<Rightarrow> 'r list result \<times> 'w) \<Rightarrow> bool" where
  "always_empty f \<longleftrightarrow> (\<forall>w. \<exists>w'. f w = (Inr [], w'))"

definition failing_api :: "('w, 'x) hook_env_scheme \<Rightarrow> bool" where
  "failing_api H \<longleftrightarrow> list_all (\<lambda>g. always_fails (r_list (k_unstructured (hk_kube H) (cr_list_str g)) Uncached list_all_opts)) CRGVKsForFinalizerRemoval
     \<and> list_all (\<lambda>n. always_fails (r_get (k_unstructured (hk_kube H) webhookGVK) Uncached ([], n))) WebhookConfigurationsToDelete
     \<and> always_empty (r_list (k_secrets (hk_kube H)) Uncached (in_namespace ModuleNamespace))
     \<and> always_empty (r_list (k_config_maps (hk_kube H)) Uncached (in_namespace ModuleNamespace))"

definition changes :: "event \<Rightarrow> bool" where
  "changes e \<longleftrightarrow> (case e of EvPatch k ky fs r \<Rightarrow> True | EvDelete k ky r \<Rightarrow> True | _ \<Rightarrow> False)"

lemma reads_change_nothing [simp]: "\<not> changes (EvGet rd k ky r)" "\<not> changes (EvList rd k lo r')"
  by (simp_all add: changes_def)

lemma wp_call_fails:
  "always_fails f \<Longrightarrow> (\<And>e w'. Q (Inl e) (w', t @ [ev (Inl e)])) \<Longrightarrow> wp (call ev f) Q (w, t)"
  by (rule wp_call) (metis Pair_inject always_fails_def)

lemma wp_call_empty:
  "always_empty f \<Longrightarrow> (\<And>w'. Q (Inr []) (w', t @ [ev (Inr [])])) \<Longrightarrow> wp (call ev f) Q (w, t)"
  by (rule wp_call) (metis Pair_inject always_empty_def)

lemma failing_crs:
  "list_all (\<lambda>g. always_fails (r_list (k_unstructured (hk_kube H) (cr_list_str g)) Uncached list_all_opts)) gs \<Longrightarrow> list_all (Not \<circ> changes) t \<Longrightarrow>
     wp (hook_crs H gs) (\<lambda>es s'. es = [] \<and> list_all (Not \<circ> changes) (snd s')) (w, t)"
  by (induction gs arbitrary: w t) (auto intro!: wp_return wp_bind wp_call_fails simp: klist_def)

lemma failing_webhooks:
  "list_all (\<lambda>n. always_fails (r_get (k_unstructured (hk_kube H) webhookGVK) Uncached ([], n))) names \<Longrightarrow> list_all (Not \<circ> changes) t \<Longrightarrow>
     wp (hook_webhooks H names) (\<lambda>es s'. es = [] \<and> list_all (Not \<circ> changes) (snd s')) (w, t)"
proof (induction names arbitrary: w t)
  case (Cons n names)
  show ?case
    unfolding hook_webhooks.simps kget_def
    by (intro wp_bind wp_call_fails) (use Cons.prems in \<open>auto intro!: wp_return wp_bind wp_mono [OF Cons.IH] simp: comp_def\<close>)
qed (simp add: wp_return)

text \<open>The exception is a finding: an error of listing a kind of custom resource, whatever it is, counts as the
  kind being absent, and an error of reading a webhook configuration as it being gone. With an API server that
  answers those reads with errors, the hook reports success, having changed nothing: the custom resources hang in deletion
  for ever and the webhooks keep rejecting requests.\<close>

theorem uninstall_blind_success:
  assumes "hk_new H = None" and "failing_api H"
  shows "wp (handlerRemoveFinalizersOnModuleDelete H) (\<lambda>es s'. es = [] \<and> list_all (Not \<circ> changes) (snd s')) (w, [])"
  unfolding handlerRemoveFinalizersOnModuleDelete_def AllowedProvisioners_def hook_storage_classes.simps hook_secrets_def hook_config_maps_def klist_def
  using assms unfolding failing_api_def
  by (auto intro!: wp_bind wp_call_empty wp_return wp_mono [OF failing_webhooks] wp_mono [OF failing_crs])

definition failing_hook :: "unit hook_env" where
  "failing_hook = \<lparr>hk_new = None,
     hk_kube = quiet_kube\<lparr>k_unstructured := (\<lambda>_. absent\<lparr>r_list := (\<lambda>rd lo w. (Inl (new_err ''timeout''), w))\<rparr>)\<rparr>,
     hk_storage_classes = absent, hk_patch = (\<lambda>k ky fs w. (None, w))\<rparr>"

lemma uninstall_blind_success_witness:
  "fst (run_state (handlerRemoveFinalizersOnModuleDelete failing_hook) ((), [])) = []
   \<and> list_all (Not \<circ> changes) (snd (snd (run_state (handlerRemoveFinalizersOnModuleDelete failing_hook) ((), []))))"
proof -
  have "hk_new failing_hook = None" "failing_api failing_hook"
    by (simp_all add: failing_hook_def failing_api_def always_fails_def always_empty_def quiet_kube_def absent_def answering_def list_all_iff)
  from uninstall_blind_success [OF this, of "()"] show ?thesis by (simp add: wp_def split: prod.splits)
qed

end
