(* ===== verification/Startup.thy ===== *)
theory Startup
  imports Watches Uninstall_Hook
begin

text \<open>
  How the processes come up: the whole of \<open>main\<close> of \<open>images/controller/cmd/main.go\<close>, with
  \<open>pkg/kubutils/kubernetes.go\<close> and \<open>register.go\<close> of the API, and the certificate that the hooks of the module ask for. The
  manager of controller-runtime is a parameter in what may fail; what it is given, in which order, is its state.
\<close>

section \<open>The scheme\<close>

definition APIGroup :: string where "APIGroup = ''storage.deckhouse.io''"
definition APIVersion :: string where "APIVersion = ''v1alpha1''"

definition SchemeGroupVersion :: "string \<times> string" where
  "SchemeGroupVersion = (APIGroup, APIVersion)"

text \<open>A scheme as the types it knows: group, version and kind.\<close>

type_synonym scheme = "(string \<times> string \<times> string) set"

definition known_types :: "string list" where
  "known_types = [''ObjectStore'', ''ObjectStoreList'', ''Bucket'', ''BucketList'', ''BucketClaim'', ''BucketClaimList'',
     ''BucketAccess'', ''BucketAccessList'', ''BucketClaimPolicy'', ''BucketClaimPolicyList'']"

text \<open>\<open>metav1.AddToGroupVersion\<close> adds the option types of the group as well; they are its argument \<open>meta\<close>.\<close>

definition addKnownTypes :: "(string \<times> string \<Rightarrow> scheme) \<Rightarrow> scheme \<Rightarrow> scheme result" where
  "addKnownTypes meta sch = Inr (sch \<union> set (map (\<lambda>k. (fst SchemeGroupVersion, snd SchemeGroupVersion, k)) known_types) \<union> meta SchemeGroupVersion)"

section \<open>The client configuration\<close>

definition KubernetesDefaultConfigCreate :: "'r result \<Rightarrow> 'r result \<Rightarrow> 'r result" where
  "KubernetesDefaultConfigCreate inClusterConfig clientConfig =
     (case inClusterConfig of
        Inr config \<Rightarrow> Inr config
      | Inl _ \<Rightarrow> (case clientConfig of Inl err \<Rightarrow> Inl (wrap_err ''config kubernetes error '' err) | Inr config \<Rightarrow> Inr config))"

section \<open>The start of the controller\<close>

definition DefaultControllerName :: string where
  "DefaultControllerName = ''sds-object-controller''"

record manager_options =
  mo_scheme :: scheme
  mo_health_probe_bind_address :: string
  mo_leader_election :: bool
  mo_leader_election_namespace :: string
  mo_leader_election_id :: string
  mo_verbosity :: int

text \<open>A manager: its options, the controllers built on it, and its probes.\<close>

record 'w manager =
  mg_options :: manager_options
  mg_controllers :: "'w controller list"
  mg_healthz :: "string list"
  mg_readyz :: "string list"

text \<open>What the process runs on: the environment, the client configurations, the schemes of the libraries, and what the
  manager refuses. \<open>rt_system\<close> is the system over the client of the manager.\<close>

record ('w, 'r) runtime_env =
  rt_getenv :: "string \<Rightarrow> string"
  rt_namespace_file :: "string result"
  rt_in_cluster :: "'r result"
  rt_kubeconfig :: "'r result"
  rt_meta_types :: "string \<times> string \<Rightarrow> scheme"
  rt_client_go :: "scheme \<Rightarrow> scheme result"
  rt_core_v1 :: "scheme \<Rightarrow> scheme result"
  rt_new_manager :: "'r \<Rightarrow> manager_options \<Rightarrow> go_error option"
  rt_system :: "'r \<Rightarrow> 'w system"
  rt_complete :: "string \<Rightarrow> go_error option"
  rt_healthz :: "string \<Rightarrow> go_error option"
  rt_readyz :: "string \<Rightarrow> go_error option"
  rt_start :: "'w manager \<Rightarrow> go_error option"

definition resourcesSchemeFuncs :: "('w, 'r) runtime_env \<Rightarrow> (scheme \<Rightarrow> scheme result) list" where
  "resourcesSchemeFuncs R = [addKnownTypes (rt_meta_types R), rt_client_go R, rt_core_v1 R]"

fun add_schemes :: "(scheme \<Rightarrow> scheme result) list \<Rightarrow> scheme \<Rightarrow> scheme result" where
  "add_schemes [] sch = Inr sch"
| "add_schemes (f # fs) sch = (case f sch of Inl err \<Rightarrow> Inl err | Inr sch \<Rightarrow> add_schemes fs sch)"

text \<open>A run of \<open>main\<close>: it exits with a message on its log, before the manager was started, or starts the manager and ends
  when that ends.\<close>

datatype 'w main_outcome = MainExit string "go_error option" | MainStarted "'w manager" "go_error option"

text \<open>The part from the registration of the first reconciler on. A reconciler is named by its kind in the message.\<close>

fun register_all :: "('w, 'r) runtime_env \<Rightarrow> (string \<times> 'w controller) list \<Rightarrow> 'w manager \<Rightarrow> (string \<times> go_error) + 'w manager" where
  "register_all R [] mgr = Inr mgr"
| "register_all R ((kind, ct) # cts) mgr =
     (case rt_complete R (ct_name ct) of
        Some err \<Rightarrow> Inl (''[main] unable to register '' @ kind @ '' reconciler'', err)
      | None \<Rightarrow> register_all R cts (mgr\<lparr>mg_controllers := mg_controllers mgr @ [ct]\<rparr>))"

definition start_manager :: "('w, 'r) runtime_env \<Rightarrow> 'w system \<Rightarrow> 'w manager \<Rightarrow> 'w main_outcome" where
  "start_manager R S mgr =
     (case register_all R (zip [''ObjectStore'', ''Bucket'', ''BucketClaim'', ''BucketAccess'', ''BucketClaimPolicy''] (main_controllers S)) mgr of
        Inl (msg, err) \<Rightarrow> MainExit msg (Some err)
      | Inr mgr \<Rightarrow>
     (case rt_healthz R ''healthz'' of Some err \<Rightarrow> MainExit ''[main] unable to AddHealthzCheck'' (Some err)
      | None \<Rightarrow> (let mgr = mgr\<lparr>mg_healthz := mg_healthz mgr @ [''healthz'']\<rparr> in
     (case rt_readyz R ''readyz'' of Some err \<Rightarrow> MainExit ''[main] unable to AddReadyzCheck'' (Some err)
      | None \<Rightarrow> (let mgr = mgr\<lparr>mg_readyz := mg_readyz mgr @ [''readyz'']\<rparr> in
         MainStarted mgr (rt_start R mgr))))))"

definition controller_main :: "('w, 'r) runtime_env \<Rightarrow> 'w main_outcome" where
  "controller_main R =
     (let cfg = NewConfig (rt_getenv R) (rt_namespace_file R) in
      case NewLogger (Loglevel cfg) of None \<Rightarrow> MainExit ''unable to create NewLogger'' None
      | Some v \<Rightarrow>
     (case KubernetesDefaultConfigCreate (rt_in_cluster R) (rt_kubeconfig R) of
        Inl err \<Rightarrow> MainExit ''[main] unable to create kubernetes config'' (Some err)
      | Inr kConfig \<Rightarrow>
     (case add_schemes (resourcesSchemeFuncs R) {} of Inl err \<Rightarrow> MainExit ''[main] unable to register scheme'' (Some err)
      | Inr sch \<Rightarrow>
         (let opts = \<lparr>mo_scheme = sch, mo_health_probe_bind_address = HealthProbeBindAddress cfg, mo_leader_election = True,
                mo_leader_election_namespace = ControllerNamespace cfg, mo_leader_election_id = DefaultControllerName, mo_verbosity = v\<rparr> in
     (case rt_new_manager R kConfig opts of Some err \<Rightarrow> MainExit ''[main] unable to create manager'' (Some err)
      | None \<Rightarrow> start_manager R ((rt_system R kConfig)\<lparr>sy_cfg := cfg\<rparr>)
          \<lparr>mg_options = opts, mg_controllers = [], mg_healthz = [], mg_readyz = []\<rparr>)))))"

definition main_status :: "'w main_outcome \<Rightarrow> int" where
  "main_status m = (case m of MainExit msg err \<Rightarrow> 1 | MainStarted mgr err \<Rightarrow> if err = None then 0 else 1)"

section \<open>What a started controller has\<close>

lemma register_all_Inr: "register_all R cts mgr = Inr mgr' \<Longrightarrow> mgr' = mgr\<lparr>mg_controllers := mg_controllers mgr @ map snd cts\<rparr>"
  by (induction R cts mgr arbitrary: mgr' rule: register_all.induct) (auto split: option.splits)

lemma start_manager_started:
  assumes "start_manager R S mgr = MainStarted m e"
  shows "m = mgr\<lparr>mg_controllers := mg_controllers mgr @ main_controllers S, mg_healthz := mg_healthz mgr @ [''healthz''],
    mg_readyz := mg_readyz mgr @ [''readyz'']\<rparr>"
  using assms by (auto simp: start_manager_def main_controllers_def Let_def split: sum.splits option.splits dest!: register_all_Inr)

definition keeps_types :: "(scheme \<Rightarrow> scheme result) \<Rightarrow> bool" where
  "keeps_types f \<longleftrightarrow> (\<forall>s s'. f s = Inr s' \<longrightarrow> s \<subseteq> s')"

lemma add_schemes_keep: "list_all keeps_types fs \<Longrightarrow> add_schemes fs s = Inr s' \<Longrightarrow> s \<subseteq> s'"
proof (induction fs s arbitrary: s' rule: add_schemes.induct)
  case (2 f fs s)
  obtain u where u: "f s = Inr u" "add_schemes fs u = Inr s'" using 2(3) by (auto split: sum.splits)
  have "u \<subseteq> s'" using 2(1) [OF u(1) _ u(2)] 2(2) by simp
  then show ?case using 2(2) u(1) by (auto simp: keeps_types_def)
qed simp

definition api_known :: "scheme \<Rightarrow> bool" where
  "api_known sch \<longleftrightarrow> (\<lambda>k. (''storage.deckhouse.io'', ''v1alpha1'', k)) ` set known_types \<subseteq> sch"

lemma add_schemes_api:
  assumes "add_schemes (resourcesSchemeFuncs R) s = Inr s'" and "keeps_types (rt_client_go R)" and "keeps_types (rt_core_v1 R)"
  shows "api_known s'"
proof -
  obtain u where u: "addKnownTypes (rt_meta_types R) s = Inr u" "add_schemes [rt_client_go R, rt_core_v1 R] u = Inr s'"
    using assms(1) by (auto simp: resourcesSchemeFuncs_def split: sum.splits)
  have "api_known u" using u(1) by (auto simp: addKnownTypes_def api_known_def SchemeGroupVersion_def APIGroup_def APIVersion_def)
  moreover have "u \<subseteq> s'" by (rule add_schemes_keep [OF _ u(2)]) (use assms(2,3) in simp)
  ultimately show ?thesis by (auto simp: api_known_def)
qed

text \<open>A controller that serves has all five reconcilers, in the order of the code and over the client of its manager, both probes,
  the kinds of the API in its scheme, and competes for the lease in its own namespace. Nothing less is started: each step
  that fails ends the process first, a verbosity that is not a number among them.\<close>

theorem controller_starts_whole:
  assumes "controller_main R = MainStarted m e" and "keeps_types (rt_client_go R)" and "keeps_types (rt_core_v1 R)"
  shows "\<exists>r. KubernetesDefaultConfigCreate (rt_in_cluster R) (rt_kubeconfig R) = Inr r
    \<and> mg_controllers m = main_controllers ((rt_system R r)\<lparr>sy_cfg := NewConfig (rt_getenv R) (rt_namespace_file R)\<rparr>)
    \<and> mg_healthz m = [''healthz''] \<and> mg_readyz m = [''readyz''] \<and> api_known (mo_scheme (mg_options m))
    \<and> mo_leader_election (mg_options m) \<and> mo_leader_election_namespace (mg_options m) = ControllerNamespace (NewConfig (rt_getenv R) (rt_namespace_file R))
    \<and> NewLogger (Loglevel (NewConfig (rt_getenv R) (rt_namespace_file R))) = Some (mo_verbosity (mg_options m))"
  using assms(1) add_schemes_api [OF _ assms(2,3)]
  by (auto simp: controller_main_def Let_def split: option.splits sum.splits dest!: start_manager_started)

text \<open>A cluster where nothing fails.\<close>

definition calm_runtime :: "(unit, unit) runtime_env" where
  "calm_runtime = \<lparr>rt_getenv = (\<lambda>_. []), rt_namespace_file = Inr ''d8'', rt_in_cluster = Inr (), rt_kubeconfig = Inr (),
     rt_meta_types = (\<lambda>_. {}), rt_client_go = Inr, rt_core_v1 = Inr, rt_new_manager = (\<lambda>r opts. None), rt_system = (\<lambda>r. demo_system quiet_kube),
     rt_complete = (\<lambda>_. None), rt_healthz = (\<lambda>_. None), rt_readyz = (\<lambda>_. None), rt_start = (\<lambda>_. None)\<rparr>"

lemma calm_starts: "\<exists>m. controller_main calm_runtime = MainStarted m None"
proof -
  have v: "NewLogger (Loglevel (NewConfig (\<lambda>_. []) (Inr ''d8''))) = Some 2"
    by (simp add: NewConfig_def InfoLevel_def) code_simp
  show ?thesis
    by (simp add: controller_main_def v KubernetesDefaultConfigCreate_def resourcesSchemeFuncs_def addKnownTypes_def
        start_manager_def main_controllers_def Let_def calm_runtime_def)
qed

lemma controller_starts_whole_witness:
  "\<exists>m. controller_main calm_runtime = MainStarted m None \<and> mg_healthz m = [''healthz''] \<and> api_known (mo_scheme (mg_options m))"
proof -
  obtain m where m: "controller_main calm_runtime = MainStarted m None" using calm_starts by blast
  show ?thesis
    using controller_starts_whole [OF m] m by (auto simp: calm_runtime_def keeps_types_def)
qed

section \<open>The certificate of the webhooks\<close>

definition ModuleName :: string where "ModuleName = ''sdsObject''"
definition ModulePluralName :: string where "ModulePluralName = ''sds-object''"
definition WebhookCertCn :: string where "WebhookCertCn = ''webhooks''"

record tls_hook_conf =
  th_ca_cn :: string
  th_cn :: string
  th_secret_name :: string
  th_namespace :: string
  th_sans :: "string list"
  th_values_prefix :: string

text \<open>\<open>tlscertificate.DefaultSANs\<close> is the parameter \<open>sans\<close>.\<close>

definition webhook_certs :: "(string list \<Rightarrow> string list) \<Rightarrow> tls_hook_conf" where
  "webhook_certs sans =
     \<lparr>th_ca_cn = ModulePluralName @ ''-'' @ WebhookCertCn, th_cn = WebhookCertCn, th_secret_name = WebhookCertCn @ ''-https-certs'',
      th_namespace = ModuleNamespace,
      th_sans = sans [WebhookCertCn, WebhookCertCn @ ''.'' @ ModuleNamespace, WebhookCertCn @ ''.'' @ ModuleNamespace @ ''.svc'',
        ''%CLUSTER_DOMAIN%://'' @ WebhookCertCn @ ''.'' @ ModuleNamespace @ ''.svc''],
      th_values_prefix = ModuleName @ ''.internal.customWebhookCert''\<rparr>"

end
