(* ===== verification/Webhook_Main.thy ===== *)
theory Webhook_Main
  imports Webhooks Config
begin

text \<open>
  \<open>images/webhooks/cmd/main.go\<close> and \<open>handlers/func.go\<close>: the webhook server. The webhook library, the client and the listener
  are parameters; what is modelled is which validator is served under which path, and where the start gives up.
\<close>

section \<open>The log level\<close>

datatype logrus_level = LogrusError | LogrusWarn | LogrusInfo | LogrusDebug | LogrusTrace

text \<open>\<open>strings.ToUpper\<close> on bytes. No other rune has an upper case among the letters of the words compared with.\<close>

definition upper_char :: "char \<Rightarrow> char" where
  "upper_char c = (let n = (of_char c :: nat) in if 97 \<le> n \<and> n \<le> 122 then char_of (n - 32) else c)"

definition webhookLogLevel :: "(string \<Rightarrow> string) \<Rightarrow> logrus_level" where
  "webhookLogLevel getenv =
     (let v = map upper_char (getenv ''LOG_LEVEL'') in
      if v = ''ERROR'' then LogrusError else if v = ''WARN'' then LogrusWarn
      else if v = ''DEBUG'' then LogrusDebug else if v = ''TRACE'' then LogrusTrace else LogrusInfo)"

section \<open>Handlers and routes\<close>

type_synonym 'w validator = "string option \<Rightarrow> unstructured \<Rightarrow> ('w, validator_result) go"

record ('w, 'h) webhook_lib =
  wl_new_webhook :: "string \<Rightarrow> 'w validator \<Rightarrow> 'h result"
  wl_handler_for :: "'h \<Rightarrow> 'h result"
  wl_healthz :: 'h

definition GetValidatingWebhookHandler :: "('w, 'h) webhook_lib \<Rightarrow> 'w validator \<Rightarrow> string \<Rightarrow> 'h result" where
  "GetValidatingWebhookHandler L v validatorID = (case wl_new_webhook L validatorID v of Inl err \<Rightarrow> Inl err | Inr h \<Rightarrow> wl_handler_for L h)"

text \<open>What \<open>main\<close> asks for, in its order: the name in the message of a failure, the path, the id and the validator.\<close>

definition webhook_routes :: "regexps \<Rightarrow> 'w kube \<Rightarrow> (string \<times> string \<times> string \<times> 'w validator) list" where
  "webhook_routes re K =
     [(''oscValidatingWebhookHandler'', ''/objectstore-validate'', ''ObjectStoreValidator'', \<lambda>ar. ObjectStoreValidate K),
      (''osbValidatingWebhookHandler'', ''/bucket-validate'', ''BucketValidator'', BucketValidate K),
      (''bucketClaimValidatingWebhookHandler'', ''/bucketclaim-validate'', ''BucketClaimValidator'', \<lambda>ar. BucketClaimValidate re K),
      (''osbaValidatingWebhookHandler'', ''/bucketaccess-validate'', ''BucketAccessValidator'', \<lambda>ar. BucketAccessValidate K),
      (''osbpValidatingWebhookHandler'', ''/bucketclaimpolicy-validate'', ''BucketClaimPolicyValidator'', \<lambda>ar. BucketClaimPolicyValidate re K)]"

fun make_handlers :: "('w, 'h) webhook_lib \<Rightarrow> (string \<times> string \<times> string \<times> 'w validator) list \<Rightarrow> string + (string \<times> 'h) list" where
  "make_handlers L [] = Inr []"
| "make_handlers L ((what, path, vid, v) # rs) = (case GetValidatingWebhookHandler L v vid of
      Inl err \<Rightarrow> Inl (''error creating '' @ what @ '': '' @ emsg err)
    | Inr h \<Rightarrow> (case make_handlers L rs of Inl msg \<Rightarrow> Inl msg | Inr hs \<Rightarrow> Inr ((path, h) # hs)))"

text \<open>\<open>http.ServeMux\<close>: registering a pattern twice panics; a pattern without a trailing slash matches its path only.\<close>

fun mux_handle :: "(string \<times> 'h) list \<Rightarrow> (string \<rightharpoonup> 'h) \<Rightarrow> (string \<rightharpoonup> 'h) option" where
  "mux_handle [] mux = Some mux"
| "mux_handle ((path, h) # hs) mux = (case mux path of Some _ \<Rightarrow> None | None \<Rightarrow> mux_handle hs (mux(path \<mapsto> h)))"

text \<open>\<open>main\<close>: it exits with a message, panics, or serves the mux and exits when the listener fails.\<close>

datatype 'h webhook_outcome = WExit string | WPanic | WServed "string \<rightharpoonup> 'h" "go_error option"

definition webhook_main ::
  "('w, 'h) webhook_lib \<Rightarrow> regexps \<Rightarrow> (string \<times> string) result \<Rightarrow> 'r result \<Rightarrow> ('r \<Rightarrow> 'w kube result)
     \<Rightarrow> (string \<Rightarrow> string \<Rightarrow> string \<Rightarrow> (string \<rightharpoonup> 'h) \<Rightarrow> go_error option) \<Rightarrow> 'h webhook_outcome" where
  "webhook_main L re initFlags inClusterConfig newForConfig listenAndServeTLS =
     (case initFlags of Inl err \<Rightarrow> WExit (''unable to parse config: err: '' @ emsg err)
      | Inr (certFile, keyFile) \<Rightarrow>
     (case inClusterConfig of Inl err \<Rightarrow> WExit (''unable to build in-cluster config: '' @ emsg err)
      | Inr restConfig \<Rightarrow>
     (case newForConfig restConfig of Inl err \<Rightarrow> WExit (''unable to build dynamic client: '' @ emsg err)
      | Inr K \<Rightarrow>
     (case make_handlers L (webhook_routes re K) of Inl msg \<Rightarrow> WExit msg
      | Inr hs \<Rightarrow>
     (case mux_handle (hs @ [(''/healthz'', wl_healthz L)]) Map.empty of None \<Rightarrow> WPanic
      | Some mux \<Rightarrow> WServed mux (listenAndServeTLS '':8443'' certFile keyFile mux))))))"

section \<open>What is served\<close>

lemma mux_handle_distinct:
  "distinct (map fst hs) \<Longrightarrow> dom mux \<inter> fst ` set hs = {} \<Longrightarrow> mux_handle hs mux = Some (mux ++ map_of hs)"
proof (induction hs mux rule: mux_handle.induct)
  case (2 path h hs mux)
  then have free: "mux path = None" by auto
  have "dom (mux(path \<mapsto> h)) \<inter> fst ` set hs = {}" using 2(2,3) by (simp only: dom_fun_upd) auto
  then have "mux_handle hs (mux(path \<mapsto> h)) = Some (mux(path \<mapsto> h) ++ map_of hs)" using 2(2) by (intro 2(1) [OF free]) (simp_all only: list.map fst_conv distinct.simps)
  moreover have "mux(path \<mapsto> h) ++ map_of hs = mux ++ map_of ((path, h) # hs)"
    using 2(2) by (simp add: map_add_upd_left dom_map_of_conv_image_fst)
  ultimately show ?case by (simp only: mux_handle.simps free option.case)
qed simp

lemma make_handlers_paths: "make_handlers L rs = Inr hs \<Longrightarrow> map fst hs = map (\<lambda>(what, path, vid, v). path) rs"
  by (induction L rs arbitrary: hs rule: make_handlers.induct) (auto split: sum.splits)

lemma make_handlers_made:
  "make_handlers L rs = Inr hs \<Longrightarrow> (what, path, vid, v) \<in> set rs \<Longrightarrow> \<exists>h. (path, h) \<in> set hs \<and> GetValidatingWebhookHandler L v vid = Inr h"
  by (induction L rs arbitrary: hs rule: make_handlers.induct) (fastforce split: sum.splits)+

lemma webhook_paths_distinct: "make_handlers L (webhook_routes re K) = Inr hs \<Longrightarrow> distinct (map fst (hs @ [(''/healthz'', h)]))"
  by (drule make_handlers_paths) (simp add: webhook_routes_def)

lemma webhook_mux:
  assumes "make_handlers L (webhook_routes re K) = Inr hs"
  shows "mux_handle (hs @ [(''/healthz'', h)]) Map.empty = Some (map_of (hs @ [(''/healthz'', h)]))"
  using mux_handle_distinct [OF webhook_paths_distinct [OF assms, of h], of Map.empty] by simp

lemma webhook_never_panics: "webhook_main L re fl ic nf ls \<noteq> WPanic"
  by (auto simp: webhook_main_def webhook_mux split: sum.split prod.split)

text \<open>A server that started serves, under each path, the handler made of that very validator over the client it built; a
  handler that cannot be made keeps it from starting.\<close>

lemma webhook_serves:
  assumes "webhook_main L re fl ic nf ls = WServed mux e"
  shows "\<exists>rc K. ic = Inr rc \<and> nf rc = Inr K \<and> mux ''/healthz'' = Some (wl_healthz L)
    \<and> (\<forall>(what, path, vid, v) \<in> set (webhook_routes re K). \<exists>h. mux path = Some h \<and> GetValidatingWebhookHandler L v vid = Inr h)"
proof -
  obtain rc K hs where made: "ic = Inr rc" "nf rc = Inr K" "make_handlers L (webhook_routes re K) = Inr hs"
    "mux = map_of (hs @ [(''/healthz'', wl_healthz L)])"
    using assms by (auto simp: webhook_main_def webhook_mux split: sum.splits prod.splits)
  note d = webhook_paths_distinct [OF made(3), of "wl_healthz L"]
  have at: "mux p = Some h" if "(p, h) \<in> set (hs @ [(''/healthz'', wl_healthz L)])" for p h
    unfolding made(4) using that d by (rule map_of_is_SomeI [rotated])
  have "\<exists>h. mux path = Some h \<and> GetValidatingWebhookHandler L v vid = Inr h" if "(what, path, vid, v) \<in> set (webhook_routes re K)"
    for what path vid v
    using make_handlers_made [OF made(3) that] at by force
  then show ?thesis using made(1,2) at by fastforce
qed

text \<open>The controller and the webhook read the same variable, one as a number and the other as a word: a value that changes the
  level of the webhook keeps the controller from starting.\<close>

lemma upper_char_digit: "is_digit c \<Longrightarrow> upper_char c = c"
  by (simp add: is_digit_def upper_char_def)

lemma upper_head_letter:
  assumes "map upper_char s = c # cs" and "\<not> is_digit c" and "c \<noteq> CHR ''-''" and "c \<noteq> CHR ''+''"
  shows "atoi s = None"
proof -
  obtain a as where s: "s = a # as" "upper_char a = c" using assms(1) by auto
  then have "\<not> is_digit a" "a \<noteq> CHR ''-''" "a \<noteq> CHR ''+''" using upper_char_digit assms by (auto simp: upper_char_def)
  then show ?thesis by (simp add: atoi_def s(1))
qed

lemma log_level_words_rejected:
  assumes "webhookLogLevel getenv \<noteq> LogrusInfo"
  shows "NewLogger (Loglevel (NewConfig getenv nsfile)) = None"
proof -
  have "map upper_char (getenv LogLevelEnv) \<in> {''ERROR'', ''WARN'', ''DEBUG'', ''TRACE''}"
    using assms by (auto simp: webhookLogLevel_def LogLevelEnv_def Let_def split: if_splits)
  then show ?thesis using upper_head_letter by (auto simp: NewConfig_def NewLogger_def is_digit_def)
qed

end
