(* ===== verification/Seaweed_Store.thy ===== *)
theory Seaweed_Store
  imports Seaweed_Access
begin

text \<open>
  The identities on the filer as what they stand for: a map from names to identities. The client of \<open>iam.go\<close> is
  related to that map operation by operation, for a filer that keeps files: \<open>filer_law\<close> says what such a filer answers
  to the four calls, as the comments of \<open>iam.go\<close> have it, \<open>map_filer\<close> is one.
\<close>

section \<open>A filer that keeps files\<close>

text \<open>The content of each file, by directory and name.\<close>

type_synonym file_map = "string \<times> string \<Rightarrow> string option"

definition content_of :: "protowire \<Rightarrow> string \<Rightarrow> string" where
  "content_of W entry = bytes_of (lastBytesField W entry fieldEntryContent)"

definition put_request :: "protowire \<Rightarrow> string \<Rightarrow> ((string \<times> string) \<times> string) option" where
  "put_request W req = (case lastBytesField W req fieldCreateReqEntry of
      None \<Rightarrow> None
    | Some entry \<Rightarrow> Some ((bytes_of (lastBytesField W req fieldCreateReqDirectory), bytes_of (lastBytesField W entry fieldEntryName)),
        content_of W entry))"

definition file_request :: "protowire \<Rightarrow> string \<Rightarrow> string \<times> string" where
  "file_request W req = (bytes_of (lastBytesField W req fieldLookupReqDirectory), bytes_of (lastBytesField W req fieldLookupReqName))"

text \<open>The answer to a look at a file: an entry with its content, or the error that there is none.\<close>

definition lookup_answer :: "protowire \<Rightarrow> string option \<Rightarrow> string result \<Rightarrow> bool" where
  "lookup_answer W f r \<longleftrightarrow> (case f of
      None \<Rightarrow> (case r of Inl err \<Rightarrow> contains_str (emsg err) filerNotFoundMessage | Inr resp \<Rightarrow> False)
    | Some data \<Rightarrow> (case r of Inl err \<Rightarrow> False
        | Inr resp \<Rightarrow> (case lastBytesField W resp fieldLookupRespEntry of None \<Rightarrow> False | Some entry \<Rightarrow> content_of W entry = data)))"

text \<open>An answer that says the file is gone: no error, in the answer or of the call, or the one that it was not there.\<close>

definition delete_answer :: "protowire \<Rightarrow> string result \<Rightarrow> bool" where
  "delete_answer W r \<longleftrightarrow> (case r of
      Inl err \<Rightarrow> contains_str (emsg err) filerNotFoundMessage
    | Inr resp \<Rightarrow> (let inband = bytes_of (lastBytesField W resp fieldDeleteRespError) in
        inband = [] \<or> contains_str inband filerNotFoundMessage))"

text \<open>A file is created where none is, with no error in the answer, and updated where one is, with any answer at all: the
  first field of an \<open>UpdateEntryResponse\<close> is a metadata event, not an error.\<close>

definition filer_law :: "('w, 'x) sw_env_scheme \<Rightarrow> string \<Rightarrow> ('w \<Rightarrow> file_map) \<Rightarrow> bool" where
  "filer_law E target files \<longleftrightarrow>
     sw_dial E target = None
   \<and> (\<forall>w. files (snd (sw_unix E w)) = files w)
   \<and> (\<forall>req w. case sw_invoke E target filerSvcLookupEntry req w of
        (r, w') \<Rightarrow> files w' = files w \<and> lookup_answer (sw_wire E) (files w (file_request (sw_wire E) req)) r)
   \<and> (\<forall>req w f data. put_request (sw_wire E) req = Some (f, data) \<longrightarrow> files w f = None \<longrightarrow>
        (case sw_invoke E target filerSvcCreateEntry req w of
          (r, w') \<Rightarrow> (case r of Inl err \<Rightarrow> False | Inr resp \<Rightarrow> bytes_of (lastBytesField (sw_wire E) resp fieldCreateRespError) = [])
            \<and> files w' = (files w)(f \<mapsto> data)))
   \<and> (\<forall>req w f data. put_request (sw_wire E) req = Some (f, data) \<longrightarrow> files w f \<noteq> None \<longrightarrow>
        (case sw_invoke E target filerSvcUpdateEntry req w of
          (r, w') \<Rightarrow> (case r of Inl err \<Rightarrow> False | Inr resp \<Rightarrow> True) \<and> files w' = (files w)(f \<mapsto> data)))
   \<and> (\<forall>req w. case sw_invoke E target filerSvcDeleteEntry req w of
        (r, w') \<Rightarrow> delete_answer (sw_wire E) r \<and> files w' = (files w)(file_request (sw_wire E) req := None))"

lemma filer_lawD:
  assumes "filer_law E target files"
  shows "sw_dial E target = None"
    and "sw_unix E w = (now, w') \<Longrightarrow> files w' = files w"
    and "sw_invoke E target filerSvcLookupEntry req w = (r, w') \<Longrightarrow>
           files w' = files w \<and> lookup_answer (sw_wire E) (files w (file_request (sw_wire E) req)) r"
    and "put_request (sw_wire E) req = Some (f, data) \<Longrightarrow> files w f = None \<Longrightarrow> sw_invoke E target filerSvcCreateEntry req w = (r, w') \<Longrightarrow>
           (case r of Inl err \<Rightarrow> False | Inr resp \<Rightarrow> bytes_of (lastBytesField (sw_wire E) resp fieldCreateRespError) = [])
           \<and> files w' = (files w)(f \<mapsto> data)"
    and "put_request (sw_wire E) req = Some (f, data) \<Longrightarrow> files w f \<noteq> None \<Longrightarrow> sw_invoke E target filerSvcUpdateEntry req w = (r, w') \<Longrightarrow>
           (case r of Inl err \<Rightarrow> False | Inr resp \<Rightarrow> True) \<and> files w' = (files w)(f \<mapsto> data)"
    and "sw_invoke E target filerSvcDeleteEntry req w = (r, w') \<Longrightarrow>
           delete_answer (sw_wire E) r \<and> files w' = (files w)(file_request (sw_wire E) req := None)"
proof -
  note law = assms [unfolded filer_law_def]
  note L = law [THEN conjunct2, THEN conjunct2]
  show "sw_dial E target = None" by (rule law [THEN conjunct1])
  show "sw_unix E w = (now, w') \<Longrightarrow> files w' = files w"
    using law [THEN conjunct2, THEN conjunct1, rule_format, of w] by simp
  show "sw_invoke E target filerSvcLookupEntry req w = (r, w') \<Longrightarrow>
       files w' = files w \<and> lookup_answer (sw_wire E) (files w (file_request (sw_wire E) req)) r"
    using L [THEN conjunct1, rule_format, of w req] by simp
  show "put_request (sw_wire E) req = Some (f, data) \<Longrightarrow> files w f = None \<Longrightarrow> sw_invoke E target filerSvcCreateEntry req w = (r, w') \<Longrightarrow>
       (case r of Inl err \<Rightarrow> False | Inr resp \<Rightarrow> bytes_of (lastBytesField (sw_wire E) resp fieldCreateRespError) = [])
       \<and> files w' = (files w)(f \<mapsto> data)"
    using L [THEN conjunct2, THEN conjunct1, rule_format, of req f data w] by simp
  show "put_request (sw_wire E) req = Some (f, data) \<Longrightarrow> files w f \<noteq> None \<Longrightarrow> sw_invoke E target filerSvcUpdateEntry req w = (r, w') \<Longrightarrow>
       (case r of Inl err \<Rightarrow> False | Inr resp \<Rightarrow> True) \<and> files w' = (files w)(f \<mapsto> data)"
    using L [THEN conjunct2, THEN conjunct2, THEN conjunct1, rule_format, of req f data w] by simp
  show "sw_invoke E target filerSvcDeleteEntry req w = (r, w') \<Longrightarrow>
       delete_answer (sw_wire E) r \<and> files w' = (files w)(file_request (sw_wire E) req := None)"
    using L [THEN conjunct2, THEN conjunct2, THEN conjunct2, rule_format, of w req] by simp
qed

section \<open>The requests name the file\<close>

definition identity_file :: "string \<Rightarrow> string \<times> string" where
  "identity_file n = (iamIdentitiesDir, n @ ''.json'')"

lemma identity_file_inject [simp]: "identity_file m = identity_file n \<longleftrightarrow> m = n"
  by (simp add: identity_file_def)

lemma lookup_names_file: "wire_law W \<Longrightarrow> file_request W (identity_lookup W n) = identity_file n"
  by (simp add: file_request_def identity_lookup_def lookup_request_def identity_file_def bytes_of_def
      lastBytesField_message message_fields [OF _ _ message_fields(2)] message_fields field_num_def last_bytes_def
      fieldLookupReqDirectory_def fieldLookupReqName_def)

lemma delete_names_file: "wire_law W \<Longrightarrow> file_request W (identity_delete W n) = identity_file n"
  using lookup_names_file [of W n]
  by (simp add: identity_lookup_def lookup_request_def identity_delete_def fieldLookupReqDirectory_def fieldLookupReqName_def
      fieldDeleteReqDirectory_def fieldDeleteReqName_def)

lemma written_content: "wire_law W \<Longrightarrow> content_of W (identity_entry W i now) = identity_payload i"
  by (simp add: content_of_def bytes_of_def lastBytesField_message entry_message last_bytes_def
      fieldEntryName_def fieldEntryAttributes_def fieldEntryContent_def)

lemma write_names_file:
  assumes "wire_law W"
  shows "put_request W (write_request W i now) = Some (identity_file (id_name i), identity_payload i)"
  using assms
  by (simp add: put_request_def write_request_def identity_file_def bytes_of_def written_content
      lastBytesField_message message_fields field_num_def last_bytes_def entry_message
      fieldCreateReqDirectory_def fieldCreateReqEntry_def fieldEntryName_def fieldEntryAttributes_def fieldEntryContent_def)

section \<open>Refinement\<close>

text \<open>The map that the files stand for.\<close>

definition identity_of_content :: "string \<Rightarrow> s3Identity option" where
  "identity_of_content data = (if trim_space data = [] then None
     else (case json_decode data of Inl err \<Rightarrow> None | Inr j \<Rightarrow> (case decode_identity j of Inl err \<Rightarrow> None | Inr i \<Rightarrow> Some i)))"

definition identities :: "file_map \<Rightarrow> string \<Rightarrow> s3Identity option" where
  "identities fm n = (case fm (identity_file n) of None \<Rightarrow> None | Some data \<Rightarrow> identity_of_content data)"

lemma content_payload [simp]: "identity_of_content (identity_payload i) = Some i"
  by (simp add: identity_of_content_def payload_not_blank json_decode_payload decode_encode_identity)

lemma content_of_entry:
  "identity_of_entry W n entry = Inl err \<Longrightarrow> identity_of_content (content_of W entry) = None"
  "identity_of_entry W n entry = Inr i \<Longrightarrow> i = identity_of_content (content_of W entry)"
  by (auto simp: identity_of_entry_def identity_of_content_def content_of_def Let_def split: sum.splits if_splits)

lemma identities_put: "identities (fm(identity_file (id_name i) \<mapsto> identity_payload i)) = (identities fm)(id_name i \<mapsto> i)"
  by (rule ext) (simp add: identities_def)

lemma identities_remove: "identities (fm(identity_file n := None)) = (identities fm)(n := None)"
  by (rule ext) (simp add: identities_def)

lemma read_step:
  assumes W: "wire_law (sw_wire E)" and F: "filer_law E target files"
    and "\<And>r w' e. files w' = files w \<Longrightarrow> (case r of Inl err \<Rightarrow> identities (files w) n = None
          | Inr i \<Rightarrow> i = identities (files w) n) \<Longrightarrow> Q r (w', t @ [e])"
  shows "wp (readIdentity E target n) Q (w, t)"
  unfolding readIdentity_def lookupIdentityEntry_def filer_invoke_def invoke_def filer_lawD(1) [OF F] option.case
proof (intro wp_bind wp_call wp_return, goal_cases)
  case (1 r w')
  note answer = filer_lawD(3) [OF F 1, unfolded lookup_names_file [OF W]]
  show ?case
    by (rule assms(3))
      (use answer in \<open>auto simp: lookup_answer_def identities_def dest: content_of_entry split: sum.splits option.splits if_splits\<close>)
qed

lemma lookup_entry_step:
  assumes W: "wire_law (sw_wire E)" and F: "filer_law E target files"
    and "\<And>found w' e. files w' = files w \<Longrightarrow> (found = None \<longleftrightarrow> files w (identity_file n) = None) \<Longrightarrow> Q (Inr found) (w', t @ [e])"
  shows "wp (lookupIdentityEntry E target n) Q (w, t)"
  unfolding lookupIdentityEntry_def filer_invoke_def invoke_def filer_lawD(1) [OF F] option.case
proof (intro wp_bind wp_call wp_return, goal_cases)
  case (1 r w')
  note answer = filer_lawD(3) [OF F 1, unfolded lookup_names_file [OF W]]
  then show ?case
    using assms(3) by (auto simp: lookup_answer_def split: sum.splits option.splits if_splits)
qed

lemma put_step:
  assumes W: "wire_law (sw_wire E)" and F: "filer_law E target files"
    and b: "b \<longleftrightarrow> files w (identity_file (id_name i)) = None"
    and "\<And>w' e. identities (files w') = (identities (files w))(id_name i \<mapsto> i) \<Longrightarrow> Q None (w', t @ [e])"
  shows "wp (if b then create_entry E target (id_name i) (write_request (sw_wire E) i now)
     else update_entry E target (id_name i) (write_request (sw_wire E) i now)) Q (w, t)"
  unfolding create_entry_def update_entry_def filer_invoke_def invoke_def filer_lawD(1) [OF F] option.case
proof (intro wp_if wp_bind wp_call wp_return, goal_cases)
  case (1 r w')
  note put = filer_lawD(4) [OF F write_names_file [OF W] _ 1(2)]
  then have "Q None (w', t @ [EvFiler target filerSvcCreateEntry (write_request (sw_wire E) i now) r])"
    using 1 b by (intro assms(4)) (simp add: identities_put)
  then show ?case using put 1 b by (auto split: sum.splits)
next
  case (2 r w')
  note put = filer_lawD(5) [OF F write_names_file [OF W] _ 2(2)]
  then have "Q None (w', t @ [EvFiler target filerSvcUpdateEntry (write_request (sw_wire E) i now) r])"
    using 2 b by (intro assms(4)) (simp add: identities_put)
  then show ?case using put 2 b by (auto split: sum.splits)
qed

lemma store_write_step:
  assumes W: "wire_law (sw_wire E)" and F: "filer_law E target files"
  shows "wp (writeIdentity E target i)
     (\<lambda>r s'. r = None \<and> identities (files (fst s')) = (identities (files w))(id_name i \<mapsto> i)) (w, t)"
  unfolding writeIdentity_def verify_identity_def Let_def
proof (intro wp_bind wp_sample, rule lookup_entry_step [OF W F], unfold sum.case, rule wp_bind, rule put_step [OF W F], simp,
    unfold option.case, rule wp_bind, rule read_step [OF W F], rule wp_return, goal_cases)
  case (1 now w1 found w2 e2 w3 e3 r w4 e4)
  have "files w1 = files w" by (rule filer_lawD(2) [OF F 1(1)])
  with 1 show ?case by (auto simp: identityEqual_eq split: sum.splits)
qed

lemma delete_step:
  assumes W: "wire_law (sw_wire E)" and F: "filer_law E target files"
  shows "wp (deleteIdentity E target n)
     (\<lambda>r s'. r = None \<and> identities (files (fst s')) = (identities (files w))(n := None)) (w, t)"
  unfolding deleteIdentity_def filer_invoke_def invoke_def filer_lawD(1) [OF F] option.case
proof (intro wp_bind wp_call wp_return, goal_cases)
  case (1 r w')
  note gone = filer_lawD(6) [OF F 1, unfolded delete_names_file [OF W]]
  then show ?case
    by (auto simp: delete_result_def delete_answer_def Let_def identities_remove split: sum.splits)
qed

text \<open>C26: The store of identities is a map. Over a filer that keeps files, the three operations of the client succeed and do to the
  identities what update, removal and lookup do to a map: writing stores exactly the identity, whether its file was there before or
  not and whatever the filer answers to an update (its first field is an event, not an error), deleting removes it, also when
  it was not there, and neither changes any other identity.\<close>

theorem identity_store_is_map:
  assumes "wire_law (sw_wire E)" and "filer_law E target files"
  shows "wp (if_write (filerEtcClient E target) i)
      (\<lambda>r s'. r = None \<and> identities (files (fst s')) = (identities (files w))(id_name i \<mapsto> i)) (w, t)
   \<and> wp (if_delete (filerEtcClient E target) n)
      (\<lambda>r s'. r = None \<and> identities (files (fst s')) = (identities (files w))(n := None)) (w, t)
   \<and> wp (if_read (filerEtcClient E target) n)
      (\<lambda>r s'. files (fst s') = files w \<and> (case r of Inl err \<Rightarrow> identities (files w) n = None
         | Inr found \<Rightarrow> found = identities (files w) n)) (w, t)"
  using store_write_step [OF assms] delete_step [OF assms] by (simp add: filerEtcClient_def read_step [OF assms])

section \<open>One such filer\<close>

text \<open>It answers an update with the event of the change, and the deletion of a file that is not there in band.\<close>

definition stored_entry :: "string \<Rightarrow> string" where
  "stored_entry data = appendBytesField plain_wire [] fieldEntryContent data"

definition map_filer :: "string \<Rightarrow> string \<Rightarrow> file_map \<Rightarrow> string result \<times> file_map" where
  "map_filer meth req fm =
     (if meth = filerSvcLookupEntry
      then (case fm (file_request plain_wire req) of
          None \<Rightarrow> (Inl (new_err filerNotFoundMessage), fm)
        | Some data \<Rightarrow> (Inr (appendBytesField plain_wire [] fieldLookupRespEntry (stored_entry data)), fm))
      else if meth = filerSvcDeleteEntry
      then (let f = file_request plain_wire req in
         (Inr (if fm f = None then appendBytesField plain_wire [] fieldDeleteRespError filerNotFoundMessage else []), fm(f := None)))
      else (case put_request plain_wire req of
          None \<Rightarrow> (Inl (new_err ''no entry''), fm)
        | Some (f, data) \<Rightarrow>
            if meth = filerSvcCreateEntry then (Inr [], fm(f \<mapsto> data))
            else if fm f = None then (Inl (new_err filerNotFoundMessage), fm)
            else (Inr (appendBytesField plain_wire [] 1 (''updated '' @ snd f)), fm(f \<mapsto> data))))"

definition map_env :: "file_map sw_env" where
  "map_env = \<lparr>sw_kube = quiet_kube, sw_namespace = ''d8'', sw_image = ''img'', sw_cluster_domain = ''cluster.local'',
     sw_own = (\<lambda>ow m. Inr (m\<lparr>m_owner := Some (m_name ow)\<rparr>)), sw_pq = (\<lambda>_. Inr 0), sw_rand = (\<lambda>n w. (Inr ''0'', w)),
     sw_s3 = \<lparr>s3_new = (\<lambda>_ _ _. None), s3_bucket_exists = (\<lambda>_ _ w. (Inr True, w)), s3_make_bucket = (\<lambda>_ _ _ w. (None, w)),
       s3_remove_objects = (\<lambda>_ _ w. ([], w)), s3_remove_bucket = (\<lambda>_ _ w. (None, w)), s3_get_policy = (\<lambda>_ _ w. (Inr [], w)),
       s3_set_policy = (\<lambda>_ _ _ w. (None, w))\<rparr>,
     sw_wire = plain_wire, sw_dial = (\<lambda>_. None), sw_invoke = (\<lambda>_. map_filer), sw_unix = (\<lambda>w. (0, w))\<rparr>"

lemma contains_str_refl: "contains_str s s"
  by (subst contains_str.simps) (simp add: has_prefix_def)

lemma plain_field: "field_num n \<Longrightarrow> lastBytesField plain_wire (appendBytesField plain_wire [] n v) n = Some v"
  by (simp add: plain_wire_law lastBytesField_message [OF _ message_fields(1)] last_bytes_def)

lemma no_field [simp]: "lastBytesField W [] n = None"
  by (simp add: lastBytesField_def)

lemma field_nums: "field_num fieldLookupRespEntry" "field_num fieldEntryContent" "field_num fieldDeleteRespError"
  by (simp_all add: field_num_def fieldLookupRespEntry_def fieldEntryContent_def fieldDeleteRespError_def)

lemmas filer_calls = filerSvcCreateEntry_def filerSvcUpdateEntry_def filerSvcLookupEntry_def filerSvcDeleteEntry_def

lemma map_env_fields: "sw_wire map_env = plain_wire" "sw_dial map_env target = None" "sw_unix map_env w = (0, w)"
  "sw_invoke map_env target = map_filer"
  by (simp_all add: map_env_def)

lemma map_filer_law: "filer_law map_env target id"
  unfolding filer_law_def map_env_fields
proof (intro conjI allI impI, goal_cases)
  case (3 req w)
  then show ?case
    by (simp add: map_filer_def lookup_answer_def new_err_def contains_str_refl plain_field field_nums content_of_def bytes_of_def
        stored_entry_def split: option.split)
next
  case (4 req w f data)
  then show ?case by (simp add: map_filer_def filer_calls bytes_of_def)
next
  case (5 req w f data)
  then show ?case by (auto simp: map_filer_def filer_calls)
next
  case (6 req w)
  then show ?case
    by (simp add: map_filer_def filer_calls delete_answer_def Let_def plain_field field_nums bytes_of_def contains_str_refl)
qed simp_all

text \<open>Two identities are there; one is written anew, over the file it has.\<close>

definition two_files :: file_map where
  "two_files = [identity_file ''team.app'' \<mapsto> identity_payload (scoped_identity ''team.app'' ''AK0'' ''SK0'' [''Read:logs'']),
     identity_file ''team.db'' \<mapsto> identity_payload (scoped_identity ''team.db'' ''AK1'' ''SK1'' [''Read:dumps''])]"

lemma two_identities: "identities two_files = [''team.app'' \<mapsto> scoped_identity ''team.app'' ''AK0'' ''SK0'' [''Read:logs''],
     ''team.db'' \<mapsto> scoped_identity ''team.db'' ''AK1'' ''SK1'' [''Read:dumps'']]"
  by (rule ext) (simp add: identities_def two_files_def)

lemma identity_store_is_map_witness:
  "wp (if_write (filerEtcClient map_env ''filer:18888'') (scoped_identity ''team.app'' ''AK2'' ''SK2'' [''Write:logs'']))
      (\<lambda>r s'. r = None \<and> identities (fst s') = [''team.app'' \<mapsto> scoped_identity ''team.app'' ''AK2'' ''SK2'' [''Write:logs''],
         ''team.db'' \<mapsto> scoped_identity ''team.db'' ''AK1'' ''SK1'' [''Read:dumps'']]) (two_files, [])
   \<and> wp (if_delete (filerEtcClient map_env ''filer:18888'') ''team.old'')
      (\<lambda>r s'. r = None \<and> identities (fst s') = identities two_files) (two_files, [])"
proof -
  note store = identity_store_is_map [OF _ map_filer_law, unfolded map_env_fields, OF plain_wire_law, of "''filer:18888''"]
  have name: "id_name (scoped_identity ''team.app'' ''AK2'' ''SK2'' [''Write:logs'']) = ''team.app''" by (simp add: scoped_identity_def)
  have same: "(identities two_files)(''team.old'' := None) = identities two_files" by (rule ext) (simp add: two_identities)
  show ?thesis
    using store [of "scoped_identity ''team.app'' ''AK2'' ''SK2'' [''Write:logs'']" two_files "[]" "''team.old''"]
    by (simp add: name same) (simp add: two_identities fun_upd_twist)
qed

end
