(* ===== verification/Release_Notes.thy ===== *)
theory Release_Notes
  imports Go_Lib "HOL-Library.List_Lexorder"
begin

text \<open>
  \<open>hack/generate_release_notes.go\<close>: the release notes, made from the changelog files. The file system and the YAML
  parser are parameters: the entries of the directory, and what loading a file gives. A YAML document is a
  graph of nodes, since an alias points to the node of its anchor, which may contain the alias: a store of
  nodes by number, and a formatter with fuel, where \<open>None\<close> is a recursion that has not ended.
\<close>

section \<open>Versions\<close>

definition trim_suffix :: "string \<Rightarrow> string \<Rightarrow> string" where
  "trim_suffix s suf = (if has_suffix s suf then take (length s - length suf) s else s)"

definition trim_prefix :: "string \<Rightarrow> string \<Rightarrow> string" where
  "trim_prefix s p = (if has_prefix s p then drop (length p) s else s)"

text \<open>\<open>filepath.Base\<close> and \<open>strings.Split\<close> at one character.\<close>

definition base_name :: "string \<Rightarrow> string" where
  "base_name p = (if p = [] then ''.''
     else (let q = rev (dropWhile (\<lambda>c. c = CHR ''/'') (rev p)) in
           if q = [] then ''/'' else (case after_last CHR ''/'' q of None \<Rightarrow> q | Some x \<Rightarrow> x)))"

fun split_at :: "char \<Rightarrow> string \<Rightarrow> string list" where
  "split_at c [] = [[]]"
| "split_at c (x # xs) = (if x = c then [] # split_at c xs
     else (case split_at c xs of [] \<Rightarrow> [[x]] | y # ys \<Rightarrow> (x # y) # ys))"

definition parseVersionFromFilename :: "string \<Rightarrow> string" where
  "parseVersionFromFilename filename = trim_suffix (trim_suffix filename ''.ru.yml'') ''.yml''"

text \<open>The number at the start of a part; \<open>strconv.Atoi\<close> of a number that does not fit is the largest one, and its
  error is dropped.\<close>

definition part_key :: "string \<Rightarrow> int" where
  "part_key p = (let m = takeWhile is_digit p in if m = [] then 0 else min (int (digits_val m)) max_int64)"

definition versionKey :: "string \<Rightarrow> int list" where
  "versionKey path = map part_key (split_at CHR ''.'' (trim_prefix (parseVersionFromFilename (base_name path)) ''v''))"

text \<open>The loop over the positions of both keys, missing components being 0.\<close>

fun compareVersionKeys :: "int list \<Rightarrow> int list \<Rightarrow> int" where
  "compareVersionKeys [] [] = 0"
| "compareVersionKeys (x # xs) [] = (if x \<noteq> 0 then (if x < 0 then -1 else 1) else compareVersionKeys xs [])"
| "compareVersionKeys [] (y # ys) = (if 0 \<noteq> y then (if 0 < y then -1 else 1) else compareVersionKeys [] ys)"
| "compareVersionKeys (x # xs) (y # ys) = (if x \<noteq> y then (if x < y then -1 else 1) else compareVersionKeys xs ys)"

text \<open>\<open>sort.SliceStable\<close>: insertion keeps the order of elements that are not less than each other.\<close>

fun insert_stable :: "('a \<Rightarrow> 'a \<Rightarrow> bool) \<Rightarrow> 'a \<Rightarrow> 'a list \<Rightarrow> 'a list" where
  "insert_stable lt x [] = [x]"
| "insert_stable lt x (y # ys) = (if lt y x then y # insert_stable lt x ys else x # y # ys)"

definition sortFilesByVersion :: "string list \<Rightarrow> string list" where
  "sortFilesByVersion files = foldr (insert_stable (\<lambda>a b. compareVersionKeys (versionKey a) (versionKey b) < 0)) files []"

text \<open>The entries are the names in the directory with whether they are directories; \<open>filepath.Join\<close> of a clean directory.\<close>

definition getChangelogFiles :: "string \<Rightarrow> (string \<times> bool) list \<Rightarrow> string list \<times> string list" where
  "getChangelogFiles dir entries =
     (let files = map fst (filter (\<lambda>(n, isdir). \<not> isdir) entries);
          full = (\<lambda>n. dir @ ''/'' @ n);
          ru = map full (filter (\<lambda>n. has_suffix n ''.ru.yml'') files);
          en = map full (filter (\<lambda>n. \<not> has_suffix n ''.ru.yml'' \<and> has_suffix n ''.yml'') files)
      in (sortFilesByVersion en, sortFilesByVersion ru))"

section \<open>Values\<close>

definition replace_char :: "char \<Rightarrow> string \<Rightarrow> string \<Rightarrow> string" where
  "replace_char c r s = concat (map (\<lambda>x. if x = c then r else [x]) s)"

definition sq :: char where "sq = CHR 0x27"
definition dq :: char where "dq = CHR 0x22"
definition bs :: char where "bs = CHR 0x5C"

definition pyQuote :: "string \<Rightarrow> string" where
  "pyQuote s =
     (if sq \<in> set s \<and> dq \<notin> set s
      then [dq] @ replace_char dq [bs, dq] (replace_char bs [bs, bs] s) @ [dq]
      else [sq] @ replace_char sq [bs, sq] (replace_char bs [bs, bs] s) @ [sq])"

datatype yaml_kind = DocumentNode | SequenceNode | MappingNode | ScalarNode | AliasNode | NoKind

record yaml_node =
  y_kind :: yaml_kind
  y_value :: string
  y_content :: "nat list"
  y_alias :: "nat option"

fun node_pairs :: "'a list \<Rightarrow> ('a \<times> 'a) list" where
  "node_pairs (k # v # r) = (k, v) # node_pairs r"
| "node_pairs _ = []"

fun formatPyValue :: "nat \<Rightarrow> (nat \<Rightarrow> yaml_node) \<Rightarrow> nat \<Rightarrow> string option" where
  "formatPyValue 0 g n = None"
| "formatPyValue (Suc k) g n =
     (let node = g n in
      case y_kind node of
        DocumentNode \<Rightarrow> (case y_content node of [] \<Rightarrow> Some ''None'' | c # cs \<Rightarrow> formatPyValue k g c)
      | ScalarNode \<Rightarrow> Some (pyQuote (y_value node))
      | MappingNode \<Rightarrow> map_option (\<lambda>parts. ''{'' @ join_str '', '' parts @ ''}'')
          (those (map (\<lambda>(a, b). case (formatPyValue k g a, formatPyValue k g b) of
               (Some x, Some y) \<Rightarrow> Some (x @ '': '' @ y) | _ \<Rightarrow> None) (node_pairs (y_content node))))
      | SequenceNode \<Rightarrow> map_option (\<lambda>parts. ''['' @ join_str '', '' parts @ '']'') (those (map (formatPyValue k g) (y_content node)))
      | AliasNode \<Rightarrow> (case y_alias node of Some a \<Rightarrow> formatPyValue k g a | None \<Rightarrow> Some (y_value node))
      | NoKind \<Rightarrow> Some (y_value node))"

definition formatChange :: "nat \<Rightarrow> (nat \<Rightarrow> yaml_node) \<Rightarrow> nat \<Rightarrow> string option" where
  "formatChange k g n = (if y_kind (g n) = ScalarNode then Some (y_value (g n)) else formatPyValue k g n)"

section \<open>The document\<close>

text \<open>The Russian strings as UTF-8.\<close>

definition ru_releases :: string where
  "ru_releases = map char_of [208, 160, 208, 181, 208, 187, 208, 184, 208, 183, 209, 139 :: nat]"

definition ru_changes :: string where
  "ru_changes = map char_of [208, 152, 208, 183, 208, 188, 208, 181, 208, 189, 208, 181, 208, 189, 208, 184, 209, 143 :: nat]"

definition notes_header :: "bool \<Rightarrow> string list" where
  "notes_header isRussian =
     [''---'', ''title: '' @ [dq] @ (if isRussian then ru_releases else ''Release Notes'') @ [dq], ''---'', []]"

text \<open>The mapping at the top of a file that loads, if it has one.\<close>

definition top_mapping :: "((nat \<Rightarrow> yaml_node) \<times> nat) option \<Rightarrow> ((nat \<Rightarrow> yaml_node) \<times> nat list) option" where
  "top_mapping r = (case r of None \<Rightarrow> None
     | Some (g, root) \<Rightarrow>
         (case y_content (g root) of
            [] \<Rightarrow> None
          | t # ts \<Rightarrow> if y_kind (g root) \<noteq> DocumentNode \<or> y_kind (g t) \<noteq> MappingNode then None else Some (g, y_content (g t))))"

definition heading :: "string \<Rightarrow> string" where "heading v = ''## '' @ v"
definition bullet :: "string \<Rightarrow> string" where "bullet s = ''* '' @ s"

definition change_lines :: "nat \<Rightarrow> (nat \<Rightarrow> yaml_node) \<Rightarrow> nat option \<Rightarrow> string list option" where
  "change_lines k g changes = (case changes of
      None \<Rightarrow> Some []
    | Some c \<Rightarrow> those (map (\<lambda>n. map_option bullet (formatChange k g n))
        (if y_kind (g c) = SequenceNode then y_content (g c) else [c])))"

definition file_lines :: "nat \<Rightarrow> (string \<Rightarrow> ((nat \<Rightarrow> yaml_node) \<times> nat) option) \<Rightarrow> string \<Rightarrow> string \<Rightarrow> string list option" where
  "file_lines k load changesKey fp = (case top_mapping (load fp) of
      None \<Rightarrow> Some []
    | Some (g, content) \<Rightarrow>
        map_option (\<lambda>ls. heading (parseVersionFromFilename (base_name fp)) # [] # ls @ [[]])
          (change_lines k g (map_option snd (find (\<lambda>(key, v). y_value (g key) = changesKey) (node_pairs content)))))"

definition notes_lines :: "nat \<Rightarrow> (string \<Rightarrow> ((nat \<Rightarrow> yaml_node) \<times> nat) option) \<Rightarrow> string list \<Rightarrow> bool \<Rightarrow> string list option" where
  "notes_lines k load files isRussian =
     map_option (\<lambda>ls. notes_header isRussian @ concat ls)
       (those (map (file_lines k load (if isRussian then ru_changes else ''Changes'')) (rev files)))"

definition generateMarkdownContent :: "nat \<Rightarrow> (string \<Rightarrow> ((nat \<Rightarrow> yaml_node) \<times> nat) option) \<Rightarrow> string list \<Rightarrow> bool \<Rightarrow> string option" where
  "generateMarkdownContent k load files isRussian = map_option (join_str nl) (notes_lines k load files isRussian)"

section \<open>The order of the versions\<close>

text \<open>A version without its trailing zero components.\<close>

fun normal_version :: "int list \<Rightarrow> int list" where
  "normal_version [] = []"
| "normal_version (x # xs) = (let r = normal_version xs in if x = 0 \<and> r = [] then [] else x # r)"

lemma less_normal_version:
  "list_all (\<lambda>x. 0 \<le> x) a \<Longrightarrow> list_all (\<lambda>x. 0 \<le> x) b \<Longrightarrow> compareVersionKeys a b < 0 \<longleftrightarrow> normal_version a < normal_version b"
  by (induction a b rule: compareVersionKeys.induct) (auto simp: Let_def neq_Nil_conv)

lemma versionKey_nonneg: "list_all (\<lambda>x. 0 \<le> x) (versionKey p)"
  by (auto simp: versionKey_def list_all_iff part_key_def Let_def max_int64_def)

text \<open>The versions as a type with a linear order.\<close>

lemma normal_version_idem [simp]: "normal_version (normal_version v) = normal_version v"
  by (induction v) (auto simp: Let_def)

typedef version = "{v :: int list. normal_version v = v}"
  by (rule exI [of _ "[]"]) simp

setup_lifting type_definition_version

lift_definition version_of :: "int list \<Rightarrow> version" is normal_version
  by simp

instantiation version :: linorder
begin

lift_definition less_eq_version :: "version \<Rightarrow> version \<Rightarrow> bool" is "(\<le>)" .

lift_definition less_version :: "version \<Rightarrow> version \<Rightarrow> bool" is "(<)" .

instance
  by standard (transfer, force)+

end

lemma versionKey_less:
  "compareVersionKeys (versionKey a) (versionKey b) < 0 \<longleftrightarrow> version_of (versionKey a) < version_of (versionKey b)"
  using less_normal_version [OF versionKey_nonneg versionKey_nonneg] by transfer

lemma insert_stable_key: "insert_stable (\<lambda>a b. f a < f b) x ys = insort_key (f :: 'a \<Rightarrow> 'b :: linorder) x ys"
  by (induction ys) auto

lemma foldr_insert_stable: "foldr (insert_stable (\<lambda>a b. f a < f b)) xs [] = sort_key (f :: 'a \<Rightarrow> 'b :: linorder) xs"
  by (simp add: sort_key_def insert_stable_key [abs_def])

text \<open>The changelog files are sorted by their version, stably: the result is the library's stable sort by the
  version, in the linear order of versions: a version is the list of its numbers without trailing zeros, compared
  lexicographically. So the comparison of the code, which pads the shorter key, is an order, and files of the same version
  keep their places.\<close>

theorem files_sorted_by_version:
  "sortFilesByVersion files = sort_key (\<lambda>p. version_of (versionKey p)) files"
  by (simp add: sortFilesByVersion_def versionKey_less foldr_insert_stable)

section \<open>Quoting\<close>

text \<open>Reading a Python string literal with the simple escapes; a line break may not occur in one.\<close>

fun py_chars :: "char \<Rightarrow> string \<Rightarrow> string option" where
  "py_chars q [] = None"
| "py_chars q (c # cs) =
     (if c = q then (if cs = [] then Some [] else None)
      else if c = CHR 0x0A \<or> c = CHR 0x0D then None
      else if c = bs then (case cs of [] \<Rightarrow> None
        | d # ds \<Rightarrow> if d \<in> {bs, sq, dq} then map_option (\<lambda>s. d # s) (py_chars q ds) else None)
      else map_option (\<lambda>s. c # s) (py_chars q cs))"

definition py_literal :: "string \<Rightarrow> string option" where
  "py_literal s = (case s of [] \<Rightarrow> None | q # cs \<Rightarrow> if q \<in> {sq, dq} then py_chars q cs else None)"

lemma quote_chars_differ [simp]: "sq \<noteq> dq" "dq \<noteq> sq" "sq \<noteq> bs" "bs \<noteq> sq" "dq \<noteq> bs" "bs \<noteq> dq"
  "bs \<noteq> CHR 0x0A" "bs \<noteq> CHR 0x0D" "sq \<noteq> CHR 0x0A" "sq \<noteq> CHR 0x0D" "dq \<noteq> CHR 0x0A" "dq \<noteq> CHR 0x0D"
  by (simp_all add: sq_def dq_def bs_def)

lemma replace_char_simps [simp]:
  "replace_char c r [] = []" "replace_char c r (x # xs) = (if x = c then r else [x]) @ replace_char c r xs"
  by (simp_all add: replace_char_def)

lemma py_chars_escaped:
  "q \<in> {sq, dq} \<Longrightarrow> CHR 0x0A \<notin> set s \<Longrightarrow> CHR 0x0D \<notin> set s \<Longrightarrow>
     py_chars q (replace_char q [bs, q] (replace_char bs [bs, bs] s) @ [q]) = Some s"
  by (induction s) auto

text \<open>A quoted value without line breaks is a Python literal for that value.\<close>

theorem py_quote_roundtrip:
  assumes "CHR 0x0A \<notin> set s" and "CHR 0x0D \<notin> set s"
  shows "py_literal (pyQuote s) = Some s"
  using py_chars_escaped [of sq s] py_chars_escaped [of dq s] assms by (simp add: pyQuote_def py_literal_def)

lemma py_quote_roundtrip_witness: "py_literal (pyQuote [CHR ''d'', sq, CHR ''t'', bs]) = Some [CHR ''d'', sq, CHR ''t'', bs]"
  by (rule py_quote_roundtrip) (auto simp: sq_def bs_def)

text \<open>With a line break it is not one, although \<open>repr\<close>, which it is said to agree with, escapes line breaks.\<close>

lemma py_quote_line_break: "py_literal (pyQuote nl) = None"
  by (simp add: pyQuote_def py_literal_def nl_def quote_chars_differ [symmetric])

section \<open>Formatting\<close>

lemma those_map_Some: "(\<And>x. x \<in> set xs \<Longrightarrow> \<exists>y. f x = Some y) \<Longrightarrow> \<exists>ys. those (map f xs) = Some ys"
  by (induction xs) (simp, force)

lemma node_pairs_set: "(a, b) \<in> set (node_pairs xs) \<Longrightarrow> a \<in> set xs \<and> b \<in> set xs"
  by (induction xs rule: node_pairs.induct) auto

text \<open>A document without cycles: the nodes have a rank that falls along content and aliases.\<close>

definition ranked :: "(nat \<Rightarrow> yaml_node) \<Rightarrow> (nat \<Rightarrow> nat) \<Rightarrow> bool" where
  "ranked g r \<longleftrightarrow> (\<forall>n m. m \<in> set (y_content (g n)) \<or> y_alias (g n) = Some m \<longrightarrow> r m < r n)"

lemma format_ends:
  assumes "ranked g r"
  shows "r n < k \<Longrightarrow> \<exists>s. formatPyValue k g n = Some s"
proof (induction k arbitrary: n)
  case (Suc k)
  have below: "r m < k" if "m \<in> set (y_content (g n)) \<or> y_alias (g n) = Some m" for m
    using that assms Suc.prems unfolding ranked_def by (meson less_Suc_eq_le order_less_le_trans)
  have kids: "\<exists>ys. those (map (formatPyValue k g) (y_content (g n))) = Some ys"
    by (rule those_map_Some) (use below Suc.IH in blast)
  have "\<exists>ys. those (map (\<lambda>(a, b). case (formatPyValue k g a, formatPyValue k g b) of
     (Some x, Some y) \<Rightarrow> Some (x @ '': '' @ y) | _ \<Rightarrow> None) (node_pairs (y_content (g n)))) = Some ys"
  proof (rule those_map_Some)
    fix ab assume ab: "ab \<in> set (node_pairs (y_content (g n)))"
    obtain a b where [simp]: "ab = (a, b)" by (cases ab)
    obtain x y where "formatPyValue k g a = Some x" "formatPyValue k g b = Some y"
      using node_pairs_set [of a b] ab below Suc.IH by (metis \<open>ab = (a, b)\<close>)
    then show "\<exists>y. (case ab of (a, b) \<Rightarrow> case (formatPyValue k g a, formatPyValue k g b) of
       (Some x, Some y) \<Rightarrow> Some (x @ '': '' @ y) | _ \<Rightarrow> None) = Some y" by simp
  qed
  then show ?case using kids below Suc.IH
    by (auto simp: Let_def split: yaml_kind.split list.split option.split)
qed simp

lemma change_lines_end:
  assumes "ranked g r" and "\<And>n. r n < k"
  shows "\<exists>ls. change_lines k g c = Some ls"
proof -
  have "\<exists>y. map_option bullet (formatChange k g n) = Some y" for n
    using format_ends [OF assms(1) assms(2) [of n]] by (auto simp: formatChange_def)
  then show ?thesis unfolding change_lines_def using those_map_Some [where f = "\<lambda>n. map_option bullet (formatChange k g n)"]
    by (simp split: option.split)
qed

text \<open>The notes are made, with fuel beyond the depth of the documents, when no document has a cycle.\<close>

theorem notes_end:
  assumes "\<And>fp g root. load fp = Some (g, root) \<Longrightarrow> \<exists>r. ranked g r \<and> (\<forall>n. r n < k)"
  shows "\<exists>s. generateMarkdownContent k load files isRussian = Some s"
proof -
  have "\<exists>ls. file_lines k load key fp = Some ls" for key fp
  proof (cases "top_mapping (load fp)")
    case (Some gc)
    obtain g content where gc: "gc = (g, content)" by (cases gc)
    obtain root where "load fp = Some (g, root)"
      using Some unfolding gc top_mapping_def by (auto split: option.splits list.splits if_splits)
    then obtain r where "ranked g r" "\<And>n. r n < k" using assms by blast
    then show ?thesis using change_lines_end by (fastforce simp: file_lines_def Some gc)
  qed (simp add: file_lines_def)
  then show ?thesis
    using those_map_Some [of "rev files" "file_lines k load (if isRussian then ru_changes else ''Changes'')"]
    by (auto simp: generateMarkdownContent_def notes_lines_def)
qed

text \<open>A node that reaches itself, as in a list that contains the alias of its own anchor, is never formatted: the
  recursion of the code does not end.\<close>

theorem cyclic_alias_diverges:
  assumes "y_kind (g n) = SequenceNode" and "y_content (g n) = [a]" and "y_kind (g a) = AliasNode" and "y_alias (g a) = Some n"
  shows "formatPyValue k g n = None"
proof -
  have "formatPyValue k g n = None \<and> formatPyValue k g a = None"
    by (induction k) (simp_all add: assms Let_def)
  then show ?thesis ..
qed

definition cyclic_doc :: "nat \<Rightarrow> yaml_node" where
  "cyclic_doc n = (if n = 0 then \<lparr>y_kind = SequenceNode, y_value = [], y_content = [1], y_alias = None\<rparr>
     else \<lparr>y_kind = AliasNode, y_value = ''x'', y_content = [], y_alias = Some 0\<rparr>)"

lemma cyclic_alias_diverges_witness: "formatPyValue 1000 cyclic_doc 0 = None"
  by (rule cyclic_alias_diverges [where a = 1]) (simp_all add: cyclic_doc_def)

section \<open>The headings\<close>

definition is_heading :: "string \<Rightarrow> bool" where
  "is_heading l \<longleftrightarrow> has_prefix l ''## ''"

lemma is_heading_simps [simp]: "is_heading (heading v)" "\<not> is_heading (bullet t)" "\<not> is_heading []"
  by (simp_all add: is_heading_def heading_def bullet_def has_prefix_def)

lemma change_lines_no_heading: "change_lines k g c = Some ls \<Longrightarrow> filter is_heading ls = []"
proof -
  have "those (map (\<lambda>n. map_option bullet (f n)) ns) = Some ls \<Longrightarrow> filter is_heading ls = []" for f ns
    by (induction ns arbitrary: ls) (auto split: option.splits)
  then show "change_lines k g c = Some ls \<Longrightarrow> filter is_heading ls = []"
    by (auto simp: change_lines_def split: option.splits)
qed

lemma file_lines_heading:
  "file_lines k load key fp = Some ls \<Longrightarrow> filter is_heading ls =
     (if top_mapping (load fp) = None then [] else [heading (parseVersionFromFilename (base_name fp))])"
  by (auto simp: file_lines_def split: option.splits dest!: change_lines_no_heading)

text \<open>The headings of the notes are the versions of the files that load with a mapping at the top, each once, the last
  file first; with the files sorted by version, the newest release is on top.\<close>

theorem notes_headings:
  assumes "notes_lines k load files isRussian = Some ls"
  shows "filter is_heading ls = map (\<lambda>fp. heading (parseVersionFromFilename (base_name fp)))
     (filter (\<lambda>fp. top_mapping (load fp) \<noteq> None) (rev files))"
proof -
  have header: "filter is_heading (notes_header isRussian) = []"
    by (simp add: notes_header_def is_heading_def has_prefix_def)
  have "those (map (file_lines k load key) fs) = Some lss \<Longrightarrow> filter is_heading (concat lss) =
     map (\<lambda>fp. heading (parseVersionFromFilename (base_name fp))) (filter (\<lambda>fp. top_mapping (load fp) \<noteq> None) fs)" for key fs lss
    by (induction fs arbitrary: lss) (auto split: option.splits dest!: file_lines_heading)
  then show ?thesis using assms header by (auto simp: notes_lines_def)
qed

end
