(* ===== verification/Notes_Run.thy ===== *)
theory Notes_Run
  imports Release_Notes
begin

text \<open>
  The run of \<open>hack/generate_release_notes.go\<close>: \<open>resolveProjectRoot\<close> and \<open>run\<close>. The file system is a parameter of answers
  and writes, whose laws are those of \<open>package os\<close>; the lines the tool prints are left out. \<open>filepath.Clean\<close>,
  \<open>Dir\<close> and \<open>Join\<close> are those of Unix.
\<close>

section \<open>Paths\<close>

definition path_push :: "bool \<Rightarrow> string \<Rightarrow> string list \<Rightarrow> string list" where
  "path_push rooted p st =
     (if p = [] \<or> p = ''.'' then st
      else if p = ''..'' then (case st of [] \<Rightarrow> if rooted then [] else [''..''] | q # qs \<Rightarrow> if q = ''..'' then p # st else qs)
      else p # st)"

definition path_clean :: "string \<Rightarrow> string" where
  "path_clean path =
     (let rooted = (take 1 path = ''/'');
          parts = rev (fold (path_push rooted) (split_at (CHR ''/'') path) []);
          out = (if rooted then ''/'' else []) @ join_str ''/'' parts
      in if out = [] then ''.'' else out)"

definition path_dir :: "string \<Rightarrow> string" where
  "path_dir path = path_clean (rev (dropWhile (\<lambda>c. c \<noteq> CHR ''/'') (rev path)))"

definition path_join :: "string \<Rightarrow> string \<Rightarrow> string" where
  "path_join a b = (if a = [] \<and> b = [] then [] else if a = [] then path_clean b else path_clean (a @ ''/'' @ b))"

section \<open>The run\<close>

datatype stat_answer = StatFound | StatMissing | StatError

record 'w notes_os =
  no_getenv :: "string \<Rightarrow> string"
  no_executable :: "string result"
  no_eval_symlinks :: "string \<Rightarrow> string result"
  no_stat :: "string \<Rightarrow> 'w \<Rightarrow> stat_answer"
  no_read_dir :: "string \<Rightarrow> 'w \<Rightarrow> (string \<times> bool) list result"
  no_load :: "'w \<Rightarrow> string \<Rightarrow> ((nat \<Rightarrow> yaml_node) \<times> nat) option"
  no_remove :: "string \<Rightarrow> 'w \<Rightarrow> go_error option \<times> 'w"
  no_mkdir_all :: "string \<Rightarrow> 'w \<Rightarrow> go_error option \<times> 'w"
  no_write_file :: "string \<Rightarrow> string \<Rightarrow> 'w \<Rightarrow> go_error option \<times> 'w"

definition resolveProjectRoot :: "'w notes_os \<Rightarrow> string result" where
  "resolveProjectRoot F =
     (let root = no_getenv F ''RELEASE_NOTES_ROOT'' in
      if root \<noteq> [] then Inr root
      else (case no_executable F of
          Inl err \<Rightarrow> Inl err
        | Inr exe \<Rightarrow> (let exe = (case no_eval_symlinks F exe of Inl _ \<Rightarrow> exe | Inr resolved \<Rightarrow> resolved) in
            Inr (path_dir (path_dir exe)))))"

text \<open>The removal of the old notes, a failure of which is only printed.\<close>

fun remove_old :: "'w notes_os \<Rightarrow> string \<Rightarrow> string list \<Rightarrow> 'w \<Rightarrow> 'w" where
  "remove_old F outputDir [] w = w"
| "remove_old F outputDir (name # names) w =
     (let fp = path_join outputDir name in
      remove_old F outputDir names (if no_stat F fp w = StatFound then snd (no_remove F fp w) else w))"

text \<open>One of the two files, if there is a changelog for it. \<open>None\<close> is a formatter that has not ended.\<close>

definition write_notes ::
  "nat \<Rightarrow> 'w notes_os \<Rightarrow> string \<Rightarrow> string \<Rightarrow> string list \<Rightarrow> bool \<Rightarrow> 'w \<Rightarrow> (go_error option \<times> 'w) option" where
  "write_notes k F outputDir name files isRussian w =
     (if files = [] then Some (None, w)
      else (case generateMarkdownContent k (no_load F w) files isRussian of
          None \<Rightarrow> None
        | Some content \<Rightarrow> Some (no_write_file F (path_join outputDir name) content w)))"

definition run_notes :: "nat \<Rightarrow> 'w notes_os \<Rightarrow> 'w \<Rightarrow> (nat \<times> 'w) option" where
  "run_notes k F w =
     (case resolveProjectRoot F of Inl _ \<Rightarrow> Some (1, w)
      | Inr projectRoot \<Rightarrow>
     (let changelogDir = path_join projectRoot ''CHANGELOG''; outputDir = path_join projectRoot ''docs'' in
      if no_stat F changelogDir w = StatMissing then Some (1, w)
      else (case no_read_dir F changelogDir w of Inl _ \<Rightarrow> Some (1, w)
      | Inr entries \<Rightarrow>
     (case getChangelogFiles changelogDir entries of (enFiles, ruFiles) \<Rightarrow>
      if enFiles = [] \<and> ruFiles = [] then Some (1, w)
      else if length enFiles \<noteq> length ruFiles then Some (1, w)
      else (let w = remove_old F outputDir [''RELEASE_NOTES.md'', ''RELEASE_NOTES.ru.md''] w in
       (case no_mkdir_all F outputDir w of
          (Some _, w) \<Rightarrow> Some (1, w)
        | (None, w) \<Rightarrow>
       (case write_notes k F outputDir ''RELEASE_NOTES.md'' enFiles False w of
          None \<Rightarrow> None
        | Some (Some _, w) \<Rightarrow> Some (1, w)
        | Some (None, w) \<Rightarrow>
       (case write_notes k F outputDir ''RELEASE_NOTES.ru.md'' ruFiles True w of
          None \<Rightarrow> None
        | Some (Some _, w) \<Rightarrow> Some (1, w)
        | Some (None, w) \<Rightarrow> Some (0, w)))))))))"

section \<open>What is written\<close>

text \<open>\<open>fl w\<close> is the content of the files of the world \<open>w\<close>. A changelog is read from its file alone; making a directory changes
  no file, and removing or writing one changes no other.\<close>

definition os_law :: "'w notes_os \<Rightarrow> ('w \<Rightarrow> string \<Rightarrow> string option) \<Rightarrow> bool" where
  "os_law F fl \<longleftrightarrow> (\<forall>v w p. fl v p = fl w p \<longrightarrow> no_load F v p = no_load F w p)
     \<and> (\<forall>p w q. q \<noteq> p \<longrightarrow> fl (snd (no_remove F p w)) q = fl w q)
     \<and> (\<forall>p w q. fl (snd (no_mkdir_all F p w)) q = fl w q)
     \<and> (\<forall>p c w q. q \<noteq> p \<longrightarrow> fl (snd (no_write_file F p c w)) q = fl w q)
     \<and> (\<forall>p c w. fst (no_write_file F p c w) = None \<longrightarrow> fl (snd (no_write_file F p c w)) p = Some c)"

lemma os_load:
  assumes "os_law F fl" and "fl v p = fl w p"
  shows "no_load F v p = no_load F w p"
  using assms(1) [unfolded os_law_def, THEN conjunct1, rule_format, OF assms(2)] .

definition notes_at :: "'w notes_os \<Rightarrow> string \<Rightarrow> bool \<Rightarrow> string" where
  "notes_at F root isRussian = path_join (path_join root ''docs'') (if isRussian then ''RELEASE_NOTES.ru.md'' else ''RELEASE_NOTES.md'')"

text \<open>A path that was joined ends with its last element.\<close>

lemma split_at_nonempty: "split_at c s \<noteq> []"
  by (induction c s rule: split_at.induct) (auto split: list.splits)

lemma split_at_join: "c \<notin> set b \<Longrightarrow> split_at c (a @ c # b) = split_at c a @ [b]"
proof (induction a)
  case Nil
  have "split_at c b = [b]" using Nil by (induction b) (auto split: list.splits)
  then show ?case by simp
next
  case (Cons x a)
  then show ?case using split_at_nonempty [of c a] by (auto split: list.splits simp: append_eq_Cons_conv)
qed

lemma join_str_ends: "\<exists>z. join_str d (xs @ [y]) = z @ y"
proof (induction xs)
  case (Cons x xs)
  then obtain z where "join_str d (xs @ [y]) = z @ y" by blast
  then show ?case by (cases "xs @ [y]") auto
qed simp

definition plain_name :: "string \<Rightarrow> bool" where
  "plain_name b \<longleftrightarrow> b \<noteq> [] \<and> b \<noteq> ''.'' \<and> b \<noteq> ''..'' \<and> CHR ''/'' \<notin> set b"

lemma path_join_ends:
  assumes "plain_name b"
  obtains z where "path_join a b = z @ b"
proof -
  have clean: "\<exists>z. path_clean (x @ ''/'' @ b) = z @ b" for x
  proof -
    let ?r = "take 1 (x @ ''/'' @ b) = ''/''"
    let ?st = "fold (path_push ?r) (split_at (CHR ''/'') x) []"
    have "split_at (CHR ''/'') (x @ ''/'' @ b) = split_at (CHR ''/'') x @ [b]"
      using split_at_join [of "CHR ''/''" b x] assms by (simp add: plain_name_def)
    then have parts: "rev (fold (path_push ?r) (split_at (CHR ''/'') (x @ ''/'' @ b)) []) = rev ?st @ [b]"
      using assms by (simp add: path_push_def plain_name_def)
    obtain z where "join_str ''/'' (rev ?st @ [b]) = z @ b" using join_str_ends by blast
    then show ?thesis
      unfolding path_clean_def Let_def parts using assms by (auto simp: plain_name_def)
  qed
  have "\<exists>z. path_clean b = z @ b"
  proof -
    have "split_at (CHR ''/'') b = [b]" using split_at_join [of "CHR ''/''" b "[]"] assms by (simp add: plain_name_def)
    then show ?thesis using assms by (auto simp: path_clean_def plain_name_def path_push_def Let_def)
  qed
  then have "\<exists>z. path_join a b = z @ b" using clean [of a] assms by (simp add: path_join_def plain_name_def)
  then show ?thesis using that by blast
qed

text \<open>Where the notes go: to two files, neither of them a changelog.\<close>

lemma notes_names: "plain_name ''RELEASE_NOTES.ru.md''" "plain_name ''RELEASE_NOTES.md''"
  by (simp_all add: plain_name_def)

lemma notes_at_ends: obtains z where "notes_at F root ru = z @ (if ru then ''RELEASE_NOTES.ru.md'' else ''RELEASE_NOTES.md'')"
proof (cases ru)
  case True
  then show ?thesis using path_join_ends [OF notes_names(1), of "path_join root ''docs''"] that by (auto simp: notes_at_def)
next
  case False
  then show ?thesis using path_join_ends [OF notes_names(2), of "path_join root ''docs''"] that by (auto simp: notes_at_def)
qed

lemma notes_apart: "notes_at F root True \<noteq> notes_at F root False"
proof -
  obtain z where "notes_at F root True = z @ ''RELEASE_NOTES.ru.md''" using notes_at_ends [of F root True] by auto
  moreover obtain y where "notes_at F root False = y @ ''RELEASE_NOTES.md''" using notes_at_ends [of F root False] by auto
  ultimately show ?thesis by (auto dest: arg_cong [where f = "\<lambda>s. take 6 (rev s)"])
qed

lemma notes_not_changelog: "has_suffix p ''.yml'' \<Longrightarrow> p \<noteq> notes_at F root ru"
  by (rule notes_at_ends [of F root ru]) (auto simp: has_suffix_def has_prefix_def split: if_splits)

lemma set_insert_stable: "set (insert_stable lt x ys) = insert x (set ys)"
  by (induction ys) auto

lemma set_sortFilesByVersion: "set (sortFilesByVersion fs) = set fs"
proof -
  have "set (foldr (insert_stable lt) fs []) = set fs" for lt :: "string \<Rightarrow> string \<Rightarrow> bool"
    by (induction fs) (simp_all add: set_insert_stable)
  then show ?thesis by (simp add: sortFilesByVersion_def)
qed

lemma has_suffix_ex: "has_suffix s p \<longleftrightarrow> (\<exists>z. s = z @ p)"
proof
  assume "has_suffix s p"
  then have "rev s = rev p @ drop (length p) (rev s)"
    by (metis append_take_drop_id has_prefix_def has_suffix_def length_rev)
  then show "\<exists>z. s = z @ p" by (metis rev_append rev_rev_ident)
qed (auto simp: has_suffix_def has_prefix_def)

lemma ru_suffix: "has_suffix n ''.ru.yml'' \<Longrightarrow> has_suffix n ''.yml''"
proof -
  assume "has_suffix n ''.ru.yml''"
  then obtain z where "n = (z @ ''.ru'') @ ''.yml''" by (auto simp: has_suffix_ex)
  then show "has_suffix n ''.yml''" unfolding has_suffix_ex by blast
qed

lemma suffix_joined: "has_suffix n p \<Longrightarrow> has_suffix (d @ c # n) p"
  by (metis append_Cons append_assoc has_suffix_ex)

lemma changelog_suffix:
  assumes "getChangelogFiles dir entries = (en, ru)" and "p \<in> set en \<union> set ru"
  shows "has_suffix p ''.yml''"
  using assms by (auto simp: getChangelogFiles_def set_sortFilesByVersion Let_def intro!: suffix_joined dest: ru_suffix)

lemma generate_cong:
  assumes "\<And>p. p \<in> set files \<Longrightarrow> f p = g p"
  shows "generateMarkdownContent k f files ru = generateMarkdownContent k g files ru"
proof -
  have "map (file_lines k f key) (rev files) = map (file_lines k g key) (rev files)" for key
    using assms by (auto simp: file_lines_def)
  then show ?thesis unfolding generateMarkdownContent_def notes_lines_def by presburger
qed

lemma remove_old_others:
  assumes "os_law F fl" and "q \<notin> path_join out ` set names"
  shows "fl (remove_old F out names w) q = fl w q"
  using assms(2)
proof (induction names arbitrary: w)
  case (Cons n names)
  have "q \<noteq> path_join out n" using Cons(2) by auto
  then have "fl (snd (no_remove F (path_join out n) w)) q = fl w q" using assms(1) unfolding os_law_def by blast
  then show ?case using Cons by (simp add: Let_def)
qed simp

lemma write_notes_done:
  assumes law: "os_law F fl" and "write_notes k F out name files ru w = Some (None, w')" and "files \<noteq> []"
  obtains c where "generateMarkdownContent k (no_load F w) files ru = Some c" and "fl w' (path_join out name) = Some c"
    and "\<And>q. q \<noteq> path_join out name \<Longrightarrow> fl w' q = fl w q"
proof -
  obtain c where c: "generateMarkdownContent k (no_load F w) files ru = Some c" "no_write_file F (path_join out name) c w = (None, w')"
    using assms(2,3) by (auto simp: write_notes_def split: option.splits)
  show ?thesis
    by (rule that [OF c(1)]) (use law c(2) in \<open>auto simp: os_law_def dest: spec [where x = "path_join out name"]\<close>, (metis fst_conv snd_conv)+)
qed

lemma run_notes_steps:
  assumes "run_notes k F w = Some (0, w')"
  obtains root entries en ru w1 w2 where "resolveProjectRoot F = Inr root" "no_read_dir F (path_join root ''CHANGELOG'') w = Inr entries"
    "getChangelogFiles (path_join root ''CHANGELOG'') entries = (en, ru)" "length en = length ru" "ru \<noteq> []"
    "no_mkdir_all F (path_join root ''docs'') (remove_old F (path_join root ''docs'') [''RELEASE_NOTES.md'', ''RELEASE_NOTES.ru.md''] w) = (None, w1)"
    "write_notes k F (path_join root ''docs'') ''RELEASE_NOTES.md'' en False w1 = Some (None, w2)"
    "write_notes k F (path_join root ''docs'') ''RELEASE_NOTES.ru.md'' ru True w2 = Some (None, w')"
proof -
  note run = assms [unfolded run_notes_def Let_def]
  obtain root where root: "resolveProjectRoot F = Inr root" using run by (cases "resolveProjectRoot F") auto
  obtain entries where entries: "no_read_dir F (path_join root ''CHANGELOG'') w = Inr entries"
    using run by (cases "no_read_dir F (path_join root ''CHANGELOG'') w") (auto simp: root split: if_splits)
  obtain en ru where files: "getChangelogFiles (path_join root ''CHANGELOG'') entries = (en, ru)" by (rule prod.exhaust)
  obtain me w1 where made: "no_mkdir_all F (path_join root ''docs'') (remove_old F (path_join root ''docs'') [''RELEASE_NOTES.md'', ''RELEASE_NOTES.ru.md''] w) = (me, w1)"
    by (rule prod.exhaust)
  note rest = run [unfolded root sum.case entries files prod.case made]
  have none: "me = None" and len: "length en = length ru" and ne: "ru \<noteq> []"
    using rest by (auto split: if_splits option.splits)
  obtain w2 where one: "write_notes k F (path_join root ''docs'') ''RELEASE_NOTES.md'' en False w1 = Some (None, w2)"
    using rest none by (auto split: if_splits option.splits prod.splits)
  have two: "write_notes k F (path_join root ''docs'') ''RELEASE_NOTES.ru.md'' ru True w2 = Some (None, w')"
    using rest none one by (auto split: if_splits option.splits prod.splits)
  show ?thesis using that [OF root entries files len ne _ one two] made none by metis
qed

text \<open>C40: A run that succeeds has replaced both notes by those of the changelogs it found, as many in one language as in the other, and
  has changed no other file.\<close>

theorem notes_run_writes:
  assumes law: "os_law F fl" and run: "run_notes k F w = Some (0, w')"
  shows "\<exists>root entries en ru. resolveProjectRoot F = Inr root \<and> no_read_dir F (path_join root ''CHANGELOG'') w = Inr entries
    \<and> getChangelogFiles (path_join root ''CHANGELOG'') entries = (en, ru) \<and> length en = length ru \<and> en \<noteq> []
    \<and> (\<forall>r. fl w' (notes_at F root r) = generateMarkdownContent k (no_load F w) (if r then ru else en) r \<and> fl w' (notes_at F root r) \<noteq> None)
    \<and> (\<forall>p. p \<notin> range (notes_at F root) \<longrightarrow> fl w' p = fl w p)"
proof -
  let ?names = "[''RELEASE_NOTES.md'', ''RELEASE_NOTES.ru.md'']"
  obtain root entries en ru w1 w2 where found: "resolveProjectRoot F = Inr root" "no_read_dir F (path_join root ''CHANGELOG'') w = Inr entries"
      "getChangelogFiles (path_join root ''CHANGELOG'') entries = (en, ru)" "length en = length ru" "ru \<noteq> []"
    and steps: "no_mkdir_all F (path_join root ''docs'') (remove_old F (path_join root ''docs'') ?names w) = (None, w1)"
      "write_notes k F (path_join root ''docs'') ''RELEASE_NOTES.md'' en False w1 = Some (None, w2)"
      "write_notes k F (path_join root ''docs'') ''RELEASE_NOTES.ru.md'' ru True w2 = Some (None, w')"
    by (rule run_notes_steps [OF run])
  let ?out = "path_join root ''docs''" and ?at = "notes_at F root"
  have at: "path_join ?out ''RELEASE_NOTES.md'' = ?at False" "path_join ?out ''RELEASE_NOTES.ru.md'' = ?at True"
    by (simp_all add: notes_at_def)
  have en: "en \<noteq> []" using found(4,5) by auto
  have w1: "fl w1 q = fl w q" if "q \<notin> range ?at" for q
  proof -
    have "fl (snd (no_mkdir_all F p v)) r = fl v r" for p v r using law unfolding os_law_def by blast
    then have "fl w1 q = fl (remove_old F ?out ?names w) q" using steps(1) by (metis snd_conv)
    also have "\<dots> = fl w q" by (rule remove_old_others [OF law]) (use that at in \<open>auto simp: range_eqI\<close>)
    finally show ?thesis .
  qed
  obtain c where c: "generateMarkdownContent k (no_load F w1) en False = Some c" "fl w2 (?at False) = Some c" "\<And>q. q \<noteq> ?at False \<Longrightarrow> fl w2 q = fl w1 q"
    using write_notes_done [OF law steps(2) en] unfolding at by metis
  obtain d where d: "generateMarkdownContent k (no_load F w2) ru True = Some d" "fl w' (?at True) = Some d" "\<And>q. q \<noteq> ?at True \<Longrightarrow> fl w' q = fl w2 q"
    using write_notes_done [OF law steps(3) found(5)] unfolding at by metis
  have log: "p \<notin> range ?at" if "p \<in> set en \<union> set ru" for p
    using notes_not_changelog changelog_suffix [OF found(3) that] by blast
  have load1: "no_load F w1 p = no_load F w p" if "p \<in> set en" for p
    by (rule os_load [OF law]) (rule w1 [OF log], use that in blast)
  have load2: "no_load F w2 p = no_load F w p" if "p \<in> set ru" for p
  proof -
    have "p \<notin> range ?at" using log that by blast
    then have "fl w2 p = fl w p" using w1 c(3) by (metis rangeI)
    then show ?thesis by (rule os_load [OF law])
  qed
  have "fl w' (?at False) = Some c" using d(3) c(2) notes_apart by metis
  then have "fl w' (?at r) = generateMarkdownContent k (no_load F w) (if r then ru else en) r \<and> fl w' (?at r) \<noteq> None" for r
    using c(1) d(1,2) generate_cong [OF load1] generate_cong [OF load2] by (cases r) auto
  moreover have "fl w' p = fl w p" if "p \<notin> range ?at" for p
    using that w1 c(3) d(3) by (metis rangeI)
  ultimately show ?thesis using found en by blast
qed

text \<open>A repository with one release, in both languages. Its files are all it has, and every document is the list of one change.\<close>

definition one_change :: "nat \<Rightarrow> yaml_node" where
  "one_change n = (if n = 0 then \<lparr>y_kind = DocumentNode, y_value = [], y_content = [1], y_alias = None\<rparr>
     else if n = 1 then \<lparr>y_kind = MappingNode, y_value = [], y_content = [2, 3], y_alias = None\<rparr>
     else if n = 2 then \<lparr>y_kind = ScalarNode, y_value = ''Changes'', y_content = [], y_alias = None\<rparr>
     else \<lparr>y_kind = ScalarNode, y_value = ''Buckets'', y_content = [], y_alias = None\<rparr>)"

definition small_os :: "(string \<Rightarrow> string option) notes_os" where
  "small_os = \<lparr>no_getenv = (\<lambda>_. ''/repo''), no_executable = Inl (new_err ''none''), no_eval_symlinks = Inr, no_stat = (\<lambda>p w. StatFound),
     no_read_dir = (\<lambda>p w. Inr [(''v0.1.0.yml'', False), (''v0.1.0.ru.yml'', False)]),
     no_load = (\<lambda>w p. if w p = None then None else Some (one_change, 0)),
     no_remove = (\<lambda>p w. (None, w(p := None))), no_mkdir_all = (\<lambda>p w. (None, w)), no_write_file = (\<lambda>p c w. (None, w(p := Some c)))\<rparr>"

lemma small_os_law: "os_law small_os (\<lambda>w. w)"
  by (auto simp: os_law_def small_os_def)

lemma small_run: "map_option fst (run_notes 5 small_os (\<lambda>p. Some ''yaml'')) = Some 0"
  by code_simp

lemma notes_run_writes_witness:
  "\<exists>w' en. run_notes 5 small_os (\<lambda>p. Some ''yaml'') = Some (0, w') \<and> en \<noteq> []
     \<and> w' (notes_at small_os ''/repo'' False) = generateMarkdownContent 5 (no_load small_os (\<lambda>p. Some ''yaml'')) en False"
proof -
  obtain w' where w': "run_notes 5 small_os (\<lambda>p. Some ''yaml'') = Some (0, w')" using small_run by auto
  have root: "resolveProjectRoot small_os = Inr ''/repo''" by (simp add: resolveProjectRoot_def small_os_def)
  show ?thesis using notes_run_writes [OF small_os_law w'] w' unfolding root by auto
qed

end
