(* ===== verification/Spec2Isabelle.thy ===== *)
theory Spec2Isabelle
  imports Served Startup Webhook_Main Garage_Identity Seaweed_Store Notes_Run
begin

text \<open>
  The sds-object module provisions object storage in Kubernetes. Users create object stores, buckets, bucket claims,
  bucket accesses and bucket claim policies; a controller drives each of them to what its specification asks for; a
  driver per backend makes the storage: Garage for the System and Lightweight profiles, SeaweedFS for Full, Ceph RGW for
  Heavy. Admission webhooks reject what must not be stored, and a hook cleans up when the module is deleted.

  This development models that program from its sources and proves what makes it correct. It is a shallow embedding: Go
  structs are records, enumerations are datatypes, functions are HOL functions, and everything that talks to the outside is a
  computation in one effect monad. Paths are relative to \<open>src/images/controller/internal\<close> unless they start with \<open>src\<close>.

  \<^bold>\<open>How effects are modelled.\<close> A computation \<open>('w, 'a) go\<close> (theory \<open>Effects\<close>) runs over an opaque world and a trace. Every
  call that leaves the repository, a read or write of the API server, a request to the Garage admin API, to the filer of
  SeaweedFS or over S3, a command in a pod, a call of a driver, is a function of the environment record, and leaves
  an event with its answer. Nothing is assumed of an answer: it may be an error, stale, or different the next time, which also
  covers whatever other writers do in between. A safety property is \<open>justified P t\<close>: each event of the trace satisfies \<open>P\<close> with
  the events before it. Such properties hold for every environment and every world. The rules \<open>wp_rules\<close>,
  \<open>emits_rules\<close> and \<open>framed_rules\<close> take a computation apart along its code; \<open>framed\<close> says that a computation does not depend on
  the trace so far, which makes runs compose.

  \<^bold>\<open>The theories and what they model.\<close>

    \<^item> \<open>Prelude\<close>, \<open>Go_Lib\<close>, \<open>Go_Json\<close>: errors, the parts of the Go library that the code uses (number and string conversion,
      fixed-width integers, SHA-256, quoting), and the syntax of \<open>encoding/json\<close>.
    \<^item> \<open>Api_Types\<close>: the custom resources of \<open>src/api/v1alpha1\<close>, and the core objects as far as they are used.
    \<^item> \<open>Effects\<close>: the monad, the Kubernetes client, finalizers, and the laws of the parameters.
    \<^item> \<open>Config\<close>: \<open>pkg/config\<close>, \<open>pkg/logger\<close>. \<open>config_sane\<close>: workers, domain and intervals are usable; \<open>config_interval_overflow\<close>: until the
      seconds no longer fit.
    \<^item> \<open>Status_Fsm\<close>: \<open>controller/shared.go\<close>, the conditions of a reconcile. The locale \<open>stage_fsm\<close> has one interpretation
      for each reconciler's order of stages; its lemmas say that phase and Ready condition agree whenever every stage is settled.
    \<^item> \<open>Policy\<close>: \<open>controller/policy.go\<close> and the policy controller: who may use a bucket.
    \<^item> \<open>Driver\<close>: \<open>backend/driver.go\<close>, \<open>stub.go\<close>, \<open>pvc.go\<close>. A driver is a record of operations. The locale
      \<open>driver_contract\<close> is what each driver promises of its answers (the stub and the three backends interpret it), \<open>driver_registry\<close>
      the contract of the registry, \<open>contract_registry\<close> both.
    \<^item> \<open>Reconcile\<close>, \<open>Store_Controller\<close>, \<open>Bucket_Controller\<close>, \<open>Claim_Name\<close>, \<open>Claim_Controller\<close>, \<open>Access_Controller\<close>: the
      reconcilers, \<open>controller/*_controller.go\<close>. Each theory defines the whole \<open>Reconcile\<close>, then for every kind of call what
      justifies it (\<open>..._event_ok\<close>), and shows that every pass is justified (\<open>..._pass\<close>): the finalizer protocol, when a
      driver may be asked for what, and that a status which says Ready has a driver's answer of the same pass behind it. What may
      revoke an access is split into what is intended (\<open>revocation_intended\<close>) and what the code does not tell from it (\<open>bound_unread\<close>).
    \<^item> \<open>Garage_Resources\<close>, \<open>Garage_Workload\<close>, \<open>Garage_Admin\<close>, \<open>Garage_Layout\<close>, \<open>Garage_Placement\<close>, \<open>Garage_Pool\<close>,
      \<open>Garage_Identity\<close>, \<open>Garage_Access\<close>, \<open>Garage_Driver\<close>: \<open>backend/garage\<close>. The pinned replication factor, the mesh and its layout, the
      volumes of the System profile, the migration of replicas (a step relation, whatever node the scheduler picks: it keeps a copy,
      and it comes to rest as far as the picks honour the soft anti-affinity), the teardown for a recreate, node identities, buckets and keys, and \<open>EnsureCluster\<close> over all of it.
    \<^item> \<open>Seaweed_Resources\<close>, \<open>Seaweed_Postgres\<close>, \<open>Seaweed_Wire\<close>, \<open>Seaweed_Iam\<close>, \<open>Seaweed_Access\<close>, \<open>Seaweed_Driver\<close>:
      \<open>backend/seaweedfs\<close>. The Postgres resource is shared with another module and is overlaid; quota and identities are written
      over a gRPC API whose messages the code builds by hand. The locale \<open>identity_store\<close> is what an access needs of the identity
      files, interpreted by the filer client; \<open>Seaweed_Store\<close> refines those files to a map from names to identities.
    \<^item> \<open>Ceph_Policy\<close>, \<open>Ceph_Rgw\<close>: \<open>backend/cephrgw\<close>. Bucket policy documents as JSON, and the Rook resources.
    \<^item> \<open>S3_Util\<close>: \<open>backend/s3util\<close>, the S3 operations the drivers share.
    \<^item> \<open>Controller_Main\<close>: \<open>src/images/controller/cmd/main.go\<close>. The three drivers in one registry and the five reconcilers over it;
      \<open>running\<close> is every state that passes in any order can reach. Its theorems compose the others: behind a store or a bucket
      reported Ready and behind a credentials Secret is an answer of the driver recorded earlier in the pass, and \<open>backend_did\<close> says of such
      an answer that the driver gives it only in runs that saw the backend serve, made the bucket, granted the key.
    \<^item> \<open>Watches\<close>: \<open>Add...ReconcilerToManager\<close> of the five controllers, with their predicates: which change of which object puts
      which requests into their queues. A change of a policy wakes exactly the policy, the claims of its bucket and the accesses
      through them (\<open>policy_change_wakes\<close>), and status writes that wake each other form chains of bounded length (\<open>status_chain_bounded\<close>).
    \<^item> \<open>Progress\<close>: what a pass must do, beside what it may do. An access whose authorization was read is revoked at the driver
      or asks it for a key (\<open>access_verdict_enforced\<close>), and a pass over a claim or an access is followed by another (\<open>authorization_rechecked\<close>).
    \<^item> \<open>Served\<close>: the reconcilers on an honest API server, a world of tables where a read gives what was written last. A namespace that
      asks for a bucket and a key gets them in one pass each over claim, bucket and access (\<open>tenant_served\<close>); a claim whose name is
      too long for a label never does (\<open>long_claim_never_bound\<close>).
    \<^item> \<open>Startup\<close>: the whole \<open>main\<close> of the controller, \<open>pkg/kubutils\<close>, the scheme of \<open>src/api/v1alpha1/register.go\<close>, and the configuration of
      the certificate hook. A controller that serves has every reconciler, probe and type (\<open>controller_starts_whole\<close>).
    \<^item> \<open>Webhooks\<close>: \<open>src/images/webhooks/handlers\<close>. The validators, the state machine of admitted buckets, and the agreement with
      the decision of the controller. \<open>Webhook_Main\<close>: \<open>src/images/webhooks/cmd/main.go\<close>, which validator is served under
      which path, and that a server which starts serves them all (\<open>webhook_serves\<close>).
    \<^item> \<open>Uninstall_Hook\<close>: \<open>src/hooks/go\<close>, the hook that removes finalizers after the module was deleted.
    \<^item> \<open>Release_Notes\<close>: \<open>src/hack/generate_release_notes.go\<close>: the order of versions, quoting and the document.
      \<open>Notes_Run\<close>: its run over a file system, which replaces both notes and changes no other file (\<open>notes_run_writes\<close>).

  \<^bold>\<open>Parameters and what is required of them.\<close> Laws appear as hypotheses, by name, only where a theorem needs them, and each
  has an instance in a witness. \<open>retry_law\<close>: \<open>retry.RetryOnConflict\<close> runs its function again on conflicts, a finite number of
  times. \<open>cond_law\<close>: \<open>apimeta.SetStatusCondition\<close> and \<open>FindStatusCondition\<close> store and find a condition by its type.
  \<open>wire_law\<close>: \<open>protowire\<close> reads back the fields it appends. \<open>filer_law\<close>: a filer keeps the content it is given; it
  creates what is not there without an error in its answer, updates what is with any answer, and may say in either way that a file to be deleted is not there.
  \<open>os_law\<close>: a file has what was written to it, and no other file changes. \<open>labels_checked\<close>: the API server refuses label values of more than 63
  characters. \<open>willing\<close>, \<open>owning\<close> and \<open>keeps_types\<close>: a driver that does what it is asked, owner references and schemes that only add. Regular
  expressions, quantities, owner references, random bytes, the clock, base64, HTTP, gRPC, the S3 client and the YAML parser are
  parameters without laws. Strings are bytes; where the code counts runes or decodes JSON the text is taken to be valid UTF-8.

  \<^bold>\<open>Fuel.\<close> The JSON parser runs with twice the length of the text plus two, since every step consumes a character or is
  followed by one that does, and the round trips show it to be enough for every printed value. \<open>last_field\<close> runs with the length of the
  message, as every field takes at least one byte. \<open>formatPyValue\<close> has the fuel as an argument: \<open>notes_end\<close> shows that the depth of the
  documents is enough, and \<open>cyclic_alias_diverges\<close> that nothing is when a document contains itself. All other loops are
  structural, or have a measure.

  \<^bold>\<open>Defects.\<close> Where the code does not do what its comments promise, the theory proves what it does: \<open>access_orphans_key\<close>, \<open>access_revoked_on_read_error\<close>, \<open>placement_may_loop\<close>,
  \<open>access_pair_mismatch\<close>, \<open>garage_rotation_leaks_key\<close>, \<open>garage_downgrade_ineffective\<close>, \<open>ceph_owner_keys_handed_out\<close>,
  \<open>policy_condition_dropped\<close>, \<open>reserved_name_squatting\<close>, \<open>seaweed_quota_not_cleared\<close>, \<open>uninstall_blind_success\<close>,
  \<open>config_interval_overflow\<close>, \<open>long_claim_never_bound\<close>, \<open>cyclic_alias_diverges\<close>, \<open>py_quote_line_break\<close>, \<open>log_level_words_rejected\<close>.

  \<^bold>\<open>Not modelled.\<close> The inside of the manager (queues, workers, caches, leader election): a pass starts in any state and
  its reads answer anything, so no schedule of it is excluded. The registration with the module SDK, the parsing of flags and of admission
  requests, the log lines, the timeout of contexts (a call that is cut off is an error answer), and generated code: a deep copy of a
  value is the value. Fields of Kubernetes objects that the code neither reads nor sets are left out.
\<close>

end
